(* ===== verification/Prelude.thy ===== *)
theory Prelude
  imports Complex_Main "HOL-Library.Char_ord" "HOL-Library.List_Lexorder"
    "HOL-Library.Product_Lexorder"
begin

text \<open>
  Shared vocabulary of the development.

  \<^item> \<^bold>\<open>Python text.\<close> A Python \<open>str\<close> is a sequence of code points. Where the code only
    compares, stores or concatenates a string it is an Isabelle \<open>string\<close>; where the
    code looks at code points beyond one byte (file-name escaping) it is a list of code
    points, \<open>codepoints\<close>.
  \<^item> \<^bold>\<open>JSON values\<close>, as \<open>json.loads\<close> returns them.
  \<^item> \<^bold>\<open>Effects.\<close> Code that reads or changes the outside world (files, Discord, the owner)
    is a function from a world to a result and a new world; a raised exception is the
    left injection of the result. The combinators below are Python's sequencing,
    \<open>raise\<close>, \<open>try ... except\<close> and \<open>for\<close>; \<open>hoare\<close> is the partial-correctness triple with one
    postcondition for normal return and one for exceptions, and the collection \<open>wp\<close> holds
    its rules.
\<close>

named_theorems wp \<open>rules for Hoare triples over effectful code\<close>
named_theorems io_defs \<open>definitions of the effect combinators\<close>

section \<open>Text\<close>

type_synonym codepoints = "nat list"

definition of_ascii :: "string \<Rightarrow> codepoints" where
  "of_ascii s = map of_char s"

lemma of_ascii_inject [simp]: "of_ascii s = of_ascii t \<longleftrightarrow> s = t"
  by (auto simp: of_ascii_def inj_map_eq_map inj_on_def)

text \<open>
  \<open>str.isdigit\<close> on one-byte characters: the decimal digits and the three superscript digits of
  Latin-1; it is false for the empty string.
\<close>

definition digit_char :: "char \<Rightarrow> bool" where
  "digit_char c \<longleftrightarrow> (let n = of_char c :: nat in 48 \<le> n \<and> n \<le> 57 \<or> n = 178 \<or> n = 179 \<or> n = 185)"

definition py_isdigit :: "string \<Rightarrow> bool" where
  "py_isdigit s \<longleftrightarrow> s \<noteq> [] \<and> (\<forall>c \<in> set s. digit_char c)"

text \<open>Python's \<open>needle in text\<close>.\<close>

fun starts_with :: "'a list \<Rightarrow> 'a list \<Rightarrow> bool" where
  "starts_with [] t = True"
| "starts_with (c # p) [] = False"
| "starts_with (c # p) (d # t) = (c = d \<and> starts_with p t)"

fun py_in :: "'a list \<Rightarrow> 'a list \<Rightarrow> bool" where
  "py_in needle [] = (needle = [])"
| "py_in needle (c # t) = (starts_with needle (c # t) \<or> py_in needle t)"

text \<open>\<open>str.split()\<close> without a separator, on one-byte characters.\<close>

definition py_space :: "char \<Rightarrow> bool" where
  "py_space c \<longleftrightarrow> (let n = of_char c :: nat in
     9 \<le> n \<and> n \<le> 13 \<or> 28 \<le> n \<and> n \<le> 32 \<or> n = 133 \<or> n = 160)"

fun py_words :: "string \<Rightarrow> string \<Rightarrow> string list" where
  "py_words acc [] = (if acc = [] then [] else [rev acc])"
| "py_words acc (c # cs) =
     (if py_space c then (if acc = [] then py_words [] cs else rev acc # py_words [] cs)
      else py_words (c # acc) cs)"

fun py_unwords :: "string list \<Rightarrow> string" where
  "py_unwords [] = []"
| "py_unwords [w] = w"
| "py_unwords (w # ws) = w @ '' '' @ py_unwords ws"

definition fold_space :: "string \<Rightarrow> string" where
  "fold_space s = py_unwords (py_words [] s)"

text \<open>\<open>str.strip\<close>, \<open>lstrip\<close> and \<open>rstrip\<close> with a set of characters.\<close>

definition lstrip_by :: "('a \<Rightarrow> bool) \<Rightarrow> 'a list \<Rightarrow> 'a list" where
  "lstrip_by p s = dropWhile p s"

definition rstrip_by :: "('a \<Rightarrow> bool) \<Rightarrow> 'a list \<Rightarrow> 'a list" where
  "rstrip_by p s = rev (dropWhile p (rev s))"

definition strip_by :: "('a \<Rightarrow> bool) \<Rightarrow> 'a list \<Rightarrow> 'a list" where
  "strip_by p s = rstrip_by p (lstrip_by p s)"

text \<open>Lower case of the ASCII letters.\<close>

definition lower_char :: "char \<Rightarrow> char" where
  "lower_char c = (let n = of_char c :: nat in if 65 \<le> n \<and> n \<le> 90 then char_of (n + 32) else c)"

definition lower :: "string \<Rightarrow> string" where
  "lower s = map lower_char s"

text \<open>Decimal digits and the value of a digit string.\<close>

definition dec_char :: "char \<Rightarrow> bool" where
  "dec_char c \<longleftrightarrow> (let n = of_char c :: nat in 48 \<le> n \<and> n \<le> 57)"

definition dec_value :: "string \<Rightarrow> int" where
  "dec_value s = foldl (\<lambda>acc c. 10 * acc + (of_char c - 48)) 0 s"

text \<open>\<open>str\<close> of an integer.\<close>

definition str_digit :: "nat \<Rightarrow> char" where
  "str_digit n = char_of (48 + n)"

fun str_nat :: "nat \<Rightarrow> string" where
  "str_nat n = (if n < 10 then [str_digit n] else str_nat (n div 10) @ [str_digit (n mod 10)])"

declare str_nat.simps [simp del]

definition str_int :: "int \<Rightarrow> string" where
  "str_int i = (if i < 0 then CHR ''-'' # str_nat (nat (- i)) else str_nat (nat i))"

section \<open>JSON\<close>

datatype json =
    JNull
  | JBool bool
  | JInt int
  | JFloat rat
  | JStr string
  | JArr "json list"
  | JObj "(string \<times> json) list"

type_synonym jobj = "(string \<times> json) list"

text \<open>\<open>d.get(k)\<close> and \<open>d.get(k, default)\<close> on a decoded object.\<close>

definition jget :: "jobj \<Rightarrow> string \<Rightarrow> json option" where
  "jget d k = map_of d k"

definition jget_or :: "jobj \<Rightarrow> string \<Rightarrow> json \<Rightarrow> json" where
  "jget_or d k v = (case map_of d k of None \<Rightarrow> v | Some x \<Rightarrow> x)"

text \<open>\<open>bool(v)\<close> of a JSON value.\<close>

definition truthy :: "json \<Rightarrow> bool" where
  "truthy v = (case v of JNull \<Rightarrow> False | JBool b \<Rightarrow> b | JInt n \<Rightarrow> n \<noteq> 0 | JFloat q \<Rightarrow> q \<noteq> 0
     | JStr s \<Rightarrow> s \<noteq> [] | JArr xs \<Rightarrow> xs \<noteq> [] | JObj d \<Rightarrow> d \<noteq> [])"

text \<open>A dictionary assignment \<open>d[k] = v\<close> keeps the position of an existing key.\<close>

fun dict_set :: "'k \<Rightarrow> 'v \<Rightarrow> ('k \<times> 'v) list \<Rightarrow> ('k \<times> 'v) list" where
  "dict_set k v [] = [(k, v)]"
| "dict_set k v ((k', v') # d) = (if k = k' then (k, v) # d else (k', v') # dict_set k v d)"

lemma map_of_dict_set [simp]: "map_of (dict_set k v d) = (map_of d)(k \<mapsto> v)"
  by (induction k v d rule: dict_set.induct) (auto simp: fun_eq_iff)

lemma set_keys_dict_set [simp]: "fst ` set (dict_set k v d) = insert k (fst ` set d)"
  by (induction k v d rule: dict_set.induct) auto

lemma distinct_dict_set [simp]:
  "distinct (map fst d) \<Longrightarrow> distinct (map fst (dict_set k v d))"
proof (induction k v d rule: dict_set.induct)
  case (2 k v k' v' d)
  then show ?case using set_keys_dict_set[of k v d] by auto
qed simp

lemma dict_set_fresh:
  "k \<notin> fst ` set d \<Longrightarrow> dict_set k v d = d @ [(k, v)]"
  by (induction k v d rule: dict_set.induct) auto

section \<open>Exceptions and effects\<close>

text \<open>
  The exception classes the modelled code raises or catches by name; \<open>OtherError\<close> stands for
  every class none of the handlers names. \<open>ApprovalSurfaceError\<close> is the class of
  \<open>approval_lifecycle.py\<close>; the class of the same name in \<open>approval_surface.py\<close> is a different
  one, \<open>SurfacePolicyError\<close> here. The three predicates below are the subclass relations an
  \<open>except\<close> clause goes by. \<open>TaggedError c p\<close> is the project's error class \<open>c\<close> with the
  machine-readable prefix \<open>p\<close>; its message is text.
\<close>

datatype py_exn =
    ApprovalSurfaceError
  | ApprovalRecordsError
  | SurfacePolicyError
  | OSError
  | HTTPError int
  | TimeoutExpired
  | RuntimeError
  | ValueError
  | JSONDecodeError
  | TypeError
  | KeyError
  | ReminderJournalError
  | ReminderBoundaryError
  | ApprovalReminderConfigError
  | EffectRequestError string bool
  | TaggedError string string
  | OtherError string

text \<open>\<open>type(error).__name__\<close>.\<close>

fun exn_name :: "py_exn \<Rightarrow> string" where
  "exn_name ApprovalSurfaceError = ''ApprovalSurfaceError''"
| "exn_name ApprovalRecordsError = ''ApprovalRecordsError''"
| "exn_name SurfacePolicyError = ''ApprovalSurfaceError''"
| "exn_name OSError = ''OSError''"
| "exn_name (HTTPError _) = ''HTTPError''"
| "exn_name TimeoutExpired = ''TimeoutExpired''"
| "exn_name RuntimeError = ''RuntimeError''"
| "exn_name ValueError = ''ValueError''"
| "exn_name JSONDecodeError = ''JSONDecodeError''"
| "exn_name TypeError = ''TypeError''"
| "exn_name KeyError = ''KeyError''"
| "exn_name ReminderJournalError = ''ReminderJournalError''"
| "exn_name ReminderBoundaryError = ''ReminderBoundaryError''"
| "exn_name ApprovalReminderConfigError = ''ApprovalReminderConfigError''"
| "exn_name (EffectRequestError _ _) = ''EffectRequestError''"
| "exn_name (TaggedError c _) = c"
| "exn_name (OtherError n) = n"

fun is_os_error :: "py_exn \<Rightarrow> bool" where
  "is_os_error OSError = True"
| "is_os_error (HTTPError _) = True"
| "is_os_error _ = False"

fun is_runtime_error :: "py_exn \<Rightarrow> bool" where
  "is_runtime_error RuntimeError = True"
| "is_runtime_error ApprovalSurfaceError = True"
| "is_runtime_error ApprovalRecordsError = True"
| "is_runtime_error SurfacePolicyError = True"
| "is_runtime_error ReminderJournalError = True"
| "is_runtime_error (EffectRequestError _ _) = True"
| "is_runtime_error _ = False"

fun is_value_error :: "py_exn \<Rightarrow> bool" where
  "is_value_error ValueError = True"
| "is_value_error JSONDecodeError = True"
| "is_value_error ReminderBoundaryError = True"
| "is_value_error ApprovalReminderConfigError = True"
| "is_value_error _ = False"

type_synonym ('w, 'a) io = "'w \<Rightarrow> (py_exn + 'a) \<times> 'w"

definition ret :: "'a \<Rightarrow> ('w, 'a) io" where
  [io_defs]: "ret a = (\<lambda>w. (Inr a, w))"

definition raise :: "py_exn \<Rightarrow> ('w, 'a) io" where
  [io_defs]: "raise e = (\<lambda>w. (Inl e, w))"

definition bindM :: "('w, 'a) io \<Rightarrow> ('a \<Rightarrow> ('w, 'b) io) \<Rightarrow> ('w, 'b) io" where
  [io_defs]: "bindM m f = (\<lambda>w. case m w of (Inl e, w') \<Rightarrow> (Inl e, w') | (Inr a, w') \<Rightarrow> f a w')"

text \<open>\<open>tryM m h\<close> is \<open>try: m except E as e: h(e)\<close>; the handler re-raises what it does not name.\<close>

definition tryM :: "('w, 'a) io \<Rightarrow> (py_exn \<Rightarrow> ('w, 'a) io) \<Rightarrow> ('w, 'a) io" where
  [io_defs]: "tryM m h = (\<lambda>w. case m w of (Inl e, w') \<Rightarrow> h e w' | (Inr a, w') \<Rightarrow> (Inr a, w'))"

text \<open>\<open>attemptM m\<close> is \<open>try: m\<close> with the outcome as a value, for \<open>try ... except ... else\<close>.\<close>

definition attemptM :: "('w, 'a) io \<Rightarrow> ('w, py_exn + 'a) io" where
  [io_defs]: "attemptM m = (\<lambda>w. case m w of (r, w') \<Rightarrow> (Inr r, w'))"

definition getsM :: "('w \<Rightarrow> 'a) \<Rightarrow> ('w, 'a) io" where
  [io_defs]: "getsM f = (\<lambda>w. (Inr (f w), w))"

definition modifyM :: "('w \<Rightarrow> 'w) \<Rightarrow> ('w, unit) io" where
  [io_defs]: "modifyM f = (\<lambda>w. (Inr (), f w))"

fun mapM :: "('a \<Rightarrow> ('w, 'b) io) \<Rightarrow> 'a list \<Rightarrow> ('w, 'b list) io" where
  "mapM f [] = ret []"
| "mapM f (x # xs) = bindM (f x) (\<lambda>y. bindM (mapM f xs) (\<lambda>ys. ret (y # ys)))"

fun foldM :: "('a \<Rightarrow> 's \<Rightarrow> ('w, 's) io) \<Rightarrow> 'a list \<Rightarrow> 's \<Rightarrow> ('w, 's) io" where
  "foldM f [] s = ret s"
| "foldM f (x # xs) s = bindM (f x s) (\<lambda>s'. foldM f xs s')"

lemma bindM_assoc: "bindM (bindM m f) g = bindM m (\<lambda>x. bindM (f x) g)"
  by (rule ext) (simp add: bindM_def split: prod.split sum.split)

lemma bindM_ret [simp]: "bindM (ret a) f = f a"
  by (rule ext) (simp add: bindM_def ret_def)

lemma bindM_raise [simp]: "bindM (raise e) f = raise e"
  by (rule ext) (simp add: bindM_def raise_def)

definition lift_sum :: "py_exn + 'a \<Rightarrow> ('w, 'a) io" where
  "lift_sum r = (case r of Inl e \<Rightarrow> raise e | Inr a \<Rightarrow> ret a)"

lemma lift_sum_Inr: "lift_sum r w = (Inr a, w') \<Longrightarrow> r = Inr a \<and> w' = w"
  by (auto simp: lift_sum_def ret_def raise_def split: sum.splits)

lemma bindM_InrE:
  assumes "bindM m f w = (Inr b, w')"
  obtains a w1 where "m w = (Inr a, w1)" and "f a w1 = (Inr b, w')"
  using assms by (auto simp: bindM_def split: prod.splits sum.splits)

text \<open>Sequencing of code that may raise but touches no world.\<close>

definition sum_bind :: "'e + 'a \<Rightarrow> ('a \<Rightarrow> 'e + 'b) \<Rightarrow> 'e + 'b" where
  "sum_bind r f = (case r of Inl e \<Rightarrow> Inl e | Inr a \<Rightarrow> f a)"

lemma sum_bind_simps [simp]:
  "sum_bind (Inl e) f = Inl e" "sum_bind (Inr a) f = f a"
  by (simp_all add: sum_bind_def)

lemma sum_bind_InrE:
  assumes "sum_bind r f = Inr b"
  obtains a where "r = Inr a" and "f a = Inr b"
  using assms by (cases r) auto

lemma sum_bind_Inr_iff: "sum_bind r f = Inr b \<longleftrightarrow> (\<exists>a. r = Inr a \<and> f a = Inr b)"
  by (cases r) auto

subsection \<open>Hoare triples\<close>

definition hoare ::
  "('w \<Rightarrow> bool) \<Rightarrow> ('w, 'a) io \<Rightarrow> ('a \<Rightarrow> 'w \<Rightarrow> bool) \<Rightarrow> (py_exn \<Rightarrow> 'w \<Rightarrow> bool) \<Rightarrow> bool" where
  "hoare P m Q R \<longleftrightarrow>
     (\<forall>w. P w \<longrightarrow> (case m w of (Inr a, w') \<Rightarrow> Q a w' | (Inl e, w') \<Rightarrow> R e w'))"

lemma hoareI:
  assumes "\<And>w a w'. P w \<Longrightarrow> m w = (Inr a, w') \<Longrightarrow> Q a w'"
    and "\<And>w e w'. P w \<Longrightarrow> m w = (Inl e, w') \<Longrightarrow> R e w'"
  shows "hoare P m Q R"
  using assms by (fastforce simp: hoare_def split: prod.split sum.split)

lemma hoareD1: "hoare P m Q R \<Longrightarrow> P w \<Longrightarrow> m w = (Inr a, w') \<Longrightarrow> Q a w'"
  by (auto simp: hoare_def dest: spec[of _ w])

lemma hoareD2: "hoare P m Q R \<Longrightarrow> P w \<Longrightarrow> m w = (Inl e, w') \<Longrightarrow> R e w'"
  by (auto simp: hoare_def dest: spec[of _ w])

lemma hoare_ret [wp]: "hoare (Q a) (ret a) Q R"
  by (simp add: hoare_def ret_def)

lemma hoare_raise [wp]: "hoare (R e) (raise e) Q R"
  by (simp add: hoare_def raise_def)

lemma hoare_gets [wp]: "hoare (\<lambda>w. Q (f w) w) (getsM f) Q R"
  by (simp add: hoare_def getsM_def)

lemma hoare_modify [wp]: "hoare (\<lambda>w. Q () (f w)) (modifyM f) Q R"
  by (simp add: hoare_def modifyM_def)

lemma hoare_bind:
  assumes "hoare P m (\<lambda>a. S a) R" and "\<And>a. hoare (S a) (f a) Q R"
  shows "hoare P (bindM m f) Q R"
  using assms by (fastforce simp: hoare_def bindM_def split: prod.splits sum.splits)

lemma hoare_try:
  assumes "hoare P m Q (\<lambda>e. S e)" and "\<And>e. hoare (S e) (h e) Q R"
  shows "hoare P (tryM m h) Q R"
  using assms by (fastforce simp: hoare_def tryM_def split: prod.splits sum.splits)

lemma hoare_attempt:
  assumes "hoare P m (\<lambda>a. Q (Inr a)) (\<lambda>e. Q (Inl e))"
  shows "hoare P (attemptM m) Q R"
proof (rule hoareI)
  fix w a w' assume "P w" and "attemptM m w = (Inr a, w')"
  then show "Q a w'"
    by (cases a) (auto simp: attemptM_def split: prod.splits
        dest: hoareD1[OF assms] hoareD2[OF assms])
qed (auto simp: attemptM_def split: prod.splits)

lemma hoare_conseq:
  assumes "hoare P' m Q' R'" and "\<And>w. P w \<Longrightarrow> P' w"
    and "\<And>a w. Q' a w \<Longrightarrow> Q a w" and "\<And>e w. R' e w \<Longrightarrow> R e w"
  shows "hoare P m Q R"
  using assms by (fastforce simp: hoare_def split: prod.splits sum.splits)

lemma hoare_pre:
  assumes "hoare P' m Q R" and "\<And>w. P w \<Longrightarrow> P' w"
  shows "hoare P m Q R"
  using assms by (rule hoare_conseq)

lemma hoare_if [wp]:
  assumes "b \<Longrightarrow> hoare P m Q R" and "\<not> b \<Longrightarrow> hoare P' m' Q R"
  shows "hoare (\<lambda>w. if b then P w else P' w) (if b then m else m') Q R"
  using assms by (cases b) auto

text \<open>A loop keeps an invariant when each pass does.\<close>

lemma hoare_foldM:
  assumes "\<And>x s. x \<in> set xs \<Longrightarrow> hoare (I s) (f x s) I R"
  shows "hoare (I s) (foldM f xs s) I R"
  using assms
proof (induction xs arbitrary: s)
  case Nil
  then show ?case using hoare_ret[of I s R] by simp
next
  case (Cons x xs)
  have "hoare (I s) (f x s) I R" by (rule Cons.prems) simp
  moreover have "hoare (I s') (foldM f xs s') I R" for s'
    by (rule Cons.IH) (simp add: Cons.prems)
  ultimately show ?case by (simp add: hoare_bind)
qed

lemma hoare_mapM_inv:
  assumes "\<And>x. x \<in> set xs \<Longrightarrow> hoare I (f x) (\<lambda>_. I) R"
  shows "hoare I (mapM f xs) (\<lambda>_. I) R"
  using assms
proof (induction xs)
  case Nil
  then show ?case using hoare_ret[of "\<lambda>_. I" "[]" R] by simp
next
  case (Cons x xs)
  have "hoare I (f x) (\<lambda>_. I) R" by (rule Cons.prems) simp
  moreover have "hoare I (mapM f xs) (\<lambda>_. I) R"
    by (rule Cons.IH) (simp add: Cons.prems)
  moreover have "hoare I (ret (y # ys)) (\<lambda>_. I) R" for y and ys
    using hoare_ret[of "\<lambda>_. I" "y # ys" R] by simp
  ultimately show ?case by (auto intro!: hoare_bind)
qed

subsection \<open>What a computation can return\<close>

definition returns :: "('a \<Rightarrow> bool) \<Rightarrow> ('w, 'a) io \<Rightarrow> bool" where
  "returns P m \<longleftrightarrow> (\<forall>w a w'. m w = (Inr a, w') \<longrightarrow> P a)"

lemma returns_ret [simp]: "returns P (ret a) = P a"
  by (simp add: returns_def ret_def)

lemma returns_raise [simp]: "returns P (raise e)"
  by (simp add: returns_def raise_def)

lemma returns_bind2:
  "returns Q m \<Longrightarrow> (\<And>a. Q a \<Longrightarrow> returns P (k a)) \<Longrightarrow> returns P (bindM m k)"
  by (fastforce simp: returns_def bindM_def split: prod.splits sum.splits)

lemma returns_bind: "(\<And>a. returns P (k a)) \<Longrightarrow> returns P (bindM m k)"
  by (rule returns_bind2[of "\<lambda>_. True"]) (auto simp: returns_def)

lemma returnsD: "returns P m \<Longrightarrow> m w = (Inr a, w') \<Longrightarrow> P a"
  by (auto simp: returns_def)

lemma returns_reraise: "returns P m \<Longrightarrow> returns P (tryM m (\<lambda>e. raise (h e)))"
  by (fastforce simp: returns_def tryM_def raise_def split: prod.splits sum.splits)

end
