(* ===== verification/Approval_Lease.thy ===== *)
theory Approval_Lease
  imports Prelude
begin

text \<open>
  Model of \<open>automation/interop/approval_lease.py\<close>: the file-name encoding of approval keys
  (\<open>slug\<close>), the per-key lease, the durable posting journal and the reminder journal.

  The state the module keeps on disk is a record. A lease file is a name in \<open>w_held\<close> while
  some process holds its \<open>flock\<close>; a posting-journal file is an entry of \<open>w_posting\<close>
  under its slug; a reminder ledger is an entry of \<open>w_reminders\<close> under the digest the code
  computes, where the digest function (\<open>hashlib.sha256\<close>) is a parameter. \<open>w_disk\<close> says
  whether writes below the state root succeed; a failing write raises \<open>OSError\<close>. The type
  parameter is the rest of the world (the approval surface and its record store), owned by the
  gate adapters.
\<close>

section \<open>Key encoding\<close>

text \<open>The characters the regular expression \<open>[^A-Za-z0-9._-]\<close> leaves alone.\<close>

definition slug_safe :: "nat \<Rightarrow> bool" where
  "slug_safe c \<longleftrightarrow>
     65 \<le> c \<and> c \<le> 90 \<or> 97 \<le> c \<and> c \<le> 122 \<or> 48 \<le> c \<and> c \<le> 57 \<or> c = 46 \<or> c = 95 \<or> c = 45"

definition hex_digit :: "nat \<Rightarrow> nat" where
  "hex_digit d = (if d < 10 then 48 + d else 87 + d)"

fun hex_digits :: "nat \<Rightarrow> codepoints" where
  "hex_digits n = (if n < 16 then [hex_digit n] else hex_digits (n div 16) @ [hex_digit (n mod 16)])"

declare hex_digits.simps [simp del]

text \<open>Python's format specification \<open>:02x\<close>.\<close>

definition hex02 :: "nat \<Rightarrow> codepoints" where
  "hex02 n = (if n < 16 then [48, hex_digit n] else hex_digits n)"

definition slug_char :: "nat \<Rightarrow> codepoints" where
  "slug_char c = (if slug_safe c then [c] else 37 # hex02 c)"

definition slug :: "codepoints \<Rightarrow> codepoints" where
  "slug key = concat (map slug_char key)"

definition slug_of :: "string \<Rightarrow> codepoints" where
  "slug_of key = slug (of_ascii key)"

lemma hex_digit_inject: "d < 16 \<Longrightarrow> e < 16 \<Longrightarrow> hex_digit d = hex_digit e \<longleftrightarrow> d = e"
  by (auto simp: hex_digit_def split: if_splits)

lemma hex_digit_range: "d < 16 \<Longrightarrow> slug_safe (hex_digit d)"
  by (auto simp: hex_digit_def slug_safe_def)

lemma hex_digits_safe: "\<forall>d \<in> set (hex_digits n). slug_safe d"
proof (induction n rule: hex_digits.induct)
  case (1 n)
  then show ?case
    by (subst hex_digits.simps) (auto simp: hex_digit_range)
qed

lemma hex02_safe: "\<forall>d \<in> set (hex02 n). slug_safe d"
  using hex_digits_safe[of n] by (auto simp: hex02_def hex_digit_range) (simp add: slug_safe_def)

lemma hex02_byte: "n < 256 \<Longrightarrow> hex02 n = [hex_digit (n div 16), hex_digit (n mod 16)]"
  by (auto simp: hex02_def hex_digits.simps[of n] hex_digits.simps[of "n div 16"] hex_digit_def)

lemma hex02_byte_inject:
  assumes "m < 256" and "n < 256" and "hex02 m = hex02 n"
  shows "m = n"
proof -
  have "m div 16 = n div 16" and "m mod 16 = n mod 16"
    using assms hex_digit_inject[of "m div 16" "n div 16"] hex_digit_inject[of "m mod 16" "n mod 16"]
    by (auto simp: hex02_byte)
  then show ?thesis by (metis mod_mult_div_eq)
qed

lemma slug_percent_unsafe [simp]: "\<not> slug_safe 37"
  by (simp add: slug_safe_def)

lemma slug_Nil [simp]: "slug [] = []"
  by (simp add: slug_def)

lemma slug_Cons: "slug (c # cs) = slug_char c @ slug cs"
  by (simp add: slug_def)

text \<open>Keys of one-byte characters are encoded without collisions.\<close>

lemma slug_inject_byte:
  "\<forall>c \<in> set k. c < 256 \<Longrightarrow> \<forall>c \<in> set k'. c < 256 \<Longrightarrow> slug k = slug k' \<Longrightarrow> k = k'"
proof (induction k arbitrary: k')
  case Nil
  then show ?case by (cases k') (auto simp: slug_Cons slug_char_def split: if_splits)
next
  case (Cons c cs)
  obtain d ds where k': "k' = d # ds"
    using Cons.prems by (cases k') (auto simp: slug_Cons slug_char_def split: if_splits)
  have bytes: "c < 256" "d < 256" using Cons.prems k' by auto
  have eq: "slug_char c @ slug cs = slug_char d @ slug ds"
    using Cons.prems(3) k' by (simp add: slug_Cons)
  have "c = d \<and> slug cs = slug ds"
  proof (cases "slug_safe c \<or> slug_safe d")
    case True
    then show ?thesis using eq by (auto simp: slug_char_def split: if_splits)
  next
    case False
    with eq bytes have "hex02 c = hex02 d \<and> slug cs = slug ds"
      by (auto simp: slug_char_def hex02_byte)
    then show ?thesis using hex02_byte_inject bytes by blast
  qed
  moreover have "slug cs = slug ds \<Longrightarrow> cs = ds"
    using Cons.prems(1,2) k' by (intro Cons.IH) auto
  ultimately show ?case using k' by simp
qed

lemma of_ascii_byte: "\<forall>c \<in> set (of_ascii s). c < 256"
  by (auto simp: of_ascii_def)

lemma slug_of_inject [simp]: "slug_of k = slug_of k' \<longleftrightarrow> k = k'"
  using slug_inject_byte[OF of_ascii_byte of_ascii_byte] by (auto simp: slug_of_def)

lemma slug_alphabet: "c \<in> set (slug key) \<Longrightarrow> slug_safe c \<or> c = 37"
  using hex02_safe by (auto simp: slug_def slug_char_def split: if_splits)

section \<open>The world of the approval code\<close>

text \<open>
  A posting-journal file as \<open>PostingJournal.outstanding\<close> distinguishes it: not decodable, a
  JSON value that is not an object, or the entries of an object after the \<open>str()\<close>
  conversion of names and values.
\<close>

datatype posting_file =
    Undecodable
  | NonObject
  | Entries "(string \<times> string) list"

text \<open>
  One slot of a reminder ledger, and the ledger itself: \<open>Refused\<close> is any file \<open>_read\<close>
  rejects for its shape (undecodable, no version 1, no \<open>slots\<close> object). The slot keys are
  the integers whose decimal form the file holds.
\<close>

datatype slot_entry =
    Malformed
  | Slot (slot_state: string) (slot_due: string) (slot_claimed: string) (slot_sent: "string option")

record reminder_doc =
  rd_key :: string
  rd_message_id :: string
  rd_next_due_at :: "string option"
  rd_retired :: "(string \<times> string) option"
  rd_slots :: "(int \<times> slot_entry) list"

datatype reminder_file = Refused | Ledger reminder_doc

record 'g world =
  w_disk :: bool
  w_now :: string
  w_held :: "codepoints set"
  w_posting :: "codepoints \<Rightarrow> posting_file option"
  w_reminders :: "string \<Rightarrow> reminder_file option"
  w_audit :: "(string \<times> json) list list"
  w_gate :: 'g

text \<open>A world with a working disk and no leases, journals or ledgers.\<close>

definition idle_world :: "'g \<Rightarrow> 'g world" where
  "idle_world g = \<lparr>w_disk = True, w_now = ''2026-11-05T00:00:00Z'', w_held = {},
     w_posting = Map.empty, w_reminders = Map.empty, w_audit = [], w_gate = g\<rparr>"

section \<open>The lease\<close>

text \<open>
  \<open>with FileKeyLease(root).hold(key) as owned: body\<close>. Entering opens (and creates) the lock
  file, which can fail; then a non-blocking \<open>flock\<close> either succeeds or reports that the key
  is held elsewhere. Leaving releases the lock on every path, exceptions included.
\<close>

definition hold :: "string \<Rightarrow> (bool \<Rightarrow> ('g world, 'a) io) \<Rightarrow> ('g world, 'a) io" where
  "hold key body = (\<lambda>w.
     if \<not> w_disk w then (Inl OSError, w)
     else if slug_of key \<in> w_held w then body False w
     else (case body True (w\<lparr>w_held := insert (slug_of key) (w_held w)\<rparr>) of
             (r, w') \<Rightarrow> (r, w'\<lparr>w_held := w_held w' - {slug_of key}\<rparr>)))"

lemma hoare_hold:
  assumes "hoare (\<lambda>w. P w \<and> slug_of key \<in> w_held w) (body False) Q R"
    and "hoare (\<lambda>w. \<exists>v. P v \<and> slug_of key \<notin> w_held v \<and>
            w = v\<lparr>w_held := insert (slug_of key) (w_held v)\<rparr>)
          (body True)
          (\<lambda>a w. Q a (w\<lparr>w_held := w_held w - {slug_of key}\<rparr>))
          (\<lambda>e w. R e (w\<lparr>w_held := w_held w - {slug_of key}\<rparr>))"
    and "\<And>w. P w \<Longrightarrow> \<not> w_disk w \<Longrightarrow> R OSError w"
  shows "hoare P (hold key body) Q R"
proof (rule hoareI)
  fix w a w' assume P: "P w" and run: "hold key body w = (Inr a, w')"
  show "Q a w'"
  proof (cases "slug_of key \<in> w_held w")
    case True
    then show ?thesis using P run hoareD1[OF assms(1), of w a w']
      by (auto simp: hold_def split: if_splits)
  next
    case False
    then obtain u where "body True (w\<lparr>w_held := insert (slug_of key) (w_held w)\<rparr>) = (Inr a, u)"
      and "w' = u\<lparr>w_held := w_held u - {slug_of key}\<rparr>"
      using run by (auto simp: hold_def split: if_splits prod.splits)
    then show ?thesis using hoareD1[OF assms(2)] P False by blast
  qed
next
  fix w e w' assume P: "P w" and run: "hold key body w = (Inl e, w')"
  show "R e w'"
  proof (cases "w_disk w \<and> slug_of key \<notin> w_held w")
    case False
    then show ?thesis using P run assms(3)[of w] hoareD2[OF assms(1), of w e w']
      by (auto simp: hold_def split: if_splits)
  next
    case True
    then obtain u where "body True (w\<lparr>w_held := insert (slug_of key) (w_held w)\<rparr>) = (Inl e, u)"
      and "w' = u\<lparr>w_held := w_held u - {slug_of key}\<rparr>"
      using run by (auto simp: hold_def split: if_splits prod.splits)
    then show ?thesis using hoareD2[OF assms(2)] P True by blast
  qed
qed

section \<open>The posting journal\<close>

text \<open>
  One file per key: the path is the slug of the key. The contract a keyed file store gives its
  clients (what a lookup returns after a write or an unlink, for the same and for other keys)
  is the locale \<open>keyed_files\<close>; the posting journal provides it because the slug separates keys.
\<close>

definition journal_put :: "string \<Rightarrow> posting_file \<Rightarrow> 'g world \<Rightarrow> 'g world" where
  "journal_put key file w = w\<lparr>w_posting := (w_posting w)(slug_of key := Some file)\<rparr>"

definition journal_del :: "string \<Rightarrow> 'g world \<Rightarrow> 'g world" where
  "journal_del key w = w\<lparr>w_posting := (w_posting w)(slug_of key := None)\<rparr>"

definition journal_file :: "string \<Rightarrow> 'g world \<Rightarrow> posting_file option" where
  "journal_file key w = w_posting w (slug_of key)"

locale keyed_files =
  fixes put :: "'k \<Rightarrow> 'v \<Rightarrow> 's \<Rightarrow> 's"
    and del :: "'k \<Rightarrow> 's \<Rightarrow> 's"
    and look :: "'k \<Rightarrow> 's \<Rightarrow> 'v option"
  assumes look_put: "look k' (put k v s) = (if k' = k then Some v else look k' s)"
    and look_del: "look k' (del k s) = (if k' = k then None else look k' s)"
begin

lemma put_same: "look k (put k v s) = Some v"
  by (simp add: look_put)

lemma put_other: "k' \<noteq> k \<Longrightarrow> look k' (put k v s) = look k' s"
  by (simp add: look_put)

lemma del_put: "look k' (del k (put k v s)) = look k' (del k s)"
  by (simp add: look_put look_del)

lemma put_put: "look k' (put k v (put k u s)) = look k' (put k v s)"
  by (simp add: look_put)

end

interpretation posting: keyed_files journal_put journal_del journal_file
  by unfold_locales (auto simp: journal_put_def journal_del_def journal_file_def)

definition journal_write :: "string \<Rightarrow> posting_file \<Rightarrow> ('g world, unit) io" where
  "journal_write key file = (\<lambda>w.
     if w_disk w then (Inr (), journal_put key file w) else (Inl OSError, w))"

definition reserve :: "string \<Rightarrow> string \<Rightarrow> string \<Rightarrow> ('g world, unit) io" where
  "reserve key action_hash moment =
     journal_write key (Entries [(''action_hash'', action_hash), (''at'', moment), (''key'', key)])"

text \<open>\<open>PostingJournal.outstanding\<close>: an undecodable file counts as an open reservation.\<close>

definition reservation_of :: "string \<Rightarrow> posting_file option \<Rightarrow> (string \<times> string) list option" where
  "reservation_of key file =
     (case file of
        None \<Rightarrow> None
      | Some Undecodable \<Rightarrow> Some [(''action_hash'', []), (''at'', []), (''key'', key)]
      | Some NonObject \<Rightarrow> None
      | Some (Entries es) \<Rightarrow> Some es)"

definition journal_outstanding :: "string \<Rightarrow> ('g world, (string \<times> string) list option) io" where
  "journal_outstanding key = getsM (\<lambda>w. reservation_of key (journal_file key w))"

definition entry_or :: "(string \<times> string) list \<Rightarrow> string \<Rightarrow> string" where
  "entry_or es k = (case map_of es k of None \<Rightarrow> [] | Some v \<Rightarrow> v)"

definition enrich :: "string \<Rightarrow> string \<Rightarrow> string \<Rightarrow> string \<Rightarrow> ('g world, unit) io" where
  "enrich key action_hash message_id channel_id =
     bindM (journal_outstanding key) (\<lambda>reservation.
       case reservation of
         None \<Rightarrow> raise RuntimeError
       | Some es \<Rightarrow>
           if (map_of es ''key'', map_of es ''action_hash'') \<noteq> (Some key, Some action_hash)
           then raise RuntimeError
           else journal_write key (Entries
             [(''action_hash'', action_hash), (''at'', entry_or es ''at''),
              (''channel_id'', channel_id), (''key'', key), (''message_id'', message_id)]))"

definition journal_clear :: "string \<Rightarrow> ('g world, unit) io" where
  "journal_clear key = (\<lambda>w.
     if journal_file key w = None then (Inr (), w)
     else if w_disk w then (Inr (), journal_del key w)
     else (Inl OSError, w))"

text \<open>The audited operator override \<open>abandon\<close>: the audit line is written before the file goes.\<close>

definition reservation_json :: "(string \<times> string) list option \<Rightarrow> json" where
  "reservation_json r = (case r of None \<Rightarrow> JNull | Some es \<Rightarrow> JObj (map (\<lambda>(k, v). (k, JStr v)) es))"

definition append_audit :: "(string \<times> json) list \<Rightarrow> ('g world, unit) io" where
  "append_audit line = (\<lambda>w.
     if w_disk w then (Inr (), w\<lparr>w_audit := w_audit w @ [line]\<rparr>) else (Inl OSError, w))"

definition abandon :: "string \<Rightarrow> ('g world, unit) io" where
  "abandon key =
     bindM (journal_outstanding key) (\<lambda>reservation.
     bindM (append_audit [(''event'', JStr ''posting-abandoned''), (''key'', JStr key),
                          (''reservation'', reservation_json reservation)]) (\<lambda>_.
     journal_clear key))"

lemmas journal_defs = reserve_def journal_write_def journal_outstanding_def enrich_def
  journal_clear_def abandon_def append_audit_def

section \<open>The reminder journal\<close>

text \<open>
  \<open>digest\<close> is \<open>hashlib.sha256(...).hexdigest()\<close>. Nothing below relies on it being free
  of collisions: \<open>_read\<close> compares the stored key and message id with the requested ones.
\<close>

definition reminder_path :: "(string \<Rightarrow> string) \<Rightarrow> string \<Rightarrow> string \<Rightarrow> string" where
  "reminder_path digest key message_id = digest (key @ [CHR 0x00] @ message_id)"

definition reminder_empty :: "string \<Rightarrow> string \<Rightarrow> reminder_doc" where
  "reminder_empty key message_id =
     \<lparr>rd_key = key, rd_message_id = message_id, rd_next_due_at = None, rd_retired = None,
      rd_slots = []\<rparr>"

definition reminder_lookup ::
  "string \<Rightarrow> string \<Rightarrow> reminder_file option \<Rightarrow> py_exn + reminder_doc" where
  "reminder_lookup key message_id file =
     (case file of
        None \<Rightarrow> Inr (reminder_empty key message_id)
      | Some Refused \<Rightarrow> Inl ReminderJournalError
      | Some (Ledger d) \<Rightarrow>
          if rd_key d \<noteq> key \<or> rd_message_id d \<noteq> message_id then Inl ReminderJournalError
          else Inr d)"

definition reminder_read ::
  "(string \<Rightarrow> string) \<Rightarrow> string \<Rightarrow> string \<Rightarrow> ('g world, reminder_doc) io" where
  "reminder_read digest key message_id = (\<lambda>w.
     (reminder_lookup key message_id (w_reminders w (reminder_path digest key message_id)), w))"

definition reminder_write ::
  "(string \<Rightarrow> string) \<Rightarrow> string \<Rightarrow> string \<Rightarrow> reminder_doc \<Rightarrow> ('g world, unit) io" where
  "reminder_write digest key message_id d = (\<lambda>w.
     if w_disk w
     then (Inr (), w\<lparr>w_reminders :=
             (w_reminders w)(reminder_path digest key message_id := Some (Ledger d))\<rparr>)
     else (Inl OSError, w))"

definition is_retired :: "(string \<Rightarrow> string) \<Rightarrow> string \<Rightarrow> string \<Rightarrow> ('g world, bool) io" where
  "is_retired digest key message_id =
     bindM (reminder_read digest key message_id) (\<lambda>d. ret (rd_retired d \<noteq> None))"

definition retire ::
  "(string \<Rightarrow> string) \<Rightarrow> string \<Rightarrow> string \<Rightarrow> string \<Rightarrow> string \<Rightarrow> ('g world, unit) io" where
  "retire digest key message_id status moment =
     bindM (reminder_read digest key message_id) (\<lambda>d.
       if rd_retired d = None
       then reminder_write digest key message_id
              (d\<lparr>rd_retired := Some (status, moment), rd_next_due_at := None\<rparr>)
       else ret ())"

definition claim ::
  "(string \<Rightarrow> string) \<Rightarrow> string \<Rightarrow> string \<Rightarrow> int \<Rightarrow> string \<Rightarrow> string \<Rightarrow> string \<Rightarrow> ('g world, bool) io" where
  "claim digest key message_id slot due_at next_due_at moment =
     bindM (reminder_read digest key message_id) (\<lambda>d.
       if rd_retired d \<noteq> None then ret False
       else if map_of (rd_slots d) slot \<noteq> None then ret False
       else bindM (reminder_write digest key message_id
              (d\<lparr>rd_slots := dict_set slot (Slot ''claimed'' due_at moment None) (rd_slots d),
                 rd_next_due_at := Some next_due_at\<rparr>))
            (\<lambda>_. ret True))"

definition mark_sent ::
  "(string \<Rightarrow> string) \<Rightarrow> string \<Rightarrow> string \<Rightarrow> int \<Rightarrow> string \<Rightarrow> string \<Rightarrow> ('g world, unit) io" where
  "mark_sent digest key message_id slot sent_at next_due_at =
     bindM (reminder_read digest key message_id) (\<lambda>d.
       case map_of (rd_slots d) slot of
         Some (Slot st due cl sent) \<Rightarrow>
           if st \<noteq> ''claimed'' then raise ReminderJournalError
           else reminder_write digest key message_id
             (d\<lparr>rd_slots := dict_set slot (Slot ''sent'' due cl (Some sent_at)) (rd_slots d),
                rd_next_due_at := Some next_due_at\<rparr>)
       | _ \<Rightarrow> raise ReminderJournalError)"

record reminder_history =
  rh_slot :: int
  rh_state :: string
  rh_due_at :: string
  rh_claimed_at :: string
  rh_sent_at :: "string option"

definition history ::
  "(string \<Rightarrow> string) \<Rightarrow> string \<Rightarrow> string \<Rightarrow> ('g world, reminder_history list) io" where
  "history digest key message_id =
     bindM (reminder_read digest key message_id) (\<lambda>d.
       if list_ex (\<lambda>(_, e). e = Malformed) (rd_slots d) then raise ReminderJournalError
       else ret (sort_key rh_slot (map (\<lambda>(s, e). \<lparr>rh_slot = s, rh_state = slot_state e,
              rh_due_at = slot_due e, rh_claimed_at = slot_claimed e, rh_sent_at = slot_sent e\<rparr>) (rd_slots d))))"

lemmas reminder_defs = reminder_read_def reminder_write_def is_retired_def retire_def claim_def
  mark_sent_def

text \<open>The ledger a key and message id read, as a pure observation of the world.\<close>

definition ledger :: "(string \<Rightarrow> string) \<Rightarrow> string \<Rightarrow> string \<Rightarrow> 'g world \<Rightarrow> py_exn + reminder_doc" where
  "ledger digest key message_id w =
     reminder_lookup key message_id (w_reminders w (reminder_path digest key message_id))"

definition slot_taken :: "(string \<Rightarrow> string) \<Rightarrow> string \<Rightarrow> string \<Rightarrow> int \<Rightarrow> 'g world \<Rightarrow> bool" where
  "slot_taken digest key message_id slot w \<longleftrightarrow>
     (case ledger digest key message_id w of
        Inl _ \<Rightarrow> True
      | Inr d \<Rightarrow> rd_retired d \<noteq> None \<or> map_of (rd_slots d) slot \<noteq> None)"

text \<open>Every operation of the journal, so that a history is a list of operations.\<close>

datatype reminder_op =
    OpRetire string string string string
  | OpClaim string string int string string string
  | OpMarkSent string string int string string

fun run_op :: "(string \<Rightarrow> string) \<Rightarrow> reminder_op \<Rightarrow> ('g world, bool) io" where
  "run_op digest (OpRetire k m st t) = bindM (retire digest k m st t) (\<lambda>_. ret False)"
| "run_op digest (OpClaim k m s d n t) = claim digest k m s d n t"
| "run_op digest (OpMarkSent k m s t n) = bindM (mark_sent digest k m s t n) (\<lambda>_. ret False)"

fun run_ops :: "(string \<Rightarrow> string) \<Rightarrow> reminder_op list \<Rightarrow> 'g world \<Rightarrow> 'g world" where
  "run_ops digest [] w = w"
| "run_ops digest (x # xs) w = run_ops digest xs (snd (run_op digest x w))"

lemma reminder_lookup_Inr:
  "reminder_lookup key message_id file = Inr d \<Longrightarrow> rd_key d = key \<and> rd_message_id d = message_id"
  by (auto simp: reminder_lookup_def reminder_empty_def split: option.splits reminder_file.splits if_splits)

text \<open>
  What one operation can do to the ledger of a key and message id: nothing, or it is the
  operation's own ledger, or a colliding path has made it unreadable.
\<close>

lemma reminder_write_ledger:
  assumes "reminder_write digest k m d w = (r, w')" and "rd_key d = k" and "rd_message_id d = m"
  shows "ledger digest key message_id w' = ledger digest key message_id w \<or>
         ledger digest key message_id w' = Inl ReminderJournalError \<or>
         key = k \<and> message_id = m \<and> ledger digest key message_id w' = Inr d"
proof (cases "w_disk w \<and> reminder_path digest key message_id = reminder_path digest k m")
  case True
  then have "ledger digest key message_id w' = reminder_lookup key message_id (Some (Ledger d))"
    using assms(1) by (auto simp: reminder_write_def ledger_def)
  then show ?thesis using assms(2,3) by (auto simp: reminder_lookup_def)
next
  case False
  then have "ledger digest key message_id w' = ledger digest key message_id w"
    using assms(1) by (auto simp: reminder_write_def ledger_def split: if_splits)
  then show ?thesis by blast
qed

text \<open>An operation leaves the world alone or writes a ledger that only grows.\<close>

definition grows :: "reminder_doc \<Rightarrow> reminder_doc \<Rightarrow> bool" where
  "grows d d' \<longleftrightarrow> rd_key d' = rd_key d \<and> rd_message_id d' = rd_message_id d \<and>
     (rd_retired d \<noteq> None \<longrightarrow> rd_retired d' \<noteq> None) \<and>
     dom (map_of (rd_slots d)) \<subseteq> dom (map_of (rd_slots d'))"

lemma reminder_read_ledger: "reminder_read digest k m w = (ledger digest k m w, w)"
  by (simp add: reminder_read_def ledger_def)

lemma ledger_Inr: "ledger digest k m w = Inr d \<Longrightarrow> rd_key d = k \<and> rd_message_id d = m"
  by (simp add: ledger_def reminder_lookup_Inr)

lemma retire_writes:
  assumes "ledger digest k m w = Inr d" and "rd_retired d = None"
  shows "\<exists>d'. grows d d' \<and> rd_retired d' \<noteq> None \<and>
    retire digest k m st t w = reminder_write digest k m d' w"
  by (rule exI[of _ "d\<lparr>rd_retired := Some (st, t), rd_next_due_at := None\<rparr>"])
    (simp add: retire_def bindM_def reminder_read_ledger assms grows_def)

lemma claim_writes:
  assumes "ledger digest k m w = Inr d" and "rd_retired d = None" and "map_of (rd_slots d) s = None"
  shows "\<exists>d'. grows d d' \<and> map_of (rd_slots d') s \<noteq> None \<and>
    claim digest k m s due nd t w = bindM (reminder_write digest k m d') (\<lambda>_. ret True) w"
  by (rule exI[of _ "d\<lparr>rd_slots := dict_set s (Slot ''claimed'' due t None) (rd_slots d),
        rd_next_due_at := Some nd\<rparr>"])
    (auto simp: claim_def bindM_def reminder_read_ledger assms grows_def)

lemma mark_sent_writes:
  assumes "ledger digest k m w = Inr d" and "map_of (rd_slots d) s = Some (Slot ''claimed'' due cl se)"
  shows "\<exists>d'. grows d d' \<and> mark_sent digest k m s t nd w = reminder_write digest k m d' w"
  by (rule exI[of _ "d\<lparr>rd_slots := dict_set s (Slot ''sent'' due cl (Some t)) (rd_slots d),
        rd_next_due_at := Some nd\<rparr>"])
    (auto simp: mark_sent_def bindM_def reminder_read_ledger assms grows_def)

lemma reminder_write_slot_taken:
  assumes "slot_taken digest key message_id slot w" and "ledger digest k m w = Inr d" and "grows d d'"
  shows "slot_taken digest key message_id slot (snd (reminder_write digest k m d' w))"
proof -
  have "rd_key d' = k" and "rd_message_id d' = m"
    using assms(3) ledger_Inr[OF assms(2)] by (simp_all add: grows_def)
  then show ?thesis
    using reminder_write_ledger[of digest k m d' w _ _ key message_id] assms
    by (cases "reminder_write digest k m d' w") (fastforce simp: slot_taken_def grows_def)
qed

lemma retire_slot_taken:
  assumes "slot_taken digest key message_id slot w"
  shows "slot_taken digest key message_id slot (snd (retire digest k m st t w))"
proof (cases "ledger digest k m w")
  case (Inl e)
  then show ?thesis using assms by (simp add: retire_def bindM_def reminder_read_ledger)
next
  case (Inr d)
  show ?thesis
  proof (cases "rd_retired d")
    case None
    then show ?thesis using retire_writes[OF Inr None, of st t] reminder_write_slot_taken[OF assms Inr] by auto
  qed (use assms Inr in \<open>simp add: retire_def bindM_def reminder_read_ledger ret_def\<close>)
qed

lemma claim_slot_taken:
  assumes "slot_taken digest key message_id slot w"
  shows "slot_taken digest key message_id slot (snd (claim digest k m s due nd t w))"
proof (cases "ledger digest k m w")
  case (Inl e)
  then show ?thesis using assms by (simp add: claim_def bindM_def reminder_read_ledger)
next
  case (Inr d)
  show ?thesis
  proof (cases "rd_retired d = None \<and> map_of (rd_slots d) s = None")
    case True
    then obtain d' where "grows d d'"
      and run: "claim digest k m s due nd t w = bindM (reminder_write digest k m d') (\<lambda>_. ret True) w"
      using claim_writes[OF Inr] by blast
    moreover have "snd (bindM (reminder_write digest k m d') (\<lambda>_. ret True) w) =
        snd (reminder_write digest k m d' w)"
      by (simp add: bindM_def ret_def split: prod.split sum.split)
    ultimately show ?thesis using reminder_write_slot_taken[OF assms Inr] by simp
  qed (use assms Inr in \<open>auto simp: claim_def bindM_def reminder_read_ledger ret_def\<close>)
qed

lemma mark_sent_slot_taken:
  assumes "slot_taken digest key message_id slot w"
  shows "slot_taken digest key message_id slot (snd (mark_sent digest k m s t nd w))"
proof (cases "ledger digest k m w")
  case (Inl e)
  then show ?thesis using assms by (simp add: mark_sent_def bindM_def reminder_read_ledger)
next
  case (Inr d)
  show ?thesis
  proof (cases "\<exists>due cl se. map_of (rd_slots d) s = Some (Slot ''claimed'' due cl se)")
    case True
    then obtain due cl se where "map_of (rd_slots d) s = Some (Slot ''claimed'' due cl se)"
      by blast
    from mark_sent_writes[OF Inr this, of t nd] show ?thesis
      using reminder_write_slot_taken[OF assms Inr] by auto
  next
    case False
    then have "snd (mark_sent digest k m s t nd w) = w"
      using Inr by (auto simp: mark_sent_def bindM_def reminder_read_ledger raise_def
          split: option.split slot_entry.split)
    then show ?thesis using assms by simp
  qed
qed

lemma snd_bindM_ret [simp]: "snd (bindM m (\<lambda>_. ret a) w) = snd (m w)"
  by (simp add: bindM_def ret_def split: prod.split sum.split)

lemma run_op_slot_taken:
  "slot_taken digest key message_id slot w \<Longrightarrow>
   slot_taken digest key message_id slot (snd (run_op digest x w))"
  by (cases x) (simp_all add: retire_slot_taken claim_slot_taken mark_sent_slot_taken)

lemma run_ops_slot_taken:
  "slot_taken digest key message_id slot w \<Longrightarrow>
   slot_taken digest key message_id slot (run_ops digest xs w)"
  by (induction xs arbitrary: w) (auto intro: run_op_slot_taken)

lemma claim_taken:
  "slot_taken digest key message_id slot w \<Longrightarrow>
   fst (claim digest key message_id slot due next_due moment w) \<noteq> Inr True"
  by (auto simp: slot_taken_def claim_def reminder_read_def ledger_def bindM_def ret_def
      split: sum.splits)

lemma reminder_write_ok:
  assumes "reminder_write digest k m d w = (Inr u, w')" and "rd_key d = k" and "rd_message_id d = m"
  shows "ledger digest k m w' = Inr d"
  using assms by (auto simp: reminder_write_def ledger_def reminder_lookup_def split: if_splits)

lemma claim_takes:
  assumes "claim digest key message_id slot due next_due moment w = (Inr True, w')"
  shows "slot_taken digest key message_id slot w'"
proof -
  obtain d where d: "ledger digest key message_id w = Inr d"
    using assms by (auto simp: claim_def bindM_def reminder_read_ledger split: sum.splits)
  then have "rd_retired d = None \<and> map_of (rd_slots d) slot = None"
    using assms by (cases "rd_retired d"; cases "map_of (rd_slots d) slot")
      (auto simp: claim_def bindM_def reminder_read_ledger ret_def)
  then have free: "rd_retired d = None" "map_of (rd_slots d) slot = None" by auto
  obtain d' where "grows d d'" and taken: "map_of (rd_slots d') slot \<noteq> None"
    and "bindM (reminder_write digest key message_id d') (\<lambda>_. ret True) w = (Inr True, w')"
    using claim_writes[OF d free] assms by metis
  then have "ledger digest key message_id w' = Inr d'"
    using ledger_Inr[OF d] reminder_write_ok[of digest key message_id d' w]
    by (auto simp: bindM_def ret_def grows_def split: prod.splits sum.splits)
  then show ?thesis using taken by (simp add: slot_taken_def)
qed

lemma retire_takes:
  assumes "retire digest key message_id status moment w = (Inr (), w')"
  shows "slot_taken digest key message_id slot w'"
proof -
  obtain d where d: "ledger digest key message_id w = Inr d"
    using assms by (auto simp: retire_def bindM_def reminder_read_ledger split: sum.splits)
  show ?thesis
  proof (cases "rd_retired d")
    case None
    then obtain d' where "grows d d'" and gone: "rd_retired d' \<noteq> None"
      and "reminder_write digest key message_id d' w = (Inr (), w')"
      using retire_writes[OF d None] assms by metis
    then have "ledger digest key message_id w' = Inr d'"
      using ledger_Inr[OF d] reminder_write_ok[of digest key message_id d' w]
      by (auto simp: grows_def)
    then show ?thesis using gone by (simp add: slot_taken_def)
  qed (use assms d in \<open>auto simp: retire_def bindM_def reminder_read_ledger ret_def slot_taken_def\<close>)
qed

lemma reserve_ok: "w_disk w \<Longrightarrow> reserve key h t w =
    (Inr (), journal_put key (Entries [(''action_hash'', h), (''at'', t), (''key'', key)]) w)"
  by (simp add: reserve_def journal_write_def)

lemma journal_put_disk [simp]: "w_disk (journal_put key f w) = w_disk w"
  by (simp add: journal_put_def)

lemma enrich_ok:
  assumes "w_disk w" and "journal_file key w = Some (Entries es)"
    and "map_of es ''key'' = Some key" and "map_of es ''action_hash'' = Some h"
  shows "enrich key h m c w = (Inr (), journal_put key (Entries
     [(''action_hash'', h), (''at'', entry_or es ''at''), (''channel_id'', c), (''key'', key),
      (''message_id'', m)]) w)"
  using assms
  by (simp add: enrich_def bindM_def journal_outstanding_def getsM_def reservation_of_def
      journal_write_def)

section \<open>Properties\<close>

text \<open>
  File names keep approval keys apart: for keys made of one-byte characters the
  escaping of \<open>slug\<close> is injective, so two such keys never share a lease or a journal file.
\<close>

theorem slug_injective:
  assumes "\<forall>c \<in> set k. c < 256" and "\<forall>c \<in> set k'. c < 256" and "slug k = slug k'"
  shows "k = k'"
  using assms by (rule slug_inject_byte)

theorem slug_injective_witness:
  "slug (of_ascii ''a:b'') = slug (of_ascii ''a:b'') \<and> of_ascii ''a:b'' = of_ascii ''a:b''"
  using slug_injective[OF of_ascii_byte of_ascii_byte, of "''a:b''" "''a:b''"] by simp

text \<open>
  Beyond one byte the encoding is not free of collisions, although the docstring of
  \<open>slug\<close> says it is: the variable-width hexadecimal escape has no terminator, so the key
  of the single Hangul syllable U+AC00 and the key U+00AC followed by two digits zero get
  the same file name.
\<close>

theorem slug_collision:
  "slug [44032] = slug [172, 48, 48] \<and> [44032] \<noteq> [172, 48, 48::nat]"
  by (simp add: slug_def slug_char_def slug_safe_def hex02_def hex_digits.simps hex_digit_def)

text \<open>
  A posting reservation survives its enrichment: after \<open>reserve\<close> and \<open>enrich\<close>
  for a key the journal reports exactly one reservation for it, with the reserved hash and
  time and the posted message and channel, and no other key's reservation has changed.
\<close>

theorem reserve_enrich_roundtrip:
  assumes "w_disk w"
  shows "\<exists>w1 w2. reserve key h t w = (Inr (), w1) \<and> enrich key h m c w1 = (Inr (), w2) \<and>
     fst (journal_outstanding key w2) = Inr (Some
       [(''action_hash'', h), (''at'', t), (''channel_id'', c), (''key'', key), (''message_id'', m)]) \<and>
     (\<forall>k. k \<noteq> key \<longrightarrow> journal_outstanding k w2 = (fst (journal_outstanding k w), w2))"
proof -
  let ?es = "[(''action_hash'', h), (''at'', t), (''key'', key)]"
  let ?w1 = "journal_put key (Entries ?es) w"
  have look: "journal_file key ?w1 = Some (Entries ?es)" by (rule posting.put_same)
  have "w_disk ?w1" using assms by simp
  note step = enrich_ok[OF this look, of h m c]
  show ?thesis
    using assms step
    by (auto simp: reserve_ok entry_or_def journal_outstanding_def getsM_def posting.put_same
        posting.put_other reservation_of_def)
qed

theorem reserve_enrich_roundtrip_witness:
  "\<exists>w1 w2. reserve ''k'' ''h'' ''t'' (idle_world ()) = (Inr (), w1) \<and>
     enrich ''k'' ''h'' ''m'' ''c'' w1 = (Inr (), w2)"
proof -
  have "w_disk (idle_world ())" by (simp add: idle_world_def)
  from reserve_enrich_roundtrip[OF this, of "''k''" "''h''" "''t''" "''m''" "''c''"]
  show ?thesis by blast
qed

text \<open>
  What the journal does with a file it cannot use: an undecodable file counts as an
  open reservation (fail closed), but a file that decodes to a JSON value other than an object
  counts as no reservation at all, so a later run may post again.
\<close>

theorem unusable_journal_file:
  "fst (journal_outstanding key (journal_put key Undecodable w)) =
     Inr (Some [(''action_hash'', []), (''at'', []), (''key'', key)]) \<and>
   fst (journal_outstanding key (journal_put key NonObject w)) = Inr None"
  by (simp add: journal_outstanding_def getsM_def posting.put_same reservation_of_def)

text \<open>
  \<^bold>\<open>C18.\<close> A reminder slot is claimed at most once: after a successful \<open>claim\<close>, whatever
  claims, sent marks and retirements follow, for this or any other approval, no later claim of
  the same slot of the same card succeeds. This holds for every digest function.
\<close>

theorem claim_at_most_once:
  assumes "claim digest key message_id slot due next_due moment w = (Inr True, w')"
  shows "fst (claim digest key message_id slot due' next_due' moment' (run_ops digest xs w'))
     \<noteq> Inr True"
  using claim_taken[OF run_ops_slot_taken[OF claim_takes[OF assms]]] .

text \<open>
  Retirement is final: once a card's reminders are retired, no sequence of journal
  operations makes any slot of that card claimable again.
\<close>

theorem retire_is_final:
  assumes "retire digest key message_id status moment w = (Inr (), w')"
  shows "fst (claim digest key message_id slot due next_due moment' (run_ops digest xs w'))
     \<noteq> Inr True"
  using claim_taken[OF run_ops_slot_taken[OF retire_takes[OF assms]]] .

theorem claim_at_most_once_witness:
  "claim id ''k'' ''m'' 0 ''d'' ''n'' ''t'' (idle_world ()) =
     (Inr True, snd (claim id ''k'' ''m'' 0 ''d'' ''n'' ''t'' (idle_world ()))) \<and>
   fst (claim id ''k'' ''m'' 0 ''d'' ''n'' ''u''
          (run_ops id [OpMarkSent ''k'' ''m'' 0 ''t'' ''n'']
             (snd (claim id ''k'' ''m'' 0 ''d'' ''n'' ''t'' (idle_world ()))))) \<noteq> Inr True"
proof -
  have h: "claim id ''k'' ''m'' 0 ''d'' ''n'' ''t'' (idle_world ()) =
     (Inr True, snd (claim id ''k'' ''m'' 0 ''d'' ''n'' ''t'' (idle_world ())))"
    by (simp add: claim_def bindM_def reminder_read_def reminder_write_def reminder_lookup_def
        reminder_empty_def idle_world_def ret_def)
  from h claim_at_most_once[OF h] show ?thesis by blast
qed

theorem retire_is_final_witness:
  "retire id ''k'' ''m'' ''approved'' ''t'' (idle_world ()) =
     (Inr (), snd (retire id ''k'' ''m'' ''approved'' ''t'' (idle_world ()))) \<and>
   fst (claim id ''k'' ''m'' 3 ''d'' ''n'' ''u''
          (run_ops id [OpMarkSent ''k'' ''m'' 0 ''t'' ''n'']
             (snd (retire id ''k'' ''m'' ''approved'' ''t'' (idle_world ()))))) \<noteq> Inr True"
proof -
  have h: "retire id ''k'' ''m'' ''approved'' ''t'' (idle_world ()) =
     (Inr (), snd (retire id ''k'' ''m'' ''approved'' ''t'' (idle_world ())))"
    by (simp add: retire_def bindM_def reminder_read_def reminder_write_def reminder_lookup_def
        reminder_empty_def idle_world_def)
  from h retire_is_final[OF h] show ?thesis by blast
qed

end
