(* ===== verification/Approval_Lifecycle.thy ===== *)
theory Approval_Lifecycle
  imports Approval_Lease
begin

text \<open>
  Model of \<open>automation/interop/approval_types.py\<close> and
  \<open>automation/interop/approval_lifecycle.py\<close>: how a producer asks the owner for an approval
  (\<open>request_owner_approval\<close>) and how a watcher consumes the decision
  (\<open>resolve_owner_decision\<close>).

  The gate is a protocol with many adapters; it is a record of operations over the world, each
  of which may change the world and may raise. So a theorem about an arbitrary gate also covers
  an owner who reacts, or a message that disappears, between two calls. Every function of the
  module is one definition, in the order of the source.
\<close>

section \<open>Types\<close>

datatype probe =
    BOUND_PENDING | APPROVED | CANCELLED | MISSING | BINDING_MISMATCH | UNVERIFIABLE

record approval_request =
  rq_key :: string
  rq_action_hash :: string
  rq_message_id :: string
  rq_channel_id :: string
  rq_created_at :: string

record approval_intent =
  in_key :: string
  in_action_hash :: string
  in_channel_id :: string

record posted_approval =
  pa_message_id :: string
  pa_channel_id :: string

datatype outcome = POSTED | PENDING | DEFERRED | REFUSED

datatype reason =
    LEASE_HELD | OWNER_DECIDED | R_UNVERIFIABLE | R_BINDING_MISMATCH | STORE_UNREADABLE
  | SUPERSEDE_FAILED | POSTING_JOURNAL_STALE | CONTENT_CHANGED | MESSAGE_MISSING
  | DUPLICATE_COLLAPSED

record cleared_item =
  cl_request :: approval_request
  cl_reason :: reason

record verdict =
  v_outcome :: outcome
  v_reason :: "reason option"
  v_live :: "approval_request option"
  v_posted :: "posted_approval option"
  v_cleared :: "cleared_item list"
  v_blocked :: "approval_request list"

text \<open>\<open>Verdict(outcome, reason)\<close> with the dataclass defaults for the other fields.\<close>

definition Verdict :: "outcome \<Rightarrow> reason option \<Rightarrow> verdict" where
  "Verdict oc r = \<lparr>v_outcome = oc, v_reason = r, v_live = None, v_posted = None,
     v_cleared = [], v_blocked = []\<rparr>"

text \<open>
  The \<open>ApprovalGate\<close> protocol; \<open>g_restore\<close> is \<open>None\<close> for an adapter that does not
  implement the optional \<open>ApprovalRestore\<close> protocol.
\<close>

record 'w gate =
  g_outstanding :: "string \<Rightarrow> ('w, approval_request list) io"
  g_probe :: "approval_request \<Rightarrow> ('w, probe) io"
  g_delete :: "approval_request \<Rightarrow> ('w, unit) io"
  g_drop :: "approval_request \<Rightarrow> ('w, unit) io"
  g_post :: "approval_intent \<Rightarrow> ('w, posted_approval) io"
  g_commit :: "approval_intent \<Rightarrow> posted_approval \<Rightarrow> string \<Rightarrow> ('w, unit) io"
  g_restore :: "(approval_request \<Rightarrow> ('w, unit) io) option"

section \<open>Requesting an approval\<close>

definition now :: "('g world, string) io" where
  "now = getsM w_now"

text \<open>The tuple \<open>(ApprovalSurfaceError, OSError)\<close> of the \<open>except\<close> clauses.\<close>

definition surface_exn :: "py_exn \<Rightarrow> bool" where
  "surface_exn e \<longleftrightarrow> e = ApprovalSurfaceError \<or> is_os_error e"

definition safe_probe :: "'w gate \<Rightarrow> approval_request \<Rightarrow> ('w, probe) io" where
  "safe_probe g r = tryM (g_probe g r) (\<lambda>e. if surface_exn e then ret UNVERIFIABLE else raise e)"

text \<open>
  \<open>_destroy\<close> returns a verdict when it stops early; the list \<open>cleared\<close> it extends in place
  is the second component of the result.
\<close>

fun destroy ::
  "'w gate \<Rightarrow> approval_request list \<Rightarrow> reason \<Rightarrow> cleared_item list \<Rightarrow>
   ('w, verdict option \<times> cleared_item list) io" where
  "destroy g [] why cleared = ret (None, cleared)"
| "destroy g (r # doomed) why cleared =
     bindM (safe_probe g r) (\<lambda>p.
       case p of
         APPROVED \<Rightarrow> ret (Some ((Verdict DEFERRED (Some OWNER_DECIDED))
                       \<lparr>v_cleared := cleared, v_blocked := [r]\<rparr>), cleared)
       | CANCELLED \<Rightarrow> ret (Some ((Verdict DEFERRED (Some OWNER_DECIDED))
                       \<lparr>v_cleared := cleared, v_blocked := [r]\<rparr>), cleared)
       | UNVERIFIABLE \<Rightarrow> ret (Some ((Verdict DEFERRED (Some R_UNVERIFIABLE))
                       \<lparr>v_cleared := cleared, v_blocked := [r]\<rparr>), cleared)
       | BINDING_MISMATCH \<Rightarrow> ret (Some ((Verdict REFUSED (Some R_BINDING_MISMATCH))
                       \<lparr>v_cleared := cleared, v_blocked := [r]\<rparr>), cleared)
       | MISSING \<Rightarrow> bindM (g_drop g r) (\<lambda>_.
           destroy g doomed why (cleared @ [\<lparr>cl_request = r, cl_reason = MESSAGE_MISSING\<rparr>]))
       | BOUND_PENDING \<Rightarrow> bindM (attemptM (g_delete g r)) (\<lambda>d.
           case d of
             Inl e \<Rightarrow> if surface_exn e
               then ret (Some ((Verdict REFUSED (Some SUPERSEDE_FAILED))
                       \<lparr>v_cleared := cleared, v_blocked := [r]\<rparr>), cleared)
               else raise e
           | Inr _ \<Rightarrow> bindM (g_drop g r) (\<lambda>_.
               destroy g doomed why (cleared @ [\<lparr>cl_request = r, cl_reason = why\<rparr>]))))"

text \<open>\<open>_write_marker\<close>: one audit line, with the \<open>OSError\<close> turned into the answer.\<close>

definition write_marker :: "(string \<times> json) list \<Rightarrow> ('g world, bool) io" where
  "write_marker payload =
     tryM (bindM (append_audit payload) (\<lambda>_. ret True))
          (\<lambda>e. if is_os_error e then ret False else raise e)"

text \<open>
  The owner notice of a lost supersede; the code formats these five values into one line of
  text for the injected notifier.
\<close>

record supersede_notice =
  sn_key :: string
  sn_superseded :: "string list"
  sn_restored :: "string list"
  sn_lost :: "string list"
  sn_error :: string

type_synonym 'w notifier = "(supersede_notice \<Rightarrow> ('w, bool) io) option"

definition notify :: "'w notifier \<Rightarrow> supersede_notice \<Rightarrow> ('w, bool) io" where
  "notify notifier notice =
     (case notifier of None \<Rightarrow> ret False | Some send \<Rightarrow> tryM (send notice) (\<lambda>_. ret False))"

text \<open>
  \<open>_rescue_lost_supersede\<close>: what this run destroyed is restored where the adapter can, the
  owner is told, and one marker line records what was restored and what was lost. The
  reservation is left in place on purpose.
\<close>

definition restore_exn :: "py_exn \<Rightarrow> bool" where
  "restore_exn e \<longleftrightarrow> e = ApprovalSurfaceError \<or> e = ApprovalRecordsError \<or> is_os_error e"

fun restore_all ::
  "'w gate \<Rightarrow> cleared_item list \<Rightarrow> approval_request list \<Rightarrow> cleared_item list \<Rightarrow>
   ('w, approval_request list \<times> cleared_item list) io" where
  "restore_all g [] restored lost = ret (restored, lost)"
| "restore_all g (item # items) restored lost =
     (case g_restore g of
        None \<Rightarrow> restore_all g items restored (lost @ [item])
      | Some restore \<Rightarrow>
          bindM (attemptM (restore (cl_request item))) (\<lambda>d.
            case d of
              Inl e \<Rightarrow> if restore_exn e then restore_all g items restored (lost @ [item]) else raise e
            | Inr _ \<Rightarrow> restore_all g items (restored @ [cl_request item]) lost))"

definition ids :: "string list \<Rightarrow> json" where
  "ids ms = JArr (map JStr ms)"

definition rescue_lost_supersede ::
  "approval_intent \<Rightarrow> 'g world gate \<Rightarrow> cleared_item list \<Rightarrow> py_exn \<Rightarrow>
   'g world notifier \<Rightarrow> ('g world, verdict) io" where
  "rescue_lost_supersede intent g destroyed err notifier =
     bindM (restore_all g destroyed [] []) (\<lambda>(restored, lost).
     let superseded = map (\<lambda>c. rq_message_id (cl_request c)) destroyed;
         restored_ids = map rq_message_id restored;
         lost_ids = map (\<lambda>c. rq_message_id (cl_request c)) lost in
     bindM (notify notifier \<lparr>sn_key = in_key intent, sn_superseded = superseded,
        sn_restored = restored_ids, sn_lost = lost_ids, sn_error = exn_name err\<rparr>) (\<lambda>notified.
     bindM now (\<lambda>moment.
     bindM (write_marker
        [(''event'', JStr ''supersede-publish-failed''), (''key'', JStr (in_key intent)),
         (''action_hash'', JStr (in_action_hash intent)), (''at'', JStr moment),
         (''error'', JStr (exn_name err)), (''superseded'', ids superseded),
         (''restored'', ids restored_ids), (''lost'', ids lost_ids),
         (''notified'', JBool notified)]) (\<lambda>_.
     ret ((Verdict REFUSED (Some SUPERSEDE_FAILED))\<lparr>v_cleared := lost, v_blocked := restored\<rparr>)))))"

subsection \<open>Recovering a crash between posting and recording\<close>

definition posting_request :: "(string \<times> string) list \<Rightarrow> approval_request option" where
  "posting_request reservation =
     (let message_id = entry_or reservation ''message_id'';
          channel_id = entry_or reservation ''channel_id'';
          key = entry_or reservation ''key'';
          action_hash = entry_or reservation ''action_hash''
      in if message_id = [] \<or> channel_id = [] \<or> key = [] \<or> action_hash = [] then None
         else Some \<lparr>rq_key = key, rq_action_hash = action_hash, rq_message_id = message_id,
                rq_channel_id = channel_id, rq_created_at = entry_or reservation ''at''\<rparr>)"

definition preserved_journal_verdict :: "probe \<Rightarrow> approval_request \<Rightarrow> verdict" where
  "preserved_journal_verdict decision r =
     (case decision of
        APPROVED \<Rightarrow> (Verdict DEFERRED (Some OWNER_DECIDED))\<lparr>v_blocked := [r]\<rparr>
      | CANCELLED \<Rightarrow> (Verdict DEFERRED (Some OWNER_DECIDED))\<lparr>v_blocked := [r]\<rparr>
      | UNVERIFIABLE \<Rightarrow> (Verdict DEFERRED (Some R_UNVERIFIABLE))\<lparr>v_blocked := [r]\<rparr>
      | _ \<Rightarrow> (Verdict REFUSED (Some R_BINDING_MISMATCH))\<lparr>v_blocked := [r]\<rparr>)"

definition recover_posting_journal ::
  "approval_intent \<Rightarrow> 'g world gate \<Rightarrow> (string \<times> string) list \<Rightarrow> ('g world, verdict option) io" where
  "recover_posting_journal intent g reservation =
     (case posting_request reservation of
        None \<Rightarrow> ret (Some (Verdict REFUSED (Some POSTING_JOURNAL_STALE)))
      | Some r \<Rightarrow>
          if rq_key r \<noteq> in_key intent \<or> rq_channel_id r \<noteq> in_channel_id intent
          then ret (Some ((Verdict REFUSED (Some R_BINDING_MISMATCH))\<lparr>v_blocked := [r]\<rparr>))
          else bindM (safe_probe g r) (\<lambda>decision.
            if rq_action_hash r \<noteq> in_action_hash intent then
              (case decision of
                 MISSING \<Rightarrow> bindM (journal_clear (in_key intent)) (\<lambda>_. ret None)
               | BOUND_PENDING \<Rightarrow> bindM (attemptM (g_delete g r)) (\<lambda>d.
                   case d of
                     Inl e \<Rightarrow> if surface_exn e
                       then ret (Some ((Verdict REFUSED (Some SUPERSEDE_FAILED))\<lparr>v_blocked := [r]\<rparr>))
                       else raise e
                   | Inr _ \<Rightarrow> bindM (journal_clear (in_key intent)) (\<lambda>_. ret None))
               | _ \<Rightarrow> ret (Some (preserved_journal_verdict decision r)))
            else
              (case decision of
                 MISSING \<Rightarrow> bindM (journal_clear (in_key intent)) (\<lambda>_. ret None)
               | BOUND_PENDING \<Rightarrow>
                   bindM (g_commit g intent
                      \<lparr>pa_message_id = rq_message_id r, pa_channel_id = rq_channel_id r\<rparr>
                      (rq_created_at r)) (\<lambda>_.
                   bindM (journal_clear (in_key intent)) (\<lambda>_.
                   ret (Some ((Verdict PENDING None)\<lparr>v_live := Some r\<rparr>))))
               | UNVERIFIABLE \<Rightarrow> ret (Some (preserved_journal_verdict decision r))
               | BINDING_MISMATCH \<Rightarrow> ret (Some (preserved_journal_verdict decision r))
               | _ \<Rightarrow>
                   bindM (g_commit g intent
                      \<lparr>pa_message_id = rq_message_id r, pa_channel_id = rq_channel_id r\<rparr>
                      (rq_created_at r)) (\<lambda>_.
                   bindM (journal_clear (in_key intent)) (\<lambda>_.
                   ret (Some ((Verdict DEFERRED (Some OWNER_DECIDED))
                      \<lparr>v_live := Some r, v_blocked := [r]\<rparr>)))))))"

subsection \<open>The request itself\<close>

text \<open>The loop \<open>for request in gone: gate.drop(request); cleared.append(...)\<close>.\<close>

fun drop_gone ::
  "'w gate \<Rightarrow> approval_request list \<Rightarrow> cleared_item list \<Rightarrow> ('w, cleared_item list) io" where
  "drop_gone g [] cleared = ret cleared"
| "drop_gone g (r # rs) cleared =
     bindM (g_drop g r) (\<lambda>_.
       drop_gone g rs (cleared @ [\<lparr>cl_request = r, cl_reason = MESSAGE_MISSING\<rparr>]))"

text \<open>The snapshot \<open>(request, _probe(gate, request))\<close> and its partition by probe state.\<close>

definition snapshot :: "'w gate \<Rightarrow> approval_request list \<Rightarrow> ('w, (approval_request \<times> probe) list) io" where
  "snapshot g rs = mapM (\<lambda>r. bindM (safe_probe g r) (\<lambda>p. ret (r, p))) rs"

definition probed :: "probe set \<Rightarrow> (approval_request \<times> probe) list \<Rightarrow> approval_request list" where
  "probed ps snap = map fst (filter (\<lambda>x. snd x \<in> ps) snap)"

definition same_hash :: "approval_intent \<Rightarrow> approval_request list \<Rightarrow> approval_request list" where
  "same_hash intent rs = sort_key (\<lambda>r. (rq_created_at r, rq_message_id r))
     (filter (\<lambda>r. rq_action_hash r = in_action_hash intent) rs)"

text \<open>The branch \<open>if same:\<close>: keep the oldest card, collapse the duplicates.\<close>

definition keep_canonical ::
  "'w gate \<Rightarrow> approval_request list \<Rightarrow> approval_request \<Rightarrow> approval_request list \<Rightarrow> ('w, verdict) io" where
  "keep_canonical g gone canonical duplicates =
     bindM (drop_gone g gone []) (\<lambda>cleared.
     bindM (destroy g duplicates DUPLICATE_COLLAPSED cleared) (\<lambda>(halted, cleared).
       case halted of
         Some v \<Rightarrow> ret v
       | None \<Rightarrow> ret ((Verdict PENDING (if duplicates = [] then None else Some DUPLICATE_COLLAPSED))
                   \<lparr>v_live := Some canonical, v_cleared := cleared\<rparr>)))"

text \<open>
  The rest: prepare the new card, drop the records whose message is gone, supersede the cards
  with other content, reserve, post, commit, clear the reservation.
\<close>

definition post_new ::
  "approval_intent \<Rightarrow> 'g world gate \<Rightarrow> 'g world notifier \<Rightarrow>
   approval_request list \<Rightarrow> approval_request list \<Rightarrow> ('g world, verdict) io" where
  "post_new intent g notifier gone others =
     bindM (drop_gone g gone []) (\<lambda>cleared.
     bindM (destroy g others CONTENT_CHANGED cleared) (\<lambda>(halted, cleared).
       case halted of
         Some v \<Rightarrow> ret v
       | None \<Rightarrow>
           bindM now (\<lambda>created_at.
           bindM (reserve (in_key intent) (in_action_hash intent) created_at) (\<lambda>_.
           bindM (attemptM (g_post g intent)) (\<lambda>posted.
             case posted of
               Inl e \<Rightarrow>
                 if surface_exn e \<and> cleared \<noteq> []
                 then rescue_lost_supersede intent g cleared e notifier
                 else raise e
             | Inr p \<Rightarrow>
                 bindM (g_commit g intent p created_at) (\<lambda>_.
                 bindM (journal_clear (in_key intent)) (\<lambda>_.
                 ret ((Verdict POSTED None)\<lparr>v_posted := Some p, v_cleared := cleared\<rparr>))))))))"

type_synonym 'g preparation = "('g world, approval_intent \<times> 'g world gate) io option"

definition decide_and_post ::
  "approval_intent \<Rightarrow> 'g world gate \<Rightarrow> 'g world notifier \<Rightarrow> 'g preparation \<Rightarrow> ('g world, verdict) io" where
  "decide_and_post intent g notifier prepare =
     bindM (attemptM (g_outstanding g (in_key intent))) (\<lambda>listed.
       case listed of
         Inl e \<Rightarrow> if e = ApprovalRecordsError
           then ret (Verdict REFUSED (Some STORE_UNREADABLE)) else raise e
       | Inr outstanding \<Rightarrow>
           bindM (snapshot g outstanding) (\<lambda>snap.
             let decided = probed {APPROVED, CANCELLED} snap;
                 unverifiable = probed {UNVERIFIABLE} snap;
                 mismatched = probed {BINDING_MISMATCH} snap;
                 pending = probed {BOUND_PENDING} snap;
                 same = same_hash intent pending;
                 others = filter (\<lambda>r. rq_action_hash r \<noteq> in_action_hash intent) pending;
                 gone = probed {MISSING} snap
             in if decided \<noteq> [] then
                  ret ((Verdict DEFERRED (Some OWNER_DECIDED))\<lparr>v_blocked := decided\<rparr>)
                else if unverifiable \<noteq> [] then
                  ret ((Verdict DEFERRED (Some R_UNVERIFIABLE))\<lparr>v_blocked := unverifiable\<rparr>)
                else if mismatched \<noteq> [] then
                  ret ((Verdict REFUSED (Some R_BINDING_MISMATCH))\<lparr>v_blocked := mismatched\<rparr>)
                else (case same of
                  canonical # duplicates \<Rightarrow> keep_canonical g gone canonical duplicates
                | [] \<Rightarrow> (case prepare of
                      None \<Rightarrow> post_new intent g notifier gone others
                    | Some prep \<Rightarrow> bindM prep (\<lambda>(intent', g').
                        post_new intent' g' notifier gone others)))))"

definition request_owner_approval ::
  "approval_intent \<Rightarrow> 'g world gate \<Rightarrow> 'g world notifier \<Rightarrow> 'g preparation \<Rightarrow> ('g world, verdict) io" where
  "request_owner_approval intent g notifier prepare =
     hold (in_key intent) (\<lambda>owned.
       if \<not> owned then ret (Verdict DEFERRED (Some LEASE_HELD))
       else bindM (journal_outstanding (in_key intent)) (\<lambda>reservation.
         case reservation of
           None \<Rightarrow> decide_and_post intent g notifier prepare
         | Some es \<Rightarrow> bindM (recover_posting_journal intent g es) (\<lambda>recovered.
             case recovered of
               Some v \<Rightarrow> ret v
             | None \<Rightarrow> decide_and_post intent g notifier prepare)))"

section \<open>Consuming a decision\<close>

record 'w watcher =
  wa_probe :: "approval_request \<Rightarrow> ('w, probe) io"
  wa_apply :: "approval_request \<Rightarrow> probe \<Rightarrow> ('w, unit) io"
  wa_drop :: "approval_request \<Rightarrow> ('w, unit) io"

datatype watch_outcome = CONSUMED | WAITING | SKIPPED

record watch_verdict =
  wv_outcome :: watch_outcome
  wv_reason :: "reason option"

definition resolve_owner_decision ::
  "approval_request \<Rightarrow> 'g world watcher \<Rightarrow> ('g world, watch_verdict) io" where
  "resolve_owner_decision r wa =
     hold (rq_key r) (\<lambda>owned.
       if \<not> owned then ret \<lparr>wv_outcome = SKIPPED, wv_reason = Some LEASE_HELD\<rparr>
       else bindM (wa_probe wa r) (\<lambda>decision.
         if decision = APPROVED \<or> decision = CANCELLED
         then bindM (wa_apply wa r decision) (\<lambda>_.
              bindM (wa_drop wa r) (\<lambda>_.
              ret \<lparr>wv_outcome = CONSUMED, wv_reason = None\<rparr>))
         else ret \<lparr>wv_outcome = WAITING, wv_reason = None\<rparr>))"

end
