(* ===== verification/Lifecycle_Discipline.thy ===== *)
theory Lifecycle_Discipline
  imports Approval_Lifecycle
begin

text \<open>
  The call discipline of the approval lifecycle. A gate is instrumented so that it records
  every call made to it (\<open>traced\<close>); the instrumentation changes nothing the code can
  observe (\<open>traced_run\<close>). The interface the proof uses is the locale \<open>call_log\<close>: a gate
  whose operations append exactly their own call. Over it, the header's rules L2, L3 and L4
  become one predicate on the recorded calls, \<open>disciplined\<close>, and every function of the
  lifecycle is shown to keep it by Hoare triples.
\<close>

section \<open>Recorded calls\<close>

datatype call =
    CList string
  | CProbe approval_request "py_exn + probe"
  | CDelete approval_request bool
  | CDrop approval_request
  | CPost approval_intent "posted_approval option"
  | CCommit approval_intent posted_approval
  | CRestore approval_request

definition ok :: "'e + 'a \<Rightarrow> bool" where
  "ok r = (case r of Inl _ \<Rightarrow> False | Inr _ \<Rightarrow> True)"

definition succeeded :: "'e + 'a \<Rightarrow> 'a option" where
  "succeeded r = (case r of Inl _ \<Rightarrow> None | Inr a \<Rightarrow> Some a)"

text \<open>
  When a call may be made, given the calls before it: a card is deleted only directly after a
  probe that found it bound and undecided; a record is dropped only directly after its card was
  deleted, or when a probe of this run found the card missing; a new card is posted at most
  once, and only if every probe of this run found its card undecided or missing; a record is
  committed only for the card just posted for that intent, or for a card just probed that
  carries the intent's key and hash; a destroyed request is restored only after a post failed.
\<close>

fun permitted :: "call list \<Rightarrow> call \<Rightarrow> bool" where
  "permitted past (CDelete r _) \<longleftrightarrow> past \<noteq> [] \<and> last past = CProbe r (Inr BOUND_PENDING)"
| "permitted past (CDrop r) \<longleftrightarrow>
     past \<noteq> [] \<and> last past = CDelete r True \<or> CProbe r (Inr MISSING) \<in> set past"
| "permitted past (CPost i _) \<longleftrightarrow>
     (\<forall>c \<in> set past. case c of CPost _ _ \<Rightarrow> False
        | CProbe _ x \<Rightarrow> x = Inr BOUND_PENDING \<or> x = Inr MISSING | _ \<Rightarrow> True)"
| "permitted past (CCommit i pa) \<longleftrightarrow>
     past \<noteq> [] \<and> (last past = CPost i (Some pa) \<or>
       (\<exists>r p. last past = CProbe r (Inr p) \<and> p \<in> {BOUND_PENDING, APPROVED, CANCELLED} \<and>
          rq_key r = in_key i \<and> rq_action_hash r = in_action_hash i \<and>
          rq_message_id r = pa_message_id pa \<and> rq_channel_id r = pa_channel_id pa))"
| "permitted past (CRestore r) \<longleftrightarrow> (\<exists>i. CPost i None \<in> set past)"
| "permitted past _ \<longleftrightarrow> True"

fun disciplined_after :: "call list \<Rightarrow> call list \<Rightarrow> bool" where
  "disciplined_after past [] \<longleftrightarrow> True"
| "disciplined_after past (c # cs) \<longleftrightarrow> permitted past c \<and> disciplined_after (past @ [c]) cs"

definition disciplined :: "call list \<Rightarrow> bool" where
  "disciplined cs = disciplined_after [] cs"

lemma disciplined_after_snoc:
  "disciplined_after past (cs @ [c]) \<longleftrightarrow> disciplined_after past cs \<and> permitted (past @ cs) c"
  by (induction cs arbitrary: past) auto

lemma disciplined_snoc [simp]: "disciplined (cs @ [c]) \<longleftrightarrow> disciplined cs \<and> permitted cs c"
  by (simp add: disciplined_def disciplined_after_snoc)

lemma disciplined_Nil [simp]: "disciplined []"
  by (simp add: disciplined_def)

lemma disciplined_splitD: "disciplined (pre @ c # post) \<Longrightarrow> permitted pre c"
proof -
  have "disciplined_after past (cs @ c # post) \<Longrightarrow> permitted (past @ cs) c" for past cs
    by (induction cs arbitrary: past) fastforce+
  then show "disciplined (pre @ c # post) \<Longrightarrow> permitted pre c"
    by (fastforce simp: disciplined_def)
qed

definition good_probe :: "probe \<Rightarrow> bool" where
  "good_probe p \<longleftrightarrow> p = BOUND_PENDING \<or> p = MISSING"

definition postable :: "call list \<Rightarrow> bool" where
  "postable cs \<longleftrightarrow> (\<forall>c \<in> set cs. case c of CPost _ _ \<Rightarrow> False
        | CProbe _ x \<Rightarrow> x = Inr BOUND_PENDING \<or> x = Inr MISSING | _ \<Rightarrow> True)"

lemma permitted_CPost [simp]: "permitted past (CPost i b) = postable past"
  by (simp add: postable_def)

declare permitted.simps(3) [simp del]

lemma postable_snoc [simp]:
  "postable (cs @ [CProbe r x]) \<longleftrightarrow> postable cs \<and> (x = Inr BOUND_PENDING \<or> x = Inr MISSING)"
  "postable (cs @ [CDelete r b]) = postable cs"
  "postable (cs @ [CDrop r]) = postable cs"
  "postable (cs @ [CList k]) = postable cs"
  by (auto simp: postable_def)

text \<open>The probe calls behind the requests a snapshot found missing.\<close>

definition missing_calls :: "(approval_request \<times> probe) list \<Rightarrow> call set" where
  "missing_calls snap = (\<lambda>r. CProbe r (Inr MISSING)) ` set (probed {MISSING} snap)"

lemma missing_calls_simps [simp]:
  "missing_calls [] = {}"
  "missing_calls (x # snap) =
     (if snd x = MISSING then {CProbe (fst x) (Inr MISSING)} else {}) \<union> missing_calls snap"
  by (auto simp: missing_calls_def probed_def)

section \<open>The interface: a gate that logs its calls\<close>

locale call_log =
  fixes log :: "'g \<Rightarrow> call list"
    and logged :: "'g world gate \<Rightarrow> bool"
  assumes log_outstanding: "logged g \<Longrightarrow> g_outstanding g k w = (a, w') \<Longrightarrow>
      log (w_gate w') = log (w_gate w) @ [CList k]"
    and log_probe: "logged g \<Longrightarrow> g_probe g r w = (p, w') \<Longrightarrow>
      log (w_gate w') = log (w_gate w) @ [CProbe r p]"
    and log_delete: "logged g \<Longrightarrow> g_delete g r w = (u, w') \<Longrightarrow>
      log (w_gate w') = log (w_gate w) @ [CDelete r (ok u)]"
    and log_drop: "logged g \<Longrightarrow> g_drop g r w = (u, w') \<Longrightarrow>
      log (w_gate w') = log (w_gate w) @ [CDrop r]"
    and log_post: "logged g \<Longrightarrow> g_post g i w = (q, w') \<Longrightarrow>
      log (w_gate w') = log (w_gate w) @ [CPost i (succeeded q)]"
    and log_commit: "logged g \<Longrightarrow> g_commit g i pa t w = (u, w') \<Longrightarrow>
      log (w_gate w') = log (w_gate w) @ [CCommit i pa]"
    and log_restore: "logged g \<Longrightarrow> g_restore g = Some f \<Longrightarrow> f r w = (u, w') \<Longrightarrow>
      log (w_gate w') = log (w_gate w) @ [CRestore r]"
begin

definition calls :: "'g world \<Rightarrow> call list" where
  "calls w = log (w_gate w)"

definition disc :: "'g world \<Rightarrow> bool" where
  "disc w = disciplined (calls w)"

text \<open>The working assertion: disciplined so far, still free to post, and known probe results.\<close>

definition free :: "bool \<Rightarrow> call set \<Rightarrow> 'g world \<Rightarrow> bool" where
  "free b S w \<longleftrightarrow> disciplined (calls w) \<and> (b \<longrightarrow> postable (calls w)) \<and> S \<subseteq> set (calls w)"

lemma free_disc: "free b S w \<Longrightarrow> disc w"
  by (simp add: free_def disc_def)

lemma disc_eq: "disc w = free False {} w"
  by (simp add: free_def disc_def)

lemma safe_probe_free:
  assumes "logged g"
  shows "hoare (free b S) (safe_probe g r)
     (\<lambda>p w. free (b \<and> good_probe p) S w \<and>
        (p \<noteq> UNVERIFIABLE \<longrightarrow> calls w \<noteq> [] \<and> last (calls w) = CProbe r (Inr p)))
     (\<lambda>_. disc)"
proof (rule hoareI)
  fix w p w' assume w: "free b S w" and run: "safe_probe g r w = (Inr p, w')"
  obtain x u where px: "g_probe g r w = (x, u)" by fastforce
  note app = log_probe[OF assms px]
  have "w' = u" and "x = Inr p \<or> p = UNVERIFIABLE \<and> (\<exists>e. x = Inl e)"
    using run px by (auto simp: safe_probe_def tryM_def ret_def raise_def good_probe_def
        split: sum.splits if_splits)
  then show "free (b \<and> good_probe p) S w' \<and>
        (p \<noteq> UNVERIFIABLE \<longrightarrow> calls w' \<noteq> [] \<and> last (calls w') = CProbe r (Inr p))"
    using w app by (auto simp: free_def calls_def good_probe_def)
next
  fix w e w' assume w: "free b S w" and run: "safe_probe g r w = (Inl e, w')"
  obtain x u where px: "g_probe g r w = (x, u)" by fastforce
  have "w' = u" using run px
    by (auto simp: safe_probe_def tryM_def ret_def raise_def split: sum.splits if_splits)
  then show "disc w'" using w log_probe[OF assms px] by (auto simp: free_def disc_def calls_def)
qed

lemma drop_free:
  assumes "logged g"
  shows "hoare (\<lambda>w. free b S w \<and> permitted (calls w) (CDrop r)) (g_drop g r)
     (\<lambda>_. free b S) (\<lambda>_. disc)"
  using log_drop[OF assms] by (auto intro!: hoareI simp: free_def disc_def calls_def)

lemma delete_free:
  assumes "logged g"
  shows "hoare (\<lambda>w. free b S w \<and> calls w \<noteq> [] \<and> last (calls w) = CProbe r (Inr BOUND_PENDING))
     (attemptM (g_delete g r))
     (\<lambda>d w. free b S w \<and> (ok d \<longrightarrow> permitted (calls w) (CDrop r))) (\<lambda>_. disc)"
  using log_delete[OF assms]
  by (auto intro!: hoareI simp: attemptM_def free_def disc_def calls_def split: prod.splits)

lemma destroy_free:
  assumes "logged g"
  shows "hoare (free True S) (destroy g doomed why cleared)
     (\<lambda>(halted, _) w. disc w \<and> (halted = None \<longrightarrow> free True S w)) (\<lambda>_. disc)"
proof (induction doomed arbitrary: cleared)
  case Nil
  show ?case by (auto intro!: hoareI simp: ret_def free_disc)
next
  case (Cons r doomed)
  let ?Q = "\<lambda>(halted, _) w. disc w \<and> (halted = None \<longrightarrow> free True S w)"
  have step: "hoare (\<lambda>w. free True S w \<and> permitted (calls w) (CDrop r))
      (bindM (g_drop g r) (\<lambda>_. destroy g doomed why c)) ?Q (\<lambda>_. disc)" for c
    by (rule hoare_bind[OF drop_free[OF assms]]) (rule Cons.IH)
  have stop: "hoare disc (ret (Some v, c)) ?Q (\<lambda>_. disc)" for v c
    by (auto intro!: hoareI simp: ret_def)
  have body: "hoare (\<lambda>w. free (True \<and> good_probe p) S w \<and>
        (p \<noteq> UNVERIFIABLE \<longrightarrow> calls w \<noteq> [] \<and> last (calls w) = CProbe r (Inr p)))
      (case p of
         APPROVED \<Rightarrow> ret (Some ((Verdict DEFERRED (Some OWNER_DECIDED))
                       \<lparr>v_cleared := cleared, v_blocked := [r]\<rparr>), cleared)
       | CANCELLED \<Rightarrow> ret (Some ((Verdict DEFERRED (Some OWNER_DECIDED))
                       \<lparr>v_cleared := cleared, v_blocked := [r]\<rparr>), cleared)
       | UNVERIFIABLE \<Rightarrow> ret (Some ((Verdict DEFERRED (Some R_UNVERIFIABLE))
                       \<lparr>v_cleared := cleared, v_blocked := [r]\<rparr>), cleared)
       | BINDING_MISMATCH \<Rightarrow> ret (Some ((Verdict REFUSED (Some R_BINDING_MISMATCH))
                       \<lparr>v_cleared := cleared, v_blocked := [r]\<rparr>), cleared)
       | MISSING \<Rightarrow> bindM (g_drop g r) (\<lambda>_.
           destroy g doomed why (cleared @ [\<lparr>cl_request = r, cl_reason = MESSAGE_MISSING\<rparr>]))
       | BOUND_PENDING \<Rightarrow> bindM (attemptM (g_delete g r)) (\<lambda>d.
           case d of
             Inl e \<Rightarrow> if surface_exn e
               then ret (Some ((Verdict REFUSED (Some SUPERSEDE_FAILED))
                       \<lparr>v_cleared := cleared, v_blocked := [r]\<rparr>), cleared)
               else raise e
           | Inr _ \<Rightarrow> bindM (g_drop g r) (\<lambda>_.
               destroy g doomed why (cleared @ [\<lparr>cl_request = r, cl_reason = why\<rparr>]))))
      ?Q (\<lambda>_. disc)" for p
  proof (cases p)
    case BOUND_PENDING
    have rest: "hoare (\<lambda>w. free True S w \<and> (ok d \<longrightarrow> permitted (calls w) (CDrop r)))
      (case d of
             Inl e \<Rightarrow> if surface_exn e
               then ret (Some ((Verdict REFUSED (Some SUPERSEDE_FAILED))
                       \<lparr>v_cleared := cleared, v_blocked := [r]\<rparr>), cleared)
               else raise e
           | Inr _ \<Rightarrow> bindM (g_drop g r) (\<lambda>_.
               destroy g doomed why (cleared @ [\<lparr>cl_request = r, cl_reason = why\<rparr>])))
      ?Q (\<lambda>_. disc)" for d
    proof (cases d)
      case (Inl e)
      then show ?thesis by (auto intro!: hoareI simp: ret_def raise_def free_disc split: if_splits)
    next
      case (Inr a)
      then show ?thesis using hoare_pre[OF step] by (simp add: ok_def)
    qed
    show ?thesis
      unfolding BOUND_PENDING probe.case
      by (rule hoare_bind[OF hoare_pre[OF delete_free[OF assms, of True S r]] rest])
        (simp add: good_probe_def)
  next
    case MISSING
    then show ?thesis
      using hoare_pre[OF step] by (auto simp: good_probe_def intro!: hoare_pre[OF step] disjI2) (metis last_in_set)
  qed (auto intro!: hoare_pre[OF stop] simp: free_disc)
  show ?case
    unfolding destroy.simps by (rule hoare_bind[OF safe_probe_free[OF assms] body])
qed

lemma drop_gone_free:
  assumes "logged g" and "\<forall>r \<in> set gone. CProbe r (Inr MISSING) \<in> S"
  shows "hoare (free True S) (drop_gone g gone cleared) (\<lambda>_. free True S) (\<lambda>_. disc)"
  using assms(2)
proof (induction gone arbitrary: cleared)
  case Nil
  show ?case by (auto intro!: hoareI simp: ret_def)
next
  case (Cons r gone)
  have "hoare (free True S) (g_drop g r) (\<lambda>_. free True S) (\<lambda>_. disc)"
    by (rule hoare_pre[OF drop_free[OF assms(1)]]) (use Cons.prems in \<open>auto simp: free_def\<close>)
  then show ?case
    using Cons by (auto intro!: hoare_bind)
qed

lemma snapshot_free:
  assumes "logged g"
  shows "hoare (free b S) (snapshot g rs)
     (\<lambda>snap w. free (b \<and> (\<forall>x \<in> set snap. good_probe (snd x))) (S \<union> missing_calls snap) w)
     (\<lambda>_. disc)"
proof (induction rs arbitrary: b S)
  case Nil
  show ?case by (auto intro!: hoareI simp: snapshot_def ret_def free_def)
next
  case (Cons r rs)
  have one: "hoare (free b S) (bindM (safe_probe g r) (\<lambda>p. ret (r, p)))
      (\<lambda>x w. free (b \<and> good_probe (snd x)) (S \<union> missing_calls [x]) w) (\<lambda>_. disc)"
  proof (rule hoare_bind[OF safe_probe_free[OF assms]], rule hoareI)
    fix p w x w'
    assume "free (b \<and> good_probe p) S w \<and>
        (p \<noteq> UNVERIFIABLE \<longrightarrow> calls w \<noteq> [] \<and> last (calls w) = CProbe r (Inr p))"
      and "ret (r, p) w = (Inr x, w')"
    then show "free (b \<and> good_probe (snd x)) (S \<union> missing_calls [x]) w'"
      by (auto simp: ret_def free_def good_probe_def dest: last_in_set)
  qed (simp add: ret_def)
  have finish: "hoare (free ((b \<and> good_probe (snd x)) \<and> (\<forall>x \<in> set snap. good_probe (snd x)))
          (S \<union> missing_calls [x] \<union> missing_calls snap)) (ret (x # snap))
        (\<lambda>snap. free (b \<and> (\<forall>x \<in> set snap. good_probe (snd x))) (S \<union> missing_calls snap))
        (\<lambda>_. disc)" for x :: "approval_request \<times> probe" and snap
    by (rule hoareI) (auto simp: ret_def free_def split: if_splits)
  show ?case
    unfolding snapshot_def mapM.simps
    by (rule hoare_bind[OF one], fold snapshot_def, rule hoare_bind[OF Cons.IH finish])
qed


subsection \<open>Code that makes no gate call\<close>

definition quiet :: "('g world, 'a) io \<Rightarrow> bool" where
  "quiet m \<longleftrightarrow> (\<forall>w. calls (snd (m w)) = calls w)"

lemma quiet_keeps:
  assumes "quiet m"
  shows "hoare (\<lambda>w. disc w \<and> P (calls w)) m (\<lambda>_ w. disc w \<and> P (calls w)) (\<lambda>_. disc)"
  using assms by (auto intro!: hoareI simp: quiet_def disc_def) (metis snd_conv)+

lemma quiet_free: "quiet m \<Longrightarrow> hoare (free b S) m (\<lambda>_. free b S) (\<lambda>_. disc)"
  by (rule hoare_conseq[OF quiet_keeps[of m "\<lambda>cs. (b \<longrightarrow> postable cs) \<and> S \<subseteq> set cs"]])
    (auto simp: free_def disc_def)

lemma quiet_disc: "quiet m \<Longrightarrow> hoare disc m (\<lambda>_. disc) (\<lambda>_. disc)"
  using quiet_keeps[of m "\<lambda>_. True"] by simp

lemma calls_world [simp]:
  "calls (w\<lparr>w_held := x\<rparr>) = calls w" "calls (w\<lparr>w_audit := y\<rparr>) = calls w"
  "calls (journal_put k f w) = calls w" "calls (journal_del k w) = calls w"
  by (simp_all add: calls_def journal_put_def journal_del_def)

lemma quiet_journal:
  "quiet now" "quiet (reserve k h t)" "quiet (journal_clear k)" "quiet (journal_outstanding k)"
  by (simp_all add: quiet_def now_def getsM_def reserve_def journal_write_def journal_clear_def
      journal_outstanding_def)

lemma quiet_write_marker: "quiet (write_marker line)"
  by (auto simp: quiet_def write_marker_def tryM_def bindM_def append_audit_def ret_def raise_def)

definition quiet_notifier :: "'g world notifier \<Rightarrow> bool" where
  "quiet_notifier n \<longleftrightarrow> (case n of None \<Rightarrow> True | Some send \<Rightarrow> \<forall>x. quiet (send x))"

lemma quiet_notify: "quiet_notifier n \<Longrightarrow> quiet (notify n x)"
  by (auto simp: quiet_def quiet_notifier_def notify_def ret_def tryM_def
      split: option.splits prod.splits sum.splits) (metis snd_conv)+

subsection \<open>Commit, post, restore\<close>

lemma commit_disc:
  assumes "logged g"
  shows "hoare (\<lambda>w. disc w \<and> permitted (calls w) (CCommit i pa)) (g_commit g i pa t)
     (\<lambda>_. disc) (\<lambda>_. disc)"
  using log_commit[OF assms] by (auto intro!: hoareI simp: disc_def calls_def)

lemma post_disc:
  assumes "logged g"
  shows "hoare (free True S) (attemptM (g_post g i))
     (\<lambda>q w. disc w \<and> calls w \<noteq> [] \<and> last (calls w) = CPost i (succeeded q)) (\<lambda>_. disc)"
  using log_post[OF assms]
  by (auto intro!: hoareI simp: attemptM_def free_def disc_def calls_def split: prod.splits)

definition post_failed :: "'g world \<Rightarrow> bool" where
  "post_failed w \<longleftrightarrow> disc w \<and> (\<exists>i. CPost i None \<in> set (calls w))"

lemma quiet_post_failed: "quiet m \<Longrightarrow> hoare post_failed m (\<lambda>_. post_failed) (\<lambda>_. disc)"
  using quiet_keeps[of m "\<lambda>cs. \<exists>i. CPost i None \<in> set cs"] by (simp add: post_failed_def[abs_def])

lemma restore_disc:
  assumes "logged g" and "g_restore g = Some f"
  shows "hoare post_failed (attemptM (f r)) (\<lambda>_. post_failed) (\<lambda>_. disc)"
  using log_restore[OF assms]
  by (auto intro!: hoareI simp: attemptM_def post_failed_def disc_def calls_def split: prod.splits)

lemma restore_all_disc:
  assumes "logged g"
  shows "hoare post_failed (restore_all g items restored lost) (\<lambda>_. post_failed) (\<lambda>_. disc)"
proof (induction items arbitrary: restored lost)
  case Nil
  show ?case by (auto intro!: hoareI simp: ret_def)
next
  case (Cons c items)
  show ?case
  proof (cases "g_restore g")
    case None
    then show ?thesis using Cons.IH by simp
  next
    case (Some f)
    have "hoare post_failed
       (case d of
          Inl e \<Rightarrow> if restore_exn e then restore_all g items restored (lost @ [c]) else raise e
        | Inr u \<Rightarrow> restore_all g items (restored @ [cl_request c]) lost)
       (\<lambda>_. post_failed) (\<lambda>_. disc)" for d :: "py_exn + unit"
      by (auto split: sum.split intro!: Cons.IH hoare_pre[OF hoare_raise] simp: post_failed_def)
    then show ?thesis
      unfolding restore_all.simps Some option.case by (rule hoare_bind[OF restore_disc[OF assms Some]])
  qed
qed

lemma ret_disc: "hoare disc (ret v) (\<lambda>_. disc) (\<lambda>_. disc)"
  by (rule hoare_ret)

lemma rescue_disc:
  assumes "logged g" and "quiet_notifier n"
  shows "hoare post_failed (rescue_lost_supersede i g cleared e n) (\<lambda>_. disc) (\<lambda>_. disc)"
proof -
  have ret_v: "hoare post_failed (ret v) (\<lambda>_. disc) (\<lambda>_. disc)" for v :: verdict
    by (rule hoare_pre[OF ret_disc]) (simp add: post_failed_def)
  show ?thesis
    unfolding rescue_lost_supersede_def Let_def
    by (auto intro!: hoare_bind[OF restore_all_disc[OF assms(1)]]
        hoare_bind[OF quiet_post_failed[OF quiet_notify[OF assms(2)]]]
        hoare_bind[OF quiet_post_failed[OF quiet_journal(1)]]
        hoare_bind[OF quiet_post_failed[OF quiet_write_marker]] ret_v split: prod.split)
qed

subsection \<open>The request\<close>

lemma post_new_disc:
  assumes "logged g" and "quiet_notifier n" and "\<forall>r \<in> set gone. CProbe r (Inr MISSING) \<in> S"
  shows "hoare (free True S) (post_new i g n gone others) (\<lambda>_. disc) (\<lambda>_. disc)"
proof -
  let ?D = "\<lambda>_. disc"
  have clear: "hoare disc (bindM (journal_clear (in_key i)) (\<lambda>_. ret v)) ?D ?D" for v :: verdict
    by (rule hoare_bind[OF quiet_disc[OF quiet_journal(3)] ret_disc])
  have after: "hoare (\<lambda>w. disc w \<and> calls w \<noteq> [] \<and> last (calls w) = CPost i (succeeded q))
      (case q of
         Inl e \<Rightarrow> if surface_exn e \<and> cleared \<noteq> []
           then rescue_lost_supersede i g cleared e n else raise e
       | Inr p \<Rightarrow> bindM (g_commit g i p t) (\<lambda>_. bindM (journal_clear (in_key i)) (\<lambda>_.
           ret ((Verdict POSTED None)\<lparr>v_posted := Some p, v_cleared := cleared\<rparr>)))) ?D ?D"
    for q cleared t
  proof (cases q)
    case (Inl e)
    then show ?thesis
      by (auto intro!: hoare_pre[OF rescue_disc[OF assms(1,2)]] hoare_pre[OF hoare_raise]
          simp: post_failed_def succeeded_def) (metis last_in_set)
  next
    case (Inr p)
    then show ?thesis
      by (auto simp: succeeded_def intro!: hoare_bind[OF hoare_pre[OF commit_disc[OF assms(1)]] clear])
  qed
  show ?thesis
    unfolding post_new_def
  proof (rule hoare_bind[OF drop_gone_free[OF assms(1,3)]],
      rule hoare_bind[OF destroy_free[OF assms(1)]], clarsimp, rename_tac halted cleared)
    fix halted cleared
    let ?post = "bindM now (\<lambda>t. bindM (reserve (in_key i) (in_action_hash i) t) (\<lambda>_.
       bindM (attemptM (g_post g i)) (\<lambda>q. case q of
         Inl e \<Rightarrow> if surface_exn e \<and> cleared \<noteq> []
           then rescue_lost_supersede i g cleared e n else raise e
       | Inr p \<Rightarrow> bindM (g_commit g i p t) (\<lambda>_. bindM (journal_clear (in_key i)) (\<lambda>_.
           ret ((Verdict POSTED None)\<lparr>v_posted := Some p, v_cleared := cleared\<rparr>))))))"
    have "hoare (free True S) ?post ?D ?D"
      by (rule hoare_bind[OF quiet_free[OF quiet_journal(1)]],
          rule hoare_bind[OF quiet_free[OF quiet_journal(2)]],
          rule hoare_bind[OF post_disc[OF assms(1)] after])
    then show "hoare (\<lambda>w. disc w \<and> (halted = None \<longrightarrow> free True S w))
       (case halted of None \<Rightarrow> ?post | Some v \<Rightarrow> ret v) ?D ?D"
      by (cases halted) (auto intro: hoare_pre[OF ret_disc] hoare_pre)
  qed
qed


lemma keep_canonical_disc:
  assumes "logged g" and "\<forall>r \<in> set gone. CProbe r (Inr MISSING) \<in> S"
  shows "hoare (free True S) (keep_canonical g gone canonical duplicates) (\<lambda>_. disc) (\<lambda>_. disc)"
  unfolding keep_canonical_def
  by (rule hoare_bind[OF drop_gone_free[OF assms]], rule hoare_bind[OF destroy_free[OF assms(1)]])
    (auto split: option.split intro: hoare_pre[OF ret_disc])

lemma recover_disc:
  assumes "logged g"
  shows "hoare (free True {}) (recover_posting_journal i g es)
     (\<lambda>v w. disc w \<and> (v = None \<longrightarrow> free True {} w)) (\<lambda>_. disc)"
proof -
  let ?Q = "\<lambda>v w. disc w \<and> (v = None \<longrightarrow> free True {} w)"
  let ?D = "\<lambda>_ w. disc w"
  have stop: "hoare P (ret (Some v)) ?Q ?D" if "\<And>w. P w \<Longrightarrow> disc w" for v P
    using that by (auto intro!: hoareI simp: ret_def)
  have clear: "hoare (free True {}) (bindM (journal_clear (in_key i)) (\<lambda>_. ret None)) ?Q ?D"
    by (rule hoare_bind[OF quiet_free[OF quiet_journal(3)]]) (auto intro!: hoareI simp: ret_def free_disc)
  have adopt: "hoare (\<lambda>w. disc w \<and> permitted (calls w) (CCommit i pa))
      (bindM (g_commit g i pa t) (\<lambda>_. bindM (journal_clear (in_key i)) (\<lambda>_. ret (Some v)))) ?Q ?D"
    for v pa t
    by (rule hoare_bind[OF commit_disc[OF assms] hoare_bind[OF quiet_disc[OF quiet_journal(3)] stop]])
  have delete: "hoare (\<lambda>w. free True {} w \<and> calls w \<noteq> [] \<and> last (calls w) = CProbe r (Inr BOUND_PENDING))
      (bindM (attemptM (g_delete g r)) (\<lambda>d. case d of
          Inl e \<Rightarrow> if surface_exn e then ret (Some v) else raise e
        | Inr _ \<Rightarrow> bindM (journal_clear (in_key i)) (\<lambda>_. ret None))) ?Q ?D" for r v
    by (rule hoare_bind[OF delete_free[OF assms]])
      (auto split: sum.split intro!: stop hoare_pre[OF hoare_raise] hoare_pre[OF clear] simp: free_disc)
  have probe: "hoare (free True {}) (bindM (safe_probe g r) k) ?Q ?D"
    if "\<And>p. hoare (\<lambda>w. free (good_probe p) {} w \<and>
          (p \<noteq> UNVERIFIABLE \<longrightarrow> calls w \<noteq> [] \<and> last (calls w) = CProbe r (Inr p))) (k p) ?Q ?D" for r k
    using that by (intro hoare_bind[OF safe_probe_free[OF assms]]) simp
  show ?thesis
  proof (cases "posting_request es")
    case None
    then show ?thesis unfolding recover_posting_journal_def by (simp add: stop free_disc)
  next
    case (Some r)
    then show ?thesis
      unfolding recover_posting_journal_def Some option.case
      apply (clarsimp simp: stop free_disc intro!: probe)
      subgoal for p
        by (cases p) (auto simp: good_probe_def free_disc intro!: stop hoare_pre[OF clear]
            hoare_pre[OF delete] hoare_pre[OF adopt])
      done
  qed
qed

lemma decide_and_post_disc:
  assumes "logged g" and "quiet_notifier n"
    and "\<And>m. prepare = Some m \<Longrightarrow> quiet m"
    and "\<And>m w i' g' w'. prepare = Some m \<Longrightarrow> m w = (Inr (i', g'), w') \<Longrightarrow> logged g'"
  shows "hoare (free True {}) (decide_and_post i g n prepare) (\<lambda>_. disc) (\<lambda>_. disc)"
proof -
  let ?D = "\<lambda>_ w. disc w"
  have list: "hoare (free True {}) (attemptM (g_outstanding g (in_key i))) (\<lambda>_. free True {}) ?D"
    using log_outstanding[OF assms(1)]
    by (auto intro!: hoareI simp: attemptM_def free_def calls_def split: prod.splits)
  have fresh: "hoare (free True (missing_calls snap)) (case prepare of
        None \<Rightarrow> post_new i g n (probed {MISSING} snap) others
      | Some m \<Rightarrow> bindM m (\<lambda>(i', g'). post_new i' g' n (probed {MISSING} snap) others)) ?D ?D"
    for snap others
  proof (cases prepare)
    case None
    then show ?thesis by (simp add: post_new_disc[OF assms(1,2)] missing_calls_def)
  next
    case (Some m)
    have "hoare (free True (missing_calls snap)) m
       (\<lambda>x w. free True (missing_calls snap) w \<and> logged (snd x)) ?D"
      using quiet_free[OF assms(3)[OF Some]] assms(4)[OF Some] by (fastforce simp: hoare_def split: prod.splits sum.splits)
    then show ?thesis
      unfolding Some option.case
    proof (rule hoare_bind, clarsimp)
      fix i' g'
      show "hoare (\<lambda>w. free True (missing_calls snap) w \<and> logged g')
         (post_new i' g' n (probed {MISSING} snap) others) ?D ?D"
        by (cases "logged g'")
          (simp add: post_new_disc[OF _ assms(2)] missing_calls_def, simp add: hoare_def)
    qed
  qed
  have good: "\<forall>x \<in> set snap. good_probe (snd x)"
    if "probed {APPROVED, CANCELLED} snap = []" "probed {UNVERIFIABLE} snap = []"
      "probed {BINDING_MISMATCH} snap = []" for snap :: "(approval_request \<times> probe) list"
  proof
    fix x assume "x \<in> set snap"
    then show "good_probe (snd x)"
      using that by (cases "snd x") (auto simp: probed_def filter_empty_conv good_probe_def)
  qed
  have dec: "hoare (\<lambda>w. free (\<forall>x \<in> set snap. good_probe (snd x)) (missing_calls snap) w)
     (case rs of canonical # duplicates \<Rightarrow> keep_canonical g (probed {MISSING} snap) canonical duplicates
      | [] \<Rightarrow> (case prepare of
          None \<Rightarrow> post_new i g n (probed {MISSING} snap) others
        | Some m \<Rightarrow> bindM m (\<lambda>(i', g'). post_new i' g' n (probed {MISSING} snap) others))) ?D ?D"
    if "\<forall>x \<in> set snap. good_probe (snd x)" for rs snap others
    using that fresh keep_canonical_disc[OF assms(1), of "probed {MISSING} snap" "missing_calls snap"]
    by (cases rs) (auto simp: missing_calls_def)
  have stop: "hoare P (ret v) ?D ?D" if "\<And>w. P w \<Longrightarrow> disc w" for v :: verdict and P
    by (rule hoare_pre[OF ret_disc that])
  show ?thesis
    unfolding decide_and_post_def Let_def
    apply (rule hoare_bind[OF list])
    subgoal for listed
      apply (cases listed)
       apply (auto intro!: stop hoare_pre[OF hoare_raise] simp: free_disc)[1]
      apply (simp only: sum.case)
      apply (rule hoare_bind[OF snapshot_free[OF assms(1), of True "{}", simplified]])
      by (auto intro!: stop dec simp: free_disc dest: good[THEN bspec])
    done
qed

lemma hold_free: "free b S (w\<lparr>w_held := x\<rparr>) = free b S w" and hold_disc: "disc (w\<lparr>w_held := x\<rparr>) = disc w"
  by (simp_all add: free_def disc_def)

lemma request_disciplined:
  assumes "logged g" and "quiet_notifier n"
    and "\<And>m. prepare = Some m \<Longrightarrow> quiet m"
    and "\<And>m w i' g' w'. prepare = Some m \<Longrightarrow> m w = (Inr (i', g'), w') \<Longrightarrow> logged g'"
  shows "hoare (\<lambda>w. calls w = []) (request_owner_approval i g n prepare) (\<lambda>_. disc) (\<lambda>_. disc)"
proof -
  note decide = decide_and_post_disc[OF assms(1,2,3,4)]
  have "hoare (free True {}) (bindM (journal_outstanding (in_key i)) (\<lambda>reservation.
         case reservation of
           None \<Rightarrow> decide_and_post i g n prepare
         | Some es \<Rightarrow> bindM (recover_posting_journal i g es) (\<lambda>recovered.
             case recovered of
               Some v \<Rightarrow> ret v
             | None \<Rightarrow> decide_and_post i g n prepare))) (\<lambda>_. disc) (\<lambda>_. disc)"
    by (rule hoare_bind[OF quiet_free[OF quiet_journal(4)]])
      (auto split: option.split intro!: decide hoare_bind[OF recover_disc[OF assms(1)]]
        hoare_pre[OF decide] hoare_pre[OF ret_disc])
  note body = this
  have start: "free True {} w" if "calls w = []" for w
    using that by (simp add: free_def postable_def)
  show ?thesis
    unfolding request_owner_approval_def
    by (rule hoare_hold)
      (auto simp: hold_disc hold_free start free_disc[OF start] intro!: hoare_pre[OF ret_disc] hoare_pre[OF body])
qed

end

section \<open>Recording the calls of any gate\<close>

text \<open>
  The world of an instrumented run carries the calls made so far beside the gate's own state;
  \<open>strip\<close> forgets them.
\<close>

definition strip :: "('g \<times> call list) world \<Rightarrow> 'g world" where
  "strip w = \<lparr>w_disk = w_disk w, w_now = w_now w, w_held = w_held w, w_posting = w_posting w,
     w_reminders = w_reminders w, w_audit = w_audit w, w_gate = fst (w_gate w)\<rparr>"

definition wrap :: "call list \<Rightarrow> 'g world \<Rightarrow> ('g \<times> call list) world" where
  "wrap cs w = \<lparr>w_disk = w_disk w, w_now = w_now w, w_held = w_held w, w_posting = w_posting w,
     w_reminders = w_reminders w, w_audit = w_audit w, w_gate = (w_gate w, cs)\<rparr>"

definition lift_io ::
  "(py_exn + 'a \<Rightarrow> call list) \<Rightarrow> ('a \<Rightarrow> 'b) \<Rightarrow> ('g world, 'a) io \<Rightarrow> (('g \<times> call list) world, 'b) io" where
  "lift_io mk f m = (\<lambda>w. case m (strip w) of
     (r, w') \<Rightarrow> (map_sum id f r, wrap (snd (w_gate w) @ mk r) w'))"

definition traced :: "'g world gate \<Rightarrow> ('g \<times> call list) world gate" where
  "traced g = \<lparr>
     g_outstanding = (\<lambda>k. lift_io (\<lambda>_. [CList k]) id (g_outstanding g k)),
     g_probe = (\<lambda>r. lift_io (\<lambda>p. [CProbe r p]) id (g_probe g r)),
     g_delete = (\<lambda>r. lift_io (\<lambda>u. [CDelete r (ok u)]) id (g_delete g r)),
     g_drop = (\<lambda>r. lift_io (\<lambda>_. [CDrop r]) id (g_drop g r)),
     g_post = (\<lambda>i. lift_io (\<lambda>q. [CPost i (succeeded q)]) id (g_post g i)),
     g_commit = (\<lambda>i pa t. lift_io (\<lambda>_. [CCommit i pa]) id (g_commit g i pa t)),
     g_restore = map_option (\<lambda>f r. lift_io (\<lambda>_. [CRestore r]) id (f r)) (g_restore g)\<rparr>"

definition traced_notifier :: "'g world notifier \<Rightarrow> ('g \<times> call list) world notifier" where
  "traced_notifier n = map_option (\<lambda>send x. lift_io (\<lambda>_. []) id (send x)) n"

definition traced_preparation :: "'g preparation \<Rightarrow> ('g \<times> call list) preparation" where
  "traced_preparation p = map_option (lift_io (\<lambda>_. []) (\<lambda>(i, g). (i, traced g))) p"

lemma lift_io_log: "lift_io mk f m w = (r, w') \<Longrightarrow>
    \<exists>r0. r = map_sum id f r0 \<and> snd (w_gate w') = snd (w_gate w) @ mk r0"
  by (auto simp: lift_io_def wrap_def split: prod.splits)

interpretation recorded: call_log "snd :: 'g \<times> call list \<Rightarrow> call list" "\<lambda>g. \<exists>g0. g = traced g0"
  by unfold_locales
    (auto simp: traced_def sum.map_id dest!: lift_io_log)


subsection \<open>Recording changes nothing\<close>

definition sim :: "('a \<Rightarrow> 'b) \<Rightarrow> ('g world, 'a) io \<Rightarrow> (('g \<times> call list) world, 'b) io \<Rightarrow> bool" where
  "sim f m m' \<longleftrightarrow> (\<forall>w. fst (m' w) = map_sum id f (fst (m (strip w))) \<and>
     strip (snd (m' w)) = snd (m (strip w)))"

lemma strip_wrap [simp]: "strip (wrap cs w) = w"
  by (simp add: strip_def wrap_def)

lemma strip_fields [simp]:
  "w_disk (strip w) = w_disk w" "w_now (strip w) = w_now w" "w_held (strip w) = w_held w"
  "journal_file k (strip w) = journal_file k w"
  "strip (w\<lparr>w_held := h\<rparr>) = (strip w)\<lparr>w_held := h\<rparr>"
  "strip (w\<lparr>w_audit := w_audit w @ ls\<rparr>) = (strip w)\<lparr>w_audit := w_audit (strip w) @ ls\<rparr>"
  "strip (journal_put k pf w) = journal_put k pf (strip w)"
  "strip (journal_del k w) = journal_del k (strip w)"
  by (simp_all add: strip_def journal_file_def journal_put_def journal_del_def)

lemma sim_lift: "sim f m (lift_io mk f m)"
  by (simp add: sim_def lift_io_def split: prod.split)

lemma sim_ret: "b = f a \<Longrightarrow> sim f (ret a) (ret b)"
  by (simp add: sim_def ret_def)

lemma sim_raise: "sim f (raise e) (raise e)"
  by (simp add: sim_def raise_def)

lemma sim_bind:
  assumes "sim h m m'" and "\<And>a. sim f (k a) (k' (h a))"
  shows "sim f (bindM m k) (bindM m' k')"
  unfolding sim_def
proof
  fix w
  obtain r v where m: "m (strip w) = (r, v)" by fastforce
  obtain v' where m': "m' w = (map_sum id h r, v')" and v: "v = strip v'"
    using assms(1) m by (metis fst_conv prod.collapse sim_def snd_conv)
  show "fst (bindM m' k' w) = map_sum id f (fst (bindM m k (strip w))) \<and>
        strip (snd (bindM m' k' w)) = snd (bindM m k (strip w))"
    using assms(2) m m' v by (cases r) (auto simp: bindM_def sim_def)
qed

lemma sim_try:
  assumes "sim f m m'" and "\<And>e. sim f (k e) (k' e)"
  shows "sim f (tryM m k) (tryM m' k')"
  unfolding sim_def
proof
  fix w
  obtain r v where m: "m (strip w) = (r, v)" by fastforce
  obtain v' where m': "m' w = (map_sum id f r, v')" and v: "v = strip v'"
    using assms(1) m by (metis fst_conv prod.collapse sim_def snd_conv)
  show "fst (tryM m' k' w) = map_sum id f (fst (tryM m k (strip w))) \<and>
        strip (snd (tryM m' k' w)) = snd (tryM m k (strip w))"
    using assms(2) m m' v by (cases r) (auto simp: tryM_def sim_def)
qed

definition same :: "('g world, 'a) io \<Rightarrow> (('g \<times> call list) world, 'a) io \<Rightarrow> bool" where
  "same m m' = sim id m m'"

lemma sim_attempt: "same m m' \<Longrightarrow> same (attemptM m) (attemptM m')"
  by (auto simp: same_def sim_def attemptM_def sum.map_id split: prod.split) (metis fst_conv snd_conv)+

lemma sim_journal:
  "same now now" "same (reserve k h t) (reserve k h t)"
  "same (journal_clear k) (journal_clear k)"
  "same (journal_outstanding k) (journal_outstanding k)"
  "same (append_audit line) (append_audit line)"
  by (simp_all add: same_def sim_def now_def getsM_def reserve_def journal_write_def journal_clear_def
      journal_outstanding_def append_audit_def)

lemma sim_hold:
  fixes body :: "bool \<Rightarrow> ('g world, 'a) io"
  assumes "\<And>b. same (body b) (body' b)"
  shows "same (hold key body) (hold key body')"
  unfolding same_def sim_def
proof
  fix w :: "('g \<times> call list) world"
  let ?w = "w\<lparr>w_held := insert (slug_of key) (w_held w)\<rparr>"
  have "fst (body' True ?w) = fst (body True (strip ?w)) \<and>
        strip (snd (body' True ?w)) = snd (body True (strip ?w))"
    and "fst (body' False w) = fst (body False (strip w)) \<and>
        strip (snd (body' False w)) = snd (body False (strip w))"
    using assms by (simp_all add: same_def sim_def sum.map_id)
  then show "fst (hold key body' w) = map_sum id id (fst (hold key body (strip w))) \<and>
        strip (snd (hold key body' w)) = snd (hold key body (strip w))"
    by (auto simp: hold_def sum.map_id split: prod.splits)
qed


lemma traced_select [simp]:
  "g_outstanding (traced g) = (\<lambda>k. lift_io (\<lambda>_. [CList k]) id (g_outstanding g k))"
  "g_probe (traced g) = (\<lambda>r. lift_io (\<lambda>p. [CProbe r p]) id (g_probe g r))"
  "g_delete (traced g) = (\<lambda>r. lift_io (\<lambda>u. [CDelete r (ok u)]) id (g_delete g r))"
  "g_drop (traced g) = (\<lambda>r. lift_io (\<lambda>_. [CDrop r]) id (g_drop g r))"
  "g_post (traced g) = (\<lambda>i. lift_io (\<lambda>q. [CPost i (succeeded q)]) id (g_post g i))"
  "g_commit (traced g) = (\<lambda>i pa t. lift_io (\<lambda>_. [CCommit i pa]) id (g_commit g i pa t))"
  "g_restore (traced g) = map_option (\<lambda>f r. lift_io (\<lambda>_. [CRestore r]) id (f r)) (g_restore g)"
  by (simp_all add: traced_def)

lemma same_bind:
  "same m m' \<Longrightarrow> (\<And>a. same (k a) (k' a)) \<Longrightarrow> same (bindM m k) (bindM m' k')"
  unfolding same_def by (rule sim_bind[where h = id]) simp_all

lemma same_ret: "same (ret a) (ret a)"
  unfolding same_def by (rule sim_ret) simp

lemma same_raise: "same (raise e) (raise e)"
  unfolding same_def by (rule sim_raise)

lemma same_lift: "same m (lift_io mk id m)"
  unfolding same_def by (rule sim_lift)

lemma same_try: "same m m' \<Longrightarrow> (\<And>e. same (k e) (k' e)) \<Longrightarrow> same (tryM m k) (tryM m' k')"
  unfolding same_def by (rule sim_try)

lemmas sim_rules = same_bind same_ret same_raise same_lift same_try
  sim_attempt sim_journal

lemma sim_safe_probe: "same (safe_probe g r) (safe_probe (traced g) r)"
  by (auto simp: safe_probe_def intro!: sim_rules)

lemma sim_destroy: "same (destroy g rs why cleared) (destroy (traced g) rs why cleared)"
proof (induction rs arbitrary: cleared)
  case (Cons r rs)
  then show ?case
    by (auto intro!: sim_rules sim_safe_probe split: probe.split sum.split)
qed (simp add: sim_rules)

lemma sim_drop_gone: "same (drop_gone g rs cleared) (drop_gone (traced g) rs cleared)"
  by (induction rs arbitrary: cleared) (auto intro!: sim_rules)

lemma sim_snapshot: "same (snapshot g rs) (snapshot (traced g) rs)"
  by (induction rs) (auto simp: snapshot_def intro!: sim_rules sim_safe_probe)

lemma sim_write_marker: "same (write_marker line) (write_marker line)"
  by (auto simp: write_marker_def intro!: sim_rules)

lemma sim_notify: "same (notify n x) (notify (traced_notifier n) x)"
  by (auto simp: notify_def traced_notifier_def intro!: sim_rules split: option.split)

lemma sim_restore_all:
  "same (restore_all g items restored lost) (restore_all (traced g) items restored lost)"
proof (induction items arbitrary: restored lost)
  case (Cons c items)
  then show ?case by (auto intro!: sim_rules split: option.split sum.split)
qed (simp add: sim_rules)

lemma sim_rescue:
  "same (rescue_lost_supersede i g cleared e n) (rescue_lost_supersede i (traced g) cleared e (traced_notifier n))"
  by (auto simp: rescue_lost_supersede_def Let_def split: prod.split
      intro!: sim_rules sim_restore_all sim_notify sim_write_marker)

lemma sim_recover:
  "same (recover_posting_journal i g es) (recover_posting_journal i (traced g) es)"
  by (auto simp: recover_posting_journal_def split: option.split probe.split sum.split
      intro!: sim_rules sim_safe_probe)

lemma sim_keep_canonical:
  "same (keep_canonical g gone c ds) (keep_canonical (traced g) gone c ds)"
  by (auto simp: keep_canonical_def split: option.split prod.split
      intro!: sim_rules sim_drop_gone sim_destroy)

lemma sim_post_new:
  "same (post_new i g n gone others) (post_new i (traced g) (traced_notifier n) gone others)"
  by (auto simp: post_new_def split: option.split prod.split sum.split
      intro!: sim_rules sim_drop_gone sim_destroy sim_rescue)

lemma sim_prepared:
  "same (bindM m (\<lambda>(i, g). post_new i g n gone others))
     (bindM (lift_io (\<lambda>_. []) (\<lambda>(i, g). (i, traced g)) m)
        (\<lambda>(i, g). post_new i g (traced_notifier n) gone others))"
  unfolding same_def
  by (rule sim_bind[OF sim_lift]) (auto split: prod.split intro: sim_post_new[unfolded same_def])

lemma sim_decide_and_post:
  "same (decide_and_post i g n p) (decide_and_post i (traced g) (traced_notifier n) (traced_preparation p))"
  by (auto simp: decide_and_post_def Let_def traced_preparation_def
      split: option.split list.split sum.split
      intro!: sim_rules sim_snapshot sim_keep_canonical sim_post_new sim_prepared)

lemma sim_request:
  "same (request_owner_approval i g n p)
     (request_owner_approval i (traced g) (traced_notifier n) (traced_preparation p))"
  by (auto simp: request_owner_approval_def split: option.split
      intro!: sim_hold sim_rules sim_recover sim_decide_and_post)

section \<open>Properties\<close>

text \<open>The calls one request makes, from any world and for any gate.\<close>

definition run_calls ::
  "approval_intent \<Rightarrow> 'g world gate \<Rightarrow> 'g world notifier \<Rightarrow> 'g preparation \<Rightarrow> 'g world \<Rightarrow> call list" where
  "run_calls i g n p w = snd (w_gate (snd (request_owner_approval i (traced g) (traced_notifier n)
     (traced_preparation p) (wrap [] w))))"

lemma traced_quiet:
  "recorded.quiet_notifier (traced_notifier n)"
  "traced_preparation p = Some m \<Longrightarrow> recorded.quiet m"
  by (auto simp: recorded.quiet_notifier_def recorded.quiet_def recorded.calls_def traced_notifier_def
      traced_preparation_def lift_io_def wrap_def split: option.split prod.split)

lemma traced_preparation_logged:
  "traced_preparation p = Some m \<Longrightarrow> m w = (Inr (i', g'), w') \<Longrightarrow> \<exists>g0. g' = traced g0"
  by (auto simp: traced_preparation_def lift_io_def map_sum_def split: prod.splits sum.splits)

lemma run_calls_disciplined: "disciplined (run_calls i g n p w)"
proof -
  let ?m = "request_owner_approval i (traced g) (traced_notifier n) (traced_preparation p)"
  have "hoare (\<lambda>w. recorded.calls w = []) ?m (\<lambda>_. recorded.disc) (\<lambda>_. recorded.disc)"
    by (rule recorded.request_disciplined) (auto intro: traced_quiet traced_preparation_logged)
  then have "recorded.disc (snd (?m (wrap [] w)))"
    by (cases "?m (wrap [] w)"; cases "fst (?m (wrap [] w))")
      (auto simp: hoare_def recorded.calls_def wrap_def split: prod.splits sum.splits
        dest!: spec[of _ "wrap [] w"])
  then show ?thesis by (simp add: recorded.disc_def recorded.calls_def run_calls_def)
qed

fun is_post :: "call \<Rightarrow> bool" where
  "is_post (CPost _ _) = True"
| "is_post _ = False"

lemma disciplined_posts:
  "disciplined_after past cs \<Longrightarrow>
   length (filter is_post cs) \<le> (if \<exists>c \<in> set past. is_post c then 0 else 1)"
proof (induction cs arbitrary: past)
  case (Cons c cs)
  from Cons.IH[of "past @ [c]"] Cons.prems
  have IH: "length (filter is_post cs) \<le> (if \<exists>c \<in> set (past @ [c]). is_post c then 0 else 1)"
    by (simp only: disciplined_after.simps)
  show ?case
  proof (cases "is_post c")
    case True
    then obtain i b where c: "c = CPost i b" by (cases c) auto
    then have "postable past" using Cons.prems by simp
    then have "\<forall>c \<in> set past. \<not> is_post c"
      by (force simp: postable_def split: call.splits elim: is_post.elims)
    then show ?thesis using IH c by auto
  qed (use IH in auto)
qed simp

text \<open>
  \<^bold>\<open>C1.\<close> The call discipline of \<open>request_owner_approval\<close>, for every gate and every behaviour
  of the surface between two calls: a card is deleted only directly after a probe that found it
  undecided, a record is dropped only after its card was deleted or found missing, a new card is
  posted only if no probe of the run found a decided, mismatched or unverifiable card, a record
  is committed only for a card just posted or just verified, and a destroyed request is restored
  only after a failed post.
\<close>

theorem request_call_discipline: "disciplined (run_calls i g n p w)"
  by (rule run_calls_disciplined)

text \<open>
  \<^bold>\<open>C2.\<close> One run of \<open>request_owner_approval\<close> posts at most one card.
\<close>

theorem request_posts_at_most_once: "length (filter is_post (run_calls i g n p w)) \<le> 1"
  using disciplined_posts[OF run_calls_disciplined[unfolded disciplined_def]] by simp

text \<open>
  Recording the calls changes neither the result nor the final world of a request, so
  the discipline above is a property of the code that runs without the recorder.
\<close>

theorem recording_is_transparent:
  "fst (request_owner_approval i (traced g) (traced_notifier n) (traced_preparation p) (wrap [] w)) =
     fst (request_owner_approval i g n p w) \<and>
   strip (snd (request_owner_approval i (traced g) (traced_notifier n) (traced_preparation p) (wrap [] w))) =
     snd (request_owner_approval i g n p w)"
  using sim_request[of i g n p] by (simp add: same_def sim_def sum.map_id)

end
