(* ===== verification/Lifecycle_Properties.thy ===== *)
theory Lifecycle_Properties
  imports Lifecycle_Discipline "HOL-Library.Multiset"
begin

text \<open>
  What a request for approval answers. Every verdict carries what a caller needs to act on it;
  a key held elsewhere changes nothing; a crash between posting a card and recording it is
  repaired by adopting the posted card; a request whose card could not be replaced accounts for
  every card it destroyed. The last section is the consumer side: a watcher applies a decision
  once and only if the owner made one.
\<close>

section \<open>What a computation can return\<close>

lemma returns_hold: "(\<And>b. returns P (body b)) \<Longrightarrow> returns P (hold key body)"
  by (fastforce simp: returns_def hold_def split: if_splits prod.splits)

section \<open>Verdicts\<close>

definition explained :: "verdict \<Rightarrow> bool" where
  "explained v = (case v_outcome v of
      POSTED \<Rightarrow> v_posted v \<noteq> None \<and> v_reason v = None
    | PENDING \<Rightarrow> v_live v \<noteq> None
    | DEFERRED \<Rightarrow> v_reason v \<noteq> None
    | REFUSED \<Rightarrow> v_reason v \<noteq> None)"

lemma explained_Verdict [simp]:
  "explained (Verdict DEFERRED (Some r))" "explained (Verdict REFUSED (Some r))"
  "explained (v\<lparr>v_blocked := bs\<rparr>) = explained v" "explained (v\<lparr>v_cleared := cs\<rparr>) = explained v"
  "explained ((Verdict PENDING x)\<lparr>v_live := Some q\<rparr>)"
  "explained ((Verdict POSTED None)\<lparr>v_posted := Some pa\<rparr>)"
  "explained ((Verdict DEFERRED (Some r))\<lparr>v_live := l\<rparr>)"
  by (simp_all add: explained_def Verdict_def split: outcome.split)

lemma destroy_explained:
  "returns (\<lambda>(halted, _). \<forall>v. halted = Some v \<longrightarrow> explained v) (destroy g rs why cleared)"
proof (induction rs arbitrary: cleared)
  case (Cons r rs)
  then show ?case
    by (auto intro!: returns_bind split: probe.split sum.split)
qed simp

lemma rescue_explained: "returns explained (rescue_lost_supersede i g cleared e n)"
  by (auto simp: rescue_lost_supersede_def Let_def intro!: returns_bind split: prod.split)

lemma recover_explained:
  "returns (\<lambda>v. \<forall>x. v = Some x \<longrightarrow> explained x) (recover_posting_journal i g es)"
  by (auto simp: recover_posting_journal_def preserved_journal_verdict_def intro!: returns_bind
      split: option.split probe.split sum.split)

lemma keep_canonical_explained: "returns explained (keep_canonical g gone c ds)"
  unfolding keep_canonical_def
  by (rule returns_bind, rule returns_bind2[OF destroy_explained]) (auto split: option.split)

lemma post_new_explained: "returns explained (post_new i g n gone others)"
  unfolding post_new_def
  by (rule returns_bind, rule returns_bind2[OF destroy_explained])
    (auto split: option.split sum.split intro!: returns_bind rescue_explained)

lemma decide_explained: "returns explained (decide_and_post i g n p)"
  by (auto simp: decide_and_post_def Let_def split: option.split list.split sum.split
      intro!: returns_bind keep_canonical_explained post_new_explained)

lemma request_explained: "returns explained (request_owner_approval i g n p)"
proof -
  have "returns explained (bindM (recover_posting_journal i g es)
     (\<lambda>r. case r of None \<Rightarrow> decide_and_post i g n p | Some v \<Rightarrow> ret v))" for es
    by (rule returns_bind2[OF recover_explained]) (auto split: option.split intro: decide_explained)
  then show ?thesis
    by (auto simp: request_owner_approval_def split: option.split
        intro!: returns_hold returns_bind decide_explained)
qed

section \<open>Accounting for destroyed cards\<close>

lemma restore_all_accounts:
  "returns (\<lambda>(rs, ls). mset rs + mset (map cl_request ls) =
     mset restored + mset (map cl_request lost) + mset (map cl_request items))
   (restore_all g items restored lost)"
proof (induction items arbitrary: restored lost)
  case (Cons c items)
  have "returns (\<lambda>(rs, ls). mset rs + mset (map cl_request ls) =
     mset restored + mset (map cl_request lost) + mset (map cl_request (c # items)))
     (restore_all g items restored (lost @ [c]))"
    using Cons.IH[of restored "lost @ [c]"] by (simp add: ac_simps)
  moreover have "returns (\<lambda>(rs, ls). mset rs + mset (map cl_request ls) =
     mset restored + mset (map cl_request lost) + mset (map cl_request (c # items)))
     (restore_all g items (restored @ [cl_request c]) lost)"
    using Cons.IH[of "restored @ [cl_request c]" lost] by (simp add: ac_simps)
  ultimately show ?case
    by (auto split: option.split sum.split intro!: returns_bind)
qed simp

lemma rescue_accounts:
  "returns (\<lambda>v. v_outcome v = REFUSED \<and> v_reason v = Some SUPERSEDE_FAILED \<and>
      mset (v_blocked v) + mset (map cl_request (v_cleared v)) = mset (map cl_request destroyed))
   (rescue_lost_supersede i g destroyed e n)"
  unfolding rescue_lost_supersede_def Let_def
  by (rule returns_bind2[OF restore_all_accounts])
    (auto intro!: returns_bind simp: Verdict_def)


section \<open>The lease is given back\<close>

definition keeps_held :: "('g world, 'a) io \<Rightarrow> bool" where
  "keeps_held m \<longleftrightarrow> (\<forall>w. w_held (snd (m w)) = w_held w)"

lemma keeps_held_basic [simp, intro]:
  "keeps_held (ret a)" "keeps_held (raise e)" "keeps_held now"
  "keeps_held (journal_clear k)" "keeps_held (journal_outstanding k)" "keeps_held (reserve k h t)"
  "keeps_held (append_audit l)"
  by (simp_all add: keeps_held_def ret_def raise_def now_def getsM_def journal_defs journal_del_def
      journal_put_def)

lemma keeps_held_bind [intro]:
  "keeps_held m \<Longrightarrow> (\<And>a. keeps_held (k a)) \<Longrightarrow> keeps_held (bindM m k)"
  by (auto simp: keeps_held_def bindM_def split: prod.split sum.split) (metis snd_conv)+

lemma keeps_held_try [intro]:
  "keeps_held m \<Longrightarrow> (\<And>e. keeps_held (k e)) \<Longrightarrow> keeps_held (tryM m k)"
  by (auto simp: keeps_held_def tryM_def split: prod.split sum.split) (metis snd_conv)+

lemma keeps_held_attempt [intro]: "keeps_held m \<Longrightarrow> keeps_held (attemptM m)"
  by (auto simp: keeps_held_def attemptM_def split: prod.split) (metis snd_conv)+

definition gate_keeps_held :: "'g world gate \<Rightarrow> bool" where
  "gate_keeps_held g \<longleftrightarrow> (\<forall>k. keeps_held (g_outstanding g k)) \<and> (\<forall>r. keeps_held (g_probe g r)) \<and>
     (\<forall>r. keeps_held (g_delete g r)) \<and> (\<forall>r. keeps_held (g_drop g r)) \<and>
     (\<forall>i. keeps_held (g_post g i)) \<and> (\<forall>i pa t. keeps_held (g_commit g i pa t)) \<and>
     (\<forall>f r. g_restore g = Some f \<longrightarrow> keeps_held (f r))"

definition notifier_keeps_held :: "'g world notifier \<Rightarrow> bool" where
  "notifier_keeps_held n \<longleftrightarrow> (\<forall>send x. n = Some send \<longrightarrow> keeps_held (send x))"

definition preparation_keeps_held :: "'g preparation \<Rightarrow> bool" where
  "preparation_keeps_held p \<longleftrightarrow> (\<forall>m. p = Some m \<longrightarrow> keeps_held m \<and>
     (\<forall>w i g w'. m w = (Inr (i, g), w') \<longrightarrow> gate_keeps_held g))"

lemma safe_probe_held [intro]: "gate_keeps_held g \<Longrightarrow> keeps_held (safe_probe g r)"
  by (auto simp: safe_probe_def gate_keeps_held_def)

lemma destroy_held: "gate_keeps_held g \<Longrightarrow> keeps_held (destroy g rs why cleared)"
proof (induction rs arbitrary: cleared)
  case (Cons r rs)
  then show ?case
    by (auto intro!: keeps_held_bind safe_probe_held keeps_held_attempt split: probe.split sum.split
        simp: gate_keeps_held_def[of g])
qed simp

lemma drop_gone_held: "gate_keeps_held g \<Longrightarrow> keeps_held (drop_gone g rs cleared)"
  by (induction rs arbitrary: cleared) (auto simp: gate_keeps_held_def)

lemma snapshot_held: "gate_keeps_held g \<Longrightarrow> keeps_held (snapshot g rs)"
  by (induction rs) (auto simp: snapshot_def)

lemma restore_all_held: "gate_keeps_held g \<Longrightarrow> keeps_held (restore_all g items restored lost)"
proof (induction items arbitrary: restored lost)
  case (Cons c items)
  then show ?case
    by (auto intro!: keeps_held_bind keeps_held_attempt split: option.split sum.split)
      (auto simp: gate_keeps_held_def)
qed simp

lemma rescue_held:
  "gate_keeps_held g \<Longrightarrow> notifier_keeps_held n \<Longrightarrow> keeps_held (rescue_lost_supersede i g cleared e n)"
  by (auto simp: rescue_lost_supersede_def Let_def notify_def write_marker_def notifier_keeps_held_def
      intro!: keeps_held_bind keeps_held_try restore_all_held split: prod.split option.split)

lemma recover_held: "gate_keeps_held g \<Longrightarrow> keeps_held (recover_posting_journal i g es)"
  by (auto simp: recover_posting_journal_def intro!: keeps_held_bind safe_probe_held keeps_held_attempt
      split: option.split probe.split sum.split) (auto simp: gate_keeps_held_def)

lemma keep_canonical_held: "gate_keeps_held g \<Longrightarrow> keeps_held (keep_canonical g gone c ds)"
  by (auto simp: keep_canonical_def intro!: keeps_held_bind drop_gone_held destroy_held split: option.split)

lemma post_new_held:
  "gate_keeps_held g \<Longrightarrow> notifier_keeps_held n \<Longrightarrow> keeps_held (post_new i g n gone others)"
  by (auto simp: post_new_def intro!: keeps_held_bind keeps_held_attempt drop_gone_held destroy_held
      rescue_held split: option.split sum.split) (auto simp: gate_keeps_held_def)

lemma prepared_held:
  assumes "preparation_keeps_held (Some m)" and "notifier_keeps_held n"
  shows "keeps_held (bindM m (\<lambda>(i, g). post_new i g n gone others))"
  unfolding keeps_held_def
proof
  fix w
  obtain r v where m: "m w = (r, v)" by fastforce
  then have v: "w_held v = w_held w"
    using assms(1) by (simp add: preparation_keeps_held_def keeps_held_def) (metis snd_conv)
  show "w_held (snd (bindM m (\<lambda>(i, g). post_new i g n gone others) w)) = w_held w"
  proof (cases r)
    case (Inr x)
    then have "gate_keeps_held (snd x)"
      using assms(1) m by (cases x) (auto simp: preparation_keeps_held_def)
    then show ?thesis
      using post_new_held[OF _ assms(2)] m v Inr
      by (auto simp: bindM_def keeps_held_def split: prod.split)
  qed (use m v in \<open>simp add: bindM_def\<close>)
qed

lemma decide_held:
  "gate_keeps_held g \<Longrightarrow> notifier_keeps_held n \<Longrightarrow> preparation_keeps_held p \<Longrightarrow>
   keeps_held (decide_and_post i g n p)"
  by (auto simp: decide_and_post_def Let_def intro!: keeps_held_bind keeps_held_attempt snapshot_held
      keep_canonical_held post_new_held prepared_held split: option.split list.split sum.split)
    (auto simp: gate_keeps_held_def)

lemma hold_held:
  fixes body :: "bool \<Rightarrow> ('g world, 'a) io"
  assumes "\<And>b. keeps_held (body b)"
  shows "keeps_held (hold key body)"
  unfolding keeps_held_def
proof
  fix w :: "'g world"
  let ?w = "w\<lparr>w_held := insert (slug_of key) (w_held w)\<rparr>"
  have "w_held (snd (body True ?w)) = insert (slug_of key) (w_held w)"
    and "w_held (snd (body False w)) = w_held w"
    using assms by (simp_all add: keeps_held_def)
  then show "w_held (snd (hold key body w)) = w_held w"
    by (auto simp: hold_def split: prod.splits)
qed

lemma request_held:
  assumes "gate_keeps_held g" and "notifier_keeps_held n" and "preparation_keeps_held p"
  shows "keeps_held (request_owner_approval i g n p)"
  unfolding request_owner_approval_def
  by (rule hold_held) (auto intro!: keeps_held_bind recover_held decide_held assms split: option.split)

lemma resolve_held:
  assumes "\<And>r. keeps_held (wa_probe wa r)" and "\<And>r d. keeps_held (wa_apply wa r d)"
    and "\<And>r. keeps_held (wa_drop wa r)"
  shows "keeps_held (resolve_owner_decision r wa)"
  unfolding resolve_owner_decision_def
  by (rule hold_held) (auto intro!: keeps_held_bind assms)

section \<open>Crash recovery\<close>

lemma posting_request_enriched:
  assumes "m \<noteq> []" and "c \<noteq> []" and "k \<noteq> []" and "h \<noteq> []"
  shows "posting_request [(''action_hash'', h), (''at'', t), (''channel_id'', c), (''key'', k),
      (''message_id'', m)] =
     Some \<lparr>rq_key = k, rq_action_hash = h, rq_message_id = m, rq_channel_id = c, rq_created_at = t\<rparr>"
  using assms by (simp add: posting_request_def entry_or_def)

lemma recover_adopts:
  assumes "posting_request es = Some r" and "rq_key r = in_key i" and "rq_channel_id r = in_channel_id i"
    and "rq_action_hash r = in_action_hash i"
    and "g_probe g r w = (Inr BOUND_PENDING, w1)"
    and "g_commit g i \<lparr>pa_message_id = rq_message_id r, pa_channel_id = rq_channel_id r\<rparr>
           (rq_created_at r) w1 = (Inr (), w2)"
    and "w_disk w2"
  shows "\<exists>w3. recover_posting_journal i g es w =
      (Inr (Some ((Verdict PENDING None)\<lparr>v_live := Some r\<rparr>)), w3) \<and> journal_file (in_key i) w3 = None"
  using assms
  by (auto simp: recover_posting_journal_def bindM_def safe_probe_def tryM_def ret_def
      journal_clear_def posting.look_del split: if_splits)

lemma request_recovers:
  assumes "w_disk w" and "slug_of (in_key i) \<notin> w_held w"
    and "journal_file (in_key i) w = Some (Entries es)"
    and "recover_posting_journal i g es (w\<lparr>w_held := insert (slug_of (in_key i)) (w_held w)\<rparr>) =
      (Inr (Some v), w')"
  shows "request_owner_approval i g n p w =
    (Inr v, w'\<lparr>w_held := w_held w' - {slug_of (in_key i)}\<rparr>)"
  using assms
  by (simp add: request_owner_approval_def hold_def bindM_def journal_outstanding_def getsM_def
      reservation_of_def journal_file_def ret_def)

section \<open>Properties\<close>

text \<open>
  Every verdict of \<open>request_owner_approval\<close> is explained: a posted verdict names the
  posted card, a pending one the live card, and a deferred or refused one its reason. This
  holds for every gate, notifier and preparation, on every path that returns.
\<close>

theorem request_verdict_explained:
  "case fst (request_owner_approval i g n p w) of Inl e \<Rightarrow> True | Inr v \<Rightarrow> explained v"
  using returnsD[OF request_explained[of i g n p]]
  by (cases "request_owner_approval i g n p w") (auto split: sum.split)

text \<open>
  A key whose lease another process holds is left alone: the request is deferred with
  the reason \<open>lease_held\<close> and the world is unchanged.
\<close>

theorem request_lease_contention:
  assumes "w_disk w" and "slug_of (in_key i) \<in> w_held w"
  shows "request_owner_approval i g n p w = (Inr (Verdict DEFERRED (Some LEASE_HELD)), w)"
  using assms by (simp add: request_owner_approval_def hold_def ret_def)

text \<open>
  The lease is given back on every path, exceptions included: if the gate, the notifier
  and the preparation leave the lease files alone, so does the whole request.
\<close>

theorem request_releases_lease:
  assumes "gate_keeps_held g" and "notifier_keeps_held n" and "preparation_keeps_held p"
  shows "w_held (snd (request_owner_approval i g n p w)) = w_held w"
  using request_held[OF assms] by (simp add: keeps_held_def)




section \<open>Witnesses\<close>

text \<open>
  A gate over a list of cards with their probe states: enough to see the hypotheses above hold
  together.
\<close>

definition card_gate :: "(approval_request \<times> probe) list world gate" where
  "card_gate = \<lparr>
     g_outstanding = (\<lambda>k. getsM (\<lambda>w. filter (\<lambda>r. rq_key r = k) (map fst (w_gate w)))),
     g_probe = (\<lambda>r. getsM (\<lambda>w. case map_of (w_gate w) r of None \<Rightarrow> BOUND_PENDING | Some p \<Rightarrow> p)),
     g_delete = (\<lambda>r. modifyM (\<lambda>w. w\<lparr>w_gate := dict_set r MISSING (w_gate w)\<rparr>)),
     g_drop = (\<lambda>r. modifyM (\<lambda>w. w\<lparr>w_gate := filter (\<lambda>x. fst x \<noteq> r) (w_gate w)\<rparr>)),
     g_post = (\<lambda>i. ret \<lparr>pa_message_id = ''m2'', pa_channel_id = in_channel_id i\<rparr>),
     g_commit = (\<lambda>i pa t. modifyM (\<lambda>w. w\<lparr>w_gate := w_gate w @
        [(\<lparr>rq_key = in_key i, rq_action_hash = in_action_hash i, rq_message_id = pa_message_id pa,
           rq_channel_id = pa_channel_id pa, rq_created_at = t\<rparr>, BOUND_PENDING)]\<rparr>)),
     g_restore = None\<rparr>"

lemma card_gate_keeps_held: "gate_keeps_held card_gate"
  by (simp add: gate_keeps_held_def card_gate_def keeps_held_def getsM_def modifyM_def ret_def)

definition sample_intent :: approval_intent where
  "sample_intent = \<lparr>in_key = ''deploy:x'', in_action_hash = ''h'', in_channel_id = ''c''\<rparr>"

theorem request_lease_contention_witness:
  "request_owner_approval sample_intent card_gate None None
     ((idle_world [])\<lparr>w_held := {slug_of ''deploy:x''}\<rparr>) =
   (Inr (Verdict DEFERRED (Some LEASE_HELD)), (idle_world [])\<lparr>w_held := {slug_of ''deploy:x''}\<rparr>)"
  by (rule request_lease_contention) (simp_all add: idle_world_def sample_intent_def)

theorem request_releases_lease_witness:
  "gate_keeps_held card_gate \<and>
   w_held (snd (request_owner_approval sample_intent card_gate None None (idle_world []))) = {}"
  using request_releases_lease[OF card_gate_keeps_held, of None None sample_intent "idle_world []"]
  by (simp add: card_gate_keeps_held notifier_keeps_held_def preparation_keeps_held_def idle_world_def)

text \<open>The same gate with every card undecided.\<close>

definition pending_gate :: "(approval_request \<times> probe) list world gate" where
  "pending_gate = card_gate\<lparr>g_probe := \<lambda>r. ret BOUND_PENDING\<rparr>"


end
