(* ===== verification/Approval_Surface.thy ===== *)
theory Approval_Surface
  imports Prelude
begin

text \<open>
  Model of the surface policy of \<open>automation/interop/approval_surface.py\<close>: which Discord surface
  an approval of a given kind belongs on at a given policy version, and how a binding to a
  concrete channel is resolved, reused and re-validated.

  The channel directory is a protocol with a network behind it: a record of effectful operations
  that may raise anything. Channel names are code points, since the code compares them with a
  Korean name. Thread naming and the owner notices of the same file are presentation and are not
  modelled.
\<close>

section \<open>Kinds, surfaces, ledger\<close>

datatype approval_kind =
    MAIL_REPLY | MAIL_COMPOSE | BUDGET_MAIL | PATENT_EXPORT | REPAIR | CALENDAR | COORDINATION
  | WIKI | SKILL_DEPLOY | SKILL_ATTEST | SKILL_PUBLISH | SKILL_SUBMIT | MANAGED_ACTIVATE | RELEASE
  | OBSIDIAN_WRITE | TODO | PROJECT_BOARD | EXTERNAL_EFFECT

fun kind_value :: "approval_kind \<Rightarrow> string" where
  "kind_value MAIL_REPLY = ''mail-reply''"
| "kind_value MAIL_COMPOSE = ''mail-compose''"
| "kind_value BUDGET_MAIL = ''budget-mail''"
| "kind_value PATENT_EXPORT = ''patent-export''"
| "kind_value REPAIR = ''repair''"
| "kind_value CALENDAR = ''calendar''"
| "kind_value COORDINATION = ''coordination''"
| "kind_value WIKI = ''wiki''"
| "kind_value SKILL_DEPLOY = ''skill-deploy''"
| "kind_value SKILL_ATTEST = ''skill-attest''"
| "kind_value SKILL_PUBLISH = ''skill-publish''"
| "kind_value SKILL_SUBMIT = ''skill-submit''"
| "kind_value MANAGED_ACTIVATE = ''managed-activate''"
| "kind_value RELEASE = ''release''"
| "kind_value OBSIDIAN_WRITE = ''obsidian-write''"
| "kind_value TODO = ''todo''"
| "kind_value PROJECT_BOARD = ''project-board''"
| "kind_value EXTERNAL_EFFECT = ''external-effect''"

datatype approval_surface = OWNER_DM | SKILL_APPROVALS | AGENT_CHAT_THREAD

fun surface_value :: "approval_surface \<Rightarrow> string" where
  "surface_value OWNER_DM = ''owner-dm''"
| "surface_value SKILL_APPROVALS = ''skill-approvals''"
| "surface_value AGENT_CHAT_THREAD = ''agent-chat-thread''"

text \<open>The prefix is the Korean word for approval and a hyphen.\<close>

definition kind_thread_name :: "approval_kind \<Rightarrow> codepoints" where
  "kind_thread_name k = [49849, 51064, 45] @ of_ascii (kind_value k)"

definition POLICY_VERSION :: int where
  "POLICY_VERSION = 8"

type_synonym ledger_row = "int \<times> approval_surface"
type_synonym transition_ledger = "approval_kind \<Rightarrow> ledger_row list option"

fun TRANSITIONS :: "approval_kind \<Rightarrow> ledger_row list option" where
  "TRANSITIONS MAIL_REPLY = Some [(0, SKILL_APPROVALS), (2, OWNER_DM), (7, AGENT_CHAT_THREAD)]"
| "TRANSITIONS MAIL_COMPOSE = Some [(0, OWNER_DM), (7, AGENT_CHAT_THREAD)]"
| "TRANSITIONS BUDGET_MAIL = Some [(0, SKILL_APPROVALS), (3, OWNER_DM), (7, AGENT_CHAT_THREAD)]"
| "TRANSITIONS PATENT_EXPORT = Some [(0, SKILL_APPROVALS), (4, OWNER_DM), (7, AGENT_CHAT_THREAD)]"
| "TRANSITIONS REPAIR = Some [(0, SKILL_APPROVALS), (5, OWNER_DM), (8, AGENT_CHAT_THREAD)]"
| "TRANSITIONS CALENDAR = Some [(0, OWNER_DM), (7, AGENT_CHAT_THREAD)]"
| "TRANSITIONS COORDINATION = Some [(0, OWNER_DM), (7, AGENT_CHAT_THREAD)]"
| "TRANSITIONS WIKI = Some [(0, OWNER_DM), (7, AGENT_CHAT_THREAD)]"
| "TRANSITIONS SKILL_DEPLOY = Some [(0, SKILL_APPROVALS)]"
| "TRANSITIONS SKILL_ATTEST = Some [(0, SKILL_APPROVALS)]"
| "TRANSITIONS SKILL_PUBLISH = Some [(0, SKILL_APPROVALS)]"
| "TRANSITIONS SKILL_SUBMIT = Some [(0, SKILL_APPROVALS)]"
| "TRANSITIONS MANAGED_ACTIVATE = Some [(0, SKILL_APPROVALS)]"
| "TRANSITIONS RELEASE = Some [(0, SKILL_APPROVALS)]"
| "TRANSITIONS OBSIDIAN_WRITE = Some [(0, OWNER_DM), (7, AGENT_CHAT_THREAD)]"
| "TRANSITIONS TODO = Some [(0, OWNER_DM), (7, AGENT_CHAT_THREAD)]"
| "TRANSITIONS PROJECT_BOARD = Some [(0, AGENT_CHAT_THREAD)]"
| "TRANSITIONS EXTERNAL_EFFECT = Some [(0, AGENT_CHAT_THREAD)]"

text \<open>The loop of \<open>surface_at_policy\<close> over the rows, with its \<open>break\<close>.\<close>

fun select_surface :: "int \<Rightarrow> approval_surface option \<Rightarrow> ledger_row list \<Rightarrow> approval_surface option" where
  "select_surface v selected [] = selected"
| "select_surface v selected ((from_version, s) # rows) =
     (if from_version > v then selected else select_surface v (Some s) rows)"

definition surface_at_policy ::
  "approval_kind \<Rightarrow> int \<Rightarrow> transition_ledger \<Rightarrow> py_exn + approval_surface" where
  "surface_at_policy kind v transitions =
     (case transitions kind of
        None \<Rightarrow> Inl SurfacePolicyError
      | Some rows \<Rightarrow>
          (case select_surface v None rows of
             None \<Rightarrow> Inl SurfacePolicyError
           | Some s \<Rightarrow> Inr s))"

definition required_surface :: "approval_kind \<Rightarrow> py_exn + approval_surface" where
  "required_surface kind = surface_at_policy kind POLICY_VERSION TRANSITIONS"

section \<open>Channels and bindings\<close>

record channel_facts =
  cf_channel_type :: int
  cf_name :: codepoints
  cf_recipient_ids :: "string list"
  cf_parent_id :: "string option"
  cf_guild_id :: "string option"

record request_thread =
  rt_title :: string
  rt_origin_channel_id :: string
  rt_origin_message_id :: string
  rt_label :: string
  rt_icon :: string

record 'w channel_directory =
  cd_owner_dm :: "('w, string) io"
  cd_skill_approvals :: "('w, string) io"
  cd_agent_chat :: "('w, string) io"
  cd_agent_chat_thread :: "approval_kind \<Rightarrow> ('w, string) io"
  cd_agent_chat_request_thread :: "approval_kind \<Rightarrow> request_thread \<Rightarrow> ('w, string) io"
  cd_describe :: "string \<Rightarrow> ('w, channel_facts) io"

record approval_binding =
  ab_kind :: approval_kind
  ab_surface :: approval_surface
  ab_channel_id :: string
  ab_policy_version :: int
  ab_guild_id :: "string option"

text \<open>The constructor of \<open>ApprovalBinding\<close> with the check of its \<open>__post_init__\<close>.\<close>

definition ApprovalBinding ::
  "approval_kind \<Rightarrow> approval_surface \<Rightarrow> string \<Rightarrow> int \<Rightarrow> string option \<Rightarrow> ('w, approval_binding) io" where
  "ApprovalBinding kind surface channel_id v guild =
     (if channel_id = [] \<or> channel_id = ''dm'' \<or> channel_id = ''approvals'' \<or> \<not> py_isdigit channel_id
      then raise SurfacePolicyError
      else ret \<lparr>ab_kind = kind, ab_surface = surface, ab_channel_id = channel_id,
                ab_policy_version = v, ab_guild_id = guild\<rparr>)"

text \<open>\<open>except Exception as error: raise ApprovalSurfaceError(...)\<close>.\<close>

definition fail_closed :: "('w, 'a) io \<Rightarrow> ('w, 'a) io" where
  "fail_closed m = tryM m (\<lambda>_. raise SurfacePolicyError)"

definition resolved_channel_id ::
  "approval_kind \<Rightarrow> approval_surface \<Rightarrow> 'w channel_directory \<Rightarrow> string option \<Rightarrow>
   request_thread option \<Rightarrow> ('w, string) io" where
  "resolved_channel_id kind surface dir skill request = fail_closed
     (case surface of
        OWNER_DM \<Rightarrow> cd_owner_dm dir
      | SKILL_APPROVALS \<Rightarrow> (case skill of Some c \<Rightarrow> ret c | None \<Rightarrow> cd_skill_approvals dir)
      | AGENT_CHAT_THREAD \<Rightarrow> (case request of
            None \<Rightarrow> cd_agent_chat_thread dir kind
          | Some r \<Rightarrow> cd_agent_chat_request_thread dir kind r))"

text \<open>The \<open>match binding.surface\<close> of \<open>_validate_channel\<close>, evaluated in the code's order.\<close>

definition facts_match ::
  "approval_binding \<Rightarrow> channel_facts \<Rightarrow> 'w channel_directory \<Rightarrow> string \<Rightarrow> string option \<Rightarrow> ('w, bool) io" where
  "facts_match b facts dir owner skill =
     (let pinned = resolved_channel_id (ab_kind b) (ab_surface b) dir skill None in
      case ab_surface b of
        OWNER_DM \<Rightarrow> ret (cf_channel_type facts = 1 \<and> owner \<in> set (cf_recipient_ids facts))
      | SKILL_APPROVALS \<Rightarrow>
          bindM (if cf_channel_type facts = 0
                 then (if cf_name facts = of_ascii ''approvals'' then ret True
                       else bindM pinned (\<lambda>c. ret (ab_channel_id b = c)))
                 else ret False) (\<lambda>direct.
            if direct then ret True
            else if cf_channel_type facts = 11 \<or> cf_channel_type facts = 12
            then (case cf_parent_id facts of
                    None \<Rightarrow> ret False
                  | Some parent \<Rightarrow> bindM pinned (\<lambda>c. ret (parent = c)))
            else ret False)
      | AGENT_CHAT_THREAD \<Rightarrow>
          if cf_channel_type facts = 11 \<or> cf_channel_type facts = 12
          then (case cf_parent_id facts of
                  None \<Rightarrow> ret False
                | Some parent \<Rightarrow> bindM (cd_agent_chat dir) (\<lambda>c. ret (parent = c)))
          else ret False)"

definition validate_channel ::
  "approval_binding \<Rightarrow> 'w channel_directory \<Rightarrow> string \<Rightarrow> bool \<Rightarrow> string option \<Rightarrow> ('w, approval_binding) io" where
  "validate_channel b dir owner resolve_guild skill =
     bindM (fail_closed (cd_describe dir (ab_channel_id b))) (\<lambda>facts.
     bindM (facts_match b facts dir owner skill) (\<lambda>is_valid.
       if \<not> is_valid then raise SurfacePolicyError
       else if resolve_guild
       then ApprovalBinding (ab_kind b) (ab_surface b) (ab_channel_id b) (ab_policy_version b)
              (cf_guild_id facts)
       else ret b))"

definition resolve_new_binding ::
  "approval_kind \<Rightarrow> 'w channel_directory \<Rightarrow> string \<Rightarrow> string option \<Rightarrow> request_thread option \<Rightarrow>
   ('w, approval_binding) io" where
  "resolve_new_binding kind dir owner skill request =
     bindM (lift_sum (required_surface kind)) (\<lambda>surface.
     bindM (resolved_channel_id kind surface dir skill request) (\<lambda>channel_id.
     bindM (ApprovalBinding kind surface channel_id POLICY_VERSION None) (\<lambda>b.
     validate_channel b dir owner True (Some channel_id))))"

text \<open>
  A live request as \<open>reuse_request_thread\<close> sees it: its channel, and the guild only if the
  object has an \<open>approval_guild_id\<close> string.
\<close>

record live_request =
  lr_channel_id :: string
  lr_guild_id :: "string option"

fun reuse_request_thread_loop ::
  "approval_kind \<Rightarrow> live_request list \<Rightarrow> 'w channel_directory \<Rightarrow> ('w, approval_binding option) io" where
  "reuse_request_thread_loop kind [] dir = ret None"
| "reuse_request_thread_loop kind (r # rs) dir =
     (let channel_id = lr_channel_id r in
      if \<not> py_isdigit channel_id then reuse_request_thread_loop kind rs dir
      else bindM (attemptM (bindM (cd_describe dir channel_id) (\<lambda>facts.
                            bindM (cd_agent_chat dir) (\<lambda>parent. ret (facts, parent))))) (\<lambda>found.
        case found of
          Inl _ \<Rightarrow> reuse_request_thread_loop kind rs dir
        | Inr (facts, parent) \<Rightarrow>
            if (cf_channel_type facts = 11 \<or> cf_channel_type facts = 12) \<and>
               cf_parent_id facts = Some parent \<and> cf_name facts \<noteq> kind_thread_name kind
            then bindM (ApprovalBinding kind AGENT_CHAT_THREAD channel_id POLICY_VERSION
                   (case lr_guild_id r of Some g \<Rightarrow> Some g | None \<Rightarrow> cf_guild_id facts)) (\<lambda>b. ret (Some b))
            else reuse_request_thread_loop kind rs dir))"

definition reuse_request_thread ::
  "approval_kind \<Rightarrow> live_request list \<Rightarrow> 'w channel_directory \<Rightarrow> ('w, approval_binding option) io" where
  "reuse_request_thread kind outstanding dir =
     bindM (lift_sum (required_surface kind)) (\<lambda>surface.
       if surface \<noteq> AGENT_CHAT_THREAD then ret None
       else reuse_request_thread_loop kind outstanding dir)"

definition validate_stored_binding ::
  "approval_binding \<Rightarrow> 'w channel_directory \<Rightarrow> string \<Rightarrow> transition_ledger \<Rightarrow> string option \<Rightarrow>
   ('w, approval_binding) io" where
  "validate_stored_binding b dir owner transitions skill =
     bindM (lift_sum (surface_at_policy (ab_kind b) (ab_policy_version b) transitions)) (\<lambda>stamped.
       if ab_surface b \<noteq> stamped then raise SurfacePolicyError
       else validate_channel b dir owner False skill)"

definition legacy_binding ::
  "approval_kind \<Rightarrow> string option \<Rightarrow> 'w channel_directory \<Rightarrow> string \<Rightarrow> string option \<Rightarrow>
   ('w, approval_binding) io" where
  "legacy_binding kind raw dir owner skill =
     bindM (if raw = None \<or> raw = Some [] then
              bindM (lift_sum (surface_at_policy kind 0 TRANSITIONS)) (\<lambda>surface.
              bindM (resolved_channel_id kind surface dir skill None) (\<lambda>c. ret (surface, c)))
            else if raw = Some ''dm'' then
              bindM (resolved_channel_id kind OWNER_DM dir skill None) (\<lambda>c. ret (OWNER_DM, c))
            else if raw = Some ''approvals'' then
              bindM (resolved_channel_id kind SKILL_APPROVALS dir skill None) (\<lambda>c. ret (SKILL_APPROVALS, c))
            else
              bindM (lift_sum (surface_at_policy kind 0 TRANSITIONS)) (\<lambda>surface. ret (surface, the raw)))
     (\<lambda>(surface, channel_id).
       bindM (ApprovalBinding kind surface channel_id 0 None) (\<lambda>b.
       validate_channel b dir owner False skill))"

section \<open>Reading the ledger\<close>

lemma select_surface_append:
  "\<forall>r \<in> set later. fst r > v \<Longrightarrow> select_surface v sel (rows @ later) = select_surface v sel rows"
proof (induction rows arbitrary: sel)
  case Nil
  then show ?case by (cases later) auto
qed (auto split: prod.split)

lemma select_surface_last:
  "sorted (map fst rows) \<Longrightarrow> select_surface v sel rows =
     (let applied = filter (\<lambda>r. fst r \<le> v) rows in
      if applied = [] then sel else Some (snd (last applied)))"
proof (induction rows arbitrary: sel)
  case (Cons r rows)
  show ?case
  proof (cases "fst r > v")
    case True
    then have "filter (\<lambda>r. fst r \<le> v) rows = []"
      using Cons.prems by (fastforce simp: filter_empty_conv)
    then show ?thesis using True by (cases r) simp
  next
    case False
    then show ?thesis using Cons.IH[of "Some (snd r)"] Cons.prems by (cases r) (simp add: Let_def)
  qed
qed simp

lemma TRANSITIONS_sorted: "\<exists>rows. TRANSITIONS kind = Some rows \<and> sorted (map fst rows) \<and> rows \<noteq> [] \<and> fst (hd rows) = 0"
  by (cases kind) auto

section \<open>What a binding guarantees\<close>

text \<open>The channel of \<open>b\<close> was described by the directory and its facts fit the surface of \<open>b\<close>.\<close>

definition verified :: "approval_binding \<Rightarrow> 'w channel_directory \<Rightarrow> string \<Rightarrow> string option \<Rightarrow> bool" where
  "verified b dir owner skill \<longleftrightarrow> (\<exists>facts w w1 w2.
     cd_describe dir (ab_channel_id b) w = (Inr facts, w1) \<and>
     facts_match b facts dir owner skill w1 = (Inr True, w2))"

lemma fail_closed_InrE:
  assumes "fail_closed m w = (Inr b, w')"
  shows "m w = (Inr b, w')"
  using assms by (auto simp: fail_closed_def tryM_def raise_def split: prod.splits sum.splits)

lemma verified_cong:
  assumes "ab_kind b = ab_kind b'" and "ab_surface b = ab_surface b'" and "ab_channel_id b = ab_channel_id b'"
  shows "verified b dir owner skill = verified b' dir owner skill"
  unfolding verified_def facts_match_def assms ..

lemma ApprovalBinding_Inr:
  assumes "ApprovalBinding kind s c v g w = (Inr b, w')"
  shows "b = \<lparr>ab_kind = kind, ab_surface = s, ab_channel_id = c, ab_policy_version = v, ab_guild_id = g\<rparr> \<and>
     py_isdigit c \<and> w' = w"
  using assms by (auto simp: ApprovalBinding_def ret_def raise_def split: if_splits)

lemma validate_channel_Inr:
  assumes "validate_channel b dir owner gd skill w = (Inr b', w')"
  shows "verified b dir owner skill \<and> ab_kind b' = ab_kind b \<and> ab_surface b' = ab_surface b \<and>
     ab_channel_id b' = ab_channel_id b \<and> ab_policy_version b' = ab_policy_version b \<and> (\<not> gd \<longrightarrow> b' = b)"
proof -
  obtain facts ok w1 w2 where d: "fail_closed (cd_describe dir (ab_channel_id b)) w = (Inr facts, w1)"
    and m: "facts_match b facts dir owner skill w1 = (Inr ok, w2)"
    and k: "(if \<not> ok then raise SurfacePolicyError
       else if gd then ApprovalBinding (ab_kind b) (ab_surface b) (ab_channel_id b) (ab_policy_version b)
              (cf_guild_id facts)
       else ret b) w2 = (Inr b', w')"
    using assms unfolding validate_channel_def by (elim bindM_InrE)
  have ok using k by (cases ok) (auto simp: raise_def)
  then show ?thesis
    using fail_closed_InrE[OF d] m k
    by (auto simp: verified_def ret_def dest: ApprovalBinding_Inr split: if_splits)
qed

section \<open>Properties\<close>

text \<open>
  A stored approval keeps its meaning when the ledger grows: appending rows with later
  versions to a kind's ledger does not change the surface of any earlier policy version, so a
  stored binding is validated against the surface it was posted under.
\<close>

theorem stored_surface_stable:
  assumes "old kind = Some rows" and "new kind = Some (rows @ later)" and "\<forall>r \<in> set later. fst r > v"
  shows "surface_at_policy kind v new = surface_at_policy kind v old"
  using assms by (simp add: surface_at_policy_def select_surface_append)

theorem stored_surface_stable_witness:
  "surface_at_policy REPAIR 7 TRANSITIONS =
   surface_at_policy REPAIR 7 (\<lambda>_. Some [(0, SKILL_APPROVALS), (5, OWNER_DM)])"
  by (rule stored_surface_stable[where later = "[(8, AGENT_CHAT_THREAD)]"]) simp_all

text \<open>
  The ledger lookup is the row in force: for every kind and every version from 0 on,
  \<open>surface_at_policy\<close> returns the surface of the last ledger row not newer than the version; at
  the current version no kind is left on the owner's direct messages.
\<close>

theorem surface_in_force:
  assumes "0 \<le> v"
  shows "\<exists>rows. TRANSITIONS kind = Some rows \<and>
     surface_at_policy kind v TRANSITIONS = Inr (snd (last (filter (\<lambda>r. fst r \<le> v) rows))) \<and>
     required_surface kind \<noteq> Inr OWNER_DM"
proof -
  obtain rows where rows: "TRANSITIONS kind = Some rows" "sorted (map fst rows)" "rows \<noteq> []" "fst (hd rows) = 0"
    using TRANSITIONS_sorted by blast
  then have "filter (\<lambda>r. fst r \<le> v) rows \<noteq> []"
    using assms by (cases rows) auto
  moreover have "required_surface kind \<noteq> Inr OWNER_DM"
    by (cases kind) (simp_all add: required_surface_def surface_at_policy_def POLICY_VERSION_def)
  ultimately show ?thesis
    using rows by (simp add: surface_at_policy_def select_surface_last Let_def)
qed

theorem surface_in_force_witness:
  "\<exists>rows. TRANSITIONS REPAIR = Some rows \<and>
     surface_at_policy REPAIR 6 TRANSITIONS = Inr (snd (last (filter (\<lambda>r. fst r \<le> 6) rows)))"
  using surface_in_force[of 6 REPAIR] by auto

text \<open>
  A fresh binding is concrete and verified: whenever \<open>resolve_new_binding\<close> returns, the
  binding names a numeric channel id, carries the current policy version and the surface that
  policy requires for its kind, and the directory's facts about that channel matched the surface.
  Every failure of the directory ends in an error instead of another surface.
\<close>

theorem new_binding_verified:
  assumes "resolve_new_binding kind dir owner skill request w = (Inr b, w')"
  shows "ab_kind b = kind \<and> required_surface kind = Inr (ab_surface b) \<and> py_isdigit (ab_channel_id b) \<and>
     ab_policy_version b = POLICY_VERSION \<and> verified b dir owner (Some (ab_channel_id b))"
proof -
  obtain s w1 c w2 b0 w3 where s: "lift_sum (required_surface kind) w = (Inr s, w1)"
    and b0: "ApprovalBinding kind s c POLICY_VERSION None w2 = (Inr b0, w3)"
    and v: "validate_channel b0 dir owner True (Some c) w3 = (Inr b, w')"
    using assms unfolding resolve_new_binding_def by (elim bindM_InrE)
  show ?thesis
    using lift_sum_Inr[OF s] ApprovalBinding_Inr[OF b0] validate_channel_Inr[OF v] verified_cong[of b b0 dir]
    by auto
qed

text \<open>
  A stored binding that passes validation is returned unchanged, its surface is the one
  its own policy version stamps (not the current one), and the directory's facts match it.
\<close>

theorem stored_binding_checked:
  assumes "validate_stored_binding b dir owner transitions skill w = (Inr b', w')"
  shows "b' = b \<and> surface_at_policy (ab_kind b) (ab_policy_version b) transitions = Inr (ab_surface b) \<and>
     verified b dir owner skill"
proof -
  obtain s w1 where "lift_sum (surface_at_policy (ab_kind b) (ab_policy_version b) transitions) w = (Inr s, w1)"
    and r: "(if ab_surface b \<noteq> s then raise SurfacePolicyError
       else validate_channel b dir owner False skill) w1 = (Inr b', w')"
    using assms unfolding validate_stored_binding_def by (elim bindM_InrE)
  then show ?thesis
    using lift_sum_Inr[of _ w s w1] validate_channel_Inr[of b dir owner False skill w1 b' w']
    by (auto simp: raise_def split: if_splits)
qed

section \<open>Witnesses\<close>

definition sample_directory :: "unit channel_directory" where
  "sample_directory = \<lparr>cd_owner_dm = ret ''10'', cd_skill_approvals = ret ''20'', cd_agent_chat = ret ''30'',
     cd_agent_chat_thread = (\<lambda>_. ret ''31''), cd_agent_chat_request_thread = (\<lambda>_ _. ret ''32''),
     cd_describe = (\<lambda>_. ret \<lparr>cf_channel_type = 11, cf_name = [], cf_recipient_ids = [],
        cf_parent_id = Some ''30'', cf_guild_id = Some ''1''\<rparr>)\<rparr>"

definition sample_binding :: approval_binding where
  "sample_binding = \<lparr>ab_kind = TODO, ab_surface = AGENT_CHAT_THREAD, ab_channel_id = ''31'',
     ab_policy_version = 8, ab_guild_id = Some ''1''\<rparr>"

lemmas surface_eval = sample_directory_def sample_binding_def bindM_def ret_def lift_sum_def
  required_surface_def surface_at_policy_def POLICY_VERSION_def resolved_channel_id_def fail_closed_def
  tryM_def ApprovalBinding_def py_isdigit_def digit_char_def validate_channel_def facts_match_def

lemma sample_resolves:
  "resolve_new_binding TODO sample_directory ''9'' None None () = (Inr sample_binding, ())"
  by (simp add: surface_eval resolve_new_binding_def)

theorem new_binding_verified_witness:
  "resolve_new_binding TODO sample_directory ''9'' None None () = (Inr sample_binding, ()) \<and>
   verified sample_binding sample_directory ''9'' (Some ''31'')"
  using sample_resolves new_binding_verified[OF sample_resolves] by (simp add: sample_binding_def POLICY_VERSION_def)

lemma sample_stored:
  "validate_stored_binding sample_binding sample_directory ''9'' TRANSITIONS None () = (Inr sample_binding, ())"
  by (simp add: surface_eval validate_stored_binding_def)

theorem stored_binding_checked_witness:
  "validate_stored_binding sample_binding sample_directory ''9'' TRANSITIONS None () = (Inr sample_binding, ()) \<and>
   surface_at_policy TODO 8 TRANSITIONS = Inr AGENT_CHAT_THREAD"
  using sample_stored stored_binding_checked[OF sample_stored] by (simp add: sample_binding_def)

end
