(* ===== verification/Record_Contract.thy ===== *)
theory Record_Contract
  imports Approval_Lifecycle
begin

text \<open>
  The contract between the approval lifecycle and the record stores behind its gates, as a locale.
  The effect-request store and the pending records of the skill gate are its interpretations.
\<close>

section \<open>The contract of a record store\<close>

definition same_card :: "approval_request \<Rightarrow> approval_request \<Rightarrow> bool" where
  "same_card r x \<longleftrightarrow> rq_key r = rq_key x \<and> rq_action_hash r = rq_action_hash x \<and>
     rq_message_id r = rq_message_id x"

text \<open>
  What the lifecycle relies on when it drops a request: the card is no longer outstanding and no
  other card is affected.
\<close>

locale approval_records =
  fixes cards :: "string \<Rightarrow> 's \<Rightarrow> approval_request list"
    and drop_card :: "approval_request \<Rightarrow> 's \<Rightarrow> 's"
  assumes cards_drop: "cards k (drop_card r s) = filter (\<lambda>x. \<not> same_card r x) (cards k s)"
begin

lemma dropped_not_listed: "x \<in> set (cards k (drop_card r s)) \<Longrightarrow> \<not> same_card r x"
  by (simp add: cards_drop)

lemma drop_idem: "cards k (drop_card r (drop_card r s)) = cards k (drop_card r s)"
  by (simp add: cards_drop)

lemma cards_fold_drop:
  "cards k (fold drop_card rs s) = filter (\<lambda>x. \<forall>r \<in> set rs. \<not> same_card r x) (cards k s)"
  by (induction rs arbitrary: s) (auto simp: cards_drop intro: filter_cong)

end

end
