(* ===== verification/Effect_Store.thy ===== *)
theory Effect_Store
  imports Approval_Lifecycle Approval_Surface Record_Contract
begin

text \<open>
  Model of \<open>automation/effect_request/model.py\<close> (the record and its store) and
  \<open>automation/effect_request/gate.py\<close> (the approval gate of the lifecycle, over that store
  and the Discord transport).

  The store is one JSON file: absent, unreadable, readable but of the wrong shape, or a list of
  records. It lives in the gate's part of the world, beside an arbitrary external state (Discord,
  Drive, processes). The Discord transport and the card renderer are parameters; the renderer is
  presentation. Digests are parameters as well.
\<close>

section \<open>Records\<close>

record effect_request =
  er_request_id :: string
  er_key :: string
  er_effect :: string
  er_summary :: string
  er_payload :: jobj
  er_action_hash :: string
  er_created_at :: string
  er_status :: string
  er_kind :: string
  er_surface :: string
  er_channel_id :: string
  er_policy_version :: int
  er_message_id :: "string option"
  er_approval_thread_id :: string
  er_approval_guild_id :: string
  er_origin_channel_id :: string
  er_origin_message_id :: string
  er_render_version :: "string option"
  er_attempts :: int
  er_last_error :: string
  er_receipt :: "jobj option"
  er_finished_at :: string

definition DRIVE_SAVE :: string where
  "DRIVE_SAVE = ''drive-save''"

definition COMMAND :: string where
  "COMMAND = ''command''"

definition LIVE_STATUSES :: "string list" where
  "LIVE_STATUSES = [''proposed'', ''posted'', ''approved'']"

text \<open>
  \<open>action_hash\<close>; the parameter is the SHA-256 digest of the canonical JSON text of its argument.
\<close>

definition action_hash :: "(json \<Rightarrow> string) \<Rightarrow> string \<Rightarrow> string \<Rightarrow> jobj \<Rightarrow> string" where
  "action_hash digest effect summary payload =
     ''sha256:'' @ digest (JObj [(''action'', JStr (''effect_request.'' @ effect)),
       (''payload'', JObj payload), (''summary'', JStr summary)])"

section \<open>The store\<close>

datatype requests_file =
    NoFile
  | Unreadable
  | Misshaped py_exn
  | Requests "effect_request list"

record 'd effect_state =
  es_requests :: requests_file
  es_external :: 'd

type_synonym 'd eworld = "'d effect_state world"
type_synonym records = "(string \<times> effect_request) list"

text \<open>A dictionary keyed by request id, in insertion order.\<close>

fun index_records :: "effect_request list \<Rightarrow> records \<Rightarrow> records" where
  "index_records [] d = d"
| "index_records (r # rs) d = index_records rs (dict_set (er_request_id r) r d)"

definition records_of :: "requests_file \<Rightarrow> py_exn + records" where
  "records_of f = (case f of
      NoFile \<Rightarrow> Inr []
    | Unreadable \<Rightarrow> Inl (EffectRequestError ''effect request store is unreadable'' False)
    | Misshaped e \<Rightarrow> Inl e
    | Requests rs \<Rightarrow> Inr (index_records rs []))"

definition store_file :: "'d eworld \<Rightarrow> requests_file" where
  "store_file w = es_requests (w_gate w)"

definition put_store :: "requests_file \<Rightarrow> 'd eworld \<Rightarrow> 'd eworld" where
  "put_store f w = w\<lparr>w_gate := (w_gate w)\<lparr>es_requests := f\<rparr>\<rparr>"

text \<open>\<open>with self._locked()\<close>: creating the lock file needs a writable store directory.\<close>

definition locked :: "('d eworld, 'a) io \<Rightarrow> ('d eworld, 'a) io" where
  "locked m = (\<lambda>w. if w_disk w then m w else (Inl OSError, w))"

definition store_read :: "('d eworld, records) io" where
  "store_read = (\<lambda>w. (records_of (store_file w), w))"

definition store_write :: "records \<Rightarrow> ('d eworld, unit) io" where
  "store_write d = (\<lambda>w. if w_disk w then (Inr (), put_store (Requests (map snd d)) w) else (Inl OSError, w))"

definition store_all :: "('d eworld, effect_request list) io" where
  "store_all = locked (bindM store_read (\<lambda>d. ret (map snd d)))"

definition store_get :: "string \<Rightarrow> ('d eworld, effect_request option) io" where
  "store_get request_id = locked (bindM store_read (\<lambda>d. ret (map_of d request_id)))"

definition store_create :: "effect_request \<Rightarrow> ('d eworld, unit) io" where
  "store_create r = locked (bindM store_read (\<lambda>d. store_write (dict_set (er_request_id r) r d)))"

definition store_update :: "effect_request \<Rightarrow> ('d eworld, unit) io" where
  "store_update r = locked (bindM store_read (\<lambda>d.
     case map_of d (er_request_id r) of
       None \<Rightarrow> raise (EffectRequestError ''effect request record is absent or stale'' False)
     | Some current \<Rightarrow>
         if er_action_hash current \<noteq> er_action_hash r
         then raise (EffectRequestError ''effect request record is absent or stale'' False)
         else if er_message_id current \<noteq> None \<and> er_message_id current \<noteq> er_message_id r
         then raise (EffectRequestError ''effect request message binding is immutable'' False)
         else store_write (dict_set (er_request_id r) r d)))"

definition store_set_message ::
  "string \<Rightarrow> string \<Rightarrow> string \<Rightarrow> string option \<Rightarrow> ('d eworld, unit) io" where
  "store_set_message request_id message_id channel_id version = locked (bindM store_read (\<lambda>d.
     case map_of d request_id of
       None \<Rightarrow> raise (EffectRequestError ''effect request record is absent'' False)
     | Some current \<Rightarrow>
         (case er_message_id current of
            Some m \<Rightarrow>
              if (m, er_channel_id current) = (message_id, channel_id) then ret ()
              else raise (EffectRequestError ''effect request is already bound to another card'' False)
          | None \<Rightarrow>
              store_write (dict_set request_id
                (current\<lparr>er_message_id := Some message_id, er_channel_id := channel_id,
                   er_status := ''posted'',
                   er_render_version := (if version = None \<or> version = Some [] then er_render_version current
                                         else version)\<rparr>) d))))"

definition unbind :: "string \<Rightarrow> string \<Rightarrow> string \<Rightarrow> effect_request \<Rightarrow> effect_request" where
  "unbind key digest message_id r =
     (if er_key r = key \<and> er_action_hash r = digest \<and> er_message_id r = Some message_id
      then r\<lparr>er_message_id := None, er_status := ''superseded''\<rparr> else r)"

definition clear_records :: "string \<Rightarrow> string \<Rightarrow> string \<Rightarrow> records \<Rightarrow> records" where
  "clear_records key digest message_id d = map (\<lambda>(i, r). (i, unbind key digest message_id r)) d"

definition store_clear_message :: "string \<Rightarrow> string \<Rightarrow> string \<Rightarrow> ('d eworld, unit) io" where
  "store_clear_message key digest message_id = locked (bindM store_read (\<lambda>d.
     store_write (clear_records key digest message_id d)))"

section \<open>The gate\<close>

record 'w transport =
  tr_owner_id :: string
  tr_get_message :: "string \<Rightarrow> string \<Rightarrow> ('w, string option) io"
  tr_get_reaction_users :: "string \<Rightarrow> string \<Rightarrow> codepoints \<Rightarrow> ('w, (string \<times> bool) list) io"
  tr_delete_message :: "string \<Rightarrow> string \<Rightarrow> ('w, unit) io"
  tr_post_message :: "string \<Rightarrow> string \<Rightarrow> ('w, string) io"
  tr_add_reaction :: "string \<Rightarrow> string \<Rightarrow> codepoints \<Rightarrow> ('w, unit) io"

definition APPROVE_EMOJI :: codepoints where
  "APPROVE_EMOJI = [9989]"

definition CANCEL_EMOJI :: codepoints where
  "CANCEL_EMOJI = [9940]"

text \<open>The tuple \<open>_TRANSPORT_ERRORS\<close>.\<close>

definition transport_exn :: "py_exn \<Rightarrow> bool" where
  "transport_exn e \<longleftrightarrow> is_os_error e \<or> is_value_error e \<or> e = KeyError \<or> e = TypeError \<or> is_runtime_error e"

definition owner_reacted :: "(string \<times> bool) list \<Rightarrow> string \<Rightarrow> bool" where
  "owner_reacted users owner_id = list_ex (\<lambda>(user_id, is_bot). user_id = owner_id \<and> \<not> is_bot) users"

definition to_surface_error :: "('w, 'a) io \<Rightarrow> ('w, 'a) io" where
  "to_surface_error m = tryM m (\<lambda>e. if transport_exn e then raise ApprovalSurfaceError else raise e)"

definition listed :: "string \<Rightarrow> effect_request \<Rightarrow> bool" where
  "listed key r \<longleftrightarrow> er_key r = key \<and> er_message_id r \<noteq> None \<and> er_message_id r \<noteq> Some [] \<and>
     er_status r \<in> {''posted'', ''approved''}"

definition card_of :: "effect_request \<Rightarrow> approval_request" where
  "card_of r = \<lparr>rq_key = er_key r, rq_action_hash = er_action_hash r, rq_message_id = the (er_message_id r),
     rq_channel_id = er_channel_id r, rq_created_at = er_created_at r\<rparr>"

definition outstanding_cards :: "string \<Rightarrow> records \<Rightarrow> approval_request list" where
  "outstanding_cards key d = map card_of (filter (listed key) (map snd d))"

definition effect_outstanding :: "string \<Rightarrow> ('d eworld, approval_request list) io" where
  "effect_outstanding key = locked (bindM store_read (\<lambda>d. ret (outstanding_cards key d)))"

definition effect_probe :: "'w transport \<Rightarrow> approval_request \<Rightarrow> ('w, probe) io" where
  "effect_probe t r =
     bindM (to_surface_error
       (bindM (tr_get_message t (rq_channel_id r) (rq_message_id r)) (\<lambda>content.
          case content of
            None \<Rightarrow> ret (Inl MISSING)
          | Some c \<Rightarrow>
              if \<not> py_in (rq_action_hash r) c then ret (Inl BINDING_MISMATCH)
              else bindM (tr_get_reaction_users t (rq_channel_id r) (rq_message_id r) CANCEL_EMOJI) (\<lambda>cancelled.
                   bindM (tr_get_reaction_users t (rq_channel_id r) (rq_message_id r) APPROVE_EMOJI) (\<lambda>approved.
                   ret (Inr (cancelled, approved)))))))
     (\<lambda>seen. case seen of
         Inl p \<Rightarrow> ret p
       | Inr (cancelled, approved) \<Rightarrow>
           if owner_reacted cancelled (tr_owner_id t) then ret CANCELLED
           else if owner_reacted approved (tr_owner_id t) then ret APPROVED
           else ret BOUND_PENDING)"

definition effect_delete :: "'w transport \<Rightarrow> approval_request \<Rightarrow> ('w, unit) io" where
  "effect_delete t r =
     tryM (tr_delete_message t (rq_channel_id r) (rq_message_id r))
       (\<lambda>e. case e of
          HTTPError code \<Rightarrow> if code \<noteq> 404 then raise ApprovalSurfaceError else ret ()
        | _ \<Rightarrow> if transport_exn e then raise ApprovalSurfaceError else raise e)"

definition effect_drop :: "approval_request \<Rightarrow> ('d eworld, unit) io" where
  "effect_drop r = store_clear_message (rq_key r) (rq_action_hash r) (rq_message_id r)"

definition RENDER_VERSION :: string where
  "RENDER_VERSION = ''effect-request-v1''"

definition effect_post ::
  "(effect_request \<Rightarrow> py_exn + string) \<Rightarrow> effect_request \<Rightarrow> 'd eworld transport \<Rightarrow> bool \<Rightarrow>
   approval_intent \<Rightarrow> ('d eworld, posted_approval) io" where
  "effect_post render record t journal i =
     bindM (to_surface_error
       (bindM (lift_sum (render record)) (\<lambda>content.
        bindM (tr_post_message t (in_channel_id i) content) (\<lambda>message_id.
        bindM (if journal then
                 bindM (enrich (in_key i) (in_action_hash i) message_id (in_channel_id i)) (\<lambda>_.
                 bindM (store_set_message (er_request_id record) message_id (in_channel_id i)
                          (Some RENDER_VERSION)) (\<lambda>_.
                 journal_clear (in_key i)))
               else ret ()) (\<lambda>_. ret message_id)))))
     (\<lambda>message_id.
        let react = (\<lambda>emoji. tryM (tr_add_reaction t (in_channel_id i) message_id emoji)
                         (\<lambda>e. if transport_exn e then ret () else raise e)) in
        bindM (react APPROVE_EMOJI) (\<lambda>_.
        bindM (react CANCEL_EMOJI) (\<lambda>_.
        ret \<lparr>pa_message_id = message_id, pa_channel_id = in_channel_id i\<rparr>)))"

definition effect_commit ::
  "effect_request \<Rightarrow> approval_intent \<Rightarrow> posted_approval \<Rightarrow> string \<Rightarrow> ('d eworld, unit) io" where
  "effect_commit record i pa created_at =
     store_set_message (er_request_id record) (pa_message_id pa) (pa_channel_id pa) (Some RENDER_VERSION)"

definition effect_gate ::
  "(effect_request \<Rightarrow> py_exn + string) \<Rightarrow> effect_request \<Rightarrow> 'd eworld transport \<Rightarrow> bool \<Rightarrow> 'd eworld gate" where
  "effect_gate render record t journal = \<lparr>
     g_outstanding = effect_outstanding, g_probe = effect_probe t, g_delete = effect_delete t,
     g_drop = effect_drop, g_post = effect_post render record t journal,
     g_commit = effect_commit record, g_restore = None\<rparr>"

section \<open>Requesting the approval of an effect\<close>

text \<open>
  \<open>request_approval\<close>. The thread label and icon of a Drive save are passed as given by
  \<open>_THREAD_LOOK\<close>; they are presentation and a parameter here.
\<close>

definition request_approval ::
  "(effect_request \<Rightarrow> py_exn + string) \<Rightarrow> (string \<Rightarrow> string \<times> string) \<Rightarrow> effect_request \<Rightarrow>
   'd eworld transport \<Rightarrow> 'd eworld channel_directory \<Rightarrow> string \<Rightarrow> ('d eworld, verdict) io" where
  "request_approval render look record t dir owner_id =
     bindM (effect_outstanding (er_key record)) (\<lambda>live.
     bindM (reuse_request_thread EXTERNAL_EFFECT
        (map (\<lambda>r. \<lparr>lr_channel_id = rq_channel_id r, lr_guild_id = None\<rparr>) live) dir) (\<lambda>reused.
     bindM (case reused of
              Some b \<Rightarrow> ret b
            | None \<Rightarrow> resolve_new_binding EXTERNAL_EFFECT dir owner_id None
                (Some \<lparr>rt_title = er_summary record, rt_origin_channel_id = er_origin_channel_id record,
                   rt_origin_message_id = er_origin_message_id record,
                   rt_label = fst (look (er_effect record)), rt_icon = snd (look (er_effect record))\<rparr>)) (\<lambda>b.
     let bound = record\<lparr>er_kind := kind_value (ab_kind b), er_surface := surface_value (ab_surface b),
           er_channel_id := ab_channel_id b, er_policy_version := ab_policy_version b,
           er_approval_thread_id := ab_channel_id b,
           er_approval_guild_id := (case ab_guild_id b of
              Some g \<Rightarrow> if g = [] then er_approval_guild_id record else g
            | None \<Rightarrow> er_approval_guild_id record)\<rparr> in
     bindM (store_update bound) (\<lambda>_.
     request_owner_approval
       \<lparr>in_key = er_key bound, in_action_hash = er_action_hash bound, in_channel_id = ab_channel_id b\<rparr>
       (effect_gate render bound t True) None None))))"

section \<open>Reading back what was written\<close>

definition wf_records :: "records \<Rightarrow> bool" where
  "wf_records d \<longleftrightarrow> distinct (map fst d) \<and> (\<forall>(i, r) \<in> set d. er_request_id r = i)"

lemma wf_records_Nil [simp]: "wf_records []"
  by (simp add: wf_records_def)

lemma set_dict_set: "x \<in> set (dict_set k v d) \<Longrightarrow> x = (k, v) \<or> x \<in> set d"
  by (induction k v d rule: dict_set.induct) (auto split: if_splits)

lemma wf_records_set:
  "wf_records d \<Longrightarrow> er_request_id r = i \<Longrightarrow> wf_records (dict_set i r d)"
  by (auto simp: wf_records_def dest!: set_dict_set)

lemma wf_records_index: "wf_records d \<Longrightarrow> wf_records (index_records rs d)"
  by (induction rs d rule: index_records.induct) (auto intro: wf_records_set)

lemma wf_records_clear: "wf_records d \<Longrightarrow> wf_records (clear_records k h m d)"
  by (auto simp: wf_records_def clear_records_def unbind_def comp_def case_prod_unfold)

lemma index_records_append:
  "wf_records (d0 @ d) \<Longrightarrow> index_records (map snd d) d0 = d0 @ d"
proof (induction d arbitrary: d0)
  case (Cons x d)
  obtain i r where x: "x = (i, r)" by fastforce
  have fresh: "i \<notin> fst ` set d0" and rid: "er_request_id r = i"
    using Cons.prems x by (auto simp: wf_records_def)
  then have "dict_set (er_request_id r) r d0 = d0 @ [(i, r)]"
    by (simp add: dict_set_fresh)
  then show ?case using Cons.IH[of "d0 @ [x]"] Cons.prems x by simp
qed simp

lemma records_of_write: "wf_records d \<Longrightarrow> records_of (Requests (map snd d)) = Inr d"
  using index_records_append[of "[]" d] by (simp add: records_of_def)

lemma records_of_wf: "records_of f = Inr d \<Longrightarrow> wf_records d"
  by (auto simp: records_of_def wf_records_index split: requests_file.splits)

lemma store_file_put [simp]: "store_file (put_store f w) = f" "w_disk (put_store f w) = w_disk w"
  by (simp_all add: store_file_def put_store_def)

definition find_record :: "string \<Rightarrow> 'd eworld \<Rightarrow> effect_request option" where
  "find_record i w = (case records_of (store_file w) of Inl _ \<Rightarrow> None | Inr d \<Rightarrow> map_of d i)"

lemma find_record_put [simp]:
  "wf_records d \<Longrightarrow> find_record i (put_store (Requests (map snd d)) w) = map_of d i"
  by (simp add: find_record_def records_of_write)

lemma find_recordE:
  assumes "find_record i w = Some c"
  obtains d where "records_of (store_file w) = Inr d" and "map_of d i = Some c" and "wf_records d"
    and "er_request_id c = i"
proof -
  obtain d where d: "records_of (store_file w) = Inr d" "map_of d i = Some c"
    using assms by (auto simp: find_record_def split: sum.splits)
  then show ?thesis using that records_of_wf[OF d(1)] map_of_SomeD[OF d(2)] by (force simp: wf_records_def)
qed

lemmas store_op_defs = locked_def store_read_def store_write_def bindM_def ret_def raise_def

text \<open>Each write either fails and leaves the store alone or replaces exactly one record.\<close>

lemma store_update_cases:
  assumes "store_update r w = (x, w')"
  shows "w' = w \<and> (\<exists>e. x = Inl e) \<or>
    (\<exists>c. x = Inr () \<and> find_record (er_request_id r) w = Some c \<and> er_action_hash c = er_action_hash r \<and>
       (er_message_id c = None \<or> er_message_id c = er_message_id r) \<and>
       w_disk w' = w_disk w \<and>
       (\<forall>i. find_record i w' = (if i = er_request_id r then Some r else find_record i w)))"
proof (cases "w_disk w \<and> (\<exists>d. records_of (store_file w) = Inr d)")
  case True
  then obtain d where d: "w_disk w" "records_of (store_file w) = Inr d" by blast
  note wf = records_of_wf[OF d(2)] wf_records_set[OF records_of_wf[OF d(2)], of r]
  show ?thesis
    using assms d wf
    by (auto simp: store_update_def store_op_defs find_record_def[of _ w] split: option.splits if_splits)
next
  case False
  then show ?thesis
    using assms by (auto simp: store_update_def store_op_defs split: if_splits sum.splits)
qed

lemma store_set_message_cases:
  assumes "store_set_message j m ch v w = (x, w')"
  shows "w' = w \<or>
    (\<exists>c c'. x = Inr () \<and> find_record j w = Some c \<and> er_message_id c = None \<and>
       er_message_id c' = Some m \<and> er_request_id c' = j \<and> er_status c' = ''posted'' \<and>
       (\<forall>i. find_record i w' = (if i = j then Some c' else find_record i w)))"
proof (cases "w_disk w \<and> (\<exists>d c. records_of (store_file w) = Inr d \<and> map_of d j = Some c \<and> er_message_id c = None)")
  case True
  then obtain d c where d: "w_disk w" "records_of (store_file w) = Inr d" "map_of d j = Some c"
    "er_message_id c = None" by blast
  have j: "er_request_id c = j"
    using records_of_wf[OF d(2)] map_of_SomeD[OF d(3)] by (auto simp: wf_records_def)
  let ?c = "c\<lparr>er_message_id := Some m, er_channel_id := ch, er_status := ''posted'',
     er_render_version := (if v = None \<or> v = Some [] then er_render_version c else v)\<rparr>"
  have "wf_records (dict_set j ?c d)"
    by (rule wf_records_set) (use records_of_wf[OF d(2)] j in auto)
  moreover have "w' = put_store (Requests (map snd (dict_set j ?c d))) w" and "x = Inr ()"
    using assms d by (auto simp: store_set_message_def store_op_defs)
  ultimately show ?thesis
    using d j by (intro disjI2 exI[of _ c] exI[of _ ?c]) (simp add: find_record_def[of _ w])
next
  case False
  then show ?thesis
    using assms by (auto simp: store_set_message_def store_op_defs split: if_splits sum.splits option.splits)
qed

section \<open>The contract of a record store, implemented\<close>

definition drop_records :: "approval_request \<Rightarrow> records \<Rightarrow> records" where
  "drop_records r d = clear_records (rq_key r) (rq_action_hash r) (rq_message_id r) d"

definition bound_to :: "approval_request \<Rightarrow> effect_request \<Rightarrow> bool" where
  "bound_to r x \<longleftrightarrow> er_key x = rq_key r \<and> er_action_hash x = rq_action_hash r \<and>
     er_message_id x = Some (rq_message_id r)"

lemma unbind_bound:
  "unbind (rq_key r) (rq_action_hash r) (rq_message_id r) x =
     (if bound_to r x then x\<lparr>er_message_id := None, er_status := ''superseded''\<rparr> else x)"
  by (auto simp: unbind_def bound_to_def)

lemma listed_card: "listed k x \<Longrightarrow> same_card r (card_of x) \<longleftrightarrow> bound_to r x"
  by (cases "er_message_id x") (auto simp: listed_def same_card_def card_of_def bound_to_def)

lemma listed_superseded [simp]: "\<not> listed k (x\<lparr>er_message_id := None, er_status := s\<rparr>)"
  by (simp add: listed_def)

interpretation effect_records: approval_records outstanding_cards drop_records
proof
  fix k r d
  have "map card_of (filter (listed k) (map (unbind (rq_key r) (rq_action_hash r) (rq_message_id r)) xs)) =
     filter (\<lambda>x. \<not> same_card r x) (map card_of (filter (listed k) xs))" for xs
    by (induction xs) (simp_all add: unbind_bound listed_card)
  from this[of "map snd d"]
  show "outstanding_cards k (drop_records r d) = filter (\<lambda>x. \<not> same_card r x) (outstanding_cards k d)"
    by (simp add: outstanding_cards_def drop_records_def clear_records_def comp_def case_prod_unfold)
qed

section \<open>Properties\<close>

text \<open>
  A message binding is immutable: once a stored request is bound to a Discord message,
  neither \<open>update\<close> nor \<open>set_message\<close>, for this or any other request and on success or failure,
  binds it to a different message or loses it.
\<close>

theorem message_binding_immutable:
  assumes "find_record i w = Some c" and "er_message_id c = Some m"
    and "store_update r w = (x, w') \<or> store_set_message j m' ch v w = (y, w')"
  shows "\<exists>c'. find_record i w' = Some c' \<and> er_message_id c' = Some m"
  using assms(3)
proof
  assume "store_update r w = (x, w')"
  from store_update_cases[OF this] show ?thesis
    using assms(1,2) by (cases "i = er_request_id r") (elim disjE exE conjE; simp)+
next
  assume "store_set_message j m' ch v w = (y, w')"
  from store_set_message_cases[OF this] show ?thesis
    using assms(1,2) by (cases "i = j") (elim disjE exE conjE; simp)+
qed

text \<open>
  The store implements the record contract of the lifecycle: a successful \<open>drop\<close> makes
  the outstanding list of every key exactly the previous list without the dropped card.
\<close>

theorem effect_drop_exact:
  assumes "effect_drop r w = (Inr (), w')" and "effect_outstanding k w = (Inr cards, w)"
  shows "effect_outstanding k w' = (Inr (filter (\<lambda>x. \<not> same_card r x) cards), w')"
proof -
  obtain d where d: "w_disk w" "records_of (store_file w) = Inr d" "cards = outstanding_cards k d"
    using assms(2) by (auto simp: effect_outstanding_def store_op_defs split: if_splits sum.splits)
  then have w': "w' = put_store (Requests (map snd (drop_records r d))) w"
    using assms(1) by (auto simp: effect_drop_def store_clear_message_def store_op_defs drop_records_def)
  have "wf_records (drop_records r d)"
    using records_of_wf[OF d(2)] by (simp add: drop_records_def wf_records_clear)
  then show ?thesis
    using d(1,3) w' effect_records.cards_drop[of k r d]
    by (simp add: effect_outstanding_def store_op_defs records_of_write)
qed

text \<open>
  \<^bold>\<open>C21.\<close> Only the owner approves: when the probe of a card answers \<open>approved\<close>, the card's
  message was read and contains the request's action hash, the owner's account reacted to it
  with the approval emoji as a non-bot user, and the owner did not react with the cancel emoji.
\<close>

theorem approved_means_owner_reacted:
  assumes "effect_probe t r w = (Inr APPROVED, w')"
  shows "\<exists>content cancelled approved w1 w2.
     tr_get_message t (rq_channel_id r) (rq_message_id r) w = (Inr (Some content), w1) \<and>
     py_in (rq_action_hash r) content \<and>
     tr_get_reaction_users t (rq_channel_id r) (rq_message_id r) CANCEL_EMOJI w1 = (Inr cancelled, w2) \<and>
     tr_get_reaction_users t (rq_channel_id r) (rq_message_id r) APPROVE_EMOJI w2 = (Inr approved, w') \<and>
     (tr_owner_id t, False) \<in> set approved \<and> (tr_owner_id t, False) \<notin> set cancelled"
  using assms
  by (auto simp: effect_probe_def to_surface_error_def bindM_def tryM_def ret_def raise_def
      owner_reacted_def list_ex_iff split: prod.splits sum.splits option.splits if_splits)

end
