(* ===== verification/Effect_Execution.thy ===== *)
theory Effect_Execution
  imports Effect_Store
begin

text \<open>
  Model of \<open>automation/effect_request/execute.py\<close>, \<open>watch.py\<close>, \<open>policy.py\<close> and \<open>cli.py\<close>: what
  happens between the owner's approval and the outside world.

  Collaborators are the fields of one record: the digest of the canonical JSON text, the file
  digest, the Drive publisher, the process runner, the masking of secrets, Python's conversions
  \<open>str\<close> of a non-string JSON value, \<open>int\<close> and \<open>date.fromisoformat\<close>, and the delivery of notices.
  The Korean message texts are represented by short ASCII names.
\<close>

section \<open>Collaborators\<close>

record 'w collaborators =
  co_digest :: "json \<Rightarrow> string"
  co_file_sha256 :: "string \<Rightarrow> ('w, string \<times> int) io"
  co_publisher :: "string \<Rightarrow> string \<Rightarrow> string \<Rightarrow> int \<Rightarrow> json option \<Rightarrow> ('w, string list \<times> string) io"
  co_runner :: "string list \<Rightarrow> string \<Rightarrow> int \<Rightarrow> ('w, int \<times> string) io"
  co_mask :: "string \<Rightarrow> string"
  co_str :: "json \<Rightarrow> string"
  co_int :: "json \<Rightarrow> py_exn + int"
  co_fromisoformat :: "string \<Rightarrow> py_exn + int"
  co_exn_text :: "py_exn \<Rightarrow> string"
  co_deliver :: "effect_request \<Rightarrow> string \<Rightarrow> ('w, unit) io"

definition to_str :: "'w collaborators \<Rightarrow> json \<Rightarrow> string" where
  "to_str co v = (case v of JStr s \<Rightarrow> s | _ \<Rightarrow> co_str co v)"

text \<open>\<open>payload[name]\<close>.\<close>

definition item :: "jobj \<Rightarrow> string \<Rightarrow> ('w, json) io" where
  "item payload name = (case map_of payload name of None \<Rightarrow> raise KeyError | Some v \<Rightarrow> ret v)"

text \<open>Iterating over a JSON value: an array gives its items, an object its keys, a string its characters.\<close>

definition iterate :: "json \<Rightarrow> ('w, json list) io" where
  "iterate v = (case v of
      JArr xs \<Rightarrow> ret xs
    | JObj d \<Rightarrow> ret (map (JStr \<circ> fst) d)
    | JStr s \<Rightarrow> ret (map (\<lambda>c. JStr [c]) s)
    | _ \<Rightarrow> raise TypeError)"

text \<open>Python's \<open>==\<close> between a JSON value and an integer: \<open>True\<close> is 1 and \<open>2.0\<close> is 2.\<close>

definition equals_int :: "json \<Rightarrow> int \<Rightarrow> bool" where
  "equals_int v n = (case v of JInt m \<Rightarrow> m = n | JFloat q \<Rightarrow> q = of_int n
     | JBool b \<Rightarrow> n = (if b then 1 else 0) | _ \<Rightarrow> False)"

section \<open>Execution\<close>

definition verify_binding :: "'w collaborators \<Rightarrow> effect_request \<Rightarrow> ('w, unit) io" where
  "verify_binding co r =
     (if action_hash (co_digest co) (er_effect r) (er_summary r) (er_payload r) \<noteq> er_action_hash r
      then raise (EffectRequestError ''hash mismatch'' False) else ret ())"

definition frozen_file :: "'w collaborators \<Rightarrow> effect_request \<Rightarrow> ('w, string) io" where
  "frozen_file co r =
     bindM (item (er_payload r) ''frozen_path'') (\<lambda>p.
     let path = to_str co p in
     bindM (tryM (co_file_sha256 co path)
        (\<lambda>e. if is_os_error e then raise (EffectRequestError ''frozen file unreadable'' False) else raise e))
     (\<lambda>(digest, size).
     bindM (item (er_payload r) ''sha256'') (\<lambda>h.
     bindM (item (er_payload r) ''size'') (\<lambda>n.
       if h \<noteq> JStr digest \<or> \<not> equals_int n size
       then raise (EffectRequestError ''frozen file changed'' False) else ret path))))"

definition save_to_drive :: "'w collaborators \<Rightarrow> effect_request \<Rightarrow> ('w, jobj) io" where
  "save_to_drive co r =
     bindM (frozen_file co r) (\<lambda>path.
     let payload = er_payload r in
     bindM (tryM
        (bindM (item payload ''kind'') (\<lambda>kind.
         bindM (item payload ''title'') (\<lambda>title.
         bindM (item payload ''on'') (\<lambda>on_day.
         bindM (lift_sum (co_fromisoformat co (to_str co on_day))) (\<lambda>day.
         co_publisher co (to_str co kind) (to_str co title) path day
           (case jget payload ''project'' of Some v \<Rightarrow> if truthy v then Some v else None | None \<Rightarrow> None))))))
        (\<lambda>e. raise (EffectRequestError
           (''drive save failed: '' @ exn_name e @ '': '' @ take 200 (co_mask co (co_exn_text co e))) True)))
     (\<lambda>(links, action).
     bindM (item payload ''sha256'') (\<lambda>h.
     ret [(''links'', JArr (map JStr links)), (''action'', JStr action), (''sha256'', h),
          (''owner_only'', JBool True)])))"

definition TAIL_CHARS :: nat where
  "TAIL_CHARS = 400"

definition last_chars :: "nat \<Rightarrow> 'a list \<Rightarrow> 'a list" where
  "last_chars n xs = drop (length xs - n) xs"

definition run_command :: "'w collaborators \<Rightarrow> effect_request \<Rightarrow> ('w, jobj) io" where
  "run_command co r =
     (let payload = er_payload r in
     bindM (item payload ''argv'') (\<lambda>raw.
     bindM (iterate raw) (\<lambda>items.
     let argv = map (to_str co) items in
     bindM (tryM
        (bindM (item payload ''cwd'') (\<lambda>cwd.
         bindM (item payload ''timeout'') (\<lambda>t.
         bindM (lift_sum (co_int co t)) (\<lambda>timeout.
         co_runner co argv (to_str co cwd) timeout))))
        (\<lambda>e. if e = TimeoutExpired then raise (EffectRequestError ''time limit exceeded'' False)
             else if is_os_error e then raise (EffectRequestError (''not started: '' @ exn_name e) False)
             else raise e))
     (\<lambda>(returncode, output).
       let tail = last_chars TAIL_CHARS (co_mask co output) in
       if returncode \<noteq> 0
       then raise (EffectRequestError (''exit code: '' @ last_chars 200 tail) False)
       else ret [(''returncode'', JInt returncode), (''tail'', JStr tail)]))))"

definition execute :: "'w collaborators \<Rightarrow> effect_request \<Rightarrow> ('w, jobj) io" where
  "execute co r =
     bindM (verify_binding co r) (\<lambda>_.
       if er_effect r = DRIVE_SAVE then save_to_drive co r
       else if er_effect r = COMMAND then run_command co r
       else raise (EffectRequestError (''unknown effect: '' @ er_effect r) False))"

section \<open>One watcher tick\<close>

definition MAX_ATTEMPTS :: int where
  "MAX_ATTEMPTS = 5"

record tick_result =
  tk_done :: "string list"
  tk_cancelled :: "string list"
  tk_failed :: "string list"

definition record_decision :: "string \<Rightarrow> effect_request \<Rightarrow> probe \<Rightarrow> ('d eworld, effect_request) io" where
  "record_decision stamp r p =
     (let write = (\<lambda>u. bindM (store_update u) (\<lambda>_. ret u)) in
      case p of
        APPROVED \<Rightarrow> write (r\<lparr>er_status := ''approved''\<rparr>)
      | CANCELLED \<Rightarrow> write (r\<lparr>er_status := ''cancelled'', er_finished_at := stamp\<rparr>)
      | MISSING \<Rightarrow> write (r\<lparr>er_status := ''abandoned'', er_finished_at := stamp,
                             er_last_error := ''approval card is gone''\<rparr>)
      | _ \<Rightarrow> ret r)"

definition watch_probe ::
  "'d eworld transport \<Rightarrow> string \<Rightarrow> effect_request \<Rightarrow> ('d eworld, effect_request) io" where
  "watch_probe t stamp r =
     (if er_message_id r = None \<or> er_message_id r = Some [] \<or> er_channel_id r = [] then ret r
      else bindM (attemptM (effect_probe t (card_of r))) (\<lambda>answer.
        case answer of
          Inl e \<Rightarrow> if e = ApprovalSurfaceError then ret r else raise e
        | Inr p \<Rightarrow> record_decision stamp r p))"

definition finish :: "string \<Rightarrow> string \<Rightarrow> effect_request \<Rightarrow> ('d eworld, effect_request) io" where
  "finish stamp err r =
     (let u = r\<lparr>er_status := ''failed'', er_last_error := take 300 err, er_finished_at := stamp\<rparr> in
      bindM (store_update u) (\<lambda>_. ret u))"

text \<open>The three steps of \<open>_execute\<close>: claim a command, execute, record the outcome.\<close>

definition claim_running :: "int \<Rightarrow> effect_request \<Rightarrow> ('d eworld, effect_request) io" where
  "claim_running attempts record =
     (if er_effect record = COMMAND
      then (let r = record\<lparr>er_status := ''running'', er_attempts := attempts\<rparr> in
            bindM (store_update r) (\<lambda>_. ret r))
      else ret record)"

definition record_outcome ::
  "string \<Rightarrow> int \<Rightarrow> effect_request \<Rightarrow> py_exn + jobj \<Rightarrow> ('d eworld, effect_request) io" where
  "record_outcome stamp attempts r outcome =
     (case outcome of
        Inr receipt \<Rightarrow>
          let u = r\<lparr>er_status := ''done'', er_attempts := attempts, er_last_error := [],
                    er_receipt := Some receipt, er_finished_at := stamp\<rparr> in
          bindM (store_update u) (\<lambda>_. ret u)
      | Inl (EffectRequestError msg retryable) \<Rightarrow>
          let final = (er_effect r = COMMAND \<or> \<not> retryable \<or> attempts \<ge> MAX_ATTEMPTS);
              u = r\<lparr>er_attempts := attempts, er_last_error := take 300 msg,
                    er_status := (if final then ''failed'' else ''approved''),
                    er_finished_at := (if final then stamp else [])\<rparr> in
          bindM (store_update u) (\<lambda>_. ret u)
      | Inl e \<Rightarrow> raise e)"

definition watch_execute ::
  "'d eworld collaborators \<Rightarrow> string \<Rightarrow> effect_request \<Rightarrow> ('d eworld, effect_request) io" where
  "watch_execute co stamp record =
     (let attempts = er_attempts record + 1 in
      bindM (claim_running attempts record) (\<lambda>r.
      bindM (attemptM (execute co r)) (record_outcome stamp attempts r)))"

text \<open>\<open>_notify\<close>: nothing without a channel; every exception of the delivery is swallowed.\<close>

definition watch_notify ::
  "'d eworld collaborators \<Rightarrow> string \<Rightarrow> effect_request \<Rightarrow> ('d eworld, unit) io" where
  "watch_notify co outcome r =
     (let channel = (if er_approval_thread_id r \<noteq> [] then er_approval_thread_id r else er_channel_id r) in
      if channel = [] then ret () else tryM (co_deliver co r outcome) (\<lambda>_. ret ()))"

text \<open>The two halves of the loop body for a record that is not running: probe, then execute.\<close>

definition tick_probe ::
  "'d eworld collaborators \<Rightarrow> 'd eworld transport \<Rightarrow> string \<Rightarrow> effect_request \<Rightarrow> tick_result \<Rightarrow>
   ('d eworld, effect_request \<times> tick_result) io" where
  "tick_probe co t stamp r res =
     (if er_status r = ''posted''
      then bindM (watch_probe t stamp r) (\<lambda>u.
             if er_status u = ''cancelled'' \<or> er_status u = ''abandoned''
             then bindM (watch_notify co ''cancelled'' u) (\<lambda>_.
                  ret (u, res\<lparr>tk_cancelled := tk_cancelled res @ [er_request_id u]\<rparr>))
             else ret (u, res))
      else ret (r, res))"

definition tick_run ::
  "'d eworld collaborators \<Rightarrow> string \<Rightarrow> effect_request \<Rightarrow> tick_result \<Rightarrow> ('d eworld, tick_result) io" where
  "tick_run co stamp u res =
     (if er_status u = ''approved''
      then bindM (watch_execute co stamp u) (\<lambda>v.
             if er_status v = ''done''
             then bindM (watch_notify co ''done'' v) (\<lambda>_.
                  ret (res\<lparr>tk_done := tk_done res @ [er_request_id v]\<rparr>))
             else if er_status v = ''failed''
             then bindM (watch_notify co ''failed'' v) (\<lambda>_.
                  ret (res\<lparr>tk_failed := tk_failed res @ [er_request_id v]\<rparr>))
             else ret res)
      else ret res)"

definition tick_record ::
  "'d eworld collaborators \<Rightarrow> 'd eworld transport \<Rightarrow> string \<Rightarrow> effect_request \<Rightarrow> tick_result \<Rightarrow>
   ('d eworld, tick_result) io" where
  "tick_record co t stamp r res =
     (if er_status r = ''running'' then
        bindM (finish stamp ''stopped while running'' r) (\<lambda>u.
        bindM (watch_notify co ''failed'' u) (\<lambda>_.
        ret (res\<lparr>tk_failed := tk_failed res @ [er_request_id u]\<rparr>)))
      else bindM (tick_probe co t stamp r res) (\<lambda>(u, res). tick_run co stamp u res))"

definition run_tick ::
  "'d eworld collaborators \<Rightarrow> 'd eworld transport \<Rightarrow> string \<Rightarrow> ('d eworld, tick_result) io" where
  "run_tick co t stamp =
     bindM store_all (\<lambda>rs.
     foldM (tick_record co t stamp) rs \<lparr>tk_done = [], tk_cancelled = [], tk_failed = []\<rparr>)"

section \<open>Making a request\<close>

text \<open>
  \<open>policy.refusal\<close>: the rule tables by code, in order. The regular expressions are a parameter,
  \<open>search code text\<close>, and so is \<open>shlex.join\<close>.
\<close>

definition OWNER_ONLY :: "string list" where
  "OWNER_ONLY = [''credential'', ''payment'', ''identity'', ''privilege'', ''self-approval'']"

definition DEDICATED :: "string list" where
  "DEDICATED = [''mail'', ''calendar'', ''tasks'', ''obsidian'', ''drive-share'', ''drive-upload'', ''patent'']"

definition refusal ::
  "(string \<Rightarrow> string \<Rightarrow> bool) \<Rightarrow> (string list \<Rightarrow> string) \<Rightarrow> string \<Rightarrow> string list \<Rightarrow> string option" where
  "refusal search join description argv =
     (let codepoints = (if argv \<noteq> [] then description @ [CHR 0x0A] @ join argv else description);
          command = join argv
      in case find (\<lambda>code. search code codepoints) OWNER_ONLY of
           Some code \<Rightarrow> Some (''owner-only:'' @ code)
         | None \<Rightarrow>
             (case find (\<lambda>code. command \<noteq> [] \<and> search code command) DEDICATED of
                Some code \<Rightarrow> Some (''dedicated:'' @ code)
              | None \<Rightarrow> None))"

record request_args =
  ra_effect :: string
  ra_summary :: string
  ra_target :: string
  ra_argv :: "string list"
  ra_timeout :: int
  ra_cwd :: string
  ra_origin_channel_id :: string
  ra_origin_message_id :: string

text \<open>
  Collaborators of the command line: Unicode normalisation, the digest, the JSON text of the key,
  the clock, path resolution, the frozen payload of a Drive save, and the Discord runtime.
\<close>

record 'd cli_env =
  ce_nfc :: "string \<Rightarrow> string"
  ce_sha256 :: "string \<Rightarrow> string"
  ce_key_basis :: "string \<Rightarrow> string \<Rightarrow> string"
  ce_isoformat :: string
  ce_stamp :: string
  ce_resolve :: "string \<Rightarrow> string"
  ce_is_dir :: "string \<Rightarrow> bool"
  ce_drive_payload :: "request_args \<Rightarrow> string \<Rightarrow> ('d eworld, jobj) io"
  ce_search :: "string \<Rightarrow> string \<Rightarrow> bool"
  ce_shlex_join :: "string list \<Rightarrow> string"
  ce_token :: "('d eworld, string) io"
  ce_config :: "py_exn + json"
  ce_transport :: "string \<Rightarrow> string \<Rightarrow> 'd eworld transport"
  ce_directory :: "string \<Rightarrow> string \<Rightarrow> 'd eworld channel_directory"
  ce_render :: "effect_request \<Rightarrow> py_exn + string"
  ce_look :: "string \<Rightarrow> string \<times> string"

definition summary_of :: "'d cli_env \<Rightarrow> string \<Rightarrow> ('w, string) io" where
  "summary_of ce raw =
     (let s = fold_space (ce_nfc ce raw) in
      if s = [] then raise (EffectRequestError ''empty summary'' False) else ret (take 120 s))"

definition MAX_TIMEOUT :: int where
  "MAX_TIMEOUT = 3600"

definition command_payload :: "'d cli_env \<Rightarrow> request_args \<Rightarrow> ('w, jobj) io" where
  "command_payload ce a =
     (let argv = (case ra_argv a of x # xs \<Rightarrow> if x = ''--'' then xs else x # xs | [] \<Rightarrow> []) in
      if argv = [] then raise (EffectRequestError ''no command'' False)
      else let target = fold_space (ra_target a) in
      if target = [] then raise (EffectRequestError ''empty target'' False)
      else if \<not> (1 \<le> ra_timeout a \<and> ra_timeout a \<le> MAX_TIMEOUT)
      then raise (EffectRequestError ''timeout out of range'' False)
      else let cwd = ce_resolve ce (ra_cwd a) in
      if \<not> ce_is_dir ce cwd then raise (EffectRequestError ''no such directory'' False)
      else ret [(''argv'', JArr (map JStr argv)), (''target'', JStr target), (''cwd'', JStr cwd),
                (''timeout'', JInt (ra_timeout a))])"

definition new_record ::
  "'d cli_env \<Rightarrow> (json \<Rightarrow> string) \<Rightarrow> request_args \<Rightarrow> bool \<Rightarrow> ('d eworld, effect_request) io" where
  "new_record ce digest a reuse_live =
     bindM (summary_of ce (ra_summary a)) (\<lambda>summary.
     let effect = ra_effect a;
         seed = take 16 (ce_sha256 ce (effect @ [CHR 0x00] @ summary @ [CHR 0x00] @ ce_isoformat ce)) in
     bindM (if effect = DRIVE_SAVE then ce_drive_payload ce a seed else command_payload ce a) (\<lambda>payload.
     let h = action_hash digest effect summary payload;
         key = ''effect:'' @ take 24 (ce_sha256 ce (ce_key_basis ce effect summary)) in
     bindM store_all (\<lambda>existing.
       case find (\<lambda>r. reuse_live \<and> er_key r = key \<and> er_action_hash r = h \<and>
                      er_status r \<in> set LIVE_STATUSES) existing of
         Some r \<Rightarrow> ret r
       | None \<Rightarrow>
           let r = \<lparr>er_request_id = seed, er_key = key, er_effect = effect, er_summary = summary,
               er_payload = payload, er_action_hash = h, er_created_at = ce_stamp ce,
               er_status = ''proposed'', er_kind = [], er_surface = [], er_channel_id = [],
               er_policy_version = 0, er_message_id = None, er_approval_thread_id = [],
               er_approval_guild_id = [], er_origin_channel_id = ra_origin_channel_id a,
               er_origin_message_id = ra_origin_message_id a, er_render_version = None,
               er_attempts = 0, er_last_error = [], er_receipt = None, er_finished_at = []\<rparr> in
           bindM (store_create r) (\<lambda>_. ret r))))"

definition owner_id_from_config :: "py_exn + json \<Rightarrow> ('w, string) io" where
  "owner_id_from_config config =
     (let v = (case config of
          Inl e \<Rightarrow> if is_os_error e \<or> is_value_error e then Inr None else Inl e
        | Inr (JObj d) \<Rightarrow> Inr (jget d ''owner_id'')
        | Inr _ \<Rightarrow> Inr None) in
      case v of
        Inl e \<Rightarrow> raise e
      | Inr (Some (JStr s)) \<Rightarrow>
          if s = [] then raise (EffectRequestError ''no owner_id'' False) else ret s
      | Inr _ \<Rightarrow> raise (EffectRequestError ''no owner_id'' False))"

definition discord_runtime :: "'d cli_env \<Rightarrow> string \<Rightarrow> string \<Rightarrow>
   ('w, 'd eworld transport \<times> 'd eworld channel_directory) io" where
  "discord_runtime ce token owner_id =
     (if token = [] \<or> owner_id = []
      then raise (EffectRequestError ''Discord token or owner id is unavailable'' False)
      else ret (ce_transport ce token owner_id, ce_directory ce token owner_id))"

definition EXIT_REFUSED :: int where
  "EXIT_REFUSED = 4"

definition cmd_request :: "'d cli_env \<Rightarrow> (json \<Rightarrow> string) \<Rightarrow> request_args \<Rightarrow> ('d eworld, int) io" where
  "cmd_request ce digest a =
     (if ra_effect a = COMMAND \<and>
         refusal (ce_search ce) (ce_shlex_join ce) (ra_summary a @ [CHR 0x0A] @ ra_target a) (ra_argv a) \<noteq> None
      then ret EXIT_REFUSED
      else
        bindM (new_record ce digest a True) (\<lambda>record.
        bindM (ce_token ce) (\<lambda>token.
        bindM (owner_id_from_config (ce_config ce)) (\<lambda>owner_id.
        bindM (discord_runtime ce token owner_id) (\<lambda>(t, dir).
        bindM (request_approval (ce_render ce) (ce_look ce) record t dir owner_id) (\<lambda>v.
          if v_outcome v \<noteq> POSTED \<and> v_outcome v \<noteq> PENDING then ret 3
          else bindM (store_get (er_request_id record)) (\<lambda>_. ret 0)))))))"

definition cmd_save_now ::
  "'d cli_env \<Rightarrow> 'd eworld collaborators \<Rightarrow> request_args \<Rightarrow> ('d eworld, int) io" where
  "cmd_save_now ce co a =
     (if refusal (ce_search ce) (ce_shlex_join ce) (ra_summary a) [] \<noteq> None then ret EXIT_REFUSED
      else
        bindM (new_record ce (co_digest co) a False) (\<lambda>record.
        bindM (tryM (execute co record) (\<lambda>e.
            case e of
              EffectRequestError msg _ \<Rightarrow>
                bindM (store_update (record\<lparr>er_status := ''failed'', er_attempts := 1,
                   er_last_error := take 300 msg, er_finished_at := ce_stamp ce\<rparr>)) (\<lambda>_. raise e)
            | _ \<Rightarrow> raise e)) (\<lambda>receipt.
        bindM (store_update (record\<lparr>er_status := ''done'', er_attempts := 1,
           er_receipt := Some (dict_set ''origin_message_id'' (JStr (er_origin_message_id record))
             (dict_set ''origin_channel_id'' (JStr (er_origin_channel_id record))
             (dict_set ''method'' (JStr ''owner_command'') receipt))),
           er_finished_at := ce_stamp ce\<rparr>)) (\<lambda>_. ret 0))))"

text \<open>
  \<open>main\<close>: the exit code of a handler. \<open>UnicodeDecodeError\<close> is the only further class it catches.
\<close>

definition cli_main :: "('w, int) io \<Rightarrow> ('w, int) io" where
  "cli_main handler = tryM handler (\<lambda>e. case e of
      EffectRequestError _ _ \<Rightarrow> ret 2
    | _ \<Rightarrow> if is_os_error e \<or> e = OtherError ''UnicodeDecodeError'' then ret 2 else raise e)"

section \<open>What can reach the outside world\<close>

text \<open>A record whose command the next tick may start.\<close>

definition runnable :: "'w collaborators \<Rightarrow> effect_request \<Rightarrow> bool" where
  "runnable co r \<longleftrightarrow> er_effect r = COMMAND \<and> er_status r \<in> {''posted'', ''approved''} \<and>
     action_hash (co_digest co) (er_effect r) (er_summary r) (er_payload r) = er_action_hash r"

lemma execute_ignores_runner:
  assumes "er_effect r \<noteq> COMMAND \<or>
     action_hash (co_digest co) (er_effect r) (er_summary r) (er_payload r) \<noteq> er_action_hash r"
  shows "execute (co\<lparr>co_runner := rn\<rparr>) r = execute co r"
proof -
  have "to_str (co\<lparr>co_runner := rn\<rparr>) = to_str co"
    by (simp add: to_str_def[abs_def] cong: json.case_cong)
  then have "save_to_drive (co\<lparr>co_runner := rn\<rparr>) r = save_to_drive co r"
    by (simp add: save_to_drive_def frozen_file_def Let_def)
  then show ?thesis
    using assms by (auto simp: execute_def verify_binding_def COMMAND_def DRIVE_SAVE_def)
qed

lemma watch_execute_ignores_runner:
  assumes "er_effect r \<noteq> COMMAND \<or>
     action_hash (co_digest co) (er_effect r) (er_summary r) (er_payload r) \<noteq> er_action_hash r"
  shows "watch_execute (co\<lparr>co_runner := rn\<rparr>) stamp r = watch_execute co stamp r"
proof -
  have "execute (co\<lparr>co_runner := rn\<rparr>) (r\<lparr>er_status := ''running'', er_attempts := n\<rparr>) =
      execute co (r\<lparr>er_status := ''running'', er_attempts := n\<rparr>)" for n
    using assms by (intro execute_ignores_runner) simp
  then show ?thesis
    using execute_ignores_runner[OF assms]
    by (cases "er_effect r = COMMAND") (simp_all add: watch_execute_def claim_running_def Let_def bindM_assoc)
qed

lemma watch_notify_ignores_runner [simp]: "watch_notify (co\<lparr>co_runner := rn\<rparr>) = watch_notify co"
  by (simp add: watch_notify_def fun_eq_iff)

definition same_binding :: "effect_request \<Rightarrow> effect_request \<Rightarrow> bool" where
  "same_binding r u \<longleftrightarrow> er_request_id u = er_request_id r \<and> er_effect u = er_effect r \<and>
     er_summary u = er_summary r \<and> er_payload u = er_payload r \<and> er_action_hash u = er_action_hash r"

lemma same_binding_refl [simp]: "same_binding r r"
  by (simp add: same_binding_def)

lemma watch_probe_binding:
  assumes "watch_probe t stamp r w = (Inr u, w')"
  shows "same_binding r u"
  using assms
  by (auto simp: watch_probe_def record_decision_def Let_def ret_def raise_def bindM_def attemptM_def
      same_binding_def split: if_splits sum.splits probe.splits prod.splits)

lemma bindM_cong_result:
  "(\<And>a w'. m w = (Inr a, w') \<Longrightarrow> f a w' = g a w') \<Longrightarrow> bindM m f w = bindM m g w"
  by (auto simp: bindM_def split: prod.split sum.split)

lemma tick_probe_binding: "tick_probe co t stamp r res w = (Inr (u, res'), w') \<Longrightarrow> same_binding r u"
  by (auto simp: tick_probe_def ret_def bindM_def split: if_splits prod.splits sum.splits
      dest: watch_probe_binding)

lemma tick_record_ignores_runner:
  assumes "\<not> runnable co r"
  shows "tick_record (co\<lparr>co_runner := rn\<rparr>) t stamp r res w = tick_record co t stamp r res w"
proof (cases "er_status r = ''posted'' \<or> er_status r = ''approved''")
  case False
  then show ?thesis by (auto simp: tick_record_def tick_probe_def tick_run_def)
next
  case True
  then have hyp: "er_effect r \<noteq> COMMAND \<or>
     action_hash (co_digest co) (er_effect r) (er_summary r) (er_payload r) \<noteq> er_action_hash r"
    using assms by (auto simp: runnable_def)
  have "tick_run (co\<lparr>co_runner := rn\<rparr>) stamp u = tick_run co stamp u" if "same_binding r u" for u
  proof -
    have "watch_execute (co\<lparr>co_runner := rn\<rparr>) stamp u = watch_execute co stamp u"
      using that hyp by (intro watch_execute_ignores_runner) (simp add: same_binding_def)
    then show ?thesis by (simp add: tick_run_def[abs_def] cong: if_cong)
  qed
  moreover have "tick_probe (co\<lparr>co_runner := rn\<rparr>) = tick_probe co"
    by (simp add: tick_probe_def[abs_def] cong: if_cong)
  ultimately show ?thesis
    using True by (auto simp: tick_record_def intro!: bindM_cong_result dest: tick_probe_binding)
qed

lemma foldM_cong:
  "(\<And>x s w. x \<in> set xs \<Longrightarrow> f x s w = g x s w) \<Longrightarrow> foldM f xs s w = foldM g xs s w"
  by (induction xs arbitrary: s w) (auto simp: bindM_def split: prod.split sum.split)

section \<open>A command runs at most once\<close>

text \<open>
  \<open>runs\<close> counts the process starts in the external state. The collaborators are well behaved when
  only the runner changes the count, by at most one per call, and none of them edits the store.
\<close>

definition store_and_runs :: "('d \<Rightarrow> nat) \<Rightarrow> 'd eworld \<Rightarrow> requests_file \<times> nat" where
  "store_and_runs runs w = (store_file w, runs (es_external (w_gate w)))"

definition inert :: "('d \<Rightarrow> nat) \<Rightarrow> ('d eworld, 'a) io \<Rightarrow> bool" where
  "inert runs m \<longleftrightarrow> (\<forall>w. store_and_runs runs (snd (m w)) = store_and_runs runs w)"

definition well_behaved :: "('d \<Rightarrow> nat) \<Rightarrow> 'd eworld collaborators \<Rightarrow> 'd eworld transport \<Rightarrow> bool" where
  "well_behaved runs co t \<longleftrightarrow>
     (\<forall>c m. inert runs (tr_get_message t c m)) \<and> (\<forall>c m e. inert runs (tr_get_reaction_users t c m e)) \<and>
     (\<forall>p. inert runs (co_file_sha256 co p)) \<and> (\<forall>k ti p d pr. inert runs (co_publisher co k ti p d pr)) \<and>
     (\<forall>r oc. inert runs (co_deliver co r oc)) \<and>
     (\<forall>argv cwd n w. store_file (snd (co_runner co argv cwd n w)) = store_file w \<and>
        runs (es_external (w_gate (snd (co_runner co argv cwd n w)))) \<le> Suc (runs (es_external (w_gate w))))"

lemma inert_basic [simp, intro]: "inert runs (ret a)" "inert runs (raise e)"
  by (simp_all add: inert_def ret_def raise_def)

lemma inert_bind [intro]: "inert runs m \<Longrightarrow> (\<And>a. inert runs (k a)) \<Longrightarrow> inert runs (bindM m k)"
  by (auto simp: inert_def bindM_def split: prod.split sum.split) (metis snd_conv)+

lemma inert_try [intro]: "inert runs m \<Longrightarrow> (\<And>e. inert runs (k e)) \<Longrightarrow> inert runs (tryM m k)"
  by (auto simp: inert_def tryM_def split: prod.split sum.split) (metis snd_conv)+

lemma inert_attempt [intro]: "inert runs m \<Longrightarrow> inert runs (attemptM m)"
  by (auto simp: inert_def attemptM_def split: prod.split) (metis snd_conv)+

lemma inert_parts [simp, intro]: "inert runs (item d k)" "inert runs (iterate v)" "inert runs (lift_sum x)"
  "inert runs (verify_binding co r)"
  by (auto simp: item_def iterate_def lift_sum_def verify_binding_def split: option.split json.split sum.split)

lemma inert_effect_probe: "well_behaved runs co t \<Longrightarrow> inert runs (effect_probe t r)"
  by (auto simp: effect_probe_def to_surface_error_def well_behaved_def
      intro!: inert_bind inert_try split: option.split sum.split)

lemma inert_save_to_drive: "well_behaved runs co t \<Longrightarrow> inert runs (save_to_drive co r)"
  by (auto simp: save_to_drive_def frozen_file_def Let_def well_behaved_def
      intro!: inert_bind inert_try split: option.split)

lemma inert_watch_notify: "well_behaved runs co t \<Longrightarrow> inert runs (watch_notify co oc r)"
  by (auto simp: watch_notify_def Let_def well_behaved_def intro!: inert_try)

text \<open>Command requests a later tick may still start, and the resulting bound on process starts.\<close>

definition live_command :: "effect_request \<Rightarrow> bool" where
  "live_command c \<longleftrightarrow> er_effect c = COMMAND \<and> er_status c \<in> {''posted'', ''approved''}"

definition live :: "'d eworld \<Rightarrow> string set" where
  "live w = {i. \<exists>c. find_record i w = Some c \<and> live_command c}"

definition started :: "('d \<Rightarrow> nat) \<Rightarrow> 'd eworld \<Rightarrow> nat" where
  "started runs w = runs (es_external (w_gate w))"

definition potential :: "('d \<Rightarrow> nat) \<Rightarrow> 'd eworld \<Rightarrow> nat" where
  "potential runs w = started runs w + card (live w)"

definition only_touches :: "string \<Rightarrow> 'd eworld \<Rightarrow> 'd eworld \<Rightarrow> bool" where
  "only_touches i w w' \<longleftrightarrow> (\<forall>j. j \<noteq> i \<longrightarrow> find_record j w' = find_record j w)"

lemma only_touches_refl [simp]: "only_touches i w w"
  by (simp add: only_touches_def)

lemma only_touches_trans: "only_touches i u v \<Longrightarrow> only_touches i v w \<Longrightarrow> only_touches i u w"
  by (simp add: only_touches_def)

lemma finite_live [simp]: "finite (live w)"
proof -
  have "live w \<subseteq> {i. \<exists>c. find_record i w = Some c}" by (auto simp: live_def)
  moreover have "finite {i. \<exists>c. find_record i w = Some c}"
    using finite_dom_map_of
    by (cases "records_of (store_file w)") (auto simp: find_record_def dom_def)
  ultimately show ?thesis by (rule finite_subset)
qed

lemma inert_step:
  assumes "inert runs m" and "m w = (x, w')"
  shows "potential runs w' = potential runs w \<and> find_record i w' = find_record i w \<and> live w' = live w \<and>
     started runs w' = started runs w"
proof -
  have "store_and_runs runs w' = store_and_runs runs w"
    using assms by (metis inert_def snd_conv)
  then show ?thesis
    by (simp add: store_and_runs_def potential_def started_def live_def find_record_def)
qed

lemma update_started: "store_update v w = (y, w') \<Longrightarrow> started runs w' = started runs w"
  by (auto simp: store_update_def store_op_defs started_def put_store_def
      split: if_splits sum.splits option.splits)

lemma update_live:
  assumes "store_update v w = (Inr (), w')"
  shows "live w' = (if live_command v then insert (er_request_id v) (live w) else live w - {er_request_id v}) \<and>
     find_record (er_request_id v) w' = Some v \<and> only_touches (er_request_id v) w w'"
proof -
  have "\<forall>i. find_record i w' = (if i = er_request_id v then Some v else find_record i w)"
    using store_update_cases[OF assms] by auto
  then show ?thesis by (auto simp: live_def only_touches_def)
qed

lemma update_step:
  assumes "store_update v w = (y, w')" and "live_command v \<Longrightarrow> er_request_id v \<in> live w"
  shows "potential runs w' \<le> potential runs w \<and> only_touches (er_request_id v) w w'"
proof (cases y)
  case (Inl e)
  then show ?thesis using store_update_cases[OF assms(1)] by auto
next
  case (Inr u)
  then have run: "store_update v w = (Inr (), w')" using assms(1) by simp
  have "live w' \<subseteq> live w" using update_live[OF run] assms(2) by auto
  then show ?thesis
    using update_live[OF run] update_started[OF assms(1)]
    by (simp add: potential_def card_mono)
qed

lemma claim_step:
  assumes "store_update v w = (Inr (), w')" and "\<not> live_command v" and "er_request_id v \<in> live w"
  shows "Suc (potential runs w') = potential runs w"
proof -
  have "card (live w) = Suc (card (live w - {er_request_id v}))"
    using assms(3) by (simp only: card.remove[OF finite_live])
  then show ?thesis
    using update_live[OF assms(1)] update_started[OF assms(1)] assms(2) by (simp add: potential_def)
qed

lemma run_command_step:
  assumes "well_behaved runs co t" and "run_command co r w = (x, w')"
  shows "potential runs w' \<le> Suc (potential runs w) \<and> find_record i w' = find_record i w \<and> live w' = live w"
proof -
  have runner: "store_file u' = store_file u \<and> started runs u' \<le> Suc (started runs u)"
    if "co_runner co argv cwd n u = (y, u')" for argv cwd n u y u'
    using assms(1) that by (auto simp: well_behaved_def started_def) (metis snd_conv)+
  have "store_file w' = store_file w \<and> started runs w' \<le> Suc (started runs w)"
    using assms(2)
    by (auto simp: run_command_def Let_def bindM_def tryM_def ret_def raise_def item_def iterate_def
        lift_sum_def dest!: runner
        split: prod.splits sum.splits option.splits json.splits if_splits)
  then show ?thesis by (simp add: potential_def live_def find_record_def)
qed

lemma execute_step:
  assumes "well_behaved runs co t" and "execute co r w = (x, w')"
  shows "potential runs w' \<le> (if er_effect r = COMMAND then 1 else 0) + potential runs w \<and>
     find_record i w' = find_record i w \<and> live w' = live w"
proof (cases "er_effect r = COMMAND")
  case True
  then have "w' = w \<or> run_command co r w = (x, w')"
    using assms(2)
    by (auto simp: execute_def verify_binding_def bindM_def raise_def ret_def COMMAND_def DRIVE_SAVE_def
        split: if_splits)
  then show ?thesis using True run_command_step[OF assms(1)] by auto
next
  case False
  then have "inert runs (execute co r)"
    by (auto simp: execute_def intro!: inert_bind inert_save_to_drive[OF assms(1)])
  from inert_step[OF this assms(2)] show ?thesis by simp
qed

lemma bindM_splitE:
  assumes "bindM m f w = (x, w')"
  obtains e where "m w = (Inl e, w')" and "x = Inl e"
  | a w1 where "m w = (Inr a, w1)" and "f a w1 = (x, w')"
  using assms by (auto simp: bindM_def split: prod.splits sum.splits)

lemma update_then_step:
  assumes "bindM (store_update v) (\<lambda>_. ret v) w = (x, w')" and "live_command v \<Longrightarrow> er_request_id v \<in> live w"
  shows "potential runs w' \<le> potential runs w \<and> only_touches (er_request_id v) w w'"
  using assms(1) by (rule bindM_splitE) (auto simp: ret_def dest!: update_step[OF _ assms(2)])

lemma record_outcome_step:
  assumes "record_outcome stamp n r out w = (x, w')"
  shows "potential runs w' \<le> potential runs w \<and> only_touches (er_request_id r) w w'"
proof (cases "\<exists>e. out = Inl e \<and> (\<forall>m b. e \<noteq> EffectRequestError m b)")
  case True
  then obtain e where e: "out = Inl e" "\<forall>m b. e \<noteq> EffectRequestError m b" by blast
  then show ?thesis using assms by (cases e) (auto simp: record_outcome_def raise_def)
next
  case False
  then obtain v where "record_outcome stamp n r out w = bindM (store_update v) (\<lambda>_. ret v) w"
    and "er_request_id v = er_request_id r" and "\<not> live_command v"
    by (cases out; cases "projl out")
      (auto simp: record_outcome_def Let_def live_command_def COMMAND_def split: py_exn.splits)
  then show ?thesis using assms update_then_step[of v w x w' runs] by simp
qed

lemma claim_running_step:
  assumes "claim_running n u w = (x, w')" and "find_record (er_request_id u) w = Some u"
    and "er_status u = ''approved''"
  shows "only_touches (er_request_id u) w w' \<and> potential runs w' \<le> potential runs w \<and>
     (\<forall>r. x = Inr r \<longrightarrow> er_request_id r = er_request_id u \<and> er_effect r = er_effect u \<and>
        (if er_effect u = COMMAND then 1 else 0) + potential runs w' \<le> potential runs w)"
proof (cases "er_effect u = COMMAND")
  case True
  let ?r = "u\<lparr>er_status := ''running'', er_attempts := n\<rparr>"
  have live: "er_request_id ?r \<in> live w" and dead: "\<not> live_command ?r"
    using assms(2,3) True by (auto simp: live_def live_command_def)
  have "bindM (store_update ?r) (\<lambda>_. ret ?r) w = (x, w')"
    using assms(1) True by (simp add: claim_running_def Let_def)
  then show ?thesis
  proof (rule bindM_splitE)
    fix e assume "store_update ?r w = (Inl e, w')" "x = Inl e"
    then show ?thesis using update_step[of ?r w "Inl e" w'] dead by auto
  next
    fix a w1 assume "store_update ?r w = (Inr a, w1)" "ret ?r w1 = (x, w')"
    then show ?thesis
      using claim_step[of ?r w w' runs, OF _ dead live] update_live[of ?r w w'] True
      by (auto simp: ret_def)
  qed
qed (use assms(1) in \<open>auto simp: claim_running_def ret_def\<close>)

lemma watch_execute_step:
  assumes wb: "well_behaved runs co t" and run: "watch_execute co stamp u w = (x, w')"
    and u: "find_record (er_request_id u) w = Some u" "er_status u = ''approved''"
  shows "potential runs w' \<le> potential runs w \<and> only_touches (er_request_id u) w w'"
  using run unfolding watch_execute_def Let_def
proof (rule bindM_splitE)
  fix e assume "claim_running (er_attempts u + 1) u w = (Inl e, w')"
  from claim_running_step[OF this u] show ?thesis by blast
next
  fix r w1
  assume c: "claim_running (er_attempts u + 1) u w = (Inr r, w1)"
    and k: "bindM (attemptM (execute co r)) (record_outcome stamp (er_attempts u + 1) r) w1 = (x, w')"
  obtain out w2 where ex: "execute co r w1 = (out, w2)"
    and o: "record_outcome stamp (er_attempts u + 1) r out w2 = (x, w')"
    using k by (cases "execute co r w1") (auto simp: attemptM_def elim!: bindM_splitE)
  note steps = claim_running_step[OF c u, of runs] record_outcome_step[OF o, of runs]
  have "potential runs w' \<le> potential runs w"
    using steps execute_step[OF wb ex, of "[]"] by (auto split: if_splits)
  moreover have "only_touches (er_request_id u) w w'"
    using steps execute_step[OF wb ex] by (auto simp: only_touches_def)
  ultimately show ?thesis by simp
qed

definition settles :: "('d \<Rightarrow> nat) \<Rightarrow> effect_request \<Rightarrow> 'd eworld \<Rightarrow> py_exn + effect_request \<Rightarrow> 'd eworld \<Rightarrow> bool" where
  "settles runs u w x w' \<longleftrightarrow> potential runs w' \<le> potential runs w \<and> only_touches (er_request_id u) w w' \<and>
     (\<forall>v. x = Inr v \<longrightarrow> er_request_id v = er_request_id u \<and> find_record (er_request_id u) w' = Some v)"

lemma write_settles:
  assumes "bindM (store_update z) (\<lambda>_. ret z) w = (x, w')" and "er_request_id z = er_request_id u"
    and "live_command z \<Longrightarrow> er_request_id z \<in> live w"
  shows "settles runs u w x w'"
proof -
  from assms(1) have "\<forall>y. x = Inr y \<longrightarrow> y = z \<and> find_record (er_request_id z) w' = Some z"
    by (rule bindM_splitE) (auto simp: ret_def dest: update_live)
  then show ?thesis
    using update_then_step[OF assms(1,3), of runs] assms(2) by (auto simp: settles_def)
qed

lemma record_decision_settles:
  assumes "record_decision stamp u p w = (x, w')" and "find_record (er_request_id u) w = Some u"
    and "er_status u = ''posted''"
  shows "settles runs u w x w'"
proof -
  have live: "live_command z \<Longrightarrow> er_request_id z \<in> live w"
    if "er_request_id z = er_request_id u" "er_effect z = er_effect u" for z
    using that assms(2,3) by (auto simp: live_def live_command_def)
  have "record_decision stamp u p w = ret u w \<or>
     (\<exists>z. record_decision stamp u p w = bindM (store_update z) (\<lambda>_. ret z) w \<and>
        er_request_id z = er_request_id u \<and> er_effect z = er_effect u)"
    by (cases p; simp add: record_decision_def Let_def; intro disjI2 exI conjI, rule refl; simp)
  then show ?thesis
  proof
    assume "record_decision stamp u p w = ret u w"
    then show ?thesis using assms(1,2) by (simp add: ret_def settles_def)
  qed (use assms(1) write_settles live in metis)
qed

lemma settles_inert:
  assumes "inert runs m" and "m w = (y, w1)" and "settles runs u w1 x w'"
  shows "settles runs u w x w'"
proof -
  have a: "potential runs w1 = potential runs w" and b: "only_touches (er_request_id u) w w1"
    using inert_step[OF assms(1,2)] by (simp_all add: only_touches_def)
  show ?thesis
    using assms(3) only_touches_trans[OF b] unfolding settles_def a by blast
qed

lemma watch_probe_step:
  assumes wb: "well_behaved runs co t" and run: "watch_probe t stamp u w = (x, w')"
    and u: "find_record (er_request_id u) w = Some u" "er_status u = ''posted''"
  shows "settles runs u w x w'"
proof -
  obtain y w1 where p: "effect_probe t (card_of u) w = (y, w1)" by fastforce
  note inert = inert_effect_probe[OF wb]
  have u1: "find_record (er_request_id u) w1 = Some u" using inert_step[OF inert p] u(1) by simp
  have "x = Inr u \<and> w' = w \<or> w' = w1 \<and> (x = Inr u \<or> (\<exists>e. x = Inl e)) \<or>
      (\<exists>q. record_decision stamp u q w1 = (x, w'))"
    using run p
    by (auto simp: watch_probe_def attemptM_def bindM_def ret_def raise_def split: if_splits sum.splits)
  moreover have "settles runs u v (Inr u) v" if "find_record (er_request_id u) v = Some u" for v
    using that by (simp add: settles_def)
  moreover have "settles runs u v (Inl e) v" for v e by (simp add: settles_def)
  ultimately have "settles runs u w x w' \<or> settles runs u w1 x w'"
    using u(1) u1 record_decision_settles[OF _ u1 u(2)] by blast
  then show ?thesis using settles_inert[OF inert p] by blast
qed

definition bounded :: "('d \<Rightarrow> nat) \<Rightarrow> string \<Rightarrow> 'd eworld \<Rightarrow> 'd eworld \<Rightarrow> bool" where
  "bounded runs i w w' \<longleftrightarrow> potential runs w' \<le> potential runs w \<and> only_touches i w w'"

lemma bounded_refl [simp]: "bounded runs i w w"
  by (simp add: bounded_def)

lemma bounded_trans: "bounded runs i u v \<Longrightarrow> bounded runs i v w \<Longrightarrow> bounded runs i u w"
  unfolding bounded_def using only_touches_trans[of i u v w] by linarith

lemma bounded_inert: "inert runs m \<Longrightarrow> m w = (x, w') \<Longrightarrow> bounded runs i w w'"
  using inert_step[of runs m w x w'] by (simp add: bounded_def only_touches_def)

lemma bounded_bind_inert:
  assumes "bindM m k w = (x, w')" and "\<And>y w1. m w = (y, w1) \<Longrightarrow> bounded runs i w w1" and "\<And>a. inert runs (k a)"
  shows "bounded runs i w w'"
  using assms(1) by (rule bindM_splitE) (auto intro: assms(2) bounded_trans[OF assms(2) bounded_inert[OF assms(3)]])

lemma tick_run_bounded:
  assumes wb: "well_behaved runs co t" and run: "tick_run co stamp u res w = (x, w')"
    and u: "find_record (er_request_id u) w = Some u"
  shows "bounded runs (er_request_id u) w w'"
proof (cases "er_status u = ''approved''")
  case True
  show ?thesis
    using run unfolding tick_run_def if_P[OF True]
  proof (rule bounded_bind_inert)
    fix y w1 assume "watch_execute co stamp u w = (y, w1)"
    from watch_execute_step[OF wb this u True] show "bounded runs (er_request_id u) w w1"
      by (simp only: bounded_def)
  qed (auto intro!: inert_bind inert_watch_notify[OF wb])
qed (use run in \<open>simp add: tick_run_def ret_def\<close>)

lemma tick_probe_settles:
  assumes wb: "well_behaved runs co t" and run: "tick_probe co t stamp r res w = (x, w')"
    and r: "find_record (er_request_id r) w = Some r"
  shows "bounded runs (er_request_id r) w w' \<and>
     (\<forall>u res'. x = Inr (u, res') \<longrightarrow> er_request_id u = er_request_id r \<and> find_record (er_request_id r) w' = Some u)"
proof (cases "er_status r = ''posted''")
  case False
  then show ?thesis using run r by (auto simp: tick_probe_def ret_def)
next
  case True
  let ?k = "\<lambda>u. if er_status u = ''cancelled'' \<or> er_status u = ''abandoned''
     then bindM (watch_notify co ''cancelled'' u) (\<lambda>_.
          ret (u, res\<lparr>tk_cancelled := tk_cancelled res @ [er_request_id u]\<rparr>))
     else ret (u, res)"
  have inert: "inert runs (?k u)" for u by (auto intro!: inert_bind inert_watch_notify[OF wb])
  have fst_k: "fst a = u" if "?k u v = (Inr a, v')" for u v a v'
    using that by (auto simp: ret_def bindM_def split: if_splits prod.splits sum.splits)
  have "bindM (watch_probe t stamp r) ?k w = (x, w')"
    using run True by (simp add: tick_probe_def)
  then show ?thesis
  proof (rule bindM_splitE)
    fix e assume p: "watch_probe t stamp r w = (Inl e, w')" and x: "x = Inl e"
    from watch_probe_step[OF wb p r True] show ?thesis
      unfolding settles_def bounded_def x by blast
  next
    fix u w1 assume p: "watch_probe t stamp r w = (Inr u, w1)" and k: "?k u w1 = (x, w')"
    have s: "settles runs r w (Inr u) w1" by (rule watch_probe_step[OF wb p r True])
    then have "bounded runs (er_request_id r) w w1" by (simp add: settles_def bounded_def)
    moreover have "find_record (er_request_id r) w' = find_record (er_request_id r) w1"
      using inert_step[OF inert k] by blast
    moreover have "bounded runs (er_request_id r) w1 w'" by (rule bounded_inert[OF inert k])
    moreover have "\<forall>v res'. x = Inr (v, res') \<longrightarrow> v = u" using fst_k[of u w1 _ w'] k by auto
    ultimately show ?thesis
      using s bounded_trans unfolding settles_def by metis
  qed
qed

lemma tick_record_bounded:
  assumes wb: "well_behaved runs co t" and run: "tick_record co t stamp r res w = (x, w')"
    and r: "find_record (er_request_id r) w = Some r"
  shows "bounded runs (er_request_id r) w w'"
proof (cases "er_status r = ''running''")
  case True
  have "bounded runs (er_request_id r) w w1" if "finish stamp msg r w = (y, w1)" for msg y w1
    using that update_then_step[of _ w y w1 runs]
    by (force simp: finish_def Let_def live_command_def bounded_def)
  then show ?thesis
    using run True unfolding tick_record_def
    by (auto intro!: inert_bind inert_watch_notify[OF wb] elim!: bounded_bind_inert)
next
  case False
  then have "bindM (tick_probe co t stamp r res) (\<lambda>(u, res). tick_run co stamp u res) w = (x, w')"
    using run by (simp add: tick_record_def)
  then show ?thesis
  proof (rule bindM_splitE)
    fix e assume "tick_probe co t stamp r res w = (Inl e, w')"
    then show ?thesis using tick_probe_settles[OF wb _ r] by blast
  next
    fix a w1 assume p: "tick_probe co t stamp r res w = (Inr a, w1)"
      and k: "(case a of (u, res) \<Rightarrow> tick_run co stamp u res) w1 = (x, w')"
    obtain u res' where a: "a = (u, res')" by fastforce
    note s = tick_probe_settles[OF wb p r]
    then have u: "er_request_id u = er_request_id r" "find_record (er_request_id u) w1 = Some u"
      using a by auto
    show ?thesis
      using s tick_run_bounded[OF wb _ u(2), of stamp res' x w'] k a u(1) by (auto intro: bounded_trans)
  qed
qed

text \<open>One tick handles every record of its snapshot once, and nobody else writes in between.\<close>

lemma foldM_tick_bounded:
  assumes wb: "well_behaved runs co t"
  shows "distinct (map er_request_id rs) \<Longrightarrow> \<forall>r \<in> set rs. find_record (er_request_id r) w = Some r \<Longrightarrow>
     foldM (tick_record co t stamp) rs res w = (x, w') \<Longrightarrow> potential runs w' \<le> potential runs w"
proof (induction rs arbitrary: res w)
  case Nil
  then show ?case by (simp add: ret_def)
next
  case (Cons r rs)
  have b: "bounded runs (er_request_id r) w w1" if "tick_record co t stamp r res w = (y, w1)" for y w1
    using tick_record_bounded[OF wb that] Cons.prems(2) by simp
  from Cons.prems(3) have "bindM (tick_record co t stamp r res) (foldM (tick_record co t stamp) rs) w = (x, w')"
    by simp
  then show ?case
  proof (rule bindM_splitE)
    fix res' w1 assume s: "tick_record co t stamp r res w = (Inr res', w1)"
      and k: "foldM (tick_record co t stamp) rs res' w1 = (x, w')"
    have "find_record (er_request_id r') w1 = Some r'" if "r' \<in> set rs" for r'
    proof -
      have "er_request_id r' \<noteq> er_request_id r" using Cons.prems(1) imageI[OF that, of er_request_id] by auto
      then show ?thesis using b[OF s] Cons.prems(2) that by (simp add: bounded_def only_touches_def)
    qed
    then have "potential runs w' \<le> potential runs w1" using Cons.IH[OF _ _ k] Cons.prems(1) by simp
    then show ?case using b[OF s] by (simp add: bounded_def)
  qed (use b in \<open>simp add: bounded_def\<close>)
qed

lemma run_tick_potential:
  assumes "well_behaved runs co t" and "run_tick co t stamp w = (x, w')"
  shows "potential runs w' \<le> potential runs w"
  using assms(2) unfolding run_tick_def
proof (rule bindM_splitE)
  fix e assume "store_all w = (Inl e, w')"
  then have "w' = w" by (auto simp: store_all_def store_op_defs split: if_splits sum.splits)
  then show ?thesis by simp
next
  fix rs w1 assume "store_all w = (Inr rs, w1)"
    and k: "foldM (tick_record co t stamp) rs \<lparr>tk_done = [], tk_cancelled = [], tk_failed = []\<rparr> w1 = (x, w')"
  then obtain d where d: "records_of (store_file w) = Inr d" "rs = map snd d" "w1 = w"
    by (auto simp: store_all_def store_op_defs split: if_splits sum.splits)
  note wf = records_of_wf[OF d(1)]
  have ids: "map er_request_id rs = map fst d"
    using wf d(2) by (auto simp: wf_records_def)
  have "distinct (map er_request_id rs)" using ids wf by (simp add: wf_records_def)
  moreover have "\<forall>r \<in> set rs. find_record (er_request_id r) w = Some r"
  proof
    fix r assume "r \<in> set rs"
    then obtain i where i: "(i, r) \<in> set d" using d(2) by auto
    then have "er_request_id r = i" and "map_of d i = Some r"
      using wf by (auto simp: wf_records_def)
    then show "find_record (er_request_id r) w = Some r" using d(1) by (simp add: find_record_def)
  qed
  ultimately show ?thesis using foldM_tick_bounded[OF assms(1)] k d(3) by blast
qed

text \<open>A history of ticks; a tick that raises leaves the world it reached to the next one.\<close>

fun ticks :: "'d eworld collaborators \<Rightarrow> 'd eworld transport \<Rightarrow> string list \<Rightarrow> 'd eworld \<Rightarrow> 'd eworld" where
  "ticks co t [] w = w"
| "ticks co t (stamp # stamps) w = ticks co t stamps (snd (run_tick co t stamp w))"

lemma ticks_potential:
  assumes "well_behaved runs co t"
  shows "potential runs (ticks co t stamps w) \<le> potential runs w"
proof (induction stamps arbitrary: w)
  case (Cons s stamps)
  have "potential runs (snd (run_tick co t s w)) \<le> potential runs w"
    by (rule run_tick_potential[OF assms prod.collapse[symmetric]])
  with Cons.IH show ?case unfolding ticks.simps by (rule le_trans)
qed simp

section \<open>Properties\<close>

text \<open>
  \<^bold>\<open>C19.\<close> A command request runs at most once: over any history of watcher ticks, including
  ticks that die in the middle, the number of process starts grows by at most the number of
  command requests that were posted or approved at the beginning.
\<close>

theorem commands_run_at_most_once:
  assumes "well_behaved runs co t"
  shows "started runs (ticks co t stamps w) \<le> started runs w + card (live w)"
  using ticks_potential[OF assms, of stamps w] by (simp add: potential_def)


text \<open>
  Retries are bounded: an execution leaves a request approved, and so open for another
  try, only if it is not a command, and then with one more attempt and fewer than five in all.
\<close>

theorem retries_bounded:
  assumes "watch_execute co stamp r w = (Inr v, w')" and "er_status v = ''approved''"
  shows "er_effect r \<noteq> COMMAND \<and> er_attempts v = er_attempts r + 1 \<and> er_attempts v < 5"
  using assms unfolding watch_execute_def Let_def
proof (elim bindM_InrE)
  fix r1 w1 out w2
  assume c: "claim_running (er_attempts r + 1) r w = (Inr r1, w1)"
    and o: "record_outcome stamp (er_attempts r + 1) r1 out w2 = (Inr v, w')"
  have "er_effect r1 = er_effect r"
    using c by (auto simp: claim_running_def Let_def ret_def bindM_def split: if_splits prod.splits sum.splits)
  then show ?thesis
    using o assms(2)
    by (auto simp: record_outcome_def Let_def ret_def raise_def bindM_def MAX_ATTEMPTS_def
        split: sum.splits py_exn.splits prod.splits if_splits)
qed

section \<open>Witnesses\<close>

text \<open>
  A world with one approved command request, a transport on which every card shows the owner's
  approval, and collaborators whose runner counts its calls.
\<close>

definition sample_request :: effect_request where
  "sample_request = \<lparr>er_request_id = ''r1'', er_key = ''effect:1'', er_effect = ''command'', er_summary = ''s'',
     er_payload = [(''argv'', JArr [JStr ''true'']), (''target'', JStr ''t''), (''cwd'', JStr ''/''), (''timeout'', JInt 60)],
     er_action_hash = ''sha256:d'', er_created_at = ''t0'', er_status = ''posted'', er_kind = [], er_surface = [],
     er_channel_id = ''31'', er_policy_version = 8, er_message_id = Some ''m1'', er_approval_thread_id = [],
     er_approval_guild_id = [], er_origin_channel_id = [], er_origin_message_id = [],
     er_render_version = None, er_attempts = 0, er_last_error = [], er_receipt = None, er_finished_at = []\<rparr>"

definition sample_store :: "effect_request list \<Rightarrow> nat eworld" where
  "sample_store rs = idle_world \<lparr>es_requests = Requests rs, es_external = 0\<rparr>"

definition sample_transport :: "nat eworld transport" where
  "sample_transport = \<lparr>tr_owner_id = ''9'', tr_get_message = (\<lambda>_ _. ret (Some ''card sha256:d'')),
     tr_get_reaction_users = (\<lambda>_ _ e. ret (if e = APPROVE_EMOJI then [(''9'', False)] else [])),
     tr_delete_message = (\<lambda>_ _. ret ()), tr_post_message = (\<lambda>_ _. raise OSError),
     tr_add_reaction = (\<lambda>_ _ _. ret ())\<rparr>"

definition sample_collaborators :: "nat eworld collaborators" where
  "sample_collaborators = \<lparr>co_digest = (\<lambda>_. ''d''), co_file_sha256 = (\<lambda>_. raise OSError),
     co_publisher = (\<lambda>_ _ _ _ _. ret ([], [])),
     co_runner = (\<lambda>_ _ _ w. (Inr (0, ''out''), w\<lparr>w_gate := (w_gate w)\<lparr>es_external := Suc (es_external (w_gate w))\<rparr>\<rparr>)),
     co_mask = id, co_str = (\<lambda>_. []), co_int = (\<lambda>v. case v of JInt n \<Rightarrow> Inr n | _ \<Rightarrow> Inl TypeError),
     co_fromisoformat = (\<lambda>_. Inr 0), co_exn_text = exn_name, co_deliver = (\<lambda>_ _. ret ())\<rparr>"

lemma sample_well_behaved: "well_behaved id sample_collaborators sample_transport"
  by (simp add: well_behaved_def sample_collaborators_def sample_transport_def inert_def ret_def raise_def store_file_def)

lemma sample_runs_once:
  "es_external (w_gate (ticks sample_collaborators sample_transport [''t1'', ''t2''] (sample_store [sample_request]))) = 1"
  by code_simp

theorem commands_run_at_most_once_witness:
  "started id (ticks sample_collaborators sample_transport [''t1'', ''t2''] (sample_store [sample_request])) = 1 \<and>
   started id (ticks sample_collaborators sample_transport [''t1'', ''t2''] (sample_store [sample_request]))
     \<le> started id (sample_store [sample_request]) + card (live (sample_store [sample_request]))"
  by (rule conjI, simp only: started_def sample_runs_once id_apply,
      rule commands_run_at_most_once[OF sample_well_behaved])


definition sample_save :: effect_request where
  "sample_save = sample_request\<lparr>er_effect := ''drive-save'', er_status := ''approved'',
     er_payload := [(''frozen_path'', JStr ''f''), (''sha256'', JStr ''h''), (''size'', JInt 1),
       (''kind'', JStr ''doctype''), (''title'', JStr ''t''), (''on'', JStr ''2026-11-05'')]\<rparr>"

definition failing_drive :: "nat eworld collaborators" where
  "failing_drive = sample_collaborators\<lparr>co_file_sha256 := \<lambda>_. ret (''h'', 1),
     co_publisher := \<lambda>_ _ _ _ _. raise OSError\<rparr>"

theorem retries_bounded_witness:
  "\<exists>v w'. watch_execute failing_drive ''t'' sample_save (sample_store [sample_save]) = (Inr v, w') \<and>
     er_status v = ''approved'' \<and> er_attempts v < 5"
proof -
  let ?m = "watch_execute failing_drive ''t'' sample_save (sample_store [sample_save])"
  have "(case fst ?m of Inl _ \<Rightarrow> [] | Inr v \<Rightarrow> er_status v) = ''approved''" by code_simp
  then obtain v where v: "fst ?m = Inr v" "er_status v = ''approved''" by (auto split: sum.splits)
  then have "?m = (Inr v, snd ?m)" by (metis prod.collapse)
  from retries_bounded[OF this v(2)] this v(2) show ?thesis by blast
qed

theorem message_binding_immutable_witness:
  "\<exists>c'. find_record ''r1'' (snd (store_update (sample_request\<lparr>er_message_id := Some ''m2''\<rparr>)
       (sample_store [sample_request]))) = Some c' \<and> er_message_id c' = Some ''m1''"
proof -
  have "find_record ''r1'' (sample_store [sample_request]) = Some sample_request"
    by (simp add: find_record_def sample_store_def idle_world_def store_file_def records_of_def sample_request_def)
  moreover have "er_message_id sample_request = Some ''m1''" by (simp add: sample_request_def)
  ultimately show ?thesis
    by (rule message_binding_immutable) (rule disjI1, rule prod.collapse[symmetric])
qed

theorem effect_drop_exact_witness:
  "effect_outstanding ''effect:1'' (snd (effect_drop (card_of sample_request) (sample_store [sample_request]))) =
     (Inr [], snd (effect_drop (card_of sample_request) (sample_store [sample_request])))"
proof -
  have "effect_drop (card_of sample_request) (sample_store [sample_request]) =
      (Inr (), snd (effect_drop (card_of sample_request) (sample_store [sample_request])))"
    by (simp add: effect_drop_def store_clear_message_def store_op_defs sample_store_def idle_world_def
        store_file_def records_of_def)
  moreover have "effect_outstanding ''effect:1'' (sample_store [sample_request]) =
      (Inr [card_of sample_request], sample_store [sample_request])"
    by (simp add: effect_outstanding_def store_op_defs sample_store_def idle_world_def store_file_def
        records_of_def outstanding_cards_def listed_def sample_request_def)
  ultimately show ?thesis using effect_drop_exact by (fastforce simp: same_card_def)
qed

theorem approved_means_owner_reacted_witness:
  "effect_probe sample_transport (card_of sample_request) (sample_store [sample_request]) =
     (Inr APPROVED, sample_store [sample_request]) \<and>
   (\<exists>approved. (tr_owner_id sample_transport, False) \<in> set approved)"
proof -
  have h: "effect_probe sample_transport (card_of sample_request) (sample_store [sample_request]) =
     (Inr APPROVED, sample_store [sample_request])"
    by (simp add: effect_probe_def to_surface_error_def bindM_def tryM_def ret_def sample_transport_def
        card_of_def sample_request_def owner_reacted_def APPROVE_EMOJI_def CANCEL_EMOJI_def)
  from h approved_means_owner_reacted[OF h] show ?thesis by blast
qed

subsection \<open>A card that cannot be posted\<close>

definition sample_env :: "nat cli_env" where
  "sample_env = \<lparr>ce_nfc = id, ce_sha256 = (\<lambda>s. ''0123456789abcdef0123456789''), ce_key_basis = (\<lambda>e s. e @ s),
     ce_isoformat = ''i'', ce_stamp = ''t0'', ce_resolve = id, ce_is_dir = (\<lambda>_. True),
     ce_drive_payload = (\<lambda>_ _. ret []), ce_search = (\<lambda>_ _. False), ce_shlex_join = concat,
     ce_token = ret ''tok'', ce_config = Inr (JObj [(''owner_id'', JStr ''9'')]),
     ce_transport = (\<lambda>_ _. sample_transport),
     ce_directory = (\<lambda>_ _. \<lparr>cd_owner_dm = ret ''10'', cd_skill_approvals = ret ''20'', cd_agent_chat = ret ''30'',
        cd_agent_chat_thread = (\<lambda>_. ret ''31''), cd_agent_chat_request_thread = (\<lambda>_ _. ret ''32''),
        cd_describe = (\<lambda>_. ret \<lparr>cf_channel_type = 11, cf_name = [], cf_recipient_ids = [],
           cf_parent_id = Some ''30'', cf_guild_id = Some ''1''\<rparr>)\<rparr>),
     ce_render = (\<lambda>_. Inr ''card''), ce_look = (\<lambda>_. ([], []))\<rparr>"

definition sample_args :: request_args where
  "sample_args = \<lparr>ra_effect = ''command'', ra_summary = ''s'', ra_target = ''t'', ra_argv = [''--'', ''true''],
     ra_timeout = 60, ra_cwd = ''/'', ra_origin_channel_id = [], ra_origin_message_id = []\<rparr>"

text \<open>
  The command line does not always end with one of its documented exit codes: when
  Discord refuses the first card of a request, the lifecycle re-raises its surface error and
  \<open>main\<close>, which only turns request errors and operating-system errors into an exit code, lets it
  escape, although the module documents exit code 3 for a card that could not be posted.
\<close>

theorem post_failure_escapes_main:
  "fst (cli_main (cmd_request sample_env (\<lambda>_. ''d'') sample_args) (sample_store [])) = Inl ApprovalSurfaceError"
  by code_simp

end
