(* ===== verification/Reminder_Config.thy ===== *)
theory Reminder_Config
  imports Prelude
begin

text \<open>
  Model of \<open>automation/interop/approval_reminder_config.py\<close>: the duration syntax, the validation
  of the \<open>approval_reminders\<close> section and the small line-based reader of its YAML. Durations are
  integers in microseconds, the resolution of \<open>timedelta\<close>. The canonical Hermes loader and the
  file system are parameters.
\<close>

definition minute :: int where
  "minute = 60 * 1000000"

record reminder_config =
  rc_enabled :: bool
  rc_initial_delay :: int
  rc_repeat_interval :: int

text \<open>The constructor with \<open>__post_init__\<close>.\<close>

definition ApprovalReminderConfig :: "bool \<Rightarrow> int \<Rightarrow> int \<Rightarrow> py_exn + reminder_config" where
  "ApprovalReminderConfig enabled initial repeat =
     (if initial \<le> 0 \<or> repeat \<le> 0 then Inl ApprovalReminderConfigError
      else Inr \<lparr>rc_enabled = enabled, rc_initial_delay = initial, rc_repeat_interval = repeat\<rparr>)"

definition SECTION :: string where
  "SECTION = ''approval_reminders''"

definition units :: "(string \<times> int) list" where
  "units = map (\<lambda>u. (u, 1)) [''m'', ''min'', ''mins'', ''minute'', ''minutes''] @
     map (\<lambda>u. (u, 60)) [''h'', ''hr'', ''hrs'', ''hour'', ''hours''] @
     map (\<lambda>u. (u, 1440)) [''d'', ''day'', ''days'']"

text \<open>
  \<open>_DURATION.fullmatch(value.strip())\<close>: digits, optional space, a unit in any case. The unit's
  first letter selects the multiplier.
\<close>

definition match_duration :: "string \<Rightarrow> (int \<times> int) option" where
  "match_duration s =
     (let digits = takeWhile dec_char s;
          unit_name = lower (dropWhile py_space (dropWhile dec_char s))
      in if digits = [] then None
         else map_option (\<lambda>m. (dec_value digits, m)) (map_of units unit_name))"

definition duration_minutes :: "json \<Rightarrow> py_exn + int" where
  "duration_minutes value =
     (case value of
        JStr s \<Rightarrow>
          (case match_duration (strip_by py_space s) of
             None \<Rightarrow> Inl ApprovalReminderConfigError
           | Some (n, m) \<Rightarrow> if n * m \<le> 0 then Inl ApprovalReminderConfigError else Inr (n * m))
      | _ \<Rightarrow> Inl ApprovalReminderConfigError)"

text \<open>\<open>timedelta(minutes=n)\<close>, which refuses more than 999999999 days.\<close>

definition timedelta_minutes :: "int \<Rightarrow> py_exn + int" where
  "timedelta_minutes n = (if n div 1440 > 999999999 then Inl (OtherError ''OverflowError'') else Inr (n * minute))"

definition parse_approval_reminder_config :: "json \<Rightarrow> py_exn + reminder_config" where
  "parse_approval_reminder_config config =
     (case config of
        JObj d \<Rightarrow>
          (case map_of d SECTION of
             None \<Rightarrow> ApprovalReminderConfig True (180 * minute) (60 * minute)
           | Some (JObj sec) \<Rightarrow>
               if list_ex (\<lambda>(k, _). k \<notin> {''enabled'', ''initial_delay'', ''repeat_interval''}) sec
               then Inl ApprovalReminderConfigError
               else (case jget_or sec ''enabled'' (JBool True) of
                   JBool enabled \<Rightarrow>
                     sum_bind (duration_minutes (jget_or sec ''initial_delay'' (JStr ''3h''))) (\<lambda>i.
                     sum_bind (timedelta_minutes i) (\<lambda>initial.
                     sum_bind (duration_minutes (jget_or sec ''repeat_interval'' (JStr ''1h''))) (\<lambda>r.
                     sum_bind (timedelta_minutes r) (\<lambda>repeat.
                     ApprovalReminderConfig enabled initial repeat))))
                 | _ \<Rightarrow> Inl ApprovalReminderConfigError)
           | Some _ \<Rightarrow> Inl ApprovalReminderConfigError)
      | _ \<Rightarrow> Inl ApprovalReminderConfigError)"

section \<open>The section reader\<close>

text \<open>\<open>s.split(sep, 1)\<close> for a one-character separator: the part before it and, if present, the rest.\<close>

definition split_once :: "'a \<Rightarrow> 'a list \<Rightarrow> 'a list \<times> 'a list option" where
  "split_once c s = (takeWhile (\<lambda>x. x \<noteq> c) s,
     (case dropWhile (\<lambda>x. x \<noteq> c) s of [] \<Rightarrow> None | _ # rest \<Rightarrow> Some rest))"

definition is_quote :: "char \<Rightarrow> bool" where
  "is_quote c \<longleftrightarrow> c = CHR 0x27 \<or> c = CHR 0x22"

fun yaml_section :: "string list \<Rightarrow> jobj option \<Rightarrow> py_exn + jobj option" where
  "yaml_section [] sec = Inr sec"
| "yaml_section (raw # lines) sec =
     (if CHR 0x09 \<in> set raw then Inl ApprovalReminderConfigError
      else let content = rstrip_by py_space (fst (split_once (CHR ''#'') raw)) in
      if content = [] then yaml_section lines sec
      else let indent = length content - length (dropWhile (\<lambda>c. c = CHR '' '') content);
               body = strip_by py_space content in
      if indent = 0 then
        (if body = SECTION @ '':'' then
           (case sec of Some _ \<Rightarrow> Inl ApprovalReminderConfigError | None \<Rightarrow> yaml_section lines (Some []))
         else if starts_with (SECTION @ '':'') body then Inl ApprovalReminderConfigError
         else (case sec of Some _ \<Rightarrow> Inr sec | None \<Rightarrow> yaml_section lines sec))
      else (case sec of
          None \<Rightarrow> yaml_section lines sec
        | Some d \<Rightarrow>
            (case split_once (CHR '':'') body of
               (_, None) \<Rightarrow> Inl ApprovalReminderConfigError
             | (k, Some v) \<Rightarrow>
                 if indent < 2 then Inl ApprovalReminderConfigError
                 else let key = strip_by py_space k; value = strip_by py_space v in
                 if key = [] \<or> value = [] \<or> map_of d key \<noteq> None then Inl ApprovalReminderConfigError
                 else yaml_section lines (Some (dict_set key
                   (if value = ''true'' then JBool True else if value = ''false'' then JBool False
                    else JStr (strip_by is_quote value)) d)))))"

definition load_yaml :: "(py_exn + string list) \<Rightarrow> py_exn + json" where
  "load_yaml file =
     (case file of
        Inl e \<Rightarrow> if is_os_error e then Inl ApprovalReminderConfigError else Inl e
      | Inr lines \<Rightarrow> sum_bind (yaml_section lines None) (\<lambda>sec.
          Inr (JObj (case sec of None \<Rightarrow> [] | Some d \<Rightarrow> [(SECTION, JObj d)]))))"

text \<open>
  \<open>_home_config\<close>: the probe of the default path may raise an operating-system error, which counts
  as no file.
\<close>

definition home_config :: "(py_exn + bool) \<Rightarrow> (py_exn + string list) \<Rightarrow> py_exn + json" where
  "home_config is_file file =
     (case is_file of
        Inl e \<Rightarrow> if is_os_error e then Inr (JObj []) else Inl e
      | Inr False \<Rightarrow> Inr (JObj [])
      | Inr True \<Rightarrow> load_yaml file)"

text \<open>
  \<open>load_approval_reminder_config\<close>. \<open>hermes\<close> is the outcome of the canonical loader: \<open>None\<close> when the
  module cannot be imported.
\<close>

definition load_approval_reminder_config ::
  "json option \<Rightarrow> (py_exn + string list) option \<Rightarrow> (py_exn + json) option \<Rightarrow> (py_exn + bool) \<Rightarrow>
   (py_exn + string list) \<Rightarrow> py_exn + reminder_config" where
  "load_approval_reminder_config config path hermes is_file home =
     (case (config, path) of
        (Some _, Some _) \<Rightarrow> Inl ApprovalReminderConfigError
      | (_, Some file) \<Rightarrow> sum_bind (load_yaml file) parse_approval_reminder_config
      | (Some c, None) \<Rightarrow> parse_approval_reminder_config c
      | (None, None) \<Rightarrow>
          (case hermes of
             None \<Rightarrow> sum_bind (home_config is_file home) parse_approval_reminder_config
           | Some (Inr (JObj d)) \<Rightarrow> parse_approval_reminder_config (JObj d)
           | Some _ \<Rightarrow> Inl ApprovalReminderConfigError))"

section \<open>Facts\<close>

lemma ApprovalReminderConfig_positive:
  "ApprovalReminderConfig e i r = Inr c \<Longrightarrow> rc_initial_delay c > 0 \<and> rc_repeat_interval c > 0"
  by (auto simp: ApprovalReminderConfig_def split: if_splits)

lemma parse_positive:
  "parse_approval_reminder_config config = Inr c \<Longrightarrow> rc_initial_delay c > 0 \<and> rc_repeat_interval c > 0"
  by (auto simp: parse_approval_reminder_config_def sum_bind_def dest: ApprovalReminderConfig_positive
      split: json.splits option.splits sum.splits if_splits)

section \<open>Properties\<close>

text \<open>
  No accepted configuration stops or floods the reminders: whatever the source of the
  settings (a loaded mapping, a file, the Hermes loader or the home fallback), a configuration
  that loads has a positive initial delay and a positive repeat interval; every other input is
  an error.
\<close>

theorem loaded_config_positive:
  assumes "load_approval_reminder_config config path hermes is_file home = Inr c"
  shows "rc_initial_delay c > 0 \<and> rc_repeat_interval c > 0"
  using assms
  by (auto simp: load_approval_reminder_config_def sum_bind_def dest: parse_positive
      split: option.splits sum.splits json.splits)

theorem loaded_config_positive_witness:
  "load_approval_reminder_config None
     (Some (Inr [''model: x'', ''approval_reminders:'', ''  enabled: true'', ''  initial_delay: 30 Min  # soon'',
       ''other: 1'']))
     None (Inr False) (Inr []) =
   Inr \<lparr>rc_enabled = True, rc_initial_delay = 1800000000, rc_repeat_interval = 3600000000\<rparr> \<and>
   (0::int) < 1800000000"
proof -
  have h: "load_approval_reminder_config None
     (Some (Inr [''model: x'', ''approval_reminders:'', ''  enabled: true'', ''  initial_delay: 30 Min  # soon'',
       ''other: 1'']))
     None (Inr False) (Inr []) =
   Inr \<lparr>rc_enabled = True, rc_initial_delay = 1800000000, rc_repeat_interval = 3600000000\<rparr>"
    by code_simp
  from h loaded_config_positive[OF h] show ?thesis by simp
qed

end
