(* ===== verification/Discord_Link.thy ===== *)
theory Discord_Link
  imports Prelude
begin

text \<open>
  The link definitions of \<open>automation/interop/owner_message.py\<close>, shared by the reminders and the
  owner-proxy check: a Discord message link from its coordinates, or the reason there is none.
\<close>

datatype link_status = AVAILABLE | UNAVAILABLE | INVALID | DELETED

record link_result =
  lk_status :: link_status
  lk_url :: "string option"

definition link :: "link_status \<Rightarrow> string option \<Rightarrow> link_result" where
  "link s u = \<lparr>lk_status = s, lk_url = u\<rparr>"

text \<open>\<open>owner_message._snowflake\<close>: ASCII decimal digits, not all zero.\<close>

definition om_snowflake :: "string \<Rightarrow> bool" where
  "om_snowflake s \<longleftrightarrow> s \<noteq> [] \<and> list_all dec_char s \<and> strip_by (\<lambda>c. c = CHR ''0'') s \<noteq> []"

definition discord_link ::
  "string \<Rightarrow> string option \<Rightarrow> string option \<Rightarrow> string option \<Rightarrow> link_result" where
  "discord_link space channel_id message_id guild_id =
     (if space \<notin> {''guild'', ''dm'', ''unknown''} then link INVALID None
      else if space = ''unknown'' then link UNAVAILABLE None
      else if list_ex (\<lambda>v. case v of None \<Rightarrow> False | Some s \<Rightarrow> \<not> om_snowflake s) [channel_id, message_id, guild_id]
      then link INVALID None
      else case channel_id of
        None \<Rightarrow> link UNAVAILABLE None
      | Some c \<Rightarrow>
          let url = (\<lambda>root. ''https://discord.com/channels/'' @ root @ ''/'' @ c @
                 (case message_id of None \<Rightarrow> [] | Some m \<Rightarrow> ''/'' @ m)) in
          if space = ''guild''
          then (case guild_id of None \<Rightarrow> link UNAVAILABLE None | Some g \<Rightarrow> link AVAILABLE (Some (url g)))
          else link AVAILABLE (Some (url ''@me'')))"

end
