(* ===== verification/Approval_Reminder.thy ===== *)
theory Approval_Reminder
  imports Lifecycle_Properties Reminder_Config Discord_Link
begin

text \<open>
  Model of \<open>automation/interop/approval_reminder.py\<close> (with \<open>discord_link\<close> of \<open>owner_message.py\<close>
  and the entry point \<open>remind_owner_approval\<close> of the lifecycle): when a reminder of a pending
  approval is due, how one is claimed and sent, which link and which channel it may use, and the
  batch that sends one message per channel.

  Points in time are integers in microseconds (UTC). The ISO text conversions, the SHA-256 digest
  of the journal's file names and \<open>urlsplit\<close> are parameters, the fields of \<open>reminder_env\<close>. The
  observer, the sender and the clock are effectful parameters.
\<close>

section \<open>Schedule\<close>

datatype reminder_status =
    R_PENDING | R_APPROVED | R_CANCELLED | R_EXECUTED | R_DISCARDED | R_EXPIRED | R_SUPERSEDED
  | R_SOURCE_DELETED | R_STATUS_UNVERIFIABLE

fun status_value :: "reminder_status \<Rightarrow> string" where
  "status_value R_PENDING = ''pending''"
| "status_value R_APPROVED = ''approved''"
| "status_value R_CANCELLED = ''cancelled''"
| "status_value R_EXECUTED = ''executed''"
| "status_value R_DISCARDED = ''discarded''"
| "status_value R_EXPIRED = ''expired''"
| "status_value R_SUPERSEDED = ''superseded''"
| "status_value R_SOURCE_DELETED = ''source-deleted''"
| "status_value R_STATUS_UNVERIFIABLE = ''unverifiable''"

datatype reminder_outcome =
    R_SENT | R_NOT_DUE | R_ALREADY_CLAIMED | R_RETIRED | R_DEFERRED | R_SKIPPED | R_DISABLED

record reminder_verdict =
  rv_outcome :: reminder_outcome
  rv_slot :: "int option"
  rv_due_at :: "int option"
  rv_status :: "reminder_status option"

definition ReminderVerdict :: "reminder_outcome \<Rightarrow> reminder_verdict" where
  "ReminderVerdict oc = \<lparr>rv_outcome = oc, rv_slot = None, rv_due_at = None, rv_status = None\<rparr>"

lemma ReminderVerdict_select [simp]:
  "rv_outcome (ReminderVerdict oc) = oc" "rv_slot (ReminderVerdict oc) = None"
  by (simp_all add: ReminderVerdict_def)

record reminder_env =
  re_digest :: "string \<Rightarrow> string"
  re_fromisoformat :: "string \<Rightarrow> py_exn + (int \<times> bool)"
  re_isoformat :: "int \<Rightarrow> string"
  re_urlsplit :: "string \<Rightarrow> string \<times> string \<times> string option \<times> string option \<times> string"

text \<open>
  \<open>_parse_posted_at\<close>: the environment parses the text (with \<open>Z\<close> read as an offset) and says
  whether it carried a time zone.
\<close>

definition parse_posted_at :: "reminder_env \<Rightarrow> string \<Rightarrow> ('w, int) io" where
  "parse_posted_at env value =
     (case re_fromisoformat env value of
        Inl e \<Rightarrow> raise e
      | Inr (t, has_zone) \<Rightarrow> if has_zone then ret t else raise ValueError)"

definition due_slot :: "int \<Rightarrow> int \<Rightarrow> reminder_config \<Rightarrow> int option" where
  "due_slot posted_at moment cfg =
     (let first_due = posted_at + rc_initial_delay cfg in
      if moment < first_due then None
      else Some ((moment - first_due) div rc_repeat_interval cfg))"

definition slot_due_at :: "int \<Rightarrow> int \<Rightarrow> reminder_config \<Rightarrow> py_exn + int" where
  "slot_due_at posted_at slot cfg =
     (if slot < 0 then Inl ValueError
      else Inr (posted_at + rc_initial_delay cfg + slot * rc_repeat_interval cfg))"

section \<open>Claim, send, mark\<close>

definition claim_due_reminder ::
  "reminder_env \<Rightarrow> approval_request \<Rightarrow> (approval_request \<Rightarrow> ('g world, reminder_status) io) \<Rightarrow>
   reminder_config \<Rightarrow> int \<Rightarrow> ('g world, reminder_verdict) io" where
  "claim_due_reminder env r observer cfg moment =
     bindM (parse_posted_at env (rq_created_at r)) (\<lambda>posted_at.
     bindM (is_retired (re_digest env) (rq_key r) (rq_message_id r)) (\<lambda>gone.
       if gone then ret (ReminderVerdict R_RETIRED)
       else bindM (observer r) (\<lambda>status.
         case status of
           R_STATUS_UNVERIFIABLE \<Rightarrow> ret ((ReminderVerdict R_DEFERRED)\<lparr>rv_status := Some status\<rparr>)
         | R_PENDING \<Rightarrow>
             (case due_slot posted_at moment cfg of
                None \<Rightarrow> ret (ReminderVerdict R_NOT_DUE)
              | Some slot \<Rightarrow>
                  bindM (lift_sum (slot_due_at posted_at slot cfg)) (\<lambda>due_at.
                  bindM (lift_sum (slot_due_at posted_at (slot + 1) cfg)) (\<lambda>next_due.
                  bindM (claim (re_digest env) (rq_key r) (rq_message_id r) slot (re_isoformat env due_at)
                           (re_isoformat env next_due) (re_isoformat env moment)) (\<lambda>claimed.
                    ret ((ReminderVerdict (if claimed then R_SENT else R_ALREADY_CLAIMED))
                      \<lparr>rv_slot := Some slot, rv_due_at := Some due_at\<rparr>)))))
         | terminal \<Rightarrow>
             bindM (retire (re_digest env) (rq_key r) (rq_message_id r) (status_value terminal)
                      (re_isoformat env moment)) (\<lambda>_.
             ret ((ReminderVerdict R_RETIRED)\<lparr>rv_status := Some terminal\<rparr>)))))"

definition mark_reminder_sent ::
  "reminder_env \<Rightarrow> approval_request \<Rightarrow> reminder_verdict \<Rightarrow> reminder_config \<Rightarrow> int \<Rightarrow> ('g world, unit) io" where
  "mark_reminder_sent env r v cfg moment =
     (case rv_slot v of
        None \<Rightarrow> raise (OtherError ''AssertionError'')
      | Some slot \<Rightarrow>
          bindM (parse_posted_at env (rq_created_at r)) (\<lambda>posted_at.
          bindM (lift_sum (slot_due_at posted_at (slot + 1) cfg)) (\<lambda>next_due.
          mark_sent (re_digest env) (rq_key r) (rq_message_id r) slot (re_isoformat env moment)
            (re_isoformat env next_due))))"

text \<open>The send of a claimed slot, under the lease.\<close>

definition send_claimed ::
  "reminder_env \<Rightarrow> approval_request \<Rightarrow> (approval_request \<Rightarrow> int \<Rightarrow> int \<Rightarrow> ('g world, unit) io) \<Rightarrow>
   reminder_config \<Rightarrow> int \<Rightarrow> reminder_verdict \<Rightarrow> ('g world, reminder_verdict) io" where
  "send_claimed env r sender cfg moment v =
     (if rv_outcome v = R_SENT
      then (case (rv_slot v, rv_due_at v) of
          (Some slot, Some due_at) \<Rightarrow>
            bindM (sender r slot due_at) (\<lambda>_.
            bindM (mark_reminder_sent env r v cfg moment) (\<lambda>_. ret v))
        | _ \<Rightarrow> raise (OtherError ''AssertionError''))
      else ret v)"

definition dispatch_due_reminder ::
  "reminder_env \<Rightarrow> approval_request \<Rightarrow> (approval_request \<Rightarrow> ('g world, reminder_status) io) \<Rightarrow>
   (approval_request \<Rightarrow> int \<Rightarrow> int \<Rightarrow> ('g world, unit) io) \<Rightarrow> reminder_config \<Rightarrow> ('g world, int) io \<Rightarrow>
   ('g world, reminder_verdict) io" where
  "dispatch_due_reminder env r observer sender cfg clock =
     (if \<not> rc_enabled cfg then ret (ReminderVerdict R_DISABLED)
      else bindM clock (\<lambda>moment.
           bindM (parse_posted_at env (rq_created_at r)) (\<lambda>_.
           hold (rq_key r) (\<lambda>owned.
             if \<not> owned then ret (ReminderVerdict R_SKIPPED)
             else bindM (claim_due_reminder env r observer cfg moment) (send_claimed env r sender cfg moment)))))"

section \<open>Links and destinations\<close>

record discord_source =
  ds_channel_id :: string
  ds_message_id :: "string option"
  ds_guild_id :: "string option"
  ds_space :: "string option"

definition discord_message_link :: "discord_source \<Rightarrow> link_result" where
  "discord_message_link s =
     discord_link
       (case ds_space s of Some sp \<Rightarrow> sp
        | None \<Rightarrow> if ds_guild_id s \<noteq> None then ''guild'' else ''unknown'')
       (Some (ds_channel_id s)) (ds_message_id s) (ds_guild_id s)"

definition safe_https_url :: "reminder_env \<Rightarrow> string \<Rightarrow> bool" where
  "safe_https_url env value \<longleftrightarrow>
     value \<noteq> [] \<and> \<not> list_ex (\<lambda>c. c = CHR 0x0D \<or> c = CHR 0x0A \<or> c = CHR 0x09) value \<and>
     (case re_urlsplit env value of (scheme, netloc, username, password, fragment) \<Rightarrow>
        scheme = ''https'' \<and> netloc \<noteq> [] \<and> username = None \<and> password = None \<and> fragment = [])"

record source_reference =
  sr_platform :: string
  sr_permalink :: "string option"
  sr_discord :: "discord_source option"
  sr_deleted :: bool

definition resolve_source_link :: "reminder_env \<Rightarrow> source_reference \<Rightarrow> link_result" where
  "resolve_source_link env s =
     (if sr_deleted s then link DELETED None
      else if lower (strip_by py_space (sr_platform s)) = ''discord''
      then (case sr_discord s of None \<Rightarrow> link INVALID None | Some d \<Rightarrow> discord_message_link d)
      else (case sr_permalink s of
          Some p \<Rightarrow> if safe_https_url env p then link AVAILABLE (Some p) else link INVALID None
        | None \<Rightarrow> link UNAVAILABLE None))"

text \<open>\<open>_snowflake\<close> of the reminder module: ASCII digits only.\<close>

definition rem_snowflake :: "string \<Rightarrow> bool" where
  "rem_snowflake s \<longleftrightarrow> s \<noteq> [] \<and> list_all dec_char s"

datatype delivery_route = OWNER | ORIGINAL

record delivery_scope =
  dv_source_channel_id :: string
  dv_owner_dm_channel_id :: string

record delivery_target =
  dt_channel_id :: string
  dt_route :: delivery_route

definition authorize_delivery :: "delivery_scope \<Rightarrow> delivery_target \<Rightarrow> bool" where
  "authorize_delivery scope target \<longleftrightarrow>
     rem_snowflake (dt_channel_id target) \<and>
     (dt_route target = OWNER \<and> dt_channel_id target = dv_owner_dm_channel_id scope \<or>
      dt_route target = ORIGINAL \<and> dt_channel_id target = dv_source_channel_id scope)"

definition stored_reminder_space :: "json \<Rightarrow> string" where
  "stored_reminder_space surface = (if surface = JStr ''owner-dm'' then ''dm'' else ''unknown'')"

text \<open>
  \<open>channel_guild_resolver\<close>: one step of the closure, with its cache as explicit state. The fetch
  returns any value; \<open>None\<close> stands for one that is not a mapping.
\<close>

definition resolve_guild ::
  "(string \<Rightarrow> ('w, jobj option) io) \<Rightarrow> (string \<times> string option) list \<Rightarrow> string \<Rightarrow>
   ('w, string option \<times> (string \<times> string option) list) io" where
  "resolve_guild fetch cache channel_id =
     (case map_of cache channel_id of
        Some g \<Rightarrow> ret (g, cache)
      | None \<Rightarrow> bindM (fetch channel_id) (\<lambda>response.
          case response of
            None \<Rightarrow> raise ReminderBoundaryError
          | Some d \<Rightarrow>
              let g = (case jget d ''guild_id'' of Some (JStr s) \<Rightarrow> if s = [] then None else Some s | _ \<Rightarrow> None)
              in ret (g, dict_set channel_id g cache)))"

section \<open>The pointer message\<close>

text \<open>Decimal digits of a natural number, as code points.\<close>

fun decimal :: "nat \<Rightarrow> codepoints" where
  "decimal n = (if n < 10 then [48 + n] else decimal (n div 10) @ [48 + n mod 10])"

declare decimal.simps [simp del]

definition hour :: int where
  "hour = 60 * minute"

text \<open>
  \<open>compose_reminder\<close>: the clock emoji, the Korean words for waiting approval, the hours, and the
  masked link to the approval card.
\<close>

definition compose_reminder :: "reminder_env \<Rightarrow> int \<Rightarrow> string option \<Rightarrow> ('w, codepoints) io" where
  "compose_reminder env elapsed url =
     bindM (case url of
         None \<Rightarrow> ret []
       | Some u \<Rightarrow> if safe_https_url env u
           then ret ([32, 183, 32, 91, 49849, 51064, 32, 52852, 46300, 93, 40, 60] @ of_ascii u @ [62, 41])
           else raise ReminderBoundaryError) (\<lambda>link_line.
     if elapsed < 0 then raise ReminderBoundaryError
     else ret ([9200, 32, 49849, 51064, 32, 45824, 44592, 32] @ decimal (nat (elapsed div hour)) @
               [49884, 44036] @ link_line))"

record 'w reminder_context =
  cx_config :: reminder_config
  cx_deliver :: "string \<Rightarrow> codepoints \<Rightarrow> ('w, unit) io"
  cx_clock :: "('w, int) io"
  cx_guild_id :: "string option"
  cx_guild_id_for :: "(string \<Rightarrow> ('w, string option) io) option"
  cx_source_channel_id_for :: "(approval_request \<Rightarrow> ('w, string) io) option"
  cx_space_for :: "(string \<Rightarrow> ('w, string) io) option"

text \<open>\<open>_LifecycleObserver.status_for\<close>.\<close>

fun status_of_probe :: "probe \<Rightarrow> reminder_status" where
  "status_of_probe BOUND_PENDING = R_PENDING"
| "status_of_probe APPROVED = R_APPROVED"
| "status_of_probe CANCELLED = R_CANCELLED"
| "status_of_probe MISSING = R_SOURCE_DELETED"
| "status_of_probe BINDING_MISMATCH = R_STATUS_UNVERIFIABLE"
| "status_of_probe UNVERIFIABLE = R_STATUS_UNVERIFIABLE"

definition status_for :: "(approval_request \<Rightarrow> ('w, probe) io) \<Rightarrow> approval_request \<Rightarrow> ('w, reminder_status) io" where
  "status_for watcher r = bindM (watcher r) (\<lambda>p. ret (status_of_probe p))"

definition pointer ::
  "reminder_env \<Rightarrow> 'w reminder_context \<Rightarrow> approval_request \<Rightarrow> ('w, string \<times> codepoints) io" where
  "pointer env cx r =
     bindM (case cx_source_channel_id_for cx of Some f \<Rightarrow> f r | None \<Rightarrow> ret (rq_channel_id r)) (\<lambda>source.
     bindM (case cx_guild_id cx of
              Some g \<Rightarrow> ret (Some g)
            | None \<Rightarrow> (case cx_guild_id_for cx of Some f \<Rightarrow> f source | None \<Rightarrow> ret None)) (\<lambda>guild_id.
     bindM (case guild_id of
              Some _ \<Rightarrow> ret ''guild''
            | None \<Rightarrow> (case cx_space_for cx of Some f \<Rightarrow> f source | None \<Rightarrow> ret ''unknown'')) (\<lambda>space.
     let l = discord_message_link \<lparr>ds_channel_id = source, ds_message_id = Some (rq_message_id r),
               ds_guild_id = guild_id, ds_space = Some space\<rparr> in
     if lk_status l = INVALID \<or> lk_status l = DELETED then raise ReminderBoundaryError
     else if \<not> authorize_delivery \<lparr>dv_source_channel_id = source, dv_owner_dm_channel_id = source\<rparr>
                \<lparr>dt_channel_id = source, dt_route = ORIGINAL\<rparr>
     then raise ReminderBoundaryError
     else bindM (cx_clock cx) (\<lambda>moment.
          bindM (parse_posted_at env (rq_created_at r)) (\<lambda>posted_at.
          bindM (compose_reminder env (moment - posted_at) (lk_url l)) (\<lambda>body.
          ret (source, body)))))))"

definition pointer_send ::
  "reminder_env \<Rightarrow> 'w reminder_context \<Rightarrow> approval_request \<Rightarrow> int \<Rightarrow> int \<Rightarrow> ('w, unit) io" where
  "pointer_send env cx r slot due_at =
     bindM (pointer env cx r) (\<lambda>(channel_id, body). cx_deliver cx channel_id body)"

definition dispatch_owner_approval_reminder ::
  "reminder_env \<Rightarrow> approval_request \<Rightarrow> (approval_request \<Rightarrow> ('g world, probe) io) \<Rightarrow>
   'g world reminder_context \<Rightarrow> ('g world, reminder_verdict) io" where
  "dispatch_owner_approval_reminder env r watcher cx =
     dispatch_due_reminder env r (status_for watcher) (pointer_send env cx) (cx_config cx) (cx_clock cx)"

definition remind_owner_approval ::
  "reminder_env \<Rightarrow> approval_request \<Rightarrow> 'g world watcher \<Rightarrow> 'g world reminder_context \<Rightarrow>
   ('g world, reminder_verdict) io" where
  "remind_owner_approval env r wa cx = dispatch_owner_approval_reminder env r (wa_probe wa) cx"

section \<open>The batch\<close>

record 'w reminder_call =
  ca_request :: approval_request
  ca_watcher :: "approval_request \<Rightarrow> ('w, probe) io"
  ca_context :: "'w reminder_context"

text \<open>One claimed card of a channel's group: the call, its verdict, the time, the line, the index.\<close>

record 'w group_item =
  gi_call :: "'w reminder_call"
  gi_verdict :: reminder_verdict
  gi_now :: int
  gi_body :: codepoints
  gi_index :: nat

record 'w batch =
  ba_verdicts :: "reminder_verdict option list"
  ba_groups :: "(string \<times> 'w group_item list) list"

type_synonym 'w error_hook = "(approval_request \<Rightarrow> py_exn \<Rightarrow> ('w, unit) io) option"

text \<open>\<open>leases.enter_context(lease.hold(key))\<close>: the lease stays held until the stack is closed.\<close>

definition acquire :: "string \<Rightarrow> ('g world, bool) io" where
  "acquire key = (\<lambda>w.
     if \<not> w_disk w then (Inl OSError, w)
     else if slug_of key \<in> w_held w then (Inr False, w)
     else (Inr True, w\<lparr>w_held := insert (slug_of key) (w_held w)\<rparr>))"

definition release_all :: "string list \<Rightarrow> 'g world \<Rightarrow> 'g world" where
  "release_all keys w = w\<lparr>w_held := w_held w - slug_of ` set keys\<rparr>"

text \<open>The part of the loop body before the lease: a verdict without a lease, or the time.\<close>

definition batch_enter ::
  "reminder_env \<Rightarrow> 'g world reminder_call \<Rightarrow> ('g world, reminder_verdict + int) io" where
  "batch_enter env c =
     (if \<not> rc_enabled (cx_config (ca_context c)) then ret (Inl (ReminderVerdict R_DISABLED))
      else bindM (cx_clock (ca_context c)) (\<lambda>moment.
           bindM (parse_posted_at env (rq_created_at (ca_request c))) (\<lambda>_.
           bindM (acquire (rq_key (ca_request c))) (\<lambda>owned.
           ret (if owned then Inr moment else Inl (ReminderVerdict R_SKIPPED))))))"

text \<open>The part under the lease: claim, and queue the line for its channel.\<close>

definition batch_claim ::
  "reminder_env \<Rightarrow> 'g world reminder_call \<Rightarrow> int \<Rightarrow> 'g world batch \<Rightarrow> ('g world, 'g world batch) io" where
  "batch_claim env c moment st =
     bindM (claim_due_reminder env (ca_request c) (status_for (ca_watcher c)) (cx_config (ca_context c)) moment) (\<lambda>v.
     bindM (if rv_outcome v = R_SENT
            then (if rv_slot v = None \<or> rv_due_at v = None then raise (OtherError ''AssertionError'')
                  else bindM (pointer env (ca_context c) (ca_request c)) (\<lambda>(channel, body).
                    let entry = \<lparr>gi_call = c, gi_verdict = v, gi_now = moment, gi_body = body,
                                 gi_index = length (ba_verdicts st)\<rparr>;
                        before = (case map_of (ba_groups st) channel of None \<Rightarrow> [] | Some es \<Rightarrow> es)
                    in ret (dict_set channel (before @ [entry]) (ba_groups st))))
            else ret (ba_groups st)) (\<lambda>groups.
     ret (st\<lparr>ba_verdicts := ba_verdicts st @ [Some v], ba_groups := groups\<rparr>)))"

text \<open>
  The first loop. The result carries the keys whose lease was taken, also when the loop ends with
  an exception, because the lease stack is closed on every path.
\<close>

fun batch_loop ::
  "reminder_env \<Rightarrow> 'g world error_hook \<Rightarrow> 'g world reminder_call list \<Rightarrow> 'g world batch \<Rightarrow> string list \<Rightarrow>
   ('g world, (py_exn + 'g world batch) \<times> string list) io" where
  "batch_loop env on_error [] st keys = ret (Inr st, keys)"
| "batch_loop env on_error (c # cs) st keys =
     (let failed = (\<lambda>e keys. case on_error of
          None \<Rightarrow> ret (Inl e, keys)
        | Some hook \<Rightarrow> bindM (attemptM (hook (ca_request c) e)) (\<lambda>h.
            case h of Inl e' \<Rightarrow> ret (Inl e', keys) | Inr _ \<Rightarrow> batch_loop env on_error cs st keys))
      in bindM (attemptM (batch_enter env c)) (\<lambda>entered.
        case entered of
          Inl e \<Rightarrow> failed e keys
        | Inr (Inl v) \<Rightarrow> batch_loop env on_error cs (st\<lparr>ba_verdicts := ba_verdicts st @ [Some v]\<rparr>) keys
        | Inr (Inr moment) \<Rightarrow>
            bindM (attemptM (batch_claim env c moment st)) (\<lambda>claimed.
              case claimed of
                Inl e \<Rightarrow> failed e (rq_key (ca_request c) # keys)
              | Inr st' \<Rightarrow> batch_loop env on_error cs st' (rq_key (ca_request c) # keys))))"

definition join_bodies :: "codepoints list \<Rightarrow> codepoints" where
  "join_bodies bodies = (case bodies of [] \<Rightarrow> [] | b # bs \<Rightarrow> b @ concat (map (\<lambda>x. 10 # x) bs))"

definition fail_item ::
  "'g world error_hook \<Rightarrow> py_exn \<Rightarrow> 'g world group_item \<Rightarrow> reminder_verdict option list \<Rightarrow>
   ('g world, reminder_verdict option list) io" where
  "fail_item on_error e x vs =
     (case on_error of
        None \<Rightarrow> raise e
      | Some hook \<Rightarrow> bindM (hook (ca_request (gi_call x)) e) (\<lambda>_. ret (vs[gi_index x := None])))"

definition mark_item ::
  "reminder_env \<Rightarrow> 'g world error_hook \<Rightarrow> (approval_request \<Rightarrow> ('g world, unit) io) option \<Rightarrow>
   'g world group_item \<Rightarrow> reminder_verdict option list \<Rightarrow> ('g world, reminder_verdict option list) io" where
  "mark_item env on_error on_sent y vs =
     bindM (attemptM
       (bindM (mark_reminder_sent env (ca_request (gi_call y)) (gi_verdict y)
                 (cx_config (ca_context (gi_call y))) (gi_now y)) (\<lambda>_.
        case on_sent of None \<Rightarrow> ret () | Some hook \<Rightarrow> hook (ca_request (gi_call y)))))
     (\<lambda>m. case m of Inl e \<Rightarrow> fail_item on_error e y vs | Inr _ \<Rightarrow> ret vs)"

definition deliver_group ::
  "reminder_env \<Rightarrow> 'g world error_hook \<Rightarrow> (approval_request \<Rightarrow> ('g world, unit) io) option \<Rightarrow>
   string \<times> 'g world group_item list \<Rightarrow> reminder_verdict option list \<Rightarrow>
   ('g world, reminder_verdict option list) io" where
  "deliver_group env on_error on_sent grp vs =
     (case grp of
        (channel, []) \<Rightarrow> raise (OtherError ''IndexError'')
      | (channel, x # xs) \<Rightarrow>
          bindM (attemptM (cx_deliver (ca_context (gi_call x)) channel (join_bodies (map gi_body (x # xs))))) (\<lambda>d.
            case d of
              Inl e \<Rightarrow> foldM (fail_item on_error e) (x # xs) vs
            | Inr _ \<Rightarrow> foldM (mark_item env on_error on_sent) (x # xs) vs))"

definition dispatch_owner_approval_reminders ::
  "reminder_env \<Rightarrow> 'g world error_hook \<Rightarrow> (approval_request \<Rightarrow> ('g world, unit) io) option \<Rightarrow>
   'g world reminder_call list \<Rightarrow> ('g world, reminder_verdict list) io" where
  "dispatch_owner_approval_reminders env on_error on_sent calls = (\<lambda>w.
     case batch_loop env on_error calls \<lparr>ba_verdicts = [], ba_groups = []\<rparr> [] w of
       (Inl e, w1) \<Rightarrow> (Inl e, w1)
     | (Inr (outcome, keys), w1) \<Rightarrow>
         (case (case outcome of
                  Inl e \<Rightarrow> raise e
                | Inr st \<Rightarrow> bindM (foldM (deliver_group env on_error on_sent) (ba_groups st) (ba_verdicts st))
                    (\<lambda>vs. ret (map the (filter (\<lambda>v. v \<noteq> None) vs)))) w1 of
            (r, w2) \<Rightarrow> (r, release_all keys w2)))"

section \<open>When a slot is due\<close>

lemma due_slot_bounds:
  assumes "rc_repeat_interval cfg > 0" and "due_slot posted moment cfg = Some s"
  shows "0 \<le> s \<and> (\<exists>d d'. slot_due_at posted s cfg = Inr d \<and> slot_due_at posted (s + 1) cfg = Inr d' \<and>
     d \<le> moment \<and> moment < d')"
proof -
  let ?x = "moment - (posted + rc_initial_delay cfg)" and ?r = "rc_repeat_interval cfg"
  have s: "s = ?x div ?r" and x: "0 \<le> ?x"
    using assms(2) by (auto simp: due_slot_def Let_def split: if_splits)
  have "?x = s * ?r + ?x mod ?r" and "0 \<le> ?x mod ?r" and "?x mod ?r < ?r"
    using assms(1) s by simp_all
  then have "s * ?r \<le> ?x" and "?x < (s + 1) * ?r" by (simp_all add: distrib_right)
  moreover have "0 \<le> s" using s x assms(1) by (simp add: pos_imp_zdiv_nonneg_iff)
  ultimately show ?thesis by (simp add: slot_due_at_def algebra_simps)
qed


section \<open>No slot twice\<close>

definition keeps_reminders :: "('g world, 'a) io \<Rightarrow> bool" where
  "keeps_reminders m \<longleftrightarrow> (\<forall>w. w_reminders (snd (m w)) = w_reminders w)"

lemma slot_taken_cong: "w_reminders w = w_reminders w' \<Longrightarrow> slot_taken g k m s w = slot_taken g k m s w'"
  by (simp add: slot_taken_def ledger_def)

lemma keeps_reminders_taken:
  "keeps_reminders m \<Longrightarrow> hoare (slot_taken g k mid s) m (\<lambda>_. slot_taken g k mid s) (\<lambda>_ _. True)"
  by (auto intro!: hoareI simp: keeps_reminders_def) (metis slot_taken_cong snd_conv)

lemma hold_slot_taken [simp]: "slot_taken g k m s (w\<lparr>w_held := h\<rparr>) = slot_taken g k m s w"
  by (rule slot_taken_cong) simp

lemma lift_sum_keeps: "hoare P (lift_sum x) (\<lambda>_. P) (\<lambda>_ _. True)"
  by (auto simp: hoare_def lift_sum_def ret_def raise_def split: sum.split)

lemma parse_posted_keeps: "hoare P (parse_posted_at env v) (\<lambda>_. P) (\<lambda>_ _. True)"
  by (auto simp: hoare_def parse_posted_at_def ret_def raise_def split: sum.split)

lemma read_keeps: "hoare P (is_retired g k m) (\<lambda>_. P) (\<lambda>_ _. True)"
  by (auto simp: hoare_def is_retired_def bindM_def reminder_read_def ret_def split: prod.split sum.split)

lemma claim_hoare:
  "hoare (\<lambda>w. taken \<longrightarrow> slot_taken g k m s w) (claim g k m s' due nd t)
     (\<lambda>ok w. ok \<longrightarrow> slot_taken g k m s' w \<and> (taken \<longrightarrow> s \<noteq> s')) (\<lambda>_ _. True)"
proof (rule hoareI)
  fix w ok w'
  assume pre: "taken \<longrightarrow> slot_taken g k m s w" and run: "claim g k m s' due nd t w = (Inr ok, w')"
  show "ok \<longrightarrow> slot_taken g k m s' w' \<and> (taken \<longrightarrow> s \<noteq> s')"
    using claim_takes[of g k m s' due nd t w w'] claim_taken[of g k m s' w due nd t] pre run by auto
qed simp

definition sent_slot :: "reminder_verdict \<Rightarrow> int \<Rightarrow> bool" where
  "sent_slot v s \<longleftrightarrow> rv_outcome v = R_SENT \<and> rv_slot v = Some s"

text \<open>
  One triple for both directions: a verdict that says a slot was sent leaves the slot taken, and a
  slot that was taken before is not the one sent.
\<close>

lemma claim_due_hoare:
  assumes "taken \<longrightarrow> keeps_reminders (observer r)"
  shows "hoare (\<lambda>w. taken \<longrightarrow> slot_taken (re_digest env) (rq_key r) (rq_message_id r) s w)
     (claim_due_reminder env r observer cfg moment)
     (\<lambda>v w. \<forall>s'. sent_slot v s' \<longrightarrow> slot_taken (re_digest env) (rq_key r) (rq_message_id r) s' w \<and>
        (taken \<longrightarrow> s \<noteq> s')) (\<lambda>_ _. True)"
proof -
  let ?T = "slot_taken (re_digest env) (rq_key r) (rq_message_id r)"
  let ?P = "\<lambda>w. taken \<longrightarrow> ?T s w"
  let ?Q = "\<lambda>v w. \<forall>s'. sent_slot v s' \<longrightarrow> ?T s' w \<and> (taken \<longrightarrow> s \<noteq> s')"
  have quiet: "hoare P (ret v) ?Q (\<lambda>_ _. True)" if "rv_outcome v \<noteq> R_SENT" for v P
    using that by (auto simp: hoare_def ret_def sent_slot_def)
  have look: "hoare ?P (observer r) (\<lambda>_. ?P) (\<lambda>_ _. True)"
  proof (cases taken)
    case True
    then show ?thesis using assms keeps_reminders_taken by simp
  qed (simp add: hoare_def split: prod.split sum.split)
  have retire_any: "hoare P m (\<lambda>_ _. True) (\<lambda>_ _. True)" for P and m :: "('g world, unit) io"
    by (simp add: hoare_def split: prod.split sum.split)
  have claimed: "hoare ?P
      (bindM (lift_sum (slot_due_at p sl cfg)) (\<lambda>due_at.
       bindM (lift_sum (slot_due_at p (sl + 1) cfg)) (\<lambda>next_due.
       bindM (claim (re_digest env) (rq_key r) (rq_message_id r) sl (re_isoformat env due_at)
                (re_isoformat env next_due) (re_isoformat env moment)) (\<lambda>claimed.
         ret ((ReminderVerdict (if claimed then R_SENT else R_ALREADY_CLAIMED))
           \<lparr>rv_slot := Some sl, rv_due_at := Some due_at\<rparr>))))) ?Q (\<lambda>_ _. True)" for p sl
    by (rule hoare_bind[OF lift_sum_keeps], rule hoare_bind[OF lift_sum_keeps],
        rule hoare_bind[OF claim_hoare])
      (auto simp: hoare_def ret_def sent_slot_def)
  show ?thesis
    unfolding claim_due_reminder_def
    apply (rule hoare_bind[OF parse_posted_keeps], rule hoare_bind[OF read_keeps])
    apply (simp split: if_split, intro conjI impI)
     apply (rule quiet, simp)
    apply (rule hoare_bind[OF look])
    subgoal for p gone status
      by (cases status)
        (auto split: option.split intro!: quiet claimed hoare_bind[OF retire_any])
    done
qed

lemma mark_keeps_taken:
  "hoare (slot_taken (re_digest env) k m s) (mark_reminder_sent env r v cfg moment)
     (\<lambda>_. slot_taken (re_digest env) k m s) (\<lambda>_ _. True)"
proof (cases "rv_slot v")
  case (Some sl)
  have "hoare (slot_taken (re_digest env) k m s) (mark_sent (re_digest env) k' m' s' t n)
     (\<lambda>_. slot_taken (re_digest env) k m s) (\<lambda>_ _. True)" for k' m' s' t n
    by (rule hoareI) (use mark_sent_slot_taken in \<open>metis snd_conv\<close>, simp)
  then show ?thesis
    unfolding mark_reminder_sent_def Some option.case
    by (intro hoare_bind[OF parse_posted_keeps] hoare_bind[OF lift_sum_keeps])
qed (simp add: mark_reminder_sent_def hoare_def raise_def)

lemma send_claimed_hoare:
  assumes "\<And>r s d. keeps_reminders (sender r s d)"
  shows "hoare (\<lambda>w. \<forall>s. sent_slot v s \<longrightarrow> slot_taken (re_digest env) (rq_key r) (rq_message_id r) s w)
     (send_claimed env r sender cfg moment v)
     (\<lambda>u w. u = v \<and> (\<forall>s. sent_slot v s \<longrightarrow> slot_taken (re_digest env) (rq_key r) (rq_message_id r) s w))
     (\<lambda>_ _. True)"
proof (cases "rv_outcome v = R_SENT \<and> rv_slot v \<noteq> None \<and> rv_due_at v \<noteq> None")
  case True
  let ?T = "slot_taken (re_digest env) (rq_key r) (rq_message_id r)"
  obtain sl d where v: "rv_outcome v = R_SENT" "rv_slot v = Some sl" "rv_due_at v = Some d"
    using True by auto
  have "hoare (?T sl) (bindM (sender r sl d) (\<lambda>_. bindM (mark_reminder_sent env r v cfg moment) (\<lambda>_. ret v)))
     (\<lambda>u w. u = v \<and> ?T sl w) (\<lambda>_ _. True)"
    by (rule hoare_bind[OF keeps_reminders_taken[OF assms]], rule hoare_bind[OF mark_keeps_taken])
      (simp add: hoare_def ret_def)
  moreover have "sent_slot v s \<longleftrightarrow> s = sl" for s using v by (auto simp: sent_slot_def)
  ultimately show ?thesis using v by (simp add: send_claimed_def)
qed (auto simp: hoare_def send_claimed_def ret_def raise_def sent_slot_def split: option.split)

lemma hoare_top: "hoare P m (\<lambda>_ _. True) (\<lambda>_ _. True)"
  by (simp add: hoare_def split: prod.split sum.split)

lemma dispatch_hoare:
  assumes pre: "\<And>moment. hoare P clock (\<lambda>_. P) (\<lambda>_ _. True)"
    and body: "\<And>moment. hoare P (bindM (claim_due_reminder env r observer cfg moment)
       (send_claimed env r sender cfg moment)) Q (\<lambda>_ _. True)"
    and held: "\<And>w h. P (w\<lparr>w_held := h\<rparr>) = P w" "\<And>v w h. Q v (w\<lparr>w_held := h\<rparr>) = Q v w"
    and none: "\<And>v w. rv_outcome v \<noteq> R_SENT \<Longrightarrow> Q v w"
  shows "hoare P (dispatch_due_reminder env r observer sender cfg clock) Q (\<lambda>_ _. True)"
proof -
  have skip: "hoare S (ret (ReminderVerdict oc)) Q (\<lambda>_ _. True)" if "oc \<noteq> R_SENT" for oc S
    using that none by (simp add: hoare_def ret_def)
  have lease: "hoare P (hold (rq_key r) (\<lambda>owned.
      if \<not> owned then ret (ReminderVerdict R_SKIPPED)
      else bindM (claim_due_reminder env r observer cfg moment) (send_claimed env r sender cfg moment)))
      Q (\<lambda>_ _. True)" for moment
    by (rule hoare_hold) (auto simp: held intro!: skip hoare_pre[OF body])
  show ?thesis
    unfolding dispatch_due_reminder_def
    using skip[of R_DISABLED P] hoare_bind[OF pre hoare_bind[OF parse_posted_keeps lease]] by simp
qed

lemma dispatch_sent:
  assumes "dispatch_due_reminder env r observer sender cfg clock w = (Inr v, w')" and "sent_slot v s"
    and "\<And>r s d. keeps_reminders (sender r s d)"
  shows "slot_taken (re_digest env) (rq_key r) (rq_message_id r) s w'"
proof -
  let ?Q = "\<lambda>v w. \<forall>s. sent_slot v s \<longrightarrow> slot_taken (re_digest env) (rq_key r) (rq_message_id r) s w"
  have claimed: "hoare (\<lambda>_. True) (claim_due_reminder env r observer cfg moment) ?Q (\<lambda>_ _. True)" for moment
    using claim_due_hoare[of False observer r env s cfg moment] by simp
  have sent: "hoare (?Q v) (send_claimed env r sender cfg moment v) ?Q (\<lambda>_ _. True)" for v moment
    by (rule hoare_conseq[OF send_claimed_hoare[OF assms(3)]]) auto
  have "hoare (\<lambda>_. True) (dispatch_due_reminder env r observer sender cfg clock) ?Q (\<lambda>_ _. True)"
    by (rule dispatch_hoare[OF hoare_top hoare_bind[OF claimed sent]]) (auto simp: sent_slot_def)
  from hoareD1[OF this _ assms(1)] assms(2) show ?thesis by blast
qed

lemma dispatch_not_resent:
  assumes "dispatch_due_reminder env r observer sender cfg clock w = (Inr v, w')"
    and "slot_taken (re_digest env) (rq_key r) (rq_message_id r) s w"
    and "keeps_reminders (observer r)" and "keeps_reminders clock"
  shows "\<not> sent_slot v s"
proof -
  let ?T = "slot_taken (re_digest env) (rq_key r) (rq_message_id r) s"
  have claimed: "hoare ?T (claim_due_reminder env r observer cfg moment) (\<lambda>v _. \<not> sent_slot v s) (\<lambda>_ _. True)"
    for moment
    by (rule hoare_conseq[OF claim_due_hoare[of True observer r env s cfg moment]]) (auto simp: assms(3))
  have sent: "hoare (\<lambda>_. \<not> sent_slot v s) (send_claimed env r sender cfg moment v) (\<lambda>v _. \<not> sent_slot v s) (\<lambda>_ _. True)"
    for v moment
  proof -
    have same: "send_claimed env r sender cfg moment v w = (Inr u, w') \<Longrightarrow> u = v" for w u w'
      by (auto simp: send_claimed_def bindM_def ret_def raise_def split: if_splits option.splits prod.splits sum.splits)
    show ?thesis by (rule hoareI) (auto dest: same)
  qed
  have "hoare ?T (dispatch_due_reminder env r observer sender cfg clock) (\<lambda>v _. \<not> sent_slot v s) (\<lambda>_ _. True)"
    by (rule dispatch_hoare[OF keeps_reminders_taken[OF assms(4)] hoare_bind[OF claimed sent]])
      (auto simp: sent_slot_def)
  from hoareD1[OF this assms(2,1)] show ?thesis .
qed


section \<open>The batch gives every lease back\<close>

definition call_keeps_held :: "'g world reminder_call \<Rightarrow> bool" where
  "call_keeps_held c \<longleftrightarrow> (\<forall>r. keeps_held (ca_watcher c r)) \<and>
     keeps_held (cx_clock (ca_context c)) \<and> (\<forall>ch b. keeps_held (cx_deliver (ca_context c) ch b)) \<and>
     (\<forall>f x. cx_guild_id_for (ca_context c) = Some f \<longrightarrow> keeps_held (f x)) \<and>
     (\<forall>f r. cx_source_channel_id_for (ca_context c) = Some f \<longrightarrow> keeps_held (f r)) \<and>
     (\<forall>f x. cx_space_for (ca_context c) = Some f \<longrightarrow> keeps_held (f x))"

lemma keeps_held_reminder [intro]:
  "keeps_held (lift_sum x)" "keeps_held (parse_posted_at env v)" "keeps_held (is_retired g k m)"
  "keeps_held (retire g k m st t)" "keeps_held (claim g k m s d n t)" "keeps_held (mark_sent g k m s t n)"
  by (auto simp: lift_sum_def parse_posted_at_def reminder_defs keeps_held_def bindM_def ret_def raise_def
      split: sum.split option.split slot_entry.split)

lemma keeps_held_claim_due:
  "(\<And>r. keeps_held (obs r)) \<Longrightarrow> keeps_held (claim_due_reminder env r obs cfg t)"
  by (auto simp: claim_due_reminder_def intro!: keeps_held_bind keeps_held_reminder
      split: reminder_status.split option.split)

lemma keeps_held_mark: "keeps_held (mark_reminder_sent env r v cfg t)"
  by (auto simp: mark_reminder_sent_def intro!: keeps_held_bind keeps_held_reminder split: option.split)

lemma keeps_held_if: "keeps_held m \<Longrightarrow> keeps_held n \<Longrightarrow> keeps_held (if b then m else n)"
  by simp

lemma keeps_held_compose: "keeps_held (compose_reminder env d u)"
  by (auto simp: compose_reminder_def intro!: keeps_held_bind split: option.split)

lemma keeps_held_pointer: "call_keeps_held c \<Longrightarrow> keeps_held (pointer env (ca_context c) r)"
proof -
  assume c: "call_keeps_held c"
  let ?cx = "ca_context c"
  have src: "keeps_held (case cx_source_channel_id_for ?cx of Some f \<Rightarrow> f r | None \<Rightarrow> ret (rq_channel_id r))"
    using c by (cases "cx_source_channel_id_for ?cx") (auto simp: call_keeps_held_def)
  have gid: "keeps_held (case cx_guild_id ?cx of Some g \<Rightarrow> ret (Some g)
      | None \<Rightarrow> (case cx_guild_id_for ?cx of Some f \<Rightarrow> f s | None \<Rightarrow> ret None))" for s
    using c by (cases "cx_guild_id ?cx"; cases "cx_guild_id_for ?cx") (auto simp: call_keeps_held_def)
  have space: "keeps_held (case g of Some _ \<Rightarrow> ret ''guild''
      | None \<Rightarrow> (case cx_space_for ?cx of Some f \<Rightarrow> f s | None \<Rightarrow> ret ''unknown''))" for g :: "string option" and s
    using c by (cases g; cases "cx_space_for ?cx") (auto simp: call_keeps_held_def)
  have "keeps_held (cx_clock ?cx)" using c by (simp add: call_keeps_held_def)
  then show ?thesis
    unfolding pointer_def Let_def
    by (intro keeps_held_bind src gid space keeps_held_if keeps_held_compose keeps_held_reminder keeps_held_basic)
qed

lemma keeps_held_batch_claim:
  assumes "call_keeps_held c"
  shows "keeps_held (batch_claim env c t st)"
proof -
  have "keeps_held (status_for (ca_watcher c) r)" for r
    using assms by (auto simp: status_for_def call_keeps_held_def intro!: keeps_held_bind)
  then show ?thesis
    unfolding batch_claim_def
    by (auto simp: Let_def intro!: keeps_held_bind keeps_held_claim_due keeps_held_pointer[OF assms])
qed

definition hook_keeps_held :: "'g world error_hook \<Rightarrow> bool" where
  "hook_keeps_held h \<longleftrightarrow> (\<forall>f r e. h = Some f \<longrightarrow> keeps_held (f r e))"

text \<open>The leases taken so far are exactly the listed keys, on top of the leases held before.\<close>

definition leased :: "codepoints set \<Rightarrow> string list \<Rightarrow> 'g world \<Rightarrow> bool" where
  "leased H keys w \<longleftrightarrow> w_held w = H \<union> slug_of ` set keys \<and> H \<inter> slug_of ` set keys = {}"

lemma leased_keeps:
  assumes "keeps_held m"
  shows "hoare (leased H keys) m (\<lambda>_. leased H keys) (\<lambda>_. leased H keys)"
proof -
  have "m w = (x, w') \<Longrightarrow> w_held w' = w_held w" for w x w'
    using assms by (metis keeps_held_def snd_conv)
  then show ?thesis by (intro hoareI) (simp_all add: leased_def)
qed

lemma batch_enter_leased:
  assumes "call_keeps_held c"
  shows "hoare (leased H keys) (batch_enter env c)
     (\<lambda>x. case x of Inl v \<Rightarrow> leased H keys | Inr t \<Rightarrow> leased H (rq_key (ca_request c) # keys))
     (\<lambda>_. leased H keys)"
proof -
  have acq: "hoare (leased H keys) (acquire k)
     (\<lambda>owned. if owned then leased H (k # keys) else leased H keys) (\<lambda>_. leased H keys)" for k
    by (auto simp: hoare_def acquire_def leased_def)
  have "hoare (leased H keys) (bindM (acquire (rq_key (ca_request c))) (\<lambda>owned.
      ret (if owned then Inr t else Inl (ReminderVerdict R_SKIPPED))))
     (\<lambda>x. case x of Inl v \<Rightarrow> leased H keys | Inr t \<Rightarrow> leased H (rq_key (ca_request c) # keys))
     (\<lambda>_. leased H keys)" for t
    by (rule hoare_bind[OF acq]) (simp add: hoare_def ret_def)
  note tail = this
  have clock: "keeps_held (cx_clock (ca_context c))" using assms by (simp add: call_keeps_held_def)
  show ?thesis
  proof (cases "rc_enabled (cx_config (ca_context c))")
    case True
    then show ?thesis
      unfolding batch_enter_def
      by simp (intro hoare_bind[OF leased_keeps] clock keeps_held_reminder tail)
  qed (simp add: batch_enter_def hoare_def ret_def)
qed

lemma batch_loop_leased:
  assumes "\<forall>c \<in> set cs. call_keeps_held c" and "hook_keeps_held oe"
  shows "hoare (leased H keys) (batch_loop env oe cs st keys) (\<lambda>(_, ks). leased H ks) (\<lambda>_ _. False)"
  using assms(1)
proof (induction cs arbitrary: st keys)
  case Nil
  show ?case by (simp add: hoare_def ret_def)
next
  case (Cons c cs)
  note c = Cons.prems[simplified, THEN conjunct1]
  have rest: "hoare (leased H ks) (batch_loop env oe cs st ks) (\<lambda>(_, ks). leased H ks) (\<lambda>_ _. False)" for st ks
    using Cons by simp
  have failed: "hoare (leased H ks) (case oe of
          None \<Rightarrow> ret (Inl e, ks)
        | Some hook \<Rightarrow> bindM (attemptM (hook (ca_request c) e)) (\<lambda>h.
            case h of Inl e' \<Rightarrow> ret (Inl e', ks) | Inr _ \<Rightarrow> batch_loop env oe cs st ks))
       (\<lambda>(_, ks). leased H ks) (\<lambda>_ _. False)" for e ks
  proof (cases oe)
    case (Some hook)
    have "hoare (leased H ks) (attemptM (hook (ca_request c) e)) (\<lambda>_. leased H ks) (\<lambda>_ _. False)"
      using assms(2) Some by (intro hoare_attempt leased_keeps) (simp add: hook_keeps_held_def)
    then show ?thesis
      unfolding Some option.case
      by (rule hoare_bind) (auto split: sum.split intro!: rest[unfolded Some] hoare_pre[OF hoare_ret])
  qed (simp add: hoare_def ret_def)
  have enter: "hoare (leased H keys) (attemptM (batch_enter env c))
      (\<lambda>x. case x of Inr (Inr t) \<Rightarrow> leased H (rq_key (ca_request c) # keys) | _ \<Rightarrow> leased H keys) (\<lambda>_ _. False)"
    by (rule hoare_attempt, rule hoare_conseq[OF batch_enter_leased[OF c]]) (auto split: sum.splits)
  have claim: "hoare (leased H ks) (attemptM (batch_claim env c t st)) (\<lambda>_. leased H ks) (\<lambda>_ _. False)" for t ks
    by (intro hoare_attempt leased_keeps keeps_held_batch_claim c)
  show ?case
    unfolding batch_loop.simps Let_def
    apply (rule hoare_bind[OF enter])
    subgoal for x
      by (auto split: sum.split intro!: rest failed hoare_bind[OF claim])
    done
qed

lemma fail_item_held: "hook_keeps_held oe \<Longrightarrow> keeps_held (fail_item oe e x vs)"
  by (auto simp: fail_item_def hook_keeps_held_def intro!: keeps_held_bind split: option.split)

lemma foldM_held: "(\<And>x s. x \<in> set xs \<Longrightarrow> keeps_held (f x s)) \<Longrightarrow> keeps_held (foldM f xs s)"
  by (induction xs arbitrary: s) (auto intro!: keeps_held_bind)


definition good_groups :: "'g world batch \<Rightarrow> bool" where
  "good_groups st \<longleftrightarrow> (\<forall>p \<in> set (ba_groups st). \<forall>x \<in> set (snd p). call_keeps_held (gi_call x))"

lemma set_dict_setD: "p \<in> set (dict_set k v d) \<Longrightarrow> p = (k, v) \<or> p \<in> set d"
  by (induction k v d rule: dict_set.induct) (auto split: if_splits)

lemma batch_claim_good:
  assumes "good_groups st" and "call_keeps_held c"
  shows "returns good_groups (batch_claim env c t st)"
proof -
  let ?ok = "\<lambda>gs. good_groups (st\<lparr>ba_groups := gs\<rparr>)"
  have "?ok (dict_set ch ((case map_of (ba_groups st) ch of None \<Rightarrow> [] | Some es \<Rightarrow> es) @ [x]) (ba_groups st))"
    if "gi_call x = c" for ch x
    using assms that
    by (fastforce simp: good_groups_def dest!: set_dict_setD map_of_SomeD split: option.splits)
  moreover have "?ok (ba_groups st)" using assms(1) by simp
  ultimately have "returns ?ok (if rv_outcome v = R_SENT
      then (if rv_slot v = None \<or> rv_due_at v = None then raise (OtherError ''AssertionError'')
            else bindM (pointer env (ca_context c) (ca_request c)) (\<lambda>(channel, body).
              let entry = \<lparr>gi_call = c, gi_verdict = v, gi_now = t, gi_body = body,
                           gi_index = length (ba_verdicts st)\<rparr>;
                  before = (case map_of (ba_groups st) channel of None \<Rightarrow> [] | Some es \<Rightarrow> es)
              in ret (dict_set channel (before @ [entry]) (ba_groups st))))
      else ret (ba_groups st))" for v
    by (auto simp: Let_def intro!: returns_bind)
  note groups = this
  show ?thesis
    unfolding batch_claim_def
    by (rule returns_bind, rule returns_bind2[OF groups]) (auto simp: good_groups_def)
qed

lemma batch_loop_good:
  assumes "good_groups st" and "\<forall>c \<in> set cs. call_keeps_held c"
  shows "returns (\<lambda>(out, _). \<forall>st'. out = Inr st' \<longrightarrow> good_groups st') (batch_loop env oe cs st keys)"
  using assms
proof (induction cs arbitrary: st keys)
  case (Cons c cs)
  have rest: "returns (\<lambda>(out, _). \<forall>st'. out = Inr st' \<longrightarrow> good_groups st') (batch_loop env hook cs st' ks)"
    if "good_groups st'" "oe = hook" for st' ks hook
    using Cons.IH[OF that(1)] Cons.prems that(2) by simp
  have skip: "good_groups (st\<lparr>ba_verdicts := vs\<rparr>)" for vs using Cons.prems by (simp add: good_groups_def)
  have claim: "returns (\<lambda>x. \<forall>st'. x = Inr st' \<longrightarrow> good_groups st') (attemptM (batch_claim env c t st))" for t
    using batch_claim_good[of st c env t] Cons.prems
    by (auto simp: returns_def attemptM_def split: prod.splits)
  show ?case
    unfolding batch_loop.simps Let_def
    by (rule returns_bind)
      (auto split: sum.split option.split intro!: rest skip returns_bind returns_bind2[OF claim] Cons.prems(1))
qed simp

lemma deliver_group_held:
  assumes "hook_keeps_held oe" and "\<And>f r. on_sent = Some f \<Longrightarrow> keeps_held (f r)"
    and "\<forall>x \<in> set (snd p). call_keeps_held (gi_call x)"
  shows "keeps_held (deliver_group env oe on_sent p vs)"
proof -
  have mark: "keeps_held (mark_item env oe on_sent y vs)" for y vs
    using assms(2) by (auto simp: mark_item_def intro!: keeps_held_bind keeps_held_attempt keeps_held_mark
        fail_item_held[OF assms(1)] split: option.split sum.split)
  obtain ch es where p: "p = (ch, es)" by fastforce
  show ?thesis
  proof (cases es)
    case (Cons x xs)
    then have "keeps_held (cx_deliver (ca_context (gi_call x)) ch b)" for b
      using assms(3) p by (simp add: call_keeps_held_def)
    then show ?thesis
      unfolding deliver_group_def p Cons prod.case list.case
      by (intro keeps_held_bind keeps_held_attempt)
        (auto split: sum.split intro!: foldM_held mark fail_item_held[OF assms(1)] simp del: foldM.simps)
  qed (simp add: deliver_group_def p)
qed

section \<open>Properties\<close>

text \<open>
  The due slot is the right one: with a positive repeat interval, a slot is due exactly
  when the initial delay has passed; it is then the unique slot whose due time is at or before
  now while the next slot's due time is still ahead, however many ticks were missed.
\<close>

theorem due_slot_is_current:
  assumes "rc_repeat_interval cfg > 0"
  shows "(due_slot posted moment cfg = None \<longleftrightarrow> moment < posted + rc_initial_delay cfg) \<and>
     (\<forall>s. due_slot posted moment cfg = Some s \<longrightarrow> 0 \<le> s \<and>
        (\<exists>d d'. slot_due_at posted s cfg = Inr d \<and> slot_due_at posted (s + 1) cfg = Inr d' \<and>
           d \<le> moment \<and> moment < d'))"
  using due_slot_bounds[OF assms] by (simp add: due_slot_def Let_def)


text \<open>
  The batch gives every lease back: whatever the claims, deliveries and hooks do, and on
  every path, the leases held after \<open>dispatch_owner_approval_reminders\<close> are those held before.
\<close>

theorem batch_releases_leases:
  assumes "\<forall>c \<in> set calls. call_keeps_held c" and "hook_keeps_held on_error"
    and "\<And>f r. on_sent = Some f \<Longrightarrow> keeps_held (f r)"
  shows "w_held (snd (dispatch_owner_approval_reminders env on_error on_sent calls w)) = w_held w"
proof -
  let ?st = "\<lparr>ba_verdicts = [], ba_groups = []\<rparr>"
  let ?m = "batch_loop env on_error calls ?st []"
  have start: "leased (w_held w) [] w" and good: "good_groups ?st"
    by (simp_all add: leased_def good_groups_def)
  obtain out keys w1 where run: "?m w = (Inr (out, keys), w1)" and l: "leased (w_held w) keys w1"
    using batch_loop_leased[OF assms(1,2), of "w_held w" "[]" env ?st] start
    by (cases "?m w"; cases "fst (?m w)") (auto simp: hoare_def dest!: spec[of _ w])
  let ?d = "case out of
      Inl e \<Rightarrow> raise e
    | Inr st \<Rightarrow> bindM (foldM (deliver_group env on_error on_sent) (ba_groups st) (ba_verdicts st))
        (\<lambda>vs. ret (map the (filter (\<lambda>v. v \<noteq> None) vs)))"
  have "keeps_held ?d"
  proof (cases out)
    case (Inr st)
    then have "good_groups st"
      using returnsD[OF batch_loop_good[OF good assms(1)] run] by simp
    then show ?thesis
      unfolding Inr sum.case
      by (auto simp: good_groups_def intro!: keeps_held_bind foldM_held deliver_group_held assms(2,3))
  qed simp
  then have "w_held (snd (?d w1)) = w_held w \<union> slug_of ` set keys"
    using l by (simp add: keeps_held_def leased_def)
  then show ?thesis
    using run l by (auto simp: dispatch_owner_approval_reminders_def release_all_def leased_def split: prod.split)
qed

section \<open>Witnesses\<close>

definition sample_renv :: reminder_env where
  "sample_renv = \<lparr>re_digest = id, re_fromisoformat = (\<lambda>_. Inr (0, True)), re_isoformat = (\<lambda>_. []),
     re_urlsplit = (\<lambda>_. (''https'', ''discord.com'', None, None, []))\<rparr>"

definition sample_rconfig :: reminder_config where
  "sample_rconfig = \<lparr>rc_enabled = True, rc_initial_delay = 3, rc_repeat_interval = 2\<rparr>"

definition sample_card :: approval_request where
  "sample_card = \<lparr>rq_key = ''k'', rq_action_hash = ''h'', rq_message_id = ''11'', rq_channel_id = ''31'',
     rq_created_at = ''t''\<rparr>"

definition sample_context :: "int \<Rightarrow> unit world reminder_context" where
  "sample_context t = \<lparr>cx_config = sample_rconfig, cx_deliver = (\<lambda>_ _. ret ()), cx_clock = ret t,
     cx_guild_id = Some ''1'', cx_guild_id_for = None, cx_source_channel_id_for = None, cx_space_for = None\<rparr>"

theorem due_slot_is_current_witness:
  "due_slot 10 18 sample_rconfig = Some 2 \<and>
   (\<exists>d d'. slot_due_at 10 2 sample_rconfig = Inr d \<and> slot_due_at 10 3 sample_rconfig = Inr d' \<and> d \<le> 18 \<and> 18 < d')"
  using due_slot_is_current[of sample_rconfig 10 18] by (simp add: sample_rconfig_def due_slot_def)

abbreviation (input) sample_dispatch :: "int \<Rightarrow> unit world \<Rightarrow> (py_exn + reminder_verdict) \<times> unit world" where
  "sample_dispatch t \<equiv> dispatch_due_reminder sample_renv sample_card (\<lambda>_. ret R_PENDING) (\<lambda>_ _ _. ret ())
     sample_rconfig (ret t)"

lemma sample_sent:
  "fst (sample_dispatch 4 (idle_world ())) =
     Inr \<lparr>rv_outcome = R_SENT, rv_slot = Some 0, rv_due_at = Some 3, rv_status = None\<rparr>"
  "fst (sample_dispatch 5 (run_ops id [] (snd (sample_dispatch 4 (idle_world ()))))) =
     Inr \<lparr>rv_outcome = R_SENT, rv_slot = Some 1, rv_due_at = Some 5, rv_status = None\<rparr>"
  by code_simp+

lemma keeps_reminders_ret: "keeps_reminders (ret a)"
  by (simp add: keeps_reminders_def ret_def)


definition sample_call :: "unit world reminder_call" where
  "sample_call = \<lparr>ca_request = sample_card, ca_watcher = (\<lambda>_. ret BOUND_PENDING), ca_context = sample_context 4\<rparr>"

theorem batch_releases_leases_witness:
  "call_keeps_held sample_call \<and>
   w_held (snd (dispatch_owner_approval_reminders sample_renv None None [sample_call, sample_call] (idle_world ()))) = {}"
proof -
  have c: "call_keeps_held sample_call"
    by (simp add: call_keeps_held_def sample_call_def sample_context_def)
  then have "w_held (snd (dispatch_owner_approval_reminders sample_renv None None [sample_call, sample_call]
      (idle_world ()))) = w_held (idle_world ())"
    by (intro batch_releases_leases) (auto simp: hook_keeps_held_def)
  with c show ?thesis by (simp add: idle_world_def)
qed

end
