(* ===== verification/Py_Datetime.thy ===== *)
theory Py_Datetime
  imports Prelude "HOL-Library.Multiset"
begin

text \<open>
  The part of Python's \<open>datetime\<close> the modelled code computes with. A \<open>datetime\<close> is its wall-clock
  reading in microseconds since year 1, with the UTC offset when it is aware. Comparing a naive
  with an aware value raises \<open>TypeError\<close>; arithmetic that leaves the years 1 to 9999 and a
  \<open>timedelta\<close> of more than 999999999 days raise \<open>OverflowError\<close>. Parsing and printing of ISO
  strings are parameters of the definitions that use them.
\<close>

datatype dt = Naive int | Aware int int

abbreviation OverflowError :: py_exn where
  "OverflowError \<equiv> OtherError ''OverflowError''"

definition microseconds_per_minute :: int where
  "microseconds_per_minute = 60000000"

definition microseconds_per_day :: int where
  "microseconds_per_day = 86400000000"

text \<open>The number of days from 0001-01-01 to 9999-12-31 inclusive is 3652059.\<close>

definition local_in_range :: "int \<Rightarrow> bool" where
  "local_in_range t \<longleftrightarrow> 0 \<le> t \<and> t < 3652059 * microseconds_per_day"

definition delta_of :: "int \<Rightarrow> py_exn + int" where
  "delta_of us = (let d = us div microseconds_per_day in
     if d < - 999999999 \<or> 999999999 < d then Inl OverflowError else Inr us)"

definition delta_minutes :: "int \<Rightarrow> py_exn + int" where
  "delta_minutes n = delta_of (n * microseconds_per_minute)"

fun dt_local :: "dt \<Rightarrow> int" where
  "dt_local (Naive t) = t"
| "dt_local (Aware t _) = t"

fun dt_aware :: "dt \<Rightarrow> bool" where
  "dt_aware (Naive _) = False"
| "dt_aware (Aware _ _) = True"

text \<open>The position on the time line: wall clock less offset; a naive value stands for itself.\<close>

fun instant :: "dt \<Rightarrow> int" where
  "instant (Naive t) = t"
| "instant (Aware t z) = t - z"

definition dt_lt :: "dt \<Rightarrow> dt \<Rightarrow> py_exn + bool" where
  "dt_lt a b = (if dt_aware a = dt_aware b then Inr (instant a < instant b) else Inl TypeError)"

fun dt_add :: "dt \<Rightarrow> int \<Rightarrow> py_exn + dt" where
  "dt_add (Naive t) d = (if local_in_range (t + d) then Inr (Naive (t + d)) else Inl OverflowError)"
| "dt_add (Aware t z) d =
     (if local_in_range (t + d) then Inr (Aware (t + d) z) else Inl OverflowError)"

lemma dt_add_instant:
  "dt_add a d = Inr b \<Longrightarrow> instant b = instant a + d \<and> dt_aware b = dt_aware a"
  by (cases a) (auto split: if_splits)

lemma dt_lt_Inr:
  "dt_lt a b = Inr r \<longleftrightarrow> dt_aware a = dt_aware b \<and> r = (instant a < instant b)"
  by (auto simp: dt_lt_def)

text \<open>
  \<open>sorted(set(xs))\<close> on comparable values: equal values are those of one instant, a set keeps the
  first of them, and the result ascends.
\<close>

fun first_per_instant :: "dt list \<Rightarrow> dt list" where
  "first_per_instant [] = []"
| "first_per_instant (x # xs) =
     x # filter (\<lambda>y. instant y \<noteq> instant x) (first_per_instant xs)"

definition sorted_set :: "dt list \<Rightarrow> dt list" where
  "sorted_set xs = sort_key instant (first_per_instant xs)"

lemma first_per_instant_subset: "set (first_per_instant xs) \<subseteq> set xs"
  by (induction xs) auto

lemma first_per_instant_covers: "instant ` set (first_per_instant xs) = instant ` set xs"
proof (induction xs)
  case (Cons x xs)
  have "insert (instant x) (instant ` set (filter (\<lambda>y. instant y \<noteq> instant x) (first_per_instant xs)))
      = insert (instant x) (instant ` set (first_per_instant xs))" by auto
  then show ?case using Cons.IH by simp
qed simp

lemma distinct_first_per_instant: "distinct (map instant (first_per_instant xs))"
proof (induction xs)
  case (Cons x xs)
  have "distinct (map instant (filter (\<lambda>y. instant y \<noteq> instant x) (first_per_instant xs)))"
    using Cons.IH by (simp add: distinct_map_filter)
  then show ?case by auto
qed simp

lemma sorted_set_props:
  "sorted (map instant (sorted_set xs))"
  "distinct (map instant (sorted_set xs))"
  "set (sorted_set xs) \<subseteq> set xs"
  "instant ` set (sorted_set xs) = instant ` set xs"
proof -
  show "sorted (map instant (sorted_set xs))" by (simp add: sorted_set_def)
  have "mset (map instant (sorted_set xs)) = mset (map instant (first_per_instant xs))"
    by (simp add: sorted_set_def)
  then show "distinct (map instant (sorted_set xs))"
    using distinct_first_per_instant mset_eq_imp_distinct_iff by blast
  show "set (sorted_set xs) \<subseteq> set xs"
    using first_per_instant_subset by (auto simp: sorted_set_def)
  show "instant ` set (sorted_set xs) = instant ` set xs"
    by (simp add: sorted_set_def first_per_instant_covers)
qed

text \<open>Python's \<open>xs[:n]\<close>: a negative bound counts from the end.\<close>

definition py_prefix :: "int \<Rightarrow> 'a list \<Rightarrow> 'a list" where
  "py_prefix n xs = (if n < 0 then take (nat (int (length xs) + n)) xs else take (nat n) xs)"

lemma py_prefix_take: "\<exists>k. py_prefix n xs = take k xs"
  by (auto simp: py_prefix_def)

lemma length_py_prefix_nonneg: "0 \<le> n \<Longrightarrow> int (length (py_prefix n xs)) \<le> n"
  by (auto simp: py_prefix_def)

end
