(* ===== verification/Coordination.thy ===== *)
theory Coordination
  imports Py_Datetime
begin

text \<open>
  Model of \<open>automation/interop/coordination.py\<close>: the scheduling state machine between two agents,
  the intersection of the peer's slots with the owner's free time, and the readers of the peer's
  answers. The machine is pure: each handler takes the state and returns the next state with the
  commands the driver has to perform, or raises \<open>ValueError\<close> for an event its phase does not
  expect. \<open>coordination_run\<close> is the step relation of the machine under any sequence of accepted
  events. ISO parsing and printing and \<open>str\<close> of a non-string JSON value are parameters.
\<close>

section \<open>State, commands and handlers\<close>

definition PRODUCTION_TIMEOUT_S :: int where
  "PRODUCTION_TIMEOUT_S = 600"

definition MAX_CANDIDATES :: int where
  "MAX_CANDIDATES = 3"

datatype phase = INIT | AWAIT_AVAILABILITY | AWAIT_PEER_CONFIRM | AWAIT_OWNER_CONFIRM | EXECUTE
  | DONE | DEADLOCK_TIMEOUT | DEADLOCK_NO_SLOTS | REFUSED

definition TERMINAL_FAILURES :: "phase set" where
  "TERMINAL_FAILURES = {DEADLOCK_TIMEOUT, DEADLOCK_NO_SLOTS, REFUSED}"

record command =
  cmd_kind :: string
  cmd_slot :: string
  cmd_reason :: string

abbreviation Command :: "string \<Rightarrow> string \<Rightarrow> string \<Rightarrow> command" where
  "Command k s r \<equiv> \<lparr>cmd_kind = k, cmd_slot = s, cmd_reason = r\<rparr>"

record coordination_state =
  co_phase :: phase
  candidates :: "string list"
  cursor :: nat
  renegotiated :: bool

type_synonym transition = "py_exn + coordination_state \<times> command list"

definition chosen_slot :: "coordination_state \<Rightarrow> py_exn + string" where
  "chosen_slot st =
     (if candidates st = [] \<or> length (candidates st) \<le> cursor st then Inl ValueError
      else Inr (candidates st ! cursor st))"

definition expect :: "coordination_state \<Rightarrow> phase list \<Rightarrow> py_exn + unit" where
  "expect st phases = (if co_phase st \<notin> set phases then Inl ValueError else Inr ())"

definition coordination_start :: "coordination_state \<times> command list" where
  "coordination_start =
     (\<lparr>co_phase = AWAIT_AVAILABILITY, candidates = [], cursor = 0, renegotiated = False\<rparr>,
      [Command ''send_availability_query'' [] []])"

definition on_availability :: "coordination_state \<Rightarrow> string list \<Rightarrow> transition" where
  "on_availability st cands =
     sum_bind (expect st [AWAIT_AVAILABILITY]) (\<lambda>_.
     case cands of
       [] \<Rightarrow> Inr (st\<lparr>co_phase := DEADLOCK_NO_SLOTS\<rparr>,
                 [Command ''notify_escalation'' [] ''no_candidates''])
     | c # _ \<Rightarrow> Inr (st\<lparr>co_phase := AWAIT_PEER_CONFIRM, candidates := cands, cursor := 0\<rparr>,
                    [Command ''send_slot_confirm'' c []]))"

definition on_timeout :: "coordination_state \<Rightarrow> transition" where
  "on_timeout st =
     sum_bind (expect st [AWAIT_AVAILABILITY, AWAIT_PEER_CONFIRM]) (\<lambda>_.
     Inr (st\<lparr>co_phase := DEADLOCK_TIMEOUT\<rparr>,
          [Command ''notify_escalation'' [] ''peer_timeout'']))"

definition renegotiate_or_terminate :: "coordination_state \<Rightarrow> string \<Rightarrow> transition" where
  "renegotiate_or_terminate st declined_by =
     (let next_cursor = cursor st + 1 in
      if renegotiated st \<or> length (candidates st) \<le> next_cursor then
        Inr (st\<lparr>co_phase := REFUSED\<rparr>,
             [Command ''notify_termination'' [] (''declined_by_'' @ declined_by)])
      else
        let again = st\<lparr>co_phase := AWAIT_PEER_CONFIRM, cursor := next_cursor, renegotiated := True\<rparr> in
        sum_bind (chosen_slot again) (\<lambda>s. Inr (again, [Command ''send_slot_confirm'' s []])))"

definition on_peer_confirm :: "coordination_state \<Rightarrow> bool \<Rightarrow> transition" where
  "on_peer_confirm st accepted =
     sum_bind (expect st [AWAIT_PEER_CONFIRM]) (\<lambda>_.
     if accepted then
       sum_bind (chosen_slot st) (\<lambda>s.
       Inr (st\<lparr>co_phase := AWAIT_OWNER_CONFIRM\<rparr>, [Command ''request_owner_confirm'' s []]))
     else renegotiate_or_terminate st ''peer'')"

definition on_owner_confirm :: "coordination_state \<Rightarrow> bool \<Rightarrow> transition" where
  "on_owner_confirm st accepted =
     sum_bind (expect st [AWAIT_OWNER_CONFIRM]) (\<lambda>_.
     if accepted then
       sum_bind (chosen_slot st) (\<lambda>s.
       Inr (st\<lparr>co_phase := EXECUTE\<rparr>, [Command ''execute_calendar_write'' s []]))
     else renegotiate_or_terminate st ''owner'')"

definition on_executed :: "coordination_state \<Rightarrow> transition" where
  "on_executed st =
     sum_bind (expect st [EXECUTE]) (\<lambda>_.
     sum_bind (chosen_slot st) (\<lambda>s.
     Inr (st\<lparr>co_phase := DONE\<rparr>,
          [Command ''post_team_confirmation'' s [], Command ''notify_result'' s []])))"

text \<open>What the driver can report, and the handler each report is given to.\<close>

datatype coord_event =
    Availability "string list"
  | Timeout
  | PeerConfirm bool
  | OwnerConfirm bool
  | Executed

fun handle_event :: "coord_event \<Rightarrow> coordination_state \<Rightarrow> transition" where
  "handle_event (Availability cands) st = on_availability st cands"
| "handle_event Timeout st = on_timeout st"
| "handle_event (PeerConfirm ok) st = on_peer_confirm st ok"
| "handle_event (OwnerConfirm ok) st = on_owner_confirm st ok"
| "handle_event Executed st = on_executed st"

text \<open>A run: the accepted events, latest first, each with the commands it caused.\<close>

inductive coordination_run :: "(coord_event \<times> command list) list \<Rightarrow> coordination_state \<Rightarrow> bool" where
  started: "coordination_run [] (fst coordination_start)"
| accepted: "coordination_run h st \<Longrightarrow> handle_event e st = Inr (st', cs) \<Longrightarrow>
    coordination_run ((e, cs) # h) st'"

inductive_cases coordination_run_NilE: "coordination_run [] st"
inductive_cases coordination_run_ConsE: "coordination_run (x # h) st"

lemmas coordination_handlers =
  on_availability_def on_timeout_def on_peer_confirm_def on_owner_confirm_def on_executed_def
  renegotiate_or_terminate_def

section \<open>Slots\<close>

record iso_codec =
  iso_parse :: "string \<Rightarrow> py_exn + dt"
  iso_print :: "dt \<Rightarrow> string"
  iso_str :: "json \<Rightarrow> string"

definition parse_aware :: "iso_codec \<Rightarrow> string \<Rightarrow> py_exn + dt option" where
  "parse_aware cx raw =
     (case iso_parse cx raw of
        Inl e \<Rightarrow> if e = TypeError \<or> is_value_error e then Inr None else Inl e
      | Inr v \<Rightarrow> Inr (if dt_aware v then Some v else None))"

text \<open>\<open>any(slot < busy_end and slot_end > busy_start for ...)\<close>.\<close>

fun any_overlap :: "dt \<Rightarrow> dt \<Rightarrow> (dt \<times> dt) list \<Rightarrow> py_exn + bool" where
  "any_overlap slot slot_end [] = Inr False"
| "any_overlap slot slot_end ((busy_start, busy_end) # busy) =
     sum_bind (dt_lt slot busy_end) (\<lambda>a.
     sum_bind (if a then dt_lt busy_start slot_end else Inr False) (\<lambda>b.
     if b then Inr True else any_overlap slot slot_end busy))"

fun valid_slots ::
  "iso_codec \<Rightarrow> (dt \<times> dt) list \<Rightarrow> dt \<Rightarrow> dt \<Rightarrow> int \<Rightarrow> string list \<Rightarrow> py_exn + dt list" where
  "valid_slots cx busy range_start range_end duration [] = Inr []"
| "valid_slots cx busy range_start range_end duration (raw # raws) =
     sum_bind (parse_aware cx raw) (\<lambda>parsed.
     case parsed of
       None \<Rightarrow> valid_slots cx busy range_start range_end duration raws
     | Some slot \<Rightarrow>
         sum_bind (dt_add slot duration) (\<lambda>slot_end.
         sum_bind (dt_lt slot range_start) (\<lambda>early.
         sum_bind (if early then Inr True else dt_lt range_end slot_end) (\<lambda>outside.
         if outside then valid_slots cx busy range_start range_end duration raws
         else sum_bind (any_overlap slot slot_end busy) (\<lambda>hit.
           sum_bind (valid_slots cx busy range_start range_end duration raws) (\<lambda>rest.
           Inr (if hit then rest else slot # rest)))))))"

definition candidate_slots ::
  "iso_codec \<Rightarrow> string list \<Rightarrow> (dt \<times> dt) list \<Rightarrow> dt \<Rightarrow> dt \<Rightarrow> int \<Rightarrow> int \<Rightarrow> py_exn + string list" where
  "candidate_slots cx peer_slots busy range_start range_end duration_min limit =
     sum_bind (delta_minutes duration_min) (\<lambda>duration.
     sum_bind (valid_slots cx busy range_start range_end duration peer_slots) (\<lambda>valid.
     Inr (map (iso_print cx) (py_prefix limit (sorted_set valid)))))"

text \<open>\<open>item.get(key, {}).get("dateTime", "")\<close>.\<close>

definition date_time_of :: "jobj \<Rightarrow> string \<Rightarrow> py_exn + json" where
  "date_time_of item key =
     (case jget_or item key (JObj []) of
        JObj d \<Rightarrow> Inr (jget_or d ''dateTime'' (JStr []))
      | _ \<Rightarrow> Inl (OtherError ''AttributeError''))"

fun parse_busy_intervals :: "iso_codec \<Rightarrow> jobj list \<Rightarrow> py_exn + (dt \<times> dt) list" where
  "parse_busy_intervals cx [] = Inr []"
| "parse_busy_intervals cx (item # items) =
     sum_bind (date_time_of item ''start'') (\<lambda>start_raw.
     sum_bind (date_time_of item ''end'') (\<lambda>end_raw.
     sum_bind (parse_aware cx (iso_str cx start_raw)) (\<lambda>from.
     sum_bind (parse_aware cx (iso_str cx end_raw)) (\<lambda>until.
     sum_bind (parse_busy_intervals cx items) (\<lambda>rest.
     case (from, until) of
       (Some a, Some b) \<Rightarrow> Inr (if instant a < instant b then (a, b) # rest else rest)
     | _ \<Rightarrow> Inr rest)))))"

definition confirm_slot_accepted :: "jobj \<Rightarrow> bool" where
  "confirm_slot_accepted payload = (jget payload ''result'' = Some (JStr ''accepted''))"

definition availability_slots :: "iso_codec \<Rightarrow> jobj \<Rightarrow> string list" where
  "availability_slots cx payload =
     (case jget payload ''slots'' of Some (JArr xs) \<Rightarrow> map (iso_str cx) xs | _ \<Rightarrow> [])"

text \<open>The team notice, in code points.\<close>

definition CORRELATION_PREFIX :: codepoints where
  "CORRELATION_PREFIX = of_ascii ''coord-''"

definition TEAM_NOTICE_PREFIX :: codepoints where
  "TEAM_NOTICE_PREFIX =
     [128197, 32, 51068, 51221, 32, 54869, 51221, 32, 40] @ of_ascii ''coord-''"

definition team_notice :: "codepoints \<Rightarrow> codepoints \<Rightarrow> py_exn + codepoints" where
  "team_notice correlation_id time_label =
     (let notice = [128197, 32, 51068, 51221, 32, 54869, 51221, 32, 40] @ correlation_id @
        of_ascii ''): '' @ time_label @ [32, 8212, 32, 50577, 52769, 32, 49849, 51064, 32, 50756, 47308, 46] in
      if starts_with TEAM_NOTICE_PREFIX notice then Inr notice else Inl ValueError)"

section \<open>The machine's invariant\<close>

definition writes :: "(coord_event \<times> command list) list \<Rightarrow> command list" where
  "writes h = filter (\<lambda>c. cmd_kind c = ''execute_calendar_write'') (concat (map snd h))"

definition proposals :: "(coord_event \<times> command list) list \<Rightarrow> command list" where
  "proposals h = filter (\<lambda>c. cmd_kind c = ''send_slot_confirm'') (concat (map snd h))"

text \<open>The newest part of the history when a slot is proposed, approved by the peer, and written.\<close>

definition proposed :: "string \<Rightarrow> (coord_event \<times> command list) list \<Rightarrow> bool" where
  "proposed s h \<longleftrightarrow> (\<exists>e older. h = (e, [Command ''send_slot_confirm'' s []]) # older)"

definition peer_approved :: "string \<Rightarrow> (coord_event \<times> command list) list \<Rightarrow> bool" where
  "peer_approved s h \<longleftrightarrow>
     (\<exists>older. h = (PeerConfirm True, [Command ''request_owner_confirm'' s []]) # older \<and> proposed s older)"

definition owner_approved :: "string \<Rightarrow> (coord_event \<times> command list) list \<Rightarrow> bool" where
  "owner_approved s h \<longleftrightarrow>
     (\<exists>older. h = (OwnerConfirm True, [Command ''execute_calendar_write'' s []]) # older \<and>
        peer_approved s older \<and> writes older = [])"

fun coordination_inv :: "(coord_event \<times> command list) list \<Rightarrow> coordination_state \<Rightarrow> bool" where
  "coordination_inv h st \<longleftrightarrow>
     cursor st = (if renegotiated st then 1 else 0) \<and>
     (case co_phase st of
        INIT \<Rightarrow> False
      | AWAIT_AVAILABILITY \<Rightarrow> h = [] \<and> \<not> renegotiated st
      | AWAIT_PEER_CONFIRM \<Rightarrow> cursor st < length (candidates st) \<and>
          proposed (candidates st ! cursor st) h \<and> writes h = []
      | AWAIT_OWNER_CONFIRM \<Rightarrow> cursor st < length (candidates st) \<and>
          peer_approved (candidates st ! cursor st) h \<and> writes h = []
      | EXECUTE \<Rightarrow> cursor st < length (candidates st) \<and> owner_approved (candidates st ! cursor st) h
      | DONE \<Rightarrow> cursor st < length (candidates st) \<and>
          (\<exists>cs older. h = (Executed, cs) # older \<and>
             owner_approved (candidates st ! cursor st) older \<and> writes [(Executed, cs)] = [])
      | _ \<Rightarrow> writes h = [] \<and>
          (\<exists>e k r older. h = (e, [Command k [] r]) # older \<and>
             k \<in> {''notify_escalation'', ''notify_termination''}))"

lemma writes_simps [simp]:
  "writes [] = []"
  "writes ((e, cs) # h) = filter (\<lambda>c. cmd_kind c = ''execute_calendar_write'') cs @ writes h"
  by (simp_all add: writes_def)

lemma proposals_simps [simp]:
  "proposals [] = []"
  "proposals ((e, cs) # h) = filter (\<lambda>c. cmd_kind c = ''send_slot_confirm'') cs @ proposals h"
  by (simp_all add: proposals_def)

lemmas history_defs = proposed_def peer_approved_def owner_approved_def

lemma expect_Inr [simp]: "expect st ps = Inr u \<longleftrightarrow> co_phase st \<in> set ps"
  by (auto simp: expect_def)

lemma chosen_slot_Inr:
  "chosen_slot st = Inr s \<longleftrightarrow> cursor st < length (candidates st) \<and> s = candidates st ! cursor st"
  by (auto simp: chosen_slot_def)

lemma handle_event_inv:
  assumes "coordination_inv h st" and "handle_event e st = Inr (st', cs)"
  shows "coordination_inv ((e, cs) # h) st'"
proof (cases e)
  case (Availability cands)
  with assms show ?thesis
    by (cases cands) (auto simp: coordination_handlers sum_bind_Inr_iff history_defs)
next
  case Timeout
  with assms show ?thesis
    by (auto simp: coordination_handlers sum_bind_Inr_iff history_defs)
next
  case (PeerConfirm ok)
  with assms show ?thesis
    by (auto simp: coordination_handlers sum_bind_Inr_iff chosen_slot_Inr history_defs Let_def
        split: if_splits)
next
  case (OwnerConfirm ok)
  with assms show ?thesis
    by (auto simp: coordination_handlers sum_bind_Inr_iff chosen_slot_Inr history_defs Let_def
        split: if_splits)
next
  case Executed
  with assms show ?thesis
    by (auto simp: coordination_handlers sum_bind_Inr_iff chosen_slot_Inr history_defs)
qed

lemma coordination_run_inv: "coordination_run h st \<Longrightarrow> coordination_inv h st"
proof (induction rule: coordination_run.induct)
  case started
  show ?case by (simp add: coordination_start_def)
next
  case (accepted h st e st' cs)
  then show ?case by (blast intro: handle_event_inv)
qed

section \<open>What the machine guarantees\<close>

lemma owner_approved_shape:
  "owner_approved s h \<Longrightarrow> set (writes h) = {Command ''execute_calendar_write'' s []} \<and>
     (\<exists>older e. h = [(OwnerConfirm True, [Command ''execute_calendar_write'' s []]),
        (PeerConfirm True, [Command ''request_owner_confirm'' s []]),
        (e, [Command ''send_slot_confirm'' s []])] @ older \<and> writes older = [])"
  by (auto simp: history_defs)

text \<open>
  \<^bold>\<open>C23.\<close> In every run a calendar write is caused by the owner's approval, which directly
  follows the peer's approval of the same slot, which directly follows the proposal of that slot;
  the slot is one of the candidates, and the run has no other write.
\<close>
theorem coordination_write_gated:
  assumes "coordination_run h st" and "c \<in> set (concat (map snd h))"
    and "cmd_kind c = ''execute_calendar_write''"
  shows "\<exists>newer older e. h = newer @
      [(OwnerConfirm True, [c]),
       (PeerConfirm True, [Command ''request_owner_confirm'' (cmd_slot c) []]),
       (e, [Command ''send_slot_confirm'' (cmd_slot c) []])] @ older \<and>
      writes newer = [] \<and> writes older = [] \<and> cmd_slot c \<in> set (candidates st)"
proof -
  have inv: "coordination_inv h st" using assms(1) by (rule coordination_run_inv)
  have w: "c \<in> set (writes h)" using assms(2,3) by (auto simp: writes_def)
  let ?s = "candidates st ! cursor st"
  consider (exec) "owner_approved ?s h" "cursor st < length (candidates st)"
    | (fin) cs older where "h = (Executed, cs) # older" "owner_approved ?s older"
        "writes [(Executed, cs)] = []" "cursor st < length (candidates st)"
    using inv w by (cases "co_phase st") auto
  then show ?thesis
  proof cases
    case exec
    then obtain older e where "c = Command ''execute_calendar_write'' ?s []"
      and "h = [(OwnerConfirm True, [Command ''execute_calendar_write'' ?s []]),
        (PeerConfirm True, [Command ''request_owner_confirm'' ?s []]),
        (e, [Command ''send_slot_confirm'' ?s []])] @ older" and "writes older = []"
      using w owner_approved_shape[OF exec(1)] by blast
    with exec show ?thesis by (intro exI[of _ "[]"] exI[of _ older] exI[of _ e]) simp
  next
    case fin
    then obtain older' e where "c = Command ''execute_calendar_write'' ?s []"
      and "older = [(OwnerConfirm True, [Command ''execute_calendar_write'' ?s []]),
        (PeerConfirm True, [Command ''request_owner_confirm'' ?s []]),
        (e, [Command ''send_slot_confirm'' ?s []])] @ older'" and "writes older' = []"
      using w owner_approved_shape[OF fin(2)] by auto
    with fin show ?thesis
      by (intro exI[of _ "[(Executed, cs)]"] exI[of _ older'] exI[of _ e]) simp
  qed
qed

definition sample_coordination :: "(coord_event \<times> command list) list" where
  "sample_coordination =
     [(OwnerConfirm True, [Command ''execute_calendar_write'' ''s2'' []]),
      (PeerConfirm True, [Command ''request_owner_confirm'' ''s2'' []]),
      (PeerConfirm False, [Command ''send_slot_confirm'' ''s2'' []]),
      (Availability [''s1'', ''s2''], [Command ''send_slot_confirm'' ''s1'' []])]"

definition sample_coordinated :: coordination_state where
  "sample_coordinated =
     \<lparr>co_phase = EXECUTE, candidates = [''s1'', ''s2''], cursor = 1, renegotiated = True\<rparr>"

lemma sample_coordination_run: "coordination_run sample_coordination sample_coordinated"
  unfolding sample_coordination_def sample_coordinated_def
  by (rule coordination_run.intros coordination_run.intros(1)[unfolded coordination_start_def fst_conv]
      | (simp add: coordination_handlers expect_def chosen_slot_def; fail))+

theorem coordination_write_gated_witness:
  "coordination_run sample_coordination sample_coordinated \<and>
   (\<exists>newer older e. sample_coordination = newer @
      [(OwnerConfirm True, [Command ''execute_calendar_write'' ''s2'' []]),
       (PeerConfirm True, [Command ''request_owner_confirm'' ''s2'' []]),
       (e, [Command ''send_slot_confirm'' ''s2'' []])] @ older \<and>
      writes newer = [] \<and> writes older = [] \<and> ''s2'' \<in> set (candidates sample_coordinated))"
  using coordination_write_gated[OF sample_coordination_run,
      of "Command ''execute_calendar_write'' ''s2'' []"] sample_coordination_run
  by (simp add: sample_coordination_def)

text \<open>Which events a phase expects.\<close>

fun expected :: "phase \<Rightarrow> coord_event \<Rightarrow> bool" where
  "expected AWAIT_AVAILABILITY (Availability _) = True"
| "expected AWAIT_AVAILABILITY Timeout = True"
| "expected AWAIT_PEER_CONFIRM Timeout = True"
| "expected AWAIT_PEER_CONFIRM (PeerConfirm _) = True"
| "expected AWAIT_OWNER_CONFIRM (OwnerConfirm _) = True"
| "expected EXECUTE Executed = True"
| "expected _ _ = False"

text \<open>
  \<^bold>\<open>C24.\<close> In a reachable state a handler raises exactly for the events its phase does not
  expect: an expected event never meets a state without a chosen slot.
\<close>
theorem coordination_progress:
  assumes "coordination_run h st"
  shows "(\<exists>st' cs. handle_event e st = Inr (st', cs)) \<longleftrightarrow> expected (co_phase st) e"
  using coordination_run_inv[OF assms]
  by (cases "co_phase st"; cases e)
     (auto simp: coordination_handlers sum_bind_Inr_iff chosen_slot_Inr Let_def split: list.splits)

theorem coordination_progress_witness:
  "(\<exists>st' cs. handle_event Executed sample_coordinated = Inr (st', cs)) \<longleftrightarrow>
     expected (co_phase sample_coordinated) Executed"
  by (rule coordination_progress[OF sample_coordination_run])

text \<open>How many events the machine can still accept.\<close>

fun events_left :: "coordination_state \<Rightarrow> nat" where
  "events_left st =
     (case co_phase st of
        AWAIT_AVAILABILITY \<Rightarrow> 6
      | AWAIT_PEER_CONFIRM \<Rightarrow> if renegotiated st then 3 else 5
      | AWAIT_OWNER_CONFIRM \<Rightarrow> if renegotiated st then 2 else 4
      | EXECUTE \<Rightarrow> 1
      | _ \<Rightarrow> 0)"

lemma handle_event_decreases:
  "coordination_inv h st \<Longrightarrow> handle_event e st = Inr (st', cs) \<Longrightarrow> events_left st' < events_left st"
  by (cases e) (auto simp: coordination_handlers sum_bind_Inr_iff chosen_slot_Inr Let_def
      split: if_splits list.splits)

lemma handle_event_proposals:
  "handle_event e st = Inr (st', cs) \<Longrightarrow> coordination_inv h st \<Longrightarrow>
   length (proposals h) \<le> (if co_phase st = AWAIT_AVAILABILITY then 0 else if renegotiated st then 2 else 1) \<Longrightarrow>
   length (proposals ((e, cs) # h)) \<le>
     (if co_phase st' = AWAIT_AVAILABILITY then 0 else if renegotiated st' then 2 else 1)"
  by (cases e) (auto simp: coordination_handlers sum_bind_Inr_iff chosen_slot_Inr Let_def
      split: if_splits list.splits)

lemma coordination_run_bounds:
  "coordination_run h st \<Longrightarrow> length h + events_left st \<le> 6 \<and>
     length (proposals h) \<le> (if co_phase st = AWAIT_AVAILABILITY then 0 else if renegotiated st then 2 else 1)"
proof (induction rule: coordination_run.induct)
  case started
  show ?case by (simp add: coordination_start_def)
next
  case (accepted h st e st' cs)
  have inv: "coordination_inv h st" using accepted.hyps(1) by (rule coordination_run_inv)
  have "events_left st' < events_left st" using inv accepted.hyps(2) by (rule handle_event_decreases)
  then have "length ((e, cs) # h) + events_left st' \<le> 6"
    using accepted.IH unfolding list.size by linarith
  moreover have "length (proposals ((e, cs) # h)) \<le>
     (if co_phase st' = AWAIT_AVAILABILITY then 0 else if renegotiated st' then 2 else 1)"
    using handle_event_proposals[OF accepted.hyps(2) inv] accepted.IH by blast
  ultimately show ?case by blast
qed

text \<open>
  \<^bold>\<open>C25.\<close> The negotiation ends: no run has more than six accepted events and none proposes more
  than two slots, so a refusal is renegotiated at most once; the run that ends in one of the
  failure phases has written nothing and its last command tells a human.
\<close>
theorem coordination_terminates:
  assumes "coordination_run h st"
  shows "length h \<le> 6 \<and> length (proposals h) \<le> 2 \<and>
    (co_phase st \<in> TERMINAL_FAILURES \<longrightarrow> writes h = [] \<and>
       (\<exists>e k r older. h = (e, [Command k [] r]) # older \<and>
          k \<in> {''notify_escalation'', ''notify_termination''}))"
proof -
  have "length h + events_left st \<le> 6" and "length (proposals h) \<le> 2"
    using coordination_run_bounds[OF assms] by (auto split: if_splits)
  moreover have "co_phase st \<in> TERMINAL_FAILURES \<Longrightarrow> writes h = [] \<and>
       (\<exists>e k r older. h = (e, [Command k [] r]) # older \<and>
          k \<in> {''notify_escalation'', ''notify_termination''})"
    using coordination_run_inv[OF assms] by (auto simp: TERMINAL_FAILURES_def)
  ultimately show ?thesis by simp
qed

theorem coordination_terminates_witness:
  "length sample_coordination \<le> 6 \<and> length (proposals sample_coordination) \<le> 2"
  using coordination_terminates[OF sample_coordination_run] by blast

section \<open>Candidate slots\<close>

definition offered_slots :: "iso_codec \<Rightarrow> string list \<Rightarrow> dt list" where
  "offered_slots cx raws =
     List.map_filter (\<lambda>raw. case parse_aware cx raw of Inr p \<Rightarrow> p | Inl _ \<Rightarrow> None) raws"

definition slot_fits :: "(dt \<times> dt) list \<Rightarrow> dt \<Rightarrow> dt \<Rightarrow> int \<Rightarrow> dt \<Rightarrow> bool" where
  "slot_fits busy range_start range_end duration s \<longleftrightarrow>
     instant range_start \<le> instant s \<and> instant s + duration \<le> instant range_end \<and>
     list_all (\<lambda>(a, b). \<not> (instant s < instant b \<and> instant a < instant s + duration)) busy"

lemma any_overlap_Inr:
  "any_overlap s e busy = Inr hit \<Longrightarrow>
     hit \<longleftrightarrow> \<not> list_all (\<lambda>(a, b). \<not> (instant s < instant b \<and> instant a < instant e)) busy"
  by (induction s e busy rule: any_overlap.induct)
     (auto simp: sum_bind_Inr_iff dt_lt_Inr split: if_splits)

lemma valid_slots_Inr:
  "valid_slots cx busy range_start range_end duration raws = Inr vs \<Longrightarrow>
     vs = filter (slot_fits busy range_start range_end duration) (offered_slots cx raws)"
proof (induction raws arbitrary: vs)
  case Nil
  then show ?case by (simp add: offered_slots_def List.map_filter_def)
next
  case (Cons raw raws)
  from Cons.prems obtain p where p: "parse_aware cx raw = Inr p"
    by (auto simp: sum_bind_Inr_iff)
  show ?case
  proof (cases p)
    case None
    with p Cons show ?thesis by (simp add: offered_slots_def List.map_filter_def)
  next
    case (Some s)
    have off: "offered_slots cx (raw # raws) = s # offered_slots cx raws"
      using p Some by (simp add: offered_slots_def List.map_filter_def)
    from Cons.prems p Some obtain e where add: "dt_add s duration = Inr e"
      by (auto simp: sum_bind_Inr_iff)
    have e: "instant e = instant s + duration" using dt_add_instant[OF add] by simp
    consider (outside) "instant s < instant range_start \<or> instant range_end < instant e"
        "valid_slots cx busy range_start range_end duration raws = Inr vs"
      | (inside) hit rest where "\<not> instant s < instant range_start" "\<not> instant range_end < instant e"
        "any_overlap s e busy = Inr hit"
        "valid_slots cx busy range_start range_end duration raws = Inr rest"
        "vs = (if hit then rest else s # rest)"
      using Cons.prems p Some add by (auto simp: sum_bind_Inr_iff dt_lt_Inr split: if_splits)
    then show ?thesis
    proof cases
      case outside
      then show ?thesis using Cons.IH[OF outside(2)] e by (auto simp: off slot_fits_def)
    next
      case inside
      then show ?thesis using Cons.IH[OF inside(4)] any_overlap_Inr[OF inside(3)] e
        by (simp add: off slot_fits_def)
    qed
  qed
qed

lemma take_least:
  assumes "sorted_wrt (<) (map f xs)" and "x \<in> set xs" and "x \<notin> set (take n xs)"
  shows "length (take n xs) = n \<and> (\<forall>t \<in> set (take n xs). f t < f x)"
proof -
  have "x \<in> set (drop n xs)" using assms(2,3) set_append[of "take n xs" "drop n xs"] by auto
  moreover from this have "n \<le> length xs" by (metis drop_all empty_iff list.set(1) nat_le_linear)
  moreover have "sorted_wrt (<) (map f (take n xs) @ map f (drop n xs))"
    using assms(1) by (simp flip: map_append)
  ultimately show ?thesis by (auto simp: sorted_wrt_append)
qed

text \<open>
  The candidates are the peer's slots that fit the requested range and overlap no busy
  interval, printed in ascending order without repetition and at most \<open>limit\<close> of them; a fitting
  slot is missing only when the list is full of earlier ones.
\<close>
theorem candidate_slots_correct:
  assumes "candidate_slots cx peer_slots busy range_start range_end duration_min limit = Inr out"
    and "0 \<le> limit"
  shows "\<exists>slots. out = map (iso_print cx) slots \<and> sorted_wrt (<) (map instant slots) \<and>
    int (length slots) \<le> limit \<and>
    (\<forall>s \<in> set slots. s \<in> set (offered_slots cx peer_slots) \<and>
       slot_fits busy range_start range_end (duration_min * microseconds_per_minute) s) \<and>
    (\<forall>s \<in> set (offered_slots cx peer_slots).
       slot_fits busy range_start range_end (duration_min * microseconds_per_minute) s \<longrightarrow>
       instant s \<in> instant ` set slots \<or>
       int (length slots) = limit \<and> (\<forall>t \<in> set slots. instant t < instant s))"
proof -
  let ?fits = "slot_fits busy range_start range_end (duration_min * microseconds_per_minute)"
  let ?all = "sorted_set (filter ?fits (offered_slots cx peer_slots))"
  let ?slots = "take (nat limit) ?all"
  have "out = map (iso_print cx) ?slots"
    using assms by (auto simp: candidate_slots_def sum_bind_Inr_iff delta_minutes_def delta_of_def
        py_prefix_def Let_def dest!: valid_slots_Inr split: if_splits)
  moreover have asc: "sorted_wrt (<) (map instant ?all)"
    using sorted_set_props(1,2) by (simp add: strict_sorted_iff)
  then have "sorted_wrt (<) (map instant ?slots)" by (simp add: sorted_wrt_take take_map[symmetric])
  moreover have "set ?slots \<subseteq> set (filter ?fits (offered_slots cx peer_slots))"
    using sorted_set_props(3) set_take_subset by (metis dual_order.trans)
  moreover have "instant s \<in> instant ` set ?slots \<or>
       int (length ?slots) = limit \<and> (\<forall>t \<in> set ?slots. instant t < instant s)"
    if "s \<in> set (offered_slots cx peer_slots)" and "?fits s" for s
  proof -
    have "instant s \<in> instant ` set ?all" using that by (simp add: sorted_set_props(4))
    then obtain s' where s': "s' \<in> set ?all" "instant s = instant s'" by auto
    show ?thesis
    proof (cases "s' \<in> set ?slots")
      case False
      from take_least[OF asc s'(1) this] show ?thesis using assms(2) s'(2) by simp
    qed (use s' in auto)
  qed
  ultimately show ?thesis using assms(2) by (intro exI[of _ ?slots]) auto
qed

definition sample_codec :: iso_codec where
  "sample_codec = \<lparr>iso_parse = (\<lambda>s. if length s = 1 then Inr (Aware (60000000 * of_char (hd s)) 0)
       else Inl ValueError), iso_print = (\<lambda>d. [char_of (instant d div 60000000)]),
     iso_str = (\<lambda>j. case j of JStr s \<Rightarrow> s | _ \<Rightarrow> [])\<rparr>"

theorem candidate_slots_correct_witness:
  "candidate_slots sample_codec [''c'', ''b'', ''late'', ''c'', ''a''] [(Aware 5790000000 0, Aware 5830000000 0)]
     (Aware 0 0) (Aware 60000000000 0) 1 2 = Inr [''b'', ''c''] \<and>
   (\<exists>slots. [''b'', ''c''] = map (iso_print sample_codec) slots \<and> sorted_wrt (<) (map instant slots) \<and>
      int (length slots) \<le> 2)"
proof -
  have eq: "candidate_slots sample_codec [''c'', ''b'', ''late'', ''c'', ''a'']
     [(Aware 5790000000 0, Aware 5830000000 0)] (Aware 0 0) (Aware 60000000000 0) 1 2 = Inr [''b'', ''c'']"
    by code_simp
  have "(0::int) \<le> 2" by simp
  from candidate_slots_correct[OF eq this] obtain slots
    where "[''b'', ''c''] = map (iso_print sample_codec) slots" and "sorted_wrt (<) (map instant slots)"
      and "int (length slots) \<le> 2" by (elim exE conjE)
  then show ?thesis by (intro conjI[OF eq] exI[of _ slots] conjI)
qed

end
