(* ===== verification/Chunker.thy ===== *)
theory Chunker
  imports Prelude
begin

text \<open>
  Model of \<open>automation/interop/chunker.py\<close>, the splitter of messages into Discord-sized pieces:
  \<open>chunk_message\<close> cuts at a fixed width but not inside a URL that fits a piece, \<open>chunk_lines\<close>
  packs whole lines and gives each piece a header. The main loop of \<open>chunk_message\<close> is a
  \<open>partial_function\<close>, whose value \<open>None\<close> is a loop that does not end, so that its termination is
  a theorem; the text is a \<open>string\<close> of one-byte characters.
\<close>

section \<open>URL tokens\<close>

definition DISCORD_MESSAGE_LIMIT :: int where
  "DISCORD_MESSAGE_LIMIT = 2000"

definition HEADER_PASSES :: nat where
  "HEADER_PASSES = 8"

text \<open>The length of a match of \<open>https?://[^\s]*\<close> at the head of the text, 0 if there is none.\<close>

definition url_match :: "string \<Rightarrow> nat" where
  "url_match s = (if starts_with ''http://'' s \<or> starts_with ''https://'' s
     then length (takeWhile (\<lambda>c. \<not> py_space c) s) else 0)"

text \<open>\<open>_URL_TOKEN.finditer\<close>: the spans of the leftmost non-overlapping matches.\<close>

function url_tokens :: "nat \<Rightarrow> string \<Rightarrow> (nat \<times> nat) list" where
  "url_tokens pos s =
     (if s = [] then []
      else if url_match s = 0 then url_tokens (pos + 1) (tl s)
      else (pos, pos + url_match s) # url_tokens (pos + url_match s) (drop (url_match s) s))"
  by pat_completeness auto
termination
  by (relation "measure (\<lambda>(pos, s). length s)") auto

declare url_tokens.simps [simp del]

section \<open>Fixed width\<close>

definition slice :: "nat \<Rightarrow> nat \<Rightarrow> 'a list \<Rightarrow> 'a list" where
  "slice a b xs = drop a (take b xs)"

text \<open>Where the piece that begins at \<open>start\<close> ends, given the tokens not yet passed.\<close>

definition cut_at :: "nat \<Rightarrow> nat \<Rightarrow> nat \<Rightarrow> (nat \<times> nat) list \<Rightarrow> nat" where
  "cut_at limit start stop tokens =
     (case tokens of
        [] \<Rightarrow> stop
      | (a, b) # _ \<Rightarrow> if start < a \<and> a < stop \<and> stop < b \<and> b - a \<le> limit then a else stop)"

partial_function (option) chunk_loop ::
  "string \<Rightarrow> nat \<Rightarrow> (nat \<times> nat) list \<Rightarrow> nat \<Rightarrow> string list \<Rightarrow> string list option" where
  "chunk_loop message limit tokens start chunks =
     (if start < length message then
        (let stop = min (start + limit) (length message);
             tokens' = dropWhile (\<lambda>(a, b). b \<le> stop) tokens;
             stop' = cut_at limit start stop tokens'
         in chunk_loop message limit tokens' stop' (chunks @ [slice start stop' message]))
      else Some chunks)"

declare chunk_loop.simps [code]

definition chunk_message :: "string \<Rightarrow> int \<Rightarrow> bool \<Rightarrow> (py_exn + string list) option" where
  "chunk_message message limit preserve_urls =
     (if limit < 1 then Some (Inl ValueError)
      else map_option (\<lambda>chunks. Inr (if chunks = [] then [[]] else chunks))
        (chunk_loop message (nat limit) (if preserve_urls then url_tokens 0 message else []) 0 []))"

section \<open>Whole lines\<close>

definition line_break :: "char \<Rightarrow> bool" where
  "line_break c \<longleftrightarrow> (let n = of_char c :: nat in 10 \<le> n \<and> n \<le> 13 \<or> 28 \<le> n \<and> n \<le> 30 \<or> n = 133)"

text \<open>\<open>str.splitlines()\<close>: a carriage return and line feed together are one break.\<close>

fun py_splitlines :: "string \<Rightarrow> string \<Rightarrow> string list" where
  "py_splitlines acc [] = (if acc = [] then [] else [rev acc])"
| "py_splitlines acc [c] = (if line_break c then [rev acc] else [rev (c # acc)])"
| "py_splitlines acc (c # d # cs) =
     (if c = CHR 0x0D \<and> d = CHR 0x0A then rev acc # py_splitlines [] cs
      else if line_break c then rev acc # py_splitlines [] (d # cs)
      else py_splitlines (c # acc) (d # cs))"

abbreviation newline :: char where
  "newline \<equiv> CHR 0x0A"

fun join_lines :: "string list \<Rightarrow> string" where
  "join_lines [] = []"
| "join_lines [l] = l"
| "join_lines (l # ls) = l @ newline # join_lines ls"

record packing =
  pk_chunks :: "string list"
  pk_current :: "string list"
  pk_size :: int

definition pack_piece :: "int \<Rightarrow> string \<Rightarrow> packing \<Rightarrow> packing" where
  "pack_piece budget piece p =
     (if pk_current p \<noteq> [] \<and> pk_size p + int (length piece) + 1 > budget then
        \<lparr>pk_chunks = pk_chunks p @ [join_lines (pk_current p)], pk_current = [piece],
         pk_size = int (length piece)\<rparr>
      else p\<lparr>pk_size := pk_size p + int (length piece) + (if pk_current p = [] then 0 else 1),
             pk_current := pk_current p @ [piece]\<rparr>)"

fun pack_lines :: "int \<Rightarrow> bool \<Rightarrow> string list \<Rightarrow> packing \<Rightarrow> (py_exn + packing) option" where
  "pack_lines budget urls [] p = Some (Inr p)"
| "pack_lines budget urls (line # lines) p =
     (case chunk_message line budget urls of
        None \<Rightarrow> None
      | Some (Inl e) \<Rightarrow> Some (Inl e)
      | Some (Inr pieces) \<Rightarrow> pack_lines budget urls lines (fold (pack_piece budget) pieces p))"

definition packed :: "string \<Rightarrow> int \<Rightarrow> bool \<Rightarrow> (py_exn + string list) option" where
  "packed body budget preserve_urls =
     map_option (\<lambda>r. sum_bind r (\<lambda>p.
        let chunks = (if pk_current p = [] then pk_chunks p
                      else pk_chunks p @ [join_lines (pk_current p)])
        in Inr (if chunks = [] then [[]] else chunks)))
       (pack_lines budget preserve_urls (py_splitlines [] body)
          \<lparr>pk_chunks = [], pk_current = [], pk_size = 0\<rparr>)"

fun header_passes ::
  "nat \<Rightarrow> string \<Rightarrow> int \<Rightarrow> (nat \<Rightarrow> nat \<Rightarrow> string) \<Rightarrow> bool \<Rightarrow> nat \<Rightarrow> (py_exn + string list) option" where
  "header_passes 0 body limit header urls count = Some (Inl ValueError)"
| "header_passes (Suc k) body limit header urls count =
     (case packed body (limit - int (length (header count count)) - 1) urls of
        None \<Rightarrow> None
      | Some (Inl e) \<Rightarrow> Some (Inl e)
      | Some (Inr pieces) \<Rightarrow>
          if length pieces = count then
            Some (Inr (map (\<lambda>(i, piece). header i count @ newline # piece)
              (enumerate 1 pieces)))
          else header_passes k body limit header urls (length pieces))"

definition chunk_lines ::
  "string \<Rightarrow> int \<Rightarrow> (nat \<Rightarrow> nat \<Rightarrow> string) \<Rightarrow> bool \<Rightarrow> (py_exn + string list) option" where
  "chunk_lines body limit header preserve_urls =
     header_passes HEADER_PASSES body limit header preserve_urls 1"

section \<open>Pieces and cuts\<close>

text \<open>The spans lie one after another inside the text that is scanned.\<close>

fun spans_from :: "nat \<Rightarrow> (nat \<times> nat) list \<Rightarrow> bool" where
  "spans_from pos [] = True"
| "spans_from pos ((a, b) # ts) \<longleftrightarrow> pos \<le> a \<and> a < b \<and> spans_from b ts"

lemma spans_from_mono: "spans_from q ts \<Longrightarrow> p \<le> q \<Longrightarrow> spans_from p ts"
  by (cases ts) auto

lemma spans_from_ge: "spans_from p ts \<Longrightarrow> (a, b) \<in> set ts \<Longrightarrow> p \<le> a \<and> a < b"
  by (induction p ts rule: spans_from.induct) force+

lemma spans_url_tokens: "spans_from pos (url_tokens pos s)"
proof (induction pos s rule: url_tokens.induct)
  case (1 pos s)
  have "spans_from pos (url_tokens (pos + 1) (tl s))" if "s \<noteq> []" and "url_match s = 0"
    using 1(1)[OF that] by (rule spans_from_mono) simp
  then show ?case by (subst url_tokens.simps) (auto simp: 1(2))
qed

lemma spans_from_drop: "spans_from p (xs @ ys) \<Longrightarrow> spans_from p ys"
proof (induction xs arbitrary: p)
  case (Cons x xs)
  obtain a b where "x = (a, b)" by (cases x)
  with Cons have "spans_from b ys" and "p \<le> b" by auto
  then show ?case by (rule spans_from_mono)
qed simp

lemma spans_from_append:
  "spans_from p (xs @ ys) \<Longrightarrow> (a, b) \<in> set xs \<Longrightarrow> spans_from b ys"
proof (induction p xs rule: spans_from.induct)
  case (2 p a' b' ts)
  then show ?case
    by (cases "(a, b) = (a', b')") (auto dest: spans_from_drop)
qed simp

text \<open>No cut falls strictly inside a span that fits a piece.\<close>

definition uncut :: "nat \<Rightarrow> (nat \<times> nat) list \<Rightarrow> nat \<Rightarrow> bool" where
  "uncut limit tokens i \<longleftrightarrow> (\<forall>(a, b) \<in> set tokens. b - a \<le> limit \<longrightarrow> \<not> (a < i \<and> i < b))"

lemma cut_at_bounds:
  assumes "start < length message" and "1 \<le> limit" and "stop = min (start + limit) (length message)"
  shows "start < cut_at limit start stop ts" and "cut_at limit start stop ts \<le> stop"
  using assms by (auto simp: cut_at_def split: list.splits)

lemma passed_before_cut:
  assumes "spans_from p (xs @ ys)" and "(a, b) \<in> set xs" and "b \<le> stop"
  shows "b \<le> cut_at limit start stop ys"
proof (cases ys)
  case (Cons t us)
  obtain a' b' where t: "t = (a', b')" by (cases t)
  have "b \<le> a'" using spans_from_append[OF assms(1,2)] Cons t by simp
  then show ?thesis unfolding Cons using assms(3) by (simp add: cut_at_def t)
qed (use assms in \<open>simp add: cut_at_def\<close>)

lemma cut_at_uncut:
  assumes "spans_from p (xs @ ys)" and "\<And>a b. (a, b) \<in> set xs \<Longrightarrow> b \<le> stop"
    and "ys = [] \<or> stop < snd (hd ys)" and "uncut limit ys start" and "start < stop"
    and "stop = min (start + limit) n" and "\<forall>(a, b) \<in> set ys. b \<le> n"
  shows "uncut limit (xs @ ys) (cut_at limit start stop ys)"
proof -
  have "\<not> (a < cut_at limit start stop ys \<and> cut_at limit start stop ys < b)"
    if "(a, b) \<in> set xs" for a b
    using passed_before_cut[OF assms(1) that assms(2)[OF that]] by (meson not_less)
  moreover have "uncut limit ys (cut_at limit start stop ys)"
  proof (cases ys)
    case (Cons t us)
    obtain a b where t: "t = (a, b)" by (cases t)
    have sp: "spans_from b us" and stop: "stop < b"
      using spans_from_drop[OF assms(1)] assms(3) Cons t by auto
    have cut: "cut_at limit start stop ys \<le> b" using stop by (auto simp: cut_at_def Cons t)
    have "\<not> (a < cut_at limit start stop ys \<and> cut_at limit start stop ys < b)" if "b - a \<le> limit"
      using assms(4-7) stop that by (auto simp: cut_at_def uncut_def Cons t split: if_splits)
    moreover have "\<not> a' < cut_at limit start stop ys" if "(a', b') \<in> set us" for a' b'
      using spans_from_ge[OF sp that] cut by simp
    ultimately show ?thesis unfolding uncut_def Cons t by auto
  qed (simp add: uncut_def)
  ultimately show ?thesis by (auto simp: uncut_def)
qed

lemma chunk_loop_spec:
  assumes "1 \<le> limit" and "spans_from 0 all" and "\<forall>(a, b) \<in> set all. b \<le> length message"
    and "all = passed @ tokens" and "\<forall>(a, b) \<in> set passed. b \<le> start"
    and "uncut limit all start" and "start \<le> length message"
  shows "\<exists>cs. chunk_loop message limit tokens start chunks = Some (chunks @ cs) \<and>
     concat cs = drop start message \<and> (\<forall>c \<in> set cs. c \<noteq> [] \<and> length c \<le> limit) \<and>
     (\<forall>k. uncut limit all (start + length (concat (take k cs))))"
  using assms(4-7)
proof (induction "length message - start" arbitrary: start tokens passed chunks rule: less_induct)
  case less
  show ?case
  proof (cases "start < length message")
    case False
    then have "chunk_loop message limit tokens start chunks = Some chunks"
      by (subst chunk_loop.simps) simp
    then show ?thesis using False less.prems by (intro exI[of _ "[]"]) simp
  next
    case True
    define stop where "stop = min (start + limit) (length message)"
    define xs where "xs = takeWhile (\<lambda>(a, b). b \<le> stop) tokens"
    define ys where "ys = dropWhile (\<lambda>(a, b). b \<le> stop) tokens"
    define next_start where "next_start = cut_at limit start stop ys"
    have tokens: "tokens = xs @ ys" by (simp add: xs_def ys_def)
    have all: "all = (passed @ xs) @ ys" using less.prems(1) tokens by simp
    have nx: "start < next_start" "next_start \<le> stop"
      unfolding next_start_def using cut_at_bounds[OF True assms(1) stop_def] by auto
    have short: "next_start \<le> start + limit" "next_start \<le> length message"
      using nx by (auto simp: stop_def)
    have before: "b \<le> stop" if "(a, b) \<in> set (passed @ xs)" for a b
      using that less.prems(2) True nx unfolding xs_def
      by (auto dest: set_takeWhileD simp: stop_def)
    have un: "uncut limit all next_start"
      unfolding all next_start_def
    proof (rule cut_at_uncut[where n = "length message"])
      show "spans_from 0 ((passed @ xs) @ ys)" using assms(2) all by simp
      show "ys = [] \<or> stop < snd (hd ys)"
        using hd_dropWhile[of "\<lambda>(a, b). b \<le> stop" tokens]
        unfolding ys_def[symmetric] by (cases "hd ys") (metis (mono_tags, lifting) case_prod_conv not_le snd_conv)
      show "uncut limit ys start" using less.prems(3) all by (auto simp: uncut_def)
      show "\<forall>(a, b) \<in> set ys. b \<le> length message" using assms(3) all by auto
    qed (use before nx stop_def in auto)
    have "b \<le> next_start" if "(a, b) \<in> set (passed @ xs)" for a b
      unfolding next_start_def using passed_before_cut assms(2) all that before by metis
    then have pa: "\<forall>(a, b) \<in> set (passed @ xs). b \<le> next_start" by auto
    obtain cs where cs: "chunk_loop message limit ys next_start (chunks @ [slice start next_start message])
        = Some ((chunks @ [slice start next_start message]) @ cs)"
      "concat cs = drop next_start message" "\<forall>c \<in> set cs. c \<noteq> [] \<and> length c \<le> limit"
      "\<forall>k. uncut limit all (next_start + length (concat (take k cs)))"
      using less.hyps[OF _ all pa un short(2)] True nx(1) by (metis diff_less_mono2)
    let ?c = "slice start next_start message"
    have len: "length ?c = next_start - start" using short nx by (simp add: slice_def)
    have "uncut limit all (start + length (concat (take k (?c # cs))))" for k
      using cs(4) less.prems(3) len nx by (cases k) (auto simp flip: add.assoc)
    moreover have "?c @ drop next_start message = drop start message"
      using nx short by (metis append_take_drop_id drop_append drop_drop diff_is_0_eq drop0
          length_take less_imp_le min.absorb2 slice_def)
    moreover have "chunk_loop message limit tokens start chunks = Some (chunks @ ?c # cs)"
      using True cs(1) by (subst chunk_loop.simps) (simp add: Let_def stop_def ys_def next_start_def)
    ultimately show ?thesis
      using cs(2,3) len nx short by (intro exI[of _ "?c # cs"]) auto
  qed
qed

lemma url_tokens_inside:
  "(a, b) \<in> set (url_tokens pos s) \<Longrightarrow> b \<le> pos + length s"
proof (induction pos s rule: url_tokens.induct)
  case (1 pos s)
  have m: "url_match s \<le> length s" by (auto simp: url_match_def length_takeWhile_le)
  show ?case
  proof (cases "s = [] \<or> url_match s = 0")
    case True
    with 1 show ?thesis by (subst (asm) url_tokens.simps) (cases s; auto split: if_splits)
  next
    case False
    with 1 m show ?thesis by (subst (asm) url_tokens.simps) auto
  qed
qed

lemma chunk_message_spec:
  assumes "1 \<le> limit"
  shows "\<exists>cs. chunk_message message limit preserve_urls = Some (Inr cs) \<and> concat cs = message \<and>
    cs \<noteq> [] \<and> (\<forall>c \<in> set cs. int (length c) \<le> limit \<and> (message \<noteq> [] \<longrightarrow> c \<noteq> [])) \<and>
    (preserve_urls \<longrightarrow> (\<forall>k. uncut (nat limit) (url_tokens 0 message) (length (concat (take k cs)))))"
proof -
  define tokens where "tokens = (if preserve_urls then url_tokens 0 message else [])"
  have "spans_from 0 tokens" and "\<forall>(a, b) \<in> set tokens. b \<le> length message"
    unfolding tokens_def using spans_url_tokens url_tokens_inside[of _ _ 0] by auto
  moreover have "1 \<le> nat limit" using assms by linarith
  moreover have "uncut (nat limit) tokens 0" by (simp add: uncut_def)
  ultimately obtain cs where cs: "chunk_loop message (nat limit) tokens 0 [] = Some cs"
    "concat cs = message" "\<forall>c \<in> set cs. c \<noteq> [] \<and> length c \<le> nat limit"
    "\<forall>k. uncut (nat limit) tokens (length (concat (take k cs)))"
    using chunk_loop_spec[of "nat limit" tokens message "[]" tokens 0 "[]"]
    unfolding append.append_Nil drop0 add_0 by (metis empty_iff le0 list.set(1))
  show ?thesis
  proof (cases "cs = []")
    case True
    then have "message = []" using cs(2) by simp
    moreover have "chunk_message message limit preserve_urls = Some (Inr [[]])"
      using cs(1) True assms unfolding tokens_def by (simp add: chunk_message_def)
    moreover have "uncut (nat limit) ts (length (concat (take k [[] :: string])))" for ts k
      by (cases k) (auto simp: uncut_def)
    ultimately show ?thesis using assms by (intro exI[of _ "[[]]"]) simp
  next
    case False
    then have "chunk_message message limit preserve_urls = Some (Inr cs)"
      using cs(1) assms unfolding tokens_def by (simp add: chunk_message_def)
    moreover have "int (length c) \<le> limit \<and> c \<noteq> []" if "c \<in> set cs" for c
      using cs(3) that assms by fastforce
    moreover have "preserve_urls \<longrightarrow>
        (\<forall>k. uncut (nat limit) (url_tokens 0 message) (length (concat (take k cs))))"
      using cs(4) by (cases preserve_urls) (simp_all add: tokens_def)
    ultimately show ?thesis using False cs(2) by (intro exI[of _ cs]) simp
  qed
qed

text \<open>
  \<^bold>\<open>C26.\<close> For a positive limit \<open>chunk_message\<close> always returns; its pieces put together are the
  message, none is longer than the limit, and no cut falls inside a URL that fits one piece.
\<close>
theorem chunk_message_faithful:
  assumes "1 \<le> limit"
  shows "\<exists>cs. chunk_message message limit preserve_urls = Some (Inr cs) \<and> concat cs = message \<and>
    cs \<noteq> [] \<and> (\<forall>c \<in> set cs. int (length c) \<le> limit \<and> (message \<noteq> [] \<longrightarrow> c \<noteq> [])) \<and>
    (preserve_urls \<longrightarrow> (\<forall>k. uncut (nat limit) (url_tokens 0 message) (length (concat (take k cs)))))"
  using assms by (rule chunk_message_spec)

theorem chunk_message_faithful_witness:
  "\<exists>cs. chunk_message ''see http://a.b now'' 10 True = Some (Inr cs) \<and> concat cs = ''see http://a.b now''"
proof -
  have "(1::int) \<le> 10" by simp
  from chunk_message_faithful[OF this, of "''see http://a.b now''" True] show ?thesis by blast
qed

section \<open>Headed pieces\<close>

text \<open>The running size is the length of the joined lines, and every piece kept fits the budget.\<close>

definition packing_ok :: "int \<Rightarrow> packing \<Rightarrow> bool" where
  "packing_ok budget p \<longleftrightarrow> pk_size p = int (length (join_lines (pk_current p))) \<and> pk_size p \<le> budget \<and>
     (\<forall>c \<in> set (pk_chunks p). int (length c) \<le> budget)"

text \<open>What a packing holds, without the line feeds that join it.\<close>

definition packed_text :: "packing \<Rightarrow> string" where
  "packed_text p = filter (\<lambda>c. c \<noteq> newline) (concat (pk_chunks p) @ join_lines (pk_current p))"

lemma length_join_snoc:
  "length (join_lines (ls @ [l])) = length (join_lines ls) + length l + (if ls = [] then 0 else 1)"
  by (induction ls rule: join_lines.induct) auto

lemma filter_join_snoc:
  "filter (\<lambda>c. c \<noteq> newline) (join_lines (ls @ [l])) =
     filter (\<lambda>c. c \<noteq> newline) (join_lines ls) @ filter (\<lambda>c. c \<noteq> newline) l"
  by (induction ls rule: join_lines.induct) auto

lemma pack_piece_ok:
  "packing_ok budget p \<Longrightarrow> int (length piece) \<le> budget \<Longrightarrow> packing_ok budget (pack_piece budget piece p)"
  by (auto simp: packing_ok_def pack_piece_def length_join_snoc)

lemma pack_piece_text:
  "packed_text (pack_piece budget piece p) = packed_text p @ filter (\<lambda>c. c \<noteq> newline) piece"
  by (auto simp: packed_text_def pack_piece_def filter_join_snoc)

lemma fold_pack_piece:
  "packing_ok budget p \<Longrightarrow> \<forall>c \<in> set pieces. int (length c) \<le> budget \<Longrightarrow>
     packing_ok budget (fold (pack_piece budget) pieces p) \<and>
     packed_text (fold (pack_piece budget) pieces p) =
       packed_text p @ filter (\<lambda>c. c \<noteq> newline) (concat pieces)"
  by (induction pieces arbitrary: p) (auto simp: pack_piece_ok pack_piece_text)

lemma pack_lines_spec:
  assumes "1 \<le> budget" and "packing_ok budget p"
  shows "\<exists>q. pack_lines budget urls lines p = Some (Inr q) \<and> packing_ok budget q \<and>
    packed_text q = packed_text p @ filter (\<lambda>c. c \<noteq> newline) (concat lines)"
  using assms(2)
proof (induction lines arbitrary: p)
  case (Cons line lines)
  obtain pieces where p: "chunk_message line budget urls = Some (Inr pieces)"
    "concat pieces = line" "\<forall>c \<in> set pieces. int (length c) \<le> budget"
    using chunk_message_spec[OF assms(1), of line urls] by blast
  note f = fold_pack_piece[OF Cons.prems p(3)]
  from Cons.IH[OF conjunct1[OF f]] p f show ?case by auto
qed simp

text \<open>A positive budget always yields pieces, each within it, and loses no character but the breaks.\<close>

lemma packed_spec:
  assumes "1 \<le> budget"
  shows "\<exists>pieces. packed body budget urls = Some (Inr pieces) \<and> pieces \<noteq> [] \<and>
    (\<forall>c \<in> set pieces. int (length c) \<le> budget) \<and>
    filter (\<lambda>c. c \<noteq> newline) (concat pieces) =
      filter (\<lambda>c. c \<noteq> newline) (concat (py_splitlines [] body))"
proof -
  let ?p = "\<lparr>pk_chunks = [], pk_current = [], pk_size = 0\<rparr>"
  have "packing_ok budget ?p" using assms by (simp add: packing_ok_def)
  from pack_lines_spec[OF assms this, of urls "py_splitlines [] body"] obtain q
    where q: "pack_lines budget urls (py_splitlines [] body) ?p = Some (Inr q)" "packing_ok budget q"
      "packed_text q = filter (\<lambda>c. c \<noteq> newline) (concat (py_splitlines [] body))"
    by (auto simp: packed_text_def)
  define chunks where "chunks = (if pk_current q = [] then pk_chunks q
    else pk_chunks q @ [join_lines (pk_current q)])"
  have "packed body budget urls = Some (Inr (if chunks = [] then [[]] else chunks))"
    using q(1) by (simp add: packed_def chunks_def Let_def)
  moreover have "\<forall>c \<in> set chunks. int (length c) \<le> budget"
    using q(2) by (auto simp: chunks_def packing_ok_def)
  moreover have "filter (\<lambda>c. c \<noteq> newline) (concat chunks) = packed_text q"
    by (simp add: chunks_def packed_text_def)
  ultimately show ?thesis using q(3) assms by (intro exI[of _ "if chunks = [] then [[]] else chunks"]) auto
qed

text \<open>
  When the headers are no longer than the one the budget is computed with and leave room,
  \<open>chunk_lines\<close> returns pieces that all fit the limit, each under its own header, and that
  together hold every character of the lines; the only other outcome is the refusal after eight
  passes.
\<close>
theorem chunk_lines_within_limit:
  assumes "\<And>i n. 1 \<le> i \<Longrightarrow> i \<le> n \<Longrightarrow> length (header i n) \<le> length (header n n)"
    and "\<And>n. int (length (header n n)) + 2 \<le> limit"
  shows "chunk_lines body limit header preserve_urls = Some (Inl ValueError) \<or>
    (\<exists>out pieces. chunk_lines body limit header preserve_urls = Some (Inr out) \<and>
       (\<forall>c \<in> set out. int (length c) \<le> limit) \<and>
       out = map (\<lambda>(i, piece). header i (length pieces) @ newline # piece) (enumerate 1 pieces) \<and>
       filter (\<lambda>c. c \<noteq> newline) (concat pieces) =
         filter (\<lambda>c. c \<noteq> newline) (concat (py_splitlines [] body)))"
proof -
  have "header_passes k body limit header preserve_urls n = Some (Inl ValueError) \<or>
    (\<exists>out pieces. header_passes k body limit header preserve_urls n = Some (Inr out) \<and>
       (\<forall>c \<in> set out. int (length c) \<le> limit) \<and>
       out = map (\<lambda>(i, piece). header i (length pieces) @ newline # piece) (enumerate 1 pieces) \<and>
       filter (\<lambda>c. c \<noteq> newline) (concat pieces) =
         filter (\<lambda>c. c \<noteq> newline) (concat (py_splitlines [] body)))" for k n
  proof (induction k arbitrary: n)
    case (Suc k)
    have "1 \<le> limit - int (length (header n n)) - 1" using assms(2)[of n] by linarith
    from packed_spec[OF this] obtain pieces
      where p: "packed body (limit - int (length (header n n)) - 1) preserve_urls = Some (Inr pieces)"
        "\<forall>c \<in> set pieces. int (length c) \<le> limit - int (length (header n n)) - 1"
        "filter (\<lambda>c. c \<noteq> newline) (concat pieces) =
          filter (\<lambda>c. c \<noteq> newline) (concat (py_splitlines [] body))" by metis
    show ?case
    proof (cases "length pieces = n")
      case False
      then show ?thesis using p Suc.IH by simp
    next
      case True
      let ?out = "map (\<lambda>(i, piece). header i n @ newline # piece) (enumerate 1 pieces)"
      have "int (length (header i n @ newline # piece)) \<le> limit"
        if "(i, piece) \<in> set (enumerate 1 pieces)" for i piece
      proof -
        have "1 \<le> i" and "i \<le> n" and "piece \<in> set pieces"
          using that True by (auto simp: in_set_enumerate_eq)
        then have "length (header i n) \<le> length (header n n)"
          and "int (length piece) \<le> limit - int (length (header n n)) - 1"
          using assms(1) p(2) by blast+
        then show ?thesis by simp
      qed
      then have "\<forall>c \<in> set ?out. int (length c) \<le> limit" by fastforce
      then show ?thesis using p True
        by (intro disjI2 exI[of _ ?out] exI[of _ pieces]) simp
    qed
  qed simp
  then show ?thesis by (simp add: chunk_lines_def)
qed

definition sample_header :: "nat \<Rightarrow> nat \<Rightarrow> string" where
  "sample_header i n = ''h''"

theorem chunk_lines_within_limit_witness:
  "chunk_lines ''ab'' 5 sample_header True = Some (Inr [''h'' @ newline # ''ab'']) \<and>
   (\<exists>out pieces. chunk_lines ''ab'' 5 sample_header True = Some (Inr out) \<and>
       (\<forall>c \<in> set out. int (length c) \<le> 5) \<and>
       out = map (\<lambda>(i, piece). sample_header i (length pieces) @ newline # piece) (enumerate 1 pieces) \<and>
       filter (\<lambda>c. c \<noteq> newline) (concat pieces) =
         filter (\<lambda>c. c \<noteq> newline) (concat (py_splitlines [] ''ab'')))"
proof -
  have eq: "chunk_lines ''ab'' 5 sample_header True = Some (Inr [''h'' @ newline # ''ab''])"
    by code_simp
  have "\<And>i n. 1 \<le> i \<Longrightarrow> i \<le> n \<Longrightarrow> length (sample_header i n) \<le> length (sample_header n n)"
    and "\<And>n. int (length (sample_header n n)) + 2 \<le> 5" by (simp_all add: sample_header_def)
  note main = chunk_lines_within_limit[where header = sample_header and body = "''ab''"
      and preserve_urls = True, OF this]
  have ne: "chunk_lines ''ab'' 5 sample_header True \<noteq> Some (Inl ValueError)" unfolding eq by simp
  from main have "\<exists>out pieces. chunk_lines ''ab'' 5 sample_header True = Some (Inr out) \<and>
       (\<forall>c \<in> set out. int (length c) \<le> 5) \<and>
       out = map (\<lambda>(i, piece). sample_header i (length pieces) @ newline # piece) (enumerate 1 pieces) \<and>
       filter (\<lambda>c. c \<noteq> newline) (concat pieces) =
         filter (\<lambda>c. c \<noteq> newline) (concat (py_splitlines [] ''ab''))"
    by (simp only: ne simp_thms)
  then show ?thesis by (rule conjI[OF eq])
qed

end
