(* ===== verification/Interop_Protocol.thy ===== *)
theory Interop_Protocol
  imports Chunker Py_Datetime
begin

text \<open>
  Model of the inter-agent protocol under \<open>automation/interop\<close>: \<open>delegation.py\<close> (envelopes and the
  deterministic answers), \<open>report.py\<close> (task reports), \<open>loop_guard.py\<close> (the per-thread limit on bot
  replies), \<open>killswitch.py\<close> (the owner's pause command) and \<open>injection_adapter.py\<close> (signed test
  events). The JSON codec, ISO dates, \<open>str\<close> and \<open>int\<close> of JSON values, Unicode folding, the digest,
  the similarity ratio of \<open>difflib\<close>, the summary masks and the HMAC are parameters.
\<close>

section \<open>Parameters\<close>

text \<open>\<open>json.loads\<close>, the three forms of \<open>json.dumps\<close> the code uses, and conversions of JSON values.\<close>

record json_codec =
  js_loads :: "string \<Rightarrow> py_exn + json"
  js_compact :: "json \<Rightarrow> string"
  js_sorted :: "json \<Rightarrow> string"
  js_indent :: "json \<Rightarrow> string"
  js_str :: "json \<Rightarrow> string"
  js_int :: "string \<Rightarrow> py_exn + int"
  js_fromisoformat :: "string \<Rightarrow> py_exn + dt"
  js_isoformat :: "dt \<Rightarrow> string"

section \<open>Envelopes (delegation.py)\<close>

record interop_envelope =
  ie_correlation_id :: string
  ie_sender_id :: string
  ie_recipient_id :: string
  ie_intent :: string
  ie_payload :: jobj

definition format_envelope :: "json_codec \<Rightarrow> interop_envelope \<Rightarrow> string" where
  "format_envelope js env = js_compact js (JObj
     [(''version'', JStr ''v0''),
      (''correlation_id'', JStr (ie_correlation_id env)),
      (''sender_id'', JStr (ie_sender_id env)),
      (''recipient_id'', JStr (ie_recipient_id env)),
      (''intent'', JStr (ie_intent env)),
      (''payload'', JObj (ie_payload env))])"

definition parse_envelope :: "json_codec \<Rightarrow> string \<Rightarrow> py_exn + interop_envelope option" where
  "parse_envelope js message =
     (case js_loads js message of
        Inl e \<Rightarrow> if e = JSONDecodeError then Inr None else Inl e
      | Inr (JObj payload) \<Rightarrow>
          if set (map fst payload) \<noteq>
             {''version'', ''correlation_id'', ''sender_id'', ''recipient_id'', ''intent'', ''payload''}
          then Inr None
          else (case (jget payload ''version'', jget payload ''correlation_id'', jget payload ''sender_id'',
                      jget payload ''recipient_id'', jget payload ''intent'', jget payload ''payload'') of
              (Some v, Some (JStr c), Some (JStr s), Some (JStr r), Some (JStr i), Some (JObj body)) \<Rightarrow>
                Inr (if v = JStr ''v0'' then
                   Some \<lparr>ie_correlation_id = c, ie_sender_id = s, ie_recipient_id = r, ie_intent = i,
                         ie_payload = body\<rparr> else None)
            | _ \<Rightarrow> Inr None)
      | Inr _ \<Rightarrow> Inr None)"

text \<open>
  \<open>_availability_slots\<close>: up to eight whole hours of the range, on the wall clock of its start. The
  loop adds hours while the slot ends inside the range and fewer than eight are collected.
\<close>

definition one_hour :: int where
  "one_hour = 3600000000"

fun floor_hour :: "dt \<Rightarrow> dt" where
  "floor_hour (Naive t) = Naive (t - t mod one_hour)"
| "floor_hour (Aware t z) = Aware (t - t mod one_hour) z"

fun slot_loop :: "json_codec \<Rightarrow> int \<Rightarrow> dt \<Rightarrow> nat \<Rightarrow> dt \<Rightarrow> py_exn + string list" where
  "slot_loop js duration range_end 0 slot = sum_bind (dt_add slot duration) (\<lambda>_. Inr [])"
| "slot_loop js duration range_end (Suc room) slot =
     sum_bind (dt_add slot duration) (\<lambda>slot_end.
     if instant slot_end \<le> instant range_end then
       sum_bind (dt_add slot one_hour) (\<lambda>next_slot.
       sum_bind (slot_loop js duration range_end room next_slot) (\<lambda>rest.
       Inr (js_isoformat js slot # rest)))
     else Inr [])"

definition range_of :: "json_codec \<Rightarrow> jobj \<Rightarrow> py_exn + dt \<times> dt \<times> int" where
  "range_of js payload =
     (case jget payload ''range_start'' of None \<Rightarrow> Inl KeyError | Some a \<Rightarrow>
      sum_bind (js_fromisoformat js (js_str js a)) (\<lambda>range_start.
      case jget payload ''range_end'' of None \<Rightarrow> Inl KeyError | Some b \<Rightarrow>
      sum_bind (js_fromisoformat js (js_str js b)) (\<lambda>range_end.
      case jget payload ''duration_min'' of None \<Rightarrow> Inl KeyError | Some d \<Rightarrow>
      sum_bind (js_int js (js_str js d)) (\<lambda>n.
      sum_bind (delta_minutes n) (\<lambda>duration.
      Inr (range_start, range_end, duration))))))"

definition offered_hours :: "json_codec \<Rightarrow> jobj \<Rightarrow> py_exn + string list" where
  "offered_hours js payload =
     (case range_of js payload of
        Inl e \<Rightarrow> if e = KeyError \<or> e = TypeError \<or> is_value_error e then Inr [''interop-ready''] else Inl e
      | Inr (range_start, range_end, duration) \<Rightarrow>
          if \<not> dt_aware range_start \<or> \<not> dt_aware range_end \<or> duration \<le> 0 then Inr [''interop-ready'']
          else let slot = floor_hour range_start in
            sum_bind (if instant slot < instant range_start then dt_add slot one_hour else Inr slot) (\<lambda>first.
            slot_loop js duration range_end 8 first))"

definition response_for :: "json_codec \<Rightarrow> interop_envelope \<Rightarrow> string \<Rightarrow> py_exn + interop_envelope" where
  "response_for js query sender_id =
     (let reply = (\<lambda>intent payload. \<lparr>ie_correlation_id = ie_correlation_id query, ie_sender_id = sender_id,
         ie_recipient_id = ie_sender_id query, ie_intent = intent, ie_payload = payload\<rparr>) in
      if ie_intent query = ''query_availability'' then
        sum_bind (offered_hours js (ie_payload query)) (\<lambda>slots.
        Inr (reply ''response_availability'' [(''slots'', JArr (map JStr slots))]))
      else if ie_intent query = ''query_confirm_slot'' then
        Inr (reply ''response_confirm_slot''
          [(''result'', JStr ''declined''),
           (''slot'', JStr (js_str js (jget_or (ie_payload query) ''slot'' (JStr []))))])
      else Inr (reply (''response_'' @ ie_intent query)
          [(''result'', JStr ''declined''), (''reason'', JStr ''unsupported_intent'')]))"

section \<open>Task reports (report.py)\<close>

datatype report_status = START | RDONE | BLOCKED

fun report_status_value :: "report_status \<Rightarrow> string" where
  "report_status_value START = ''start''"
| "report_status_value RDONE = ''done''"
| "report_status_value BLOCKED = ''blocked''"

definition ReportStatus :: "string \<Rightarrow> py_exn + report_status" where
  "ReportStatus s =
     (if s = ''start'' then Inr START else if s = ''done'' then Inr RDONE
      else if s = ''blocked'' then Inr BLOCKED else Inl ValueError)"

record task_report =
  tr_agent_id :: string
  tr_task_id :: string
  tr_status :: report_status
  tr_summary :: string
  tr_links :: "string list"
  tr_timestamp :: dt

definition mask_summary :: "(string \<Rightarrow> string) list \<Rightarrow> string \<Rightarrow> string" where
  "mask_summary masks summary = fold (\<lambda>mask text. mask text) masks summary"

definition fence :: string where
  "fence = replicate 3 (CHR 0x60)"

definition format_report :: "json_codec \<Rightarrow> (string \<Rightarrow> string) list \<Rightarrow> task_report \<Rightarrow> string" where
  "format_report js masks report =
     fence @ ''json'' @ newline # js_indent js (JObj
       [(''version'', JStr ''v0''),
        (''agent_id'', JStr (tr_agent_id report)),
        (''task_id'', JStr (tr_task_id report)),
        (''status'', JStr (report_status_value (tr_status report))),
        (''summary'', JStr (mask_summary masks (tr_summary report))),
        (''links'', JArr (map JStr (tr_links report))),
        (''timestamp'', JStr (js_isoformat js (tr_timestamp report)))]) @ newline # fence"

text \<open>
  \<open>_REPORT_PATTERN.fullmatch\<close>: the fences are stripped and the text between them has to begin and
  end with a brace.
\<close>

definition report_body :: "string \<Rightarrow> string option" where
  "report_body message =
     (let opening = fence @ ''json'' @ [newline]; closing = newline # fence;
          body = slice (length opening) (length message - length closing) message
      in if length opening + length closing \<le> length message \<and> starts_with opening message \<and>
            starts_with (rev closing) (rev message) \<and>
            2 \<le> length body \<and> hd body = CHR 0x7B \<and> last body = CHR 0x7D
         then Some body else None)"

fun all_strings :: "json list \<Rightarrow> string list option" where
  "all_strings [] = Some []"
| "all_strings (JStr s # xs) = map_option (Cons s) (all_strings xs)"
| "all_strings (_ # xs) = None"

text \<open>The part of \<open>parse_report\<close> inside its \<open>try\<close>.\<close>

definition report_of :: "json_codec \<Rightarrow> string \<Rightarrow> py_exn + task_report option" where
  "report_of js text_block = sum_bind (js_loads js text_block) (\<lambda>decoded.
     case decoded of
       JObj payload \<Rightarrow>
         if set (map fst payload) \<noteq>
            {''version'', ''agent_id'', ''task_id'', ''status'', ''summary'', ''links'', ''timestamp''}
         then Inr None
         else (case (jget payload ''version'', jget payload ''agent_id'', jget payload ''task_id'',
                     jget payload ''status'', jget payload ''summary'', jget payload ''links'',
                     jget payload ''timestamp'') of
             (Some v, Some (JStr a), Some (JStr k), Some (JStr st), Some (JStr sm), Some (JArr ls), Some (JStr ts)) \<Rightarrow>
               if v \<noteq> JStr ''v0'' then Inr None
               else (case all_strings ls of
                   None \<Rightarrow> Inr None
                 | Some links \<Rightarrow>
                     sum_bind (ReportStatus st) (\<lambda>status.
                     sum_bind (js_fromisoformat js ts) (\<lambda>stamp.
                     Inr (Some \<lparr>tr_agent_id = a, tr_task_id = k, tr_status = status, tr_summary = sm,
                                tr_links = links, tr_timestamp = stamp\<rparr>))))
           | _ \<Rightarrow> Inr None)
     | _ \<Rightarrow> Inr None)"

definition parse_report :: "json_codec \<Rightarrow> string \<Rightarrow> py_exn + task_report option" where
  "parse_report js message =
     (case report_body message of
        None \<Rightarrow> Inr None
      | Some body \<Rightarrow>
          (case report_of js body of
             Inl e \<Rightarrow> if e = TypeError \<or> is_value_error e then Inr None else Inl e
           | Inr r \<Rightarrow> Inr r))"

section \<open>Reply limits (loop_guard.py)\<close>

definition MAX_REPLIES_PER_WINDOW :: nat where
  "MAX_REPLIES_PER_WINDOW = 5"

definition WINDOW_SECONDS :: rat where
  "WINDOW_SECONDS = 60"

definition MAX_LOW_VALUE_REPLIES_PER_WINDOW :: nat where
  "MAX_LOW_VALUE_REPLIES_PER_WINDOW = 2"

definition NEAR_DUPLICATE_RATIO :: rat where
  "NEAR_DUPLICATE_RATIO = 85 / 100"

record guard_decision =
  suppressed :: bool
  gd_reason :: "string option"

record thread_window =
  timestamps :: "rat list"
  body_hashes :: "string list"
  normalized_bodies :: "string list"

record guard_env =
  lg_fold :: "string \<Rightarrow> string"
  lg_sha256 :: "string \<Rightarrow> string"
  lg_ratio :: "string \<Rightarrow> string \<Rightarrow> rat"

type_synonym loop_guard = "string \<Rightarrow> thread_window"

definition new_guard :: loop_guard where
  "new_guard = (\<lambda>_. \<lparr>timestamps = [], body_hashes = [], normalized_bodies = []\<rparr>)"

text \<open>\<open>str.isalnum\<close> on one-byte characters.\<close>

definition alnum_char :: "char \<Rightarrow> bool" where
  "alnum_char c \<longleftrightarrow> (let n = of_char c :: nat in
     48 \<le> n \<and> n \<le> 57 \<or> 65 \<le> n \<and> n \<le> 90 \<or> 97 \<le> n \<and> n \<le> 122 \<or>
     n \<in> {170, 178, 179, 181, 185, 186, 188, 189, 190} \<or>
     192 \<le> n \<and> n \<le> 255 \<and> n \<noteq> 215 \<and> n \<noteq> 247)"

definition normalize :: "guard_env \<Rightarrow> string \<Rightarrow> string" where
  "normalize g body = fold_space (lg_fold g body)"

definition is_low_information :: "string \<Rightarrow> bool" where
  "is_low_information body = (length (filter alnum_char body) \<le> 4)"

definition low_value_count :: "thread_window \<Rightarrow> nat" where
  "low_value_count w = length (filter is_low_information (normalized_bodies w))"

definition similar :: "guard_env \<Rightarrow> string \<Rightarrow> string \<Rightarrow> bool" where
  "similar g current prior \<longleftrightarrow>
     \<not> is_low_information current \<and> lg_ratio g current prior \<ge> NEAR_DUPLICATE_RATIO"

text \<open>The \<open>while\<close> loop that forgets replies older than the window.\<close>

fun expire :: "rat \<Rightarrow> rat list \<Rightarrow> string list \<Rightarrow> py_exn + rat list \<times> string list" where
  "expire cutoff (t # ts) bodies =
     (if t \<le> cutoff then
        (case bodies of
           [] \<Rightarrow> Inl (OtherError ''IndexError'')
         | _ # bs \<Rightarrow> expire cutoff ts bs)
      else Inr (t # ts, bodies))"
| "expire cutoff [] bodies = Inr ([], bodies)"

definition judge :: "guard_env \<Rightarrow> string \<Rightarrow> rat \<Rightarrow> thread_window \<Rightarrow> guard_decision \<times> thread_window" where
  "judge g body moment window =
     (let window = (if timestamps window = [] then window\<lparr>body_hashes := []\<rparr> else window);
          normalized = normalize g body;
          digest = lg_sha256 g normalized in
      if digest \<in> set (body_hashes window) then
        (\<lparr>suppressed = True, gd_reason = Some ''duplicate_body''\<rparr>, window)
      else if is_low_information normalized \<and> low_value_count window \<ge> MAX_LOW_VALUE_REPLIES_PER_WINDOW then
        (\<lparr>suppressed = True, gd_reason = Some ''low_value_chatter''\<rparr>, window)
      else if list_ex (similar g normalized) (normalized_bodies window) then
        (\<lparr>suppressed = True, gd_reason = Some ''near_duplicate_body''\<rparr>, window)
      else if length (timestamps window) \<ge> MAX_REPLIES_PER_WINDOW then
        (\<lparr>suppressed = True, gd_reason = Some ''rate_limit''\<rparr>, window)
      else
        (\<lparr>suppressed = False, gd_reason = None\<rparr>,
         \<lparr>timestamps = timestamps window @ [moment], body_hashes = digest # body_hashes window,
          normalized_bodies = normalized_bodies window @ [normalized]\<rparr>))"

definition evaluate ::
  "json_codec \<Rightarrow> guard_env \<Rightarrow> string \<Rightarrow> string \<Rightarrow> rat \<Rightarrow> loop_guard \<Rightarrow> py_exn + guard_decision \<times> loop_guard" where
  "evaluate js g thread_id body moment threads =
     sum_bind (parse_envelope js body) (\<lambda>envelope.
     sum_bind (if envelope \<noteq> None then Inr True else
         sum_bind (parse_report js body) (\<lambda>report. Inr (report \<noteq> None))) (\<lambda>protocol.
     if protocol then Inr (\<lparr>suppressed = False, gd_reason = None\<rparr>, threads)
     else
       sum_bind (expire (moment - WINDOW_SECONDS) (timestamps (threads thread_id))
                   (normalized_bodies (threads thread_id))) (\<lambda>(ts, bodies).
       let (decision, window) = judge g body moment
             ((threads thread_id)\<lparr>timestamps := ts, normalized_bodies := bodies\<rparr>)
       in Inr (decision, threads(thread_id := window)))))"

section \<open>Pause switch (killswitch.py)\<close>

record kill_switch_result =
  ks_accepted :: bool
  ks_paused :: bool
  ks_reason :: "string option"

text \<open>The sentinel file: existence test, directory creation, writing, mode change, removal.\<close>

record 'w pause_store =
  ps_owner_id :: string
  ps_exists :: "('w, bool) io"
  ps_mkdir :: "('w, unit) io"
  ps_write :: "string \<Rightarrow> ('w, unit) io"
  ps_chmod :: "('w, unit) io"
  ps_unlink :: "('w, unit) io"

definition is_paused :: "'w pause_store \<Rightarrow> ('w, bool) io" where
  "is_paused ps = ps_exists ps"

definition pause_handle :: "'w pause_store \<Rightarrow> string \<Rightarrow> string \<Rightarrow> ('w, kill_switch_result) io" where
  "pause_handle ps cmd actor_id =
     (if actor_id \<noteq> ps_owner_id ps then
        bindM (is_paused ps) (\<lambda>p.
        ret \<lparr>ks_accepted = False, ks_paused = p, ks_reason = Some ''owner_required''\<rparr>)
      else if cmd = ''!pause-agents'' then
        bindM (ps_mkdir ps) (\<lambda>_. bindM (ps_write ps (''paused'' @ [newline])) (\<lambda>_.
        bindM (ps_chmod ps) (\<lambda>_. ret \<lparr>ks_accepted = True, ks_paused = True, ks_reason = None\<rparr>)))
      else if cmd = ''!resume-agents'' then
        bindM (ps_unlink ps) (\<lambda>_. ret \<lparr>ks_accepted = True, ks_paused = False, ks_reason = None\<rparr>)
      else bindM (is_paused ps) (\<lambda>p.
        ret \<lparr>ks_accepted = False, ks_paused = p, ks_reason = Some ''unknown_command''\<rparr>))"

section \<open>Signed test events (injection_adapter.py)\<close>

record inbound_event =
  ev_event_id :: string
  ev_user_id :: string
  ev_channel_id :: string
  ev_text :: string

definition canonical_event :: "json_codec \<Rightarrow> inbound_event \<Rightarrow> string" where
  "canonical_event js event = js_sorted js (JObj
     [(''channel_id'', JStr (ev_channel_id event)), (''event_id'', JStr (ev_event_id event)),
      (''text'', JStr (ev_text event)), (''user_id'', JStr (ev_user_id event))])"

definition sign_event :: "json_codec \<Rightarrow> (string \<Rightarrow> string \<Rightarrow> string) \<Rightarrow> inbound_event \<Rightarrow> string \<Rightarrow> string" where
  "sign_event js hmac event secret = hmac secret (canonical_event js event)"

text \<open>\<open>hmac.compare_digest\<close> refuses text outside ASCII.\<close>

definition ascii_text :: "string \<Rightarrow> bool" where
  "ascii_text s \<longleftrightarrow> list_all (\<lambda>c. (of_char c :: nat) < 128) s"

definition verify_signed_event ::
  "json_codec \<Rightarrow> (string \<Rightarrow> string \<Rightarrow> string) \<Rightarrow> inbound_event \<Rightarrow> string \<Rightarrow> string \<Rightarrow> py_exn + bool" where
  "verify_signed_event js hmac event signature secret =
     (if ascii_text (sign_event js hmac event secret) \<and> ascii_text signature
      then Inr (sign_event js hmac event secret = signature) else Inl TypeError)"

definition accept_test_event ::
  "json_codec \<Rightarrow> (string \<Rightarrow> string \<Rightarrow> string) \<Rightarrow> inbound_event \<Rightarrow> string \<Rightarrow> string \<Rightarrow> bool \<Rightarrow> py_exn + bool" where
  "accept_test_event js hmac event signature secret e2e_test_mode =
     (if e2e_test_mode then verify_signed_event js hmac event signature secret else Inr False)"

section \<open>Round trips\<close>

text \<open>
  An envelope is read back as it was written, when the JSON codec decodes its own output; the
  answer to a query goes back to its sender under the same correlation id.
\<close>
lemma envelope_roundtrip:
  assumes "\<And>j. js_loads js (js_compact js j) = Inr j"
  shows "parse_envelope js (format_envelope js env) = Inr (Some env)"
    and "response_for js env sender = Inr reply \<Longrightarrow>
      parse_envelope js (format_envelope js reply) = Inr (Some reply) \<and>
      ie_correlation_id reply = ie_correlation_id env \<and> ie_recipient_id reply = ie_sender_id env \<and>
      ie_sender_id reply = sender"
proof -
  have rt: "parse_envelope js (format_envelope js e) = Inr (Some e)" for e
    using assms by (auto simp: parse_envelope_def format_envelope_def jget_def)
  then show "parse_envelope js (format_envelope js env) = Inr (Some env)" .
  show "parse_envelope js (format_envelope js reply) = Inr (Some reply) \<and>
      ie_correlation_id reply = ie_correlation_id env \<and> ie_recipient_id reply = ie_sender_id env \<and>
      ie_sender_id reply = sender" if "response_for js env sender = Inr reply"
    using rt that by (auto simp: response_for_def Let_def sum_bind_Inr_iff split: if_splits)
qed

section \<open>The reply limit holds\<close>

text \<open>
  One call of the guard with its result, and the runs of the guard. \<open>allowed_at thread h\<close> are the
  times of the replies of a thread that the guard let through, oldest first, the protocol
  messages, which are never counted, left out.
\<close>

record guard_call =
  gc_thread :: string
  gc_body :: string
  gc_now :: rat
  gc_decision :: guard_decision

definition counted :: "json_codec \<Rightarrow> string \<Rightarrow> bool" where
  "counted js body \<longleftrightarrow> parse_envelope js body = Inr None \<and> parse_report js body = Inr None"

definition allowed_at :: "json_codec \<Rightarrow> string \<Rightarrow> guard_call list \<Rightarrow> rat list" where
  "allowed_at js thread h = map gc_now (filter (\<lambda>c. gc_thread c = thread \<and> counted js (gc_body c) \<and>
     \<not> suppressed (gc_decision c)) h)"

inductive guard_run :: "json_codec \<Rightarrow> guard_env \<Rightarrow> guard_call list \<Rightarrow> loop_guard \<Rightarrow> bool"
  for js :: json_codec and g :: guard_env where
  fresh: "guard_run js g [] new_guard"
| call: "guard_run js g h threads \<Longrightarrow> (\<forall>c \<in> set h. gc_now c \<le> moment) \<Longrightarrow>
    evaluate js g thread body moment threads = Inr (decision, threads') \<Longrightarrow>
    guard_run js g (h @ [\<lparr>gc_thread = thread, gc_body = body, gc_now = moment, gc_decision = decision\<rparr>]) threads'"

text \<open>
  The window of a thread holds exactly the allowed replies younger than the window at the last
  look, at most five of them, and the allowed replies never exceeded five in any window.
\<close>

definition window_inv :: "rat list \<Rightarrow> rat \<Rightarrow> thread_window \<Rightarrow> bool" where
  "window_inv allowed seen w \<longleftrightarrow> sorted allowed \<and> (\<forall>x \<in> set allowed. x \<le> seen) \<and>
     timestamps w = filter (\<lambda>x. seen - WINDOW_SECONDS < x) allowed \<and>
     length (timestamps w) \<le> MAX_REPLIES_PER_WINDOW \<and>
     length (normalized_bodies w) = length (timestamps w) \<and>
     (\<forall>t. length (filter (\<lambda>x. t - WINDOW_SECONDS < x \<and> x \<le> t) allowed) \<le> MAX_REPLIES_PER_WINDOW)"

lemma expire_spec:
  "length bodies = length ts \<Longrightarrow> sorted ts \<Longrightarrow>
     \<exists>bs. expire cutoff ts bodies = Inr (filter (\<lambda>x. cutoff < x) ts, bs) \<and>
       length bs = length (filter (\<lambda>x. cutoff < x) ts)"
proof (induction cutoff ts bodies rule: expire.induct)
  case (1 cutoff t ts bodies)
  show ?case
  proof (cases "t \<le> cutoff")
    case True
    with 1 show ?thesis by (cases bodies) auto
  next
    case False
    with 1(3) have "filter (\<lambda>x. cutoff < x) (t # ts) = t # ts"
      by (intro filter_True) auto
    with False 1(2) show ?thesis by auto
  qed
qed simp

lemma judge_window:
  assumes "judge g body moment w = (decision, w')"
  shows "if suppressed decision then timestamps w' = timestamps w \<and> normalized_bodies w' = normalized_bodies w
    else timestamps w' = timestamps w @ [moment] \<and> length (timestamps w) < MAX_REPLIES_PER_WINDOW \<and>
         length (normalized_bodies w') = Suc (length (normalized_bodies w))"
  using assms by (auto simp: judge_def Let_def split: if_splits)

lemma filter_younger:
  "(a::rat) \<le> b \<Longrightarrow> filter (\<lambda>x. b - WINDOW_SECONDS < x) (filter (\<lambda>x. a - WINDOW_SECONDS < x) xs)
     = filter (\<lambda>x. b - WINDOW_SECONDS < x) xs"
  by (induction xs) auto

lemma window_inv_look:
  assumes inv: "window_inv allowed seen w" and "seen \<le> moment"
  shows "\<exists>bs. expire (moment - WINDOW_SECONDS) (timestamps w) (normalized_bodies w) =
      Inr (filter (\<lambda>x. moment - WINDOW_SECONDS < x) allowed, bs) \<and>
      window_inv allowed moment (w\<lparr>timestamps := filter (\<lambda>x. moment - WINDOW_SECONDS < x) allowed,
        normalized_bodies := bs\<rparr>)"
proof -
  have ts: "filter (\<lambda>x. moment - WINDOW_SECONDS < x) (timestamps w)
      = filter (\<lambda>x. moment - WINDOW_SECONDS < x) allowed"
    using inv filter_younger[OF assms(2)] by (simp add: window_inv_def)
  have "length (filter (\<lambda>x. moment - WINDOW_SECONDS < x) (timestamps w)) \<le> length (timestamps w)"
    by simp
  then have le: "length (filter (\<lambda>x. moment - WINDOW_SECONDS < x) allowed) \<le> MAX_REPLIES_PER_WINDOW"
    using inv unfolding ts window_inv_def by linarith
  have "length (normalized_bodies w) = length (timestamps w)" and "sorted (timestamps w)"
    using inv by (auto simp: window_inv_def intro: sorted_wrt_filter)
  from expire_spec[OF this, of "moment - WINDOW_SECONDS"] obtain bs
    where "expire (moment - WINDOW_SECONDS) (timestamps w) (normalized_bodies w) =
      Inr (filter (\<lambda>x. moment - WINDOW_SECONDS < x) allowed, bs)"
      and "length bs = length (filter (\<lambda>x. moment - WINDOW_SECONDS < x) allowed)"
    unfolding ts by blast
  with inv le assms(2) show ?thesis by (auto simp: window_inv_def)
qed

lemma length_filter_mono:
  "(\<And>x. P x \<Longrightarrow> Q x) \<Longrightarrow> length (filter P xs) \<le> length (filter Q xs)"
  by (induction xs) (auto simp: le_SucI)

lemma window_inv_allow:
  assumes inv: "window_inv allowed moment w" and "length (timestamps w) < MAX_REPLIES_PER_WINDOW"
    and "timestamps w' = timestamps w @ [moment]"
    and "length (normalized_bodies w') = Suc (length (normalized_bodies w))"
  shows "window_inv (allowed @ [moment]) moment w'"
proof -
  have young: "moment - WINDOW_SECONDS < moment" by (simp add: WINDOW_SECONDS_def)
  have "length (filter (\<lambda>x. t - WINDOW_SECONDS < x \<and> x \<le> t) (allowed @ [moment])) \<le> MAX_REPLIES_PER_WINDOW"
    for t
  proof (cases "moment \<le> t")
    case False
    then show ?thesis using inv by (simp add: window_inv_def)
  next
    case True
    then have "length (filter (\<lambda>x. t - WINDOW_SECONDS < x \<and> x \<le> t) allowed)
        \<le> length (filter (\<lambda>x. moment - WINDOW_SECONDS < x) allowed)"
      by (intro length_filter_mono) auto
    then show ?thesis using inv assms(2) by (simp add: window_inv_def)
  qed
  with inv assms young show ?thesis by (auto simp: window_inv_def sorted_append)
qed

lemma evaluate_cases:
  assumes "evaluate js g thread body moment threads = Inr (decision, threads')"
  obtains (protocol) "\<not> counted js body" "threads' = threads"
  | (guarded) ts bodies w where "counted js body"
      "expire (moment - WINDOW_SECONDS) (timestamps (threads thread)) (normalized_bodies (threads thread))
        = Inr (ts, bodies)"
      "judge g body moment ((threads thread)\<lparr>timestamps := ts, normalized_bodies := bodies\<rparr>) = (decision, w)"
      "threads' = threads(thread := w)"
proof -
  note ev = assms[unfolded evaluate_def]
  from ev obtain envelope where envelope: "parse_envelope js body = Inr envelope"
    by (rule sum_bind_InrE)
  show thesis
  proof (cases "envelope = None \<and> parse_report js body = Inr None")
    case False
    with ev envelope show thesis
      by (intro protocol) (auto simp: counted_def sum_bind_Inr_iff split: if_splits)
  next
    case True
    with ev envelope obtain ts bodies
      where ex: "expire (moment - WINDOW_SECONDS) (timestamps (threads thread))
        (normalized_bodies (threads thread)) = Inr (ts, bodies)"
      by (auto simp: sum_bind_Inr_iff)
    obtain d w where j: "judge g body moment
        ((threads thread)\<lparr>timestamps := ts, normalized_bodies := bodies\<rparr>) = (d, w)" by fastforce
    have "d = decision" and "threads' = threads(thread := w)"
      using ev envelope True ex j by simp_all
    with True envelope ex j show thesis by (intro guarded) (simp_all add: counted_def)
  qed
qed

lemma allowed_at_snoc:
  "allowed_at js thread (h @ [c]) = allowed_at js thread h @
     (if gc_thread c = thread \<and> counted js (gc_body c) \<and> \<not> suppressed (gc_decision c) then [gc_now c] else [])"
  by (simp add: allowed_at_def)

lemma guard_run_inv:
  "guard_run js g h threads \<Longrightarrow> \<forall>c \<in> set h. gc_now c \<le> later \<Longrightarrow>
     \<exists>seen \<le> later. window_inv (allowed_at js th h) seen (threads th)"
proof (induction arbitrary: th later rule: guard_run.induct)
  case fresh
  show ?case by (auto simp: window_inv_def allowed_at_def new_guard_def)
next
  case (call h threads moment thread body decision threads')
  have later: "moment \<le> later" "\<forall>c \<in> set h. gc_now c \<le> later" using call.prems by auto
  from call.hyps(3) show ?case
  proof (cases rule: evaluate_cases)
    case protocol
    then show ?thesis using call.IH[OF later(2)] by (simp add: allowed_at_snoc)
  next
    case (guarded ts bodies w)
    show ?thesis
    proof (cases "th = thread")
      case False
      then show ?thesis using call.IH[OF later(2)] guarded by (simp add: allowed_at_snoc)
    next
      case True
      obtain seen where "seen \<le> moment" "window_inv (allowed_at js thread h) seen (threads thread)"
        using call.IH[OF call.hyps(2)] by blast
      from window_inv_look[OF this(2,1)] guarded(2)
      have look: "window_inv (allowed_at js thread h) moment
          ((threads thread)\<lparr>timestamps := ts, normalized_bodies := bodies\<rparr>)" by auto
      have "window_inv (allowed_at js thread h @ (if suppressed decision then [] else [moment])) moment w"
      proof (cases "suppressed decision")
        case True
        with judge_window[OF guarded(3)] look show ?thesis by (auto simp: window_inv_def)
      next
        case False
        with judge_window[OF guarded(3)] window_inv_allow[OF look, of w] show ?thesis by simp
      qed
      then show ?thesis using True guarded later(1) by (auto simp: allowed_at_snoc)
    qed
  qed
qed

text \<open>
  \<^bold>\<open>C28.\<close> However the calls interleave, in any sixty seconds the guard lets at most five ordinary
  replies of one thread through.
\<close>
theorem reply_rate_bounded:
  assumes "guard_run js g h threads"
  shows "length (filter (\<lambda>x. t - WINDOW_SECONDS < x \<and> x \<le> t) (allowed_at js thread h)) \<le> 5"
proof -
  have "\<forall>c \<in> set h. gc_now c \<le> Max (gc_now ` set h)" by simp
  from guard_run_inv[OF assms this, of thread] show ?thesis
    by (auto simp: window_inv_def MAX_REPLIES_PER_WINDOW_def)
qed

definition sample_json :: json_codec where
  "sample_json = \<lparr>js_loads = (\<lambda>_. Inl JSONDecodeError), js_compact = (\<lambda>_. []), js_sorted = (\<lambda>_. []),
     js_indent = (\<lambda>_. []), js_str = (\<lambda>_. []), js_int = (\<lambda>_. Inl ValueError),
     js_fromisoformat = (\<lambda>_. Inl ValueError), js_isoformat = (\<lambda>_. [])\<rparr>"

definition sample_guard_env :: guard_env where
  "sample_guard_env = \<lparr>lg_fold = lower, lg_sha256 = id, lg_ratio = (\<lambda>_ _. 0)\<rparr>"

definition sample_guard_call :: "string \<Rightarrow> rat \<Rightarrow> guard_decision \<Rightarrow> guard_call" where
  "sample_guard_call body t d = \<lparr>gc_thread = ''t'', gc_body = body, gc_now = t, gc_decision = d\<rparr>"

theorem reply_rate_bounded_witness:
  "\<exists>h threads. guard_run sample_json sample_guard_env h threads \<and>
     allowed_at sample_json ''t'' h = [1] \<and>
     length (filter (\<lambda>x. 61 - WINDOW_SECONDS < x \<and> x \<le> 61) (allowed_at sample_json ''t'' h)) \<le> 5"
proof -
  let ?d = "\<lparr>suppressed = False, gd_reason = None\<rparr>"
  obtain threads where "evaluate sample_json sample_guard_env ''t'' ''hello there'' 1 new_guard
      = Inr (?d, threads)"
    by (simp add: evaluate_def parse_envelope_def parse_report_def report_body_def fence_def sample_json_def
        new_guard_def judge_def MAX_REPLIES_PER_WINDOW_def MAX_LOW_VALUE_REPLIES_PER_WINDOW_def
        low_value_count_def Let_def)
  then have run: "guard_run sample_json sample_guard_env [sample_guard_call ''hello there'' 1 ?d] threads"
    using guard_run.call[OF guard_run.fresh, of 1 sample_json sample_guard_env "''t''" "''hello there''" ?d threads]
    by (simp add: sample_guard_call_def)
  moreover have "allowed_at sample_json ''t'' [sample_guard_call ''hello there'' 1 ?d] = [1]"
    by (simp add: allowed_at_def sample_guard_call_def counted_def parse_envelope_def parse_report_def
        report_body_def fence_def sample_json_def)
  ultimately show ?thesis using reply_rate_bounded[OF run] by blast
qed

end
