(* ===== verification/Approval_Log.thy ===== *)
theory Approval_Log
  imports Interop_Protocol
begin

text \<open>
  Model of the append-only log of owner approvals: \<open>automation/interop/effect_approval.py\<close>
  (validation of a tool call against the log and the signed test writer) and the shared reaction
  transport \<open>automation/interop/reaction_approval.py\<close> (the writer used by the watchers, thread
  reuse, and the Discord client with its bounded retry). A log file is its text, \<open>None\<close> when it does
  not exist; the HTTP exchange, \<open>quote\<close>, the digest and the clock are parameters.
\<close>

section \<open>Tool calls and bindings (effect_approval.py)\<close>

record approval_context =
  ac_has_log :: bool
  ac_owner_id :: string
  ac_e2e_test_mode :: bool

record external_effect_decision =
  ed_external_effect :: bool
  ed_allowed :: bool
  ed_reason :: "string option"
  ed_action_hash :: string
  ed_target_id :: string

record tool_call =
  tc_tool_name :: string
  tc_arguments :: jobj

record call_binding =
  cb_action_hash :: string
  cb_target_id :: string

record signed_approval_event =
  se_event :: inbound_event
  se_signature :: string
  se_secret :: string

definition call_hash :: "json_codec \<Rightarrow> (string \<Rightarrow> string) \<Rightarrow> tool_call \<Rightarrow> string \<Rightarrow> string" where
  "call_hash js sha256 call target_id = ''sha256:'' @ sha256 (js_sorted js (JObj
     [(''action'', JStr ''external_effect.tool_call''), (''arguments'', JObj (tc_arguments call)),
      (''target_id'', JStr target_id), (''tool_name'', JStr (tc_tool_name call))]))"

text \<open>What one line of the log says, and whether it approves a binding.\<close>

definition line_approves :: "json_codec \<Rightarrow> approval_context \<Rightarrow> call_binding \<Rightarrow> string \<Rightarrow> py_exn + bool" where
  "line_approves js ctx b line =
     (case js_loads js line of
        Inl e \<Rightarrow> if e = JSONDecodeError then Inr False else Inl e
      | Inr (JObj rec) \<Rightarrow>
          (case jget rec ''approval'' of
             Some (JObj approval) \<Rightarrow>
               Inr ((jget approval ''method'' = Some (JStr ''signed_injection_e2e'') \<and> ac_e2e_test_mode ctx \<or>
                     jget approval ''method'' = Some (JStr ''manual_reaction'')) \<and>
                    jget rec ''action'' = Some (JStr ''external_effect.approval'') \<and>
                    jget rec ''hash'' = Some (JStr (cb_action_hash b)) \<and>
                    jget rec ''target_id'' = Some (JStr (cb_target_id b)) \<and>
                    jget rec ''result'' = Some (JObj [(''status'', JStr ''approved'')]) \<and>
                    jget approval ''channel'' = Some (JStr ''approvals'') \<and>
                    jget approval ''owner_id'' = Some (JStr (ac_owner_id ctx)))
           | _ \<Rightarrow> Inr False)
      | Inr _ \<Rightarrow> Inr False)"

fun any_line :: "(string \<Rightarrow> py_exn + bool) \<Rightarrow> string list \<Rightarrow> py_exn + bool" where
  "any_line p [] = Inr False"
| "any_line p (l # ls) = sum_bind (p l) (\<lambda>b. if b then Inr True else any_line p ls)"

definition has_valid_approval ::
  "json_codec \<Rightarrow> string option \<Rightarrow> call_binding \<Rightarrow> approval_context \<Rightarrow> py_exn + bool" where
  "has_valid_approval js lg b ctx =
     (case lg of
        None \<Rightarrow> Inr False
      | Some content \<Rightarrow> any_line (line_approves js ctx b) (py_splitlines [] content))"

definition validate_approval ::
  "json_codec \<Rightarrow> (string \<Rightarrow> string) \<Rightarrow> string option \<Rightarrow> tool_call \<Rightarrow> string \<Rightarrow> approval_context \<Rightarrow>
   py_exn + external_effect_decision" where
  "validate_approval js sha256 lg call target_id ctx =
     (let digest = call_hash js sha256 call target_id in
      sum_bind (if ac_has_log ctx
          then has_valid_approval js lg \<lparr>cb_action_hash = digest, cb_target_id = target_id\<rparr> ctx
          else Inr False) (\<lambda>approved.
      Inr \<lparr>ed_external_effect = True, ed_allowed = approved,
           ed_reason = Some (if approved then ''approved'' else ''approval_required''),
           ed_action_hash = digest, ed_target_id = target_id\<rparr>))"

definition approval_challenge :: "string \<Rightarrow> string \<Rightarrow> string" where
  "approval_challenge h target_id = ''APPROVE external-effect '' @ h @ '' target:'' @ target_id"

text \<open>\<open>_append_record\<close>: one line at the end of the log, which is created if missing.\<close>

definition append_record :: "json_codec \<Rightarrow> json \<Rightarrow> string option \<Rightarrow> string option" where
  "append_record js rec lg =
     Some ((case lg of None \<Rightarrow> [] | Some content \<Rightarrow> content) @ js_sorted js rec @ [newline])"

definition approval_record :: "string \<Rightarrow> string \<Rightarrow> string \<Rightarrow> call_binding \<Rightarrow> string \<Rightarrow> json" where
  "approval_record method owner_id message_id b stamp = JObj
     [(''action'', JStr ''external_effect.approval''),
      (''approval'', JObj [(''channel'', JStr ''approvals''), (''message_id'', JStr message_id),
         (''method'', JStr method), (''owner_id'', JStr owner_id)]),
      (''hash'', JStr (cb_action_hash b)),
      (''result'', JObj [(''status'', JStr ''approved'')]),
      (''target_id'', JStr (cb_target_id b)),
      (''timestamp'', JStr stamp)]"

definition record_signed_e2e_approval ::
  "json_codec \<Rightarrow> (string \<Rightarrow> string \<Rightarrow> string) \<Rightarrow> string \<Rightarrow> approval_context \<Rightarrow> call_binding \<Rightarrow>
   signed_approval_event \<Rightarrow> string option \<Rightarrow> py_exn + bool \<times> string option" where
  "record_signed_e2e_approval js hmac stamp ctx b signed lg =
     (if \<not> ac_has_log ctx then Inr (False, lg)
      else let event = se_event signed in
        sum_bind (accept_test_event js hmac event (se_signature signed) (se_secret signed)
                    (ac_e2e_test_mode ctx)) (\<lambda>ok.
        if \<not> ok then Inr (False, lg)
        else if ev_user_id event \<noteq> ac_owner_id ctx \<or> ev_channel_id event \<noteq> ''approvals'' then Inr (False, lg)
        else if ev_text event \<noteq> approval_challenge (cb_action_hash b) (cb_target_id b) then Inr (False, lg)
        else Inr (True, append_record js (approval_record ''signed_injection_e2e'' (ac_owner_id ctx)
               (ev_event_id event) b stamp) lg)))"

section \<open>The watchers' writer and thread reuse (reaction_approval.py)\<close>

definition record_push_approval ::
  "json_codec \<Rightarrow> string \<Rightarrow> call_binding \<Rightarrow> string \<Rightarrow> string \<Rightarrow> string option \<Rightarrow> string option" where
  "record_push_approval js stamp b owner_id message_id lg =
     append_record js (approval_record ''manual_reaction'' owner_id message_id b stamp) lg"

definition thread_candidates :: "'a list \<Rightarrow> string option \<Rightarrow> (string \<Rightarrow> 'a) \<Rightarrow> 'a list" where
  "thread_candidates live approval_thread_id rebind =
     (if live \<noteq> [] then live
      else case approval_thread_id of
        Some t \<Rightarrow> if t \<noteq> [] then [rebind t] else []
      | None \<Rightarrow> [])"

section \<open>The reaction transport (reaction_approval.py)\<close>

definition DISCORD_MAX_ATTEMPTS :: int where
  "DISCORD_MAX_ATTEMPTS = 3"

record http_response =
  hr_status :: int
  hr_retry_after :: "string option"
  hr_body :: string

record 'w discord_client =
  dc_request :: "string \<Rightarrow> string \<Rightarrow> json option \<Rightarrow> ('w, http_response) io"
  dc_sleep :: "rat \<Rightarrow> ('w, unit) io"
  dc_float :: "string \<Rightarrow> py_exn + rat"
  dc_quote :: "string \<Rightarrow> string"
  dc_max_attempts :: int

text \<open>The constructor refuses a budget without an attempt.\<close>

definition DiscordTransport :: "'w discord_client \<Rightarrow> py_exn + 'w discord_client" where
  "DiscordTransport dc = (if dc_max_attempts dc < 1 then Inl ValueError else Inr dc)"

definition retry_after :: "'w discord_client \<Rightarrow> http_response \<Rightarrow> py_exn + rat" where
  "retry_after dc r = (case hr_retry_after r of None \<Rightarrow> Inr 1 | Some v \<Rightarrow> dc_float dc v)"

text \<open>One pass of the \<open>while\<close> loop per attempt; the first argument counts the attempts left after this.\<close>

fun api_loop :: "nat \<Rightarrow> 'w discord_client \<Rightarrow> string \<Rightarrow> string \<Rightarrow> json option \<Rightarrow> ('w, string) io" where
  "api_loop 0 dc m p payload =
     bindM (dc_request dc m p payload) (\<lambda>r.
     if hr_status r \<ge> 400 then raise (HTTPError (hr_status r)) else ret (hr_body r))"
| "api_loop (Suc k) dc m p payload =
     bindM (dc_request dc m p payload) (\<lambda>r.
     if hr_status r \<ge> 400 then
       (if hr_status r \<noteq> 429 then raise (HTTPError (hr_status r))
        else bindM (lift_sum (retry_after dc r)) (\<lambda>s. bindM (dc_sleep dc s) (\<lambda>_.
             api_loop k dc m p payload)))
     else ret (hr_body r))"

definition api :: "json_codec \<Rightarrow> 'w discord_client \<Rightarrow> string \<Rightarrow> string \<Rightarrow> json option \<Rightarrow> ('w, json) io" where
  "api js dc m p payload =
     bindM (api_loop (nat (dc_max_attempts dc - 1)) dc m p payload) (\<lambda>body.
     if body = [] then ret JNull
     else case js_loads js body of
       Inr j \<Rightarrow> ret j
     | Inl e \<Rightarrow> raise (if e = JSONDecodeError then ValueError else e))"

definition json_object :: "json \<Rightarrow> py_exn + jobj" where
  "json_object v = (case v of JObj d \<Rightarrow> Inr d | _ \<Rightarrow> Inl ValueError)"

definition required_string :: "jobj \<Rightarrow> string \<Rightarrow> py_exn + string" where
  "required_string payload key =
     (case jget payload key of Some (JStr s) \<Rightarrow> if s = [] then Inl ValueError else Inr s | _ \<Rightarrow> Inl ValueError)"

definition message_path :: "string \<Rightarrow> string \<Rightarrow> string" where
  "message_path channel_id message_id = ''/channels/'' @ channel_id @ ''/messages/'' @ message_id"

definition post_message :: "json_codec \<Rightarrow> 'w discord_client \<Rightarrow> string \<Rightarrow> string \<Rightarrow> ('w, string) io" where
  "post_message js dc channel_id content =
     bindM (api js dc ''POST'' (''/channels/'' @ channel_id @ ''/messages'')
              (Some (JObj [(''content'', JStr content)]))) (\<lambda>v.
     lift_sum (sum_bind (json_object v) (\<lambda>d. required_string d ''id'')))"

definition add_reaction :: "json_codec \<Rightarrow> 'w discord_client \<Rightarrow> string \<Rightarrow> string \<Rightarrow> string \<Rightarrow> ('w, unit) io" where
  "add_reaction js dc channel_id message_id emoji =
     bindM (api js dc ''PUT'' (message_path channel_id message_id @ ''/reactions/'' @ dc_quote dc emoji @ ''/@me'')
              None) (\<lambda>_. ret ())"

definition get_message :: "json_codec \<Rightarrow> 'w discord_client \<Rightarrow> string \<Rightarrow> string \<Rightarrow> ('w, string option) io" where
  "get_message js dc channel_id message_id =
     tryM (bindM (api js dc ''GET'' (message_path channel_id message_id) None) (\<lambda>v.
           bindM (lift_sum (sum_bind (json_object v) (\<lambda>d. required_string d ''content''))) (\<lambda>s. ret (Some s))))
       (\<lambda>e. if e = HTTPError 404 then ret None else raise e)"

fun reaction_users :: "json list \<Rightarrow> py_exn + (string \<times> bool) list" where
  "reaction_users [] = Inr []"
| "reaction_users (raw # raws) =
     sum_bind (json_object raw) (\<lambda>user.
     case jget_or user ''bot'' (JBool False) of
       JBool is_bot \<Rightarrow>
         sum_bind (required_string user ''id'') (\<lambda>i.
         sum_bind (reaction_users raws) (\<lambda>rest. Inr ((i, is_bot) # rest)))
     | _ \<Rightarrow> Inl ValueError)"

definition get_reaction_users ::
  "json_codec \<Rightarrow> 'w discord_client \<Rightarrow> string \<Rightarrow> string \<Rightarrow> string \<Rightarrow> ('w, (string \<times> bool) list) io" where
  "get_reaction_users js dc channel_id message_id emoji =
     bindM (api js dc ''GET'' (message_path channel_id message_id @ ''/reactions/'' @ dc_quote dc emoji) None) (\<lambda>v.
     case v of JArr xs \<Rightarrow> lift_sum (reaction_users xs) | _ \<Rightarrow> raise ValueError)"

definition delete_message :: "json_codec \<Rightarrow> 'w discord_client \<Rightarrow> string \<Rightarrow> string \<Rightarrow> ('w, unit) io" where
  "delete_message js dc channel_id message_id =
     bindM (api js dc ''DELETE'' (message_path channel_id message_id) None) (\<lambda>_. ret ())"

section \<open>Lines of a log\<close>

definition whole_lines :: "string option \<Rightarrow> bool" where
  "whole_lines lg = (case lg of None \<Rightarrow> True | Some c \<Rightarrow> c = [] \<or> last c = newline)"

lemma line_break_newline [simp]: "line_break newline"
  by (simp add: line_break_def)

lemma py_splitlines_newline:
  "py_splitlines acc (xs @ newline # ys) = py_splitlines acc (xs @ [newline]) @ py_splitlines [] ys"
proof (induction acc xs rule: py_splitlines.induct)
  case (1 acc)
  show ?case by (cases ys) simp_all
next
  case (2 acc c)
  show ?case by (cases ys) simp_all
next
  case (3 acc c d cs)
  then show ?case by simp
qed

lemma py_splitlines_one:
  "list_all (\<lambda>c. \<not> line_break c) line \<Longrightarrow> py_splitlines acc (line @ [newline]) = [rev acc @ line]"
proof (induction acc line rule: py_splitlines.induct)
  case (2 acc c)
  then have "c \<noteq> CHR 0x0D" by (auto simp: line_break_def)
  with 2 show ?case by simp
next
  case (3 acc c d cs)
  then have "c \<noteq> CHR 0x0D" by (auto simp: line_break_def)
  with 3 show ?case by simp
qed simp

lemma py_splitlines_append_line:
  assumes "whole_lines (Some content)" and "list_all (\<lambda>c. \<not> line_break c) line"
  shows "py_splitlines [] (content @ line @ [newline]) = py_splitlines [] content @ [line]"
proof (cases "content = []")
  case True
  with py_splitlines_one[OF assms(2), of "[]"] show ?thesis by simp
next
  case False
  then have "content = butlast content @ [newline]"
    using assms(1) append_butlast_last_id[OF False] by (simp add: whole_lines_def)
  then obtain xs where "content = xs @ [newline]" by blast
  then show ?thesis
    using py_splitlines_newline[of "[]" xs "line @ [newline]"] py_splitlines_one[OF assms(2), of "[]"]
    by simp
qed

lemma any_line_snoc:
  "any_line p xs = Inr b \<Longrightarrow> p l = Inr c \<Longrightarrow> any_line p (xs @ [l]) = Inr (b \<or> c)"
proof (induction xs)
  case (Cons x xs)
  from Cons.prems(1) obtain a where "p x = Inr a" and "(if a then Inr True else any_line p xs) = Inr b"
    by (auto elim: sum_bind_InrE)
  with Cons show ?case by (cases a) simp_all
qed simp

section \<open>What a writer promises the validator\<close>

text \<open>
  A writer of the log: its records, read back, approve exactly the binding they were written for,
  for the owner they name, in the contexts \<open>live\<close> says. The two writers of the code are
  interpretations; the lemma of the locale is what the validator gets from either.
\<close>

locale approval_writer =
  fixes entry :: "string \<Rightarrow> string \<Rightarrow> call_binding \<Rightarrow> string \<Rightarrow> json"
    and live :: "approval_context \<Rightarrow> bool"
  assumes entry_approves: "js_loads js l = Inr (entry owner message b stamp) \<Longrightarrow>
    line_approves js ctx b' l = Inr (live ctx \<and> owner = ac_owner_id ctx \<and> b' = b)"
begin

lemma append_decides:
  assumes "whole_lines lg"
    and "js_loads js (js_sorted js (entry owner message b stamp)) = Inr (entry owner message b stamp)"
    and "list_all (\<lambda>c. \<not> line_break c) (js_sorted js (entry owner message b stamp))"
    and "has_valid_approval js lg b' ctx = Inr before"
  shows "has_valid_approval js (append_record js (entry owner message b stamp) lg) b' ctx =
    Inr (before \<or> live ctx \<and> owner = ac_owner_id ctx \<and> b' = b)"
proof -
  define content where "content = (case lg of None \<Rightarrow> [] | Some c \<Rightarrow> c)"
  have "whole_lines (Some content)" using assms(1) by (auto simp: content_def whole_lines_def split: option.splits)
  note lines = py_splitlines_append_line[OF this assms(3)]
  have "any_line (line_approves js ctx b') (py_splitlines [] content) = Inr before"
    using assms(4) by (auto simp: has_valid_approval_def content_def split: option.splits)
  from any_line_snoc[OF this entry_approves[OF assms(2)]] show ?thesis
    by (simp add: has_valid_approval_def append_record_def content_def[symmetric] lines)
qed

end

lemma line_approves_record:
  assumes "js_loads js l = Inr (approval_record method owner message b stamp)"
  shows "line_approves js ctx b' l =
    Inr ((method = ''signed_injection_e2e'' \<and> ac_e2e_test_mode ctx \<or> method = ''manual_reaction'') \<and>
         owner = ac_owner_id ctx \<and> b' = b)"
proof -
  have "cb_action_hash b = cb_action_hash b' \<and> cb_target_id b = cb_target_id b' \<longleftrightarrow> b' = b"
    by (cases b, cases b') auto
  then show ?thesis
    unfolding line_approves_def assms by (simp add: approval_record_def jget_def) blast
qed

interpretation push_writer: approval_writer "approval_record ''manual_reaction''" "\<lambda>_. True"
  by unfold_locales (simp add: line_approves_record)

interpretation e2e_writer: approval_writer "approval_record ''signed_injection_e2e''" ac_e2e_test_mode
  by unfold_locales (simp add: line_approves_record)

text \<open>
  \<^bold>\<open>C29.\<close> Transcribing the owner's reaction into the log makes exactly one more tool call valid:
  the validator's verdict on any call changes only when the call's hash and target are the ones
  recorded and the record names the owner of the context.
\<close>
theorem push_approval_exact:
  assumes "whole_lines lg" and "ac_has_log ctx"
    and "js_loads js (js_sorted js (approval_record ''manual_reaction'' owner message b stamp)) =
      Inr (approval_record ''manual_reaction'' owner message b stamp)"
    and "list_all (\<lambda>c. \<not> line_break c) (js_sorted js (approval_record ''manual_reaction'' owner message b stamp))"
    and "validate_approval js sha256 lg call target ctx = Inr d"
  shows "validate_approval js sha256 (record_push_approval js stamp b owner message lg) call target ctx =
    Inr (if owner = ac_owner_id ctx \<and> call_hash js sha256 call target = cb_action_hash b \<and> target = cb_target_id b
         then d\<lparr>ed_allowed := True, ed_reason := Some ''approved''\<rparr> else d)"
proof -
  let ?b = "\<lparr>cb_action_hash = call_hash js sha256 call target, cb_target_id = target\<rparr>"
  from assms(2,5) obtain before where before: "has_valid_approval js lg ?b ctx = Inr before"
    and d: "d = \<lparr>ed_external_effect = True, ed_allowed = before,
      ed_reason = Some (if before then ''approved'' else ''approval_required''),
      ed_action_hash = call_hash js sha256 call target, ed_target_id = target\<rparr>"
    by (auto simp: validate_approval_def Let_def sum_bind_Inr_iff)
  have "?b = b \<longleftrightarrow> call_hash js sha256 call target = cb_action_hash b \<and> target = cb_target_id b"
    by (cases b) simp
  then show ?thesis
    using push_writer.append_decides[OF assms(1,3,4) before] assms(2) d
    by (auto simp: validate_approval_def record_push_approval_def Let_def)
qed

definition log_codec :: "json \<Rightarrow> json_codec" where
  "log_codec j = sample_json\<lparr>js_sorted := (\<lambda>_. ''r''), js_loads := (\<lambda>_. Inr j)\<rparr>"

theorem push_approval_exact_witness:
  "let b = \<lparr>cb_action_hash = ''sha256:r'', cb_target_id = ''t''\<rparr>;
       r = approval_record ''manual_reaction'' ''o'' ''m'' b ''now'';
       ctx = \<lparr>ac_has_log = True, ac_owner_id = ''o'', ac_e2e_test_mode = False\<rparr>;
       call = \<lparr>tc_tool_name = ''w'', tc_arguments = []\<rparr>
   in \<exists>d. validate_approval (log_codec r) id None call ''t'' ctx = Inr d \<and> \<not> ed_allowed d \<and>
        validate_approval (log_codec r) id (record_push_approval (log_codec r) ''now'' b ''o'' ''m'' None)
          call ''t'' ctx = Inr (d\<lparr>ed_allowed := True, ed_reason := Some ''approved''\<rparr>)"
proof -
  define b where "b = \<lparr>cb_action_hash = ''sha256:r'', cb_target_id = ''t''\<rparr>"
  define r where "r = approval_record ''manual_reaction'' ''o'' ''m'' b ''now''"
  define ctx where "ctx = \<lparr>ac_has_log = True, ac_owner_id = ''o'', ac_e2e_test_mode = False\<rparr>"
  define call where "call = \<lparr>tc_tool_name = ''w'', tc_arguments = []\<rparr>"
  define d where "d = \<lparr>ed_external_effect = True, ed_allowed = False,
    ed_reason = Some ''approval_required'', ed_action_hash = ''sha256:r'', ed_target_id = ''t''\<rparr>"
  have v: "validate_approval (log_codec r) id None call ''t'' ctx = Inr d"
    by (simp add: validate_approval_def has_valid_approval_def ctx_def call_hash_def log_codec_def d_def)
  have "whole_lines None" and "ac_has_log ctx"
    and "js_loads (log_codec r) (js_sorted (log_codec r) r) = Inr r"
    and "list_all (\<lambda>c. \<not> line_break c) (js_sorted (log_codec r) r)"
    by (simp_all add: whole_lines_def ctx_def log_codec_def line_break_def)
  from push_approval_exact[OF this[unfolded r_def] v[unfolded r_def]]
  have "validate_approval (log_codec r) id (record_push_approval (log_codec r) ''now'' b ''o'' ''m'' None)
      call ''t'' ctx = Inr (d\<lparr>ed_allowed := True, ed_reason := Some ''approved''\<rparr>)"
    by (simp add: r_def ctx_def b_def call_hash_def log_codec_def)
  with v show ?thesis
    unfolding Let_def b_def[symmetric] r_def[symmetric] ctx_def[symmetric] call_def[symmetric]
    by (intro exI[of _ d]) (simp add: d_def)
qed

end
