(* ===== verification/Owner_Proxy.thy ===== *)
theory Owner_Proxy
  imports Discord_Link
begin

text \<open>
  Model of \<open>automation/interop/owner_proxy.py\<close> and the ledger of \<open>owner_proxy_io.py\<close>: whether a
  message of the owner's proxy bot opens an agent turn. The message text is a list of code
  points; the two regular expressions are written out as matchers. Parameters: the Unicode
  tables behind \<open>\d\<close>, \<open>strip\<close> and \<open>int\<close>, \<open>str\<close> of a JSON value that is not a string, the reader
  of the linked original, and whether the ledger's file operations fail. Times are exact
  rationals in seconds. The text handed to the agent and the watch on unanswered requests are
  not modelled.
\<close>

section \<open>Matchers\<close>

record proxy_env =
  px_digit :: "nat \<Rightarrow> bool"
  px_space :: "nat \<Rightarrow> bool"
  px_int :: "codepoints \<Rightarrow> int"
  px_str :: "json \<Rightarrow> string"

definition MAX_AGE_SECONDS :: rat where
  "MAX_AGE_SECONDS = 86400"

definition CLOCK_SKEW_SECONDS :: rat where
  "CLOCK_SKEW_SECONDS = 300"

definition DISCORD_EPOCH_MS :: int where
  "DISCORD_EPOCH_MS = 1420070400000"

definition LEDGER_RETENTION_SECONDS :: rat where
  "LEDGER_RETENTION_SECONDS = 172800"

text \<open>The fixed middle of the header, between the proxy's name and the link.\<close>

definition header_middle :: codepoints where
  "header_middle = [32, 45824, 47532, 32, 183, 32, 49548, 50976, 51088, 32, 50836, 52397, 32]"

definition header_char :: "nat \<Rightarrow> bool" where
  "header_char c \<longleftrightarrow> c \<noteq> 93 \<and> c \<noteq> 10"

record header_match =
  hm_name :: codepoints
  hm_link :: codepoints
  hm_end :: nat

text \<open>
  \<open>_HEADER.match\<close>: an opening bracket, the shortest name of one to forty characters that the fixed
  middle follows, the link text, a closing bracket.
\<close>

definition header_with_name :: "codepoints \<Rightarrow> nat \<Rightarrow> header_match option" where
  "header_with_name s k =
     (let name = take k s; rest = drop k s;
          after = drop (length header_middle) rest;
          shown = takeWhile header_char after;
          closing = drop (length shown) after
      in if length name = k \<and> list_all header_char name \<and> starts_with header_middle rest \<and>
            closing \<noteq> [] \<and> hd closing = 93
         then Some \<lparr>hm_name = name, hm_link = shown,
                    hm_end = 1 + k + length header_middle + length shown + 1\<rparr>
         else None)"

fun first_some :: "('a \<Rightarrow> 'b option) \<Rightarrow> 'a list \<Rightarrow> 'b option" where
  "first_some f [] = None"
| "first_some f (x # xs) = (case f x of Some y \<Rightarrow> Some y | None \<Rightarrow> first_some f xs)"

definition HEADER_match :: "codepoints \<Rightarrow> header_match option" where
  "HEADER_match message = (case message of
     [] \<Rightarrow> None
   | c # s \<Rightarrow> if c = 91 then first_some (header_with_name s) [1..<41] else None)"

text \<open>
  A Discord message link at the head of the text: the three ids and the length of the match. A
  group \<open>\d{15,22}\<close> that a slash must follow takes the whole run of digits; the last one takes up
  to 22 of them.
\<close>

definition LINK_HOSTS :: "codepoints list" where
  "LINK_HOSTS = map of_ascii
     [''https://discord.com/channels/'', ''https://discordapp.com/channels/'',
      ''https://ptb.discord.com/channels/'', ''https://ptb.discordapp.com/channels/'',
      ''https://canary.discord.com/channels/'', ''https://canary.discordapp.com/channels/'']"

definition id_before_slash :: "proxy_env \<Rightarrow> codepoints \<Rightarrow> (codepoints \<times> codepoints) option" where
  "id_before_slash px s =
     (let ds = takeWhile (px_digit px) s; rest = drop (length ds) s
      in if 15 \<le> length ds \<and> length ds \<le> 22 \<and> rest \<noteq> [] \<and> hd rest = 47 then Some (ds, tl rest) else None)"

record link_match =
  lm_guild :: codepoints
  lm_channel :: codepoints
  lm_message :: codepoints
  lm_length :: nat

definition link_after_host :: "proxy_env \<Rightarrow> codepoints \<Rightarrow> codepoints \<Rightarrow> link_match option" where
  "link_after_host px s host =
     (if \<not> starts_with host s then None
      else case id_before_slash px (drop (length host) s) of
        None \<Rightarrow> None
      | Some (g, s1) \<Rightarrow>
          (case id_before_slash px s1 of
             None \<Rightarrow> None
           | Some (c, s2) \<Rightarrow>
               (let m = take 22 (takeWhile (px_digit px) s2) in
                if length m < 15 then None
                else Some \<lparr>lm_guild = g, lm_channel = c, lm_message = m,
                     lm_length = length host + length g + 1 + length c + 1 + length m\<rparr>)))"

definition LINK_match :: "proxy_env \<Rightarrow> codepoints \<Rightarrow> link_match option" where
  "LINK_match px s = first_some (link_after_host px s) LINK_HOSTS"

definition LINK_fullmatch :: "proxy_env \<Rightarrow> codepoints \<Rightarrow> bool" where
  "LINK_fullmatch px s = (case LINK_match px s of None \<Rightarrow> False | Some m \<Rightarrow> lm_length m = length s)"

text \<open>\<open>_LINK.findall\<close>, with each match's text; a match is never empty.\<close>

function LINK_findall :: "proxy_env \<Rightarrow> codepoints \<Rightarrow> (link_match \<times> codepoints) list" where
  "LINK_findall px s =
     (if s = [] then []
      else case LINK_match px s of
        None \<Rightarrow> LINK_findall px (tl s)
      | Some m \<Rightarrow> (m, take (lm_length m) s) # LINK_findall px (drop (max 1 (lm_length m)) s))"
  by pat_completeness auto
termination
  by (relation "measure (\<lambda>(px, s). length s)") auto

declare LINK_findall.simps [simp del]

section \<open>Values\<close>

record proxy_config =
  pc_bot_id :: string
  pc_origin_channel_id :: string
  pc_agent_chat_channel_id :: string
  pc_owner_id :: string
  pc_owner_webhook_ids :: "string list"

record proxy_message =
  pm_author_id :: string
  pm_channel_id :: string
  pm_parent_channel_id :: "string option"
  pm_guild_id :: "string option"
  pm_message_id :: "string option"
  pm_text :: codepoints

record accepted_request =
  pa_link :: "codepoints option"
  pa_origin_message_id :: "codepoints option"
  pa_body :: codepoints
  pa_via :: string
  pa_origin_failure :: "string option"

datatype proxy_verdict = Accepted accepted_request | Rejected string

fun digit_strings :: "json list \<Rightarrow> string list option" where
  "digit_strings [] = Some []"
| "digit_strings (JStr s # xs) = (if py_isdigit s then map_option (Cons s) (digit_strings xs) else None)"
| "digit_strings (_ # xs) = None"

definition load_config :: "jobj \<Rightarrow> proxy_config option" where
  "load_config payload =
     (case map (\<lambda>k. jget payload k)
         [''owner_proxy_bot_id'', ''owner_proxy_origin_channel_id'', ''agent_chat_channel_id'', ''owner_id''] of
        [Some (JStr proxy), Some (JStr origin), Some (JStr chat), Some (JStr owner)] \<Rightarrow>
          if list_all py_isdigit [proxy, origin, chat, owner] then
            Some \<lparr>pc_bot_id = proxy, pc_origin_channel_id = origin, pc_agent_chat_channel_id = chat,
                  pc_owner_id = owner, pc_owner_webhook_ids =
                    (case jget payload ''owner_proxy_origin_webhook_ids'' of
                       Some (JArr xs) \<Rightarrow> (case digit_strings xs of Some ws \<Rightarrow> ws | None \<Rightarrow> [])
                     | _ \<Rightarrow> [])\<rparr>
          else None
      | _ \<Rightarrow> None)"

section \<open>The ledger (owner_proxy_io.py)\<close>

datatype ledger_file = Absent | Garbled | Holds json

definition ledger_number :: "json \<Rightarrow> rat option" where
  "ledger_number v = (case v of JInt n \<Rightarrow> Some (of_int n) | JFloat x \<Rightarrow> Some x
     | JBool b \<Rightarrow> Some (if b then 1 else 0) | _ \<Rightarrow> None)"

definition ledger_read :: "ledger_file \<Rightarrow> py_exn + (string \<times> rat) list" where
  "ledger_read file =
     (case file of
        Absent \<Rightarrow> Inr []
      | Garbled \<Rightarrow> Inl OSError
      | Holds (JObj d) \<Rightarrow> Inr (List.map_filter (\<lambda>(k, v). map_option (Pair k) (ledger_number v)) d)
      | Holds _ \<Rightarrow> Inl OSError)"

text \<open>\<open>FileLedger.claim\<close>; a failing file operation leaves the old file, which is replaced atomically.\<close>

definition ledger_claim ::
  "py_exn option \<Rightarrow> string \<Rightarrow> rat \<Rightarrow> ledger_file \<Rightarrow> (py_exn + bool) \<times> ledger_file" where
  "ledger_claim io_failure origin_id moment file =
     (case io_failure of
        Some e \<Rightarrow> (Inl e, file)
      | None \<Rightarrow>
          (case ledger_read file of
             Inl e \<Rightarrow> (Inl e, file)
           | Inr seen \<Rightarrow>
               if origin_id \<in> set (map fst seen) then (Inr False, file)
               else (Inr True, Holds (JObj (map (\<lambda>(k, t). (k, JFloat t))
                  (filter (\<lambda>(k, t). moment - t < LEDGER_RETENTION_SECONDS) seen @ [(origin_id, moment)]))))))"

section \<open>Verification\<close>

definition snowflake_seconds :: "proxy_env \<Rightarrow> codepoints \<Rightarrow> rat" where
  "snowflake_seconds px s = of_int (px_int px s div 4194304 + DISCORD_EPOCH_MS) / 1000"

record origin_reader =
  or_channel :: "codepoints \<Rightarrow> py_exn + jobj"
  or_message :: "codepoints \<Rightarrow> codepoints \<Rightarrow> py_exn + jobj"

text \<open>\<open>str(d.get(key))\<close>, in code points.\<close>

definition str_get :: "proxy_env \<Rightarrow> jobj \<Rightarrow> string \<Rightarrow> codepoints" where
  "str_get px d key = of_ascii (case jget d key of
     None \<Rightarrow> ''None'' | Some (JStr s) \<Rightarrow> s | Some JNull \<Rightarrow> ''None'' | Some v \<Rightarrow> px_str px v)"

definition falsy :: "json \<Rightarrow> bool" where
  "falsy v = (v \<in> {JNull, JBool False, JInt 0, JFloat 0, JStr [], JArr [], JObj []})"

definition origin_via :: "proxy_env \<Rightarrow> jobj \<Rightarrow> codepoints \<Rightarrow> proxy_config \<Rightarrow> string option" where
  "origin_via px origin channel_id config =
     (case jget origin ''author'' of
        Some (JObj author) \<Rightarrow>
          if str_get px author ''id'' = of_ascii (pc_owner_id config) \<and> jget author ''bot'' \<noteq> Some (JBool True)
          then Some ''owner''
          else let webhook = (case jget origin ''webhook_id'' of
                   None \<Rightarrow> [] | Some v \<Rightarrow> if falsy v then [] else str_get px origin ''webhook_id'') in
            if webhook \<noteq> [] \<and> webhook = str_get px author ''id'' \<and>
               webhook \<in> set (map of_ascii (pc_owner_webhook_ids config)) \<and>
               channel_id = of_ascii (pc_origin_channel_id config)
            then Some ''owner-webhook'' else None
      | _ \<Rightarrow> None)"

definition THREAD_TYPES :: "rat list" where
  "THREAD_TYPES = [10, 11, 12]"

text \<open>\<open>channel.get("type") in _THREAD_TYPES\<close>; a list or an object is not hashable.\<close>

definition thread_type :: "jobj \<Rightarrow> py_exn + bool" where
  "thread_type channel =
     (case jget channel ''type'' of
        Some (JInt n) \<Rightarrow> Inr (of_int n \<in> set THREAD_TYPES)
      | Some (JFloat x) \<Rightarrow> Inr (x \<in> set THREAD_TYPES)
      | Some (JArr _) \<Rightarrow> Inl TypeError
      | Some (JObj _) \<Rightarrow> Inl TypeError
      | _ \<Rightarrow> Inr False)"

text \<open>An id that \<open>str\<close> of a JSON value can equal is one-byte text.\<close>

definition ascii_id :: "codepoints \<Rightarrow> string" where
  "ascii_id s = map char_of s"

definition origin_link :: "link_match \<Rightarrow> codepoints option" where
  "origin_link m = map_option of_ascii (lk_url (discord_link ''guild''
     (Some (ascii_id (lm_channel m))) (Some (ascii_id (lm_message m))) (Some (ascii_id (lm_guild m)))))"

text \<open>The checks of \<open>verify\<close> up to the ledger: the link and the body, or the reason of refusal.\<close>

definition precheck ::
  "proxy_env \<Rightarrow> proxy_message \<Rightarrow> proxy_config \<Rightarrow> origin_reader \<Rightarrow> rat \<Rightarrow>
   py_exn + (string + link_match \<times> codepoints \<times> string)" where
  "precheck px message config reader moment =
     (if pm_author_id message \<noteq> pc_bot_id config then Inr (Inl ''not_proxy_bot'')
      else if Some (pc_agent_chat_channel_id config) \<notin>
                {Some (pm_channel_id message), pm_parent_channel_id message} then Inr (Inl ''outside_agent_chat'')
      else case HEADER_match (pm_text message) of
        None \<Rightarrow> Inr (Inl ''no_prefix'')
      | Some header \<Rightarrow>
          (case LINK_findall px (pm_text message) of
             [(m, _)] \<Rightarrow>
               if \<not> LINK_fullmatch px (strip_by (px_space px) (hm_link header)) then Inr (Inl ''link_count'')
               else let body = strip_by (px_space px) (drop (hm_end header) (pm_text message)) in
                 if body = [] then Inr (Inl ''empty_body'')
                 else if map_option of_ascii (pm_guild_id message) \<noteq> Some (lm_guild m) \<or>
                         pm_guild_id message = Some [] then Inr (Inl ''guild_mismatch'')
                 else let age = moment - snowflake_seconds px (lm_message m) in
                   if age > MAX_AGE_SECONDS \<or> age < - CLOCK_SKEW_SECONDS then Inr (Inl ''origin_stale'')
                   else (case (or_channel reader (lm_channel m), or_message reader (lm_channel m) (lm_message m)) of
                       (Inr channel, Inr origin) \<Rightarrow>
                         if str_get px channel ''guild_id'' \<noteq> lm_guild m then Inr (Inl ''guild_mismatch'')
                         else sum_bind (thread_type channel) (\<lambda>thread.
                           if lm_channel m \<noteq> of_ascii (pc_origin_channel_id config) \<and>
                                 \<not> (thread \<and>
                                    str_get px channel ''parent_id'' = of_ascii (pc_origin_channel_id config))
                         then Inr (Inl ''origin_channel'')
                         else if str_get px origin ''id'' \<noteq> lm_message m \<or>
                                 str_get px origin ''channel_id'' \<noteq> lm_channel m then Inr (Inl ''origin_mismatch'')
                         else (case origin_via px origin (lm_channel m) config of
                             None \<Rightarrow> Inr (Inl ''origin_author'')
                           | Some via \<Rightarrow> Inr (Inr (m, body, via))))
                     | _ \<Rightarrow> Inr (Inl ''origin_unreadable''))
           | _ \<Rightarrow> Inr (Inl ''link_count'')))"

text \<open>The ledger is keyed by the original's id; \<open>ascii_id\<close> gives the key as text.\<close>

definition verify ::
  "proxy_env \<Rightarrow> proxy_message \<Rightarrow> proxy_config \<Rightarrow> origin_reader \<Rightarrow> rat \<Rightarrow> py_exn option \<Rightarrow> ledger_file \<Rightarrow>
   (py_exn + proxy_verdict) \<times> ledger_file" where
  "verify px message config reader moment io_failure file =
     (case precheck px message config reader moment of
        Inl e \<Rightarrow> (Inl e, file)
      | Inr (Inl reason) \<Rightarrow> (Inr (Rejected reason), file)
      | Inr (Inr (m, body, via)) \<Rightarrow>
          (case ledger_claim io_failure (ascii_id (lm_message m)) moment file of
             (Inl e, file') \<Rightarrow> (if is_os_error e then Inr (Rejected ''ledger_unavailable'') else Inl e, file')
           | (Inr fresh, file') \<Rightarrow>
               if \<not> fresh then (Inr (Rejected ''origin_reused''), file')
               else (case origin_link m of
                   None \<Rightarrow> (Inr (Rejected ''link_count''), file')
                 | Some url \<Rightarrow> (Inr (Accepted \<lparr>pa_link = Some url, pa_origin_message_id = Some (lm_message m),
                     pa_body = body, pa_via = via, pa_origin_failure = None\<rparr>), file'))))"

definition UNTRUSTED_REASONS :: "string list" where
  "UNTRUSTED_REASONS = [''not_proxy_bot'', ''outside_agent_chat'', ''no_prefix'', ''empty_body'']"

definition admit ::
  "proxy_env \<Rightarrow> proxy_message \<Rightarrow> proxy_config \<Rightarrow> origin_reader \<Rightarrow> rat \<Rightarrow> py_exn option \<Rightarrow> ledger_file \<Rightarrow>
   (py_exn + proxy_verdict) \<times> ledger_file" where
  "admit px message config reader moment io_failure file =
     (case verify px message config reader moment io_failure file of
        (Inr (Rejected reason), file') \<Rightarrow>
          if reason \<in> set UNTRUSTED_REASONS then (Inr (Rejected reason), file')
          else (Inr (Accepted \<lparr>
              pa_link = (case LINK_findall px (pm_text message) of [] \<Rightarrow> None | (_, shown) # _ \<Rightarrow> Some shown),
              pa_origin_message_id = None,
              pa_body = (case HEADER_match (pm_text message) of
                 Some header \<Rightarrow> strip_by (px_space px) (drop (hm_end header) (pm_text message))
               | None \<Rightarrow> pm_text message),
              pa_via = ''dori'', pa_origin_failure = Some reason\<rparr>), file')
      | other \<Rightarrow> other)"

definition PROXY_NAME :: codepoints where
  "PROXY_NAME = [46020, 47532]"

definition LEGACY_PROXY_NAMES :: "codepoints list" where
  "LEGACY_PROXY_NAMES = [[50724, 47784, 45285]]"

definition prefix_kind :: "proxy_env \<Rightarrow> codepoints \<Rightarrow> string" where
  "prefix_kind px message =
     (case HEADER_match message of
        None \<Rightarrow> ''none''
      | Some header \<Rightarrow>
          (let name = strip_by (px_space px) (hm_name header) in
           if name = PROXY_NAME then ''current''
           else if name \<in> set LEGACY_PROXY_NAMES then ''legacy'' else ''other''))"

section \<open>The gateway's entry\<close>

record gateway_event =
  ge_chat_id :: string
  ge_thread_id :: "string option"
  ge_parent_chat_id :: "string option"
  ge_scope_id :: "string option"
  ge_guild_id :: "string option"
  ge_message_id :: "string option"
  ge_source_message_id :: "string option"
  ge_raw_content :: "codepoints option"

text \<open>Python's \<open>a or b\<close> on optional strings.\<close>

definition or_else :: "string option \<Rightarrow> string option \<Rightarrow> string option" where
  "or_else a b = (if a = None \<or> a = Some [] then b else a)"

definition non_empty :: "string option \<Rightarrow> string option" where
  "non_empty a = (if a = Some [] then None else a)"

definition authored_content :: "proxy_env \<Rightarrow> gateway_event \<Rightarrow> codepoints \<Rightarrow> codepoints" where
  "authored_content px event shown =
     (case ge_raw_content event of
        Some content \<Rightarrow>
          (let c = strip_by (px_space px) content in
           if c \<noteq> [] \<and> starts_with (rev c) (rev shown) then c else shown)
      | None \<Rightarrow> shown)"

definition message_from_event :: "proxy_env \<Rightarrow> gateway_event \<Rightarrow> codepoints \<Rightarrow> string \<Rightarrow> proxy_message" where
  "message_from_event px event shown actor_id =
     (let chat = ge_chat_id event; thread = non_empty (ge_thread_id event) in
      \<lparr>pm_author_id = actor_id,
       pm_channel_id = (case thread of Some t \<Rightarrow> t | None \<Rightarrow> chat),
       pm_parent_channel_id = non_empty (or_else (ge_parent_chat_id event)
          (if thread \<noteq> None \<and> thread \<noteq> Some chat then Some chat else None)),
       pm_guild_id = non_empty (or_else (ge_scope_id event) (ge_guild_id event)),
       pm_message_id = non_empty (or_else (ge_message_id event) (ge_source_message_id event)),
       pm_text = authored_content px event shown\<rparr>)"

text \<open>What \<open>gateway_text\<close> hands on: the message with its admission, or nothing.\<close>

definition gateway_text ::
  "proxy_env \<Rightarrow> gateway_event \<Rightarrow> codepoints \<Rightarrow> string \<Rightarrow> (py_exn + jobj) \<Rightarrow> origin_reader \<Rightarrow> rat \<Rightarrow>
   py_exn option \<Rightarrow> ledger_file \<Rightarrow> (py_exn + (proxy_message \<times> accepted_request) option) \<times> ledger_file" where
  "gateway_text px event shown actor_id load_payload reader moment io_failure file =
     (case load_payload of
        Inl e \<Rightarrow> (Inr None, file)
      | Inr payload \<Rightarrow>
          (case load_config payload of
             None \<Rightarrow> (Inr None, file)
           | Some config \<Rightarrow>
               if actor_id \<noteq> pc_bot_id config then (Inr None, file)
               else let message = message_from_event px event shown actor_id in
                 (case admit px message config reader moment io_failure file of
                    (Inl e, file') \<Rightarrow> (Inl e, file')
                  | (Inr (Rejected _), file') \<Rightarrow> (Inr None, file')
                  | (Inr (Accepted a), file') \<Rightarrow> (Inr (Some (message, a)), file'))))"

section \<open>An original is accepted once\<close>

lemma ledger_read_written [simp]:
  "ledger_read (Holds (JObj (map (\<lambda>(k, t). (k, JFloat t)) xs))) = Inr xs"
  by (induction xs) (auto simp: ledger_read_def List.map_filter_def ledger_number_def)

lemma ledger_read_extended [simp]:
  "ledger_read (Holds (JObj (map (\<lambda>(k, t). (k, JFloat t)) xs @ [(k, JFloat t)]))) = Inr (xs @ [(k, t)])"
  using ledger_read_written[of "xs @ [(k, t)]"] by simp

text \<open>What a successful claim does to the ledger's entries.\<close>

definition claimed_at :: "string \<Rightarrow> rat \<Rightarrow> ledger_file \<Rightarrow> ledger_file \<Rightarrow> bool" where
  "claimed_at k moment file file' \<longleftrightarrow> (\<exists>seen. ledger_read file = Inr seen \<and> k \<notin> fst ` set seen \<and>
     ledger_read file' = Inr (filter (\<lambda>(k, t). moment - t < LEDGER_RETENTION_SECONDS) seen @ [(k, moment)]))"

lemma ledger_claim_effect:
  "ledger_claim io_failure k moment file = (Inr True, file') \<Longrightarrow> claimed_at k moment file file'"
  "ledger_claim io_failure k moment file = (r, file') \<Longrightarrow> r \<noteq> Inr True \<Longrightarrow> file' = file"
  unfolding ledger_claim_def claimed_at_def
  by (auto split: option.splits sum.splits if_splits)

lemma precheck_fresh:
  assumes "precheck px message config reader moment = Inr (Inr (m, body, via))"
  shows "moment - snowflake_seconds px (lm_message m) \<le> MAX_AGE_SECONDS"
    and "- CLOCK_SKEW_SECONDS \<le> moment - snowflake_seconds px (lm_message m)"
  using assms unfolding precheck_def Let_def
  by (auto simp: sum_bind_Inr_iff split: if_splits option.splits list.splits prod.splits sum.splits)

lemma verify_effect:
  assumes "verify px message config reader moment io_failure file = (r, file')"
  shows "(\<exists>k. claimed_at k moment file file') \<or> file' = file"
  using assms unfolding verify_def
  by (auto split: sum.splits prod.splits option.splits if_splits dest: ledger_claim_effect)

lemma verify_Accepted:
  assumes "verify px message config reader moment io_failure file = (Inr (Accepted a), file')"
  shows "\<exists>x. pa_origin_message_id a = Some x \<and> claimed_at (ascii_id x) moment file file' \<and>
    moment - snowflake_seconds px x \<le> MAX_AGE_SECONDS \<and> - CLOCK_SKEW_SECONDS \<le> moment - snowflake_seconds px x"
  using assms unfolding verify_def
  by (auto split: sum.splits prod.splits option.splits if_splits dest: ledger_claim_effect precheck_fresh)

lemma admit_effect:
  assumes "admit px message config reader moment io_failure file = (r, file')"
  shows "(\<exists>k. claimed_at k moment file file') \<or> file' = file"
  using assms unfolding admit_def
  by (auto split: sum.splits prod.splits proxy_verdict.splits if_splits dest: verify_effect)

lemma admit_origin:
  assumes "admit px message config reader moment io_failure file = (Inr (Accepted a), file')"
    and "pa_origin_message_id a = Some x"
  shows "claimed_at (ascii_id x) moment file file'"
    and "moment - snowflake_seconds px x \<le> MAX_AGE_SECONDS"
    and "- CLOCK_SKEW_SECONDS \<le> moment - snowflake_seconds px x"
proof -
  have "verify px message config reader moment io_failure file = (Inr (Accepted a), file')"
    using assms unfolding admit_def
    by (auto split: sum.splits prod.splits proxy_verdict.splits if_splits)
  from verify_Accepted[OF this] assms(2)
  show "claimed_at (ascii_id x) moment file file'"
    and "moment - snowflake_seconds px x \<le> MAX_AGE_SECONDS"
    and "- CLOCK_SKEW_SECONDS \<le> moment - snowflake_seconds px x" by auto
qed

text \<open>
  A history of admissions by one ledger, newest first: any messages, any readers, any file
  failures, a clock that does not run backwards.
\<close>

inductive proxy_run ::
  "proxy_env \<Rightarrow> proxy_config \<Rightarrow> (rat \<times> (py_exn + proxy_verdict)) list \<Rightarrow> ledger_file \<Rightarrow> bool"
  for px :: proxy_env and config :: proxy_config where
  opened: "proxy_run px config [] file"
| admitted: "proxy_run px config h file \<Longrightarrow> (\<forall>(t, _) \<in> set h. t \<le> moment) \<Longrightarrow>
    admit px message config reader moment io_failure file = (r, file') \<Longrightarrow>
    proxy_run px config ((moment, r) # h) file'"

definition origins :: "(rat \<times> (py_exn + proxy_verdict)) list \<Rightarrow> codepoints list" where
  "origins h = List.map_filter (\<lambda>(_, r). case r of Inr (Accepted a) \<Rightarrow> pa_origin_message_id a | _ \<Rightarrow> None) h"

definition origin_at :: "rat \<times> (py_exn + proxy_verdict) \<Rightarrow> codepoints \<Rightarrow> bool" where
  "origin_at c x \<longleftrightarrow> (\<exists>a. snd c = Inr (Accepted a) \<and> pa_origin_message_id a = Some x)"

lemma origins_simps [simp]:
  "origins [] = []"
  "origins (c # h) = (case snd c of Inr (Accepted a) \<Rightarrow>
     (case pa_origin_message_id a of Some x \<Rightarrow> x # origins h | None \<Rightarrow> origins h) | _ \<Rightarrow> origins h)"
  by (auto simp: origins_def List.map_filter_def split: prod.splits sum.splits proxy_verdict.splits option.splits)

lemma in_origins: "x \<in> set (origins h) \<longleftrightarrow> (\<exists>c \<in> set h. origin_at c x)"
  by (induction h) (auto simp: origin_at_def split: sum.splits proxy_verdict.splits option.splits)

text \<open>
  Every accepted original is still in the ledger with its time, or was accepted too long ago to be
  young enough again.
\<close>

definition ledger_remembers :: "proxy_env \<Rightarrow> rat \<Rightarrow> ledger_file \<Rightarrow> rat \<Rightarrow> codepoints \<Rightarrow> bool" where
  "ledger_remembers px later file t x \<longleftrightarrow> - CLOCK_SKEW_SECONDS \<le> t - snowflake_seconds px x \<and>
     ((\<exists>seen. ledger_read file = Inr seen \<and> (ascii_id x, t) \<in> set seen) \<or> LEDGER_RETENTION_SECONDS \<le> later - t)"

lemma ledger_remembers_step:
  assumes "ledger_remembers px later file t x" and "moment \<le> later"
    and "(\<exists>k. claimed_at k moment file file') \<or> file' = file"
  shows "ledger_remembers px later file' t x"
  using assms by (fastforce simp: ledger_remembers_def claimed_at_def)

lemma proxy_run_remembers:
  "proxy_run px config h file \<Longrightarrow> \<forall>(t, _) \<in> set h. t \<le> later \<Longrightarrow> c \<in> set h \<Longrightarrow> origin_at c x \<Longrightarrow>
     ledger_remembers px later file (fst c) x"
proof (induction arbitrary: c x rule: proxy_run.induct)
  case (admitted h lf moment message reader io_failure r lf')
  have later: "\<forall>(t, _) \<in> set h. t \<le> later" "moment \<le> later" using admitted.prems(1) by auto
  show ?case
  proof (cases "c \<in> set h")
    case True
    from admitted.IH[OF later(1) this admitted.prems(3)] later(2) admit_effect[OF admitted.hyps(3)]
    show ?thesis by (rule ledger_remembers_step)
  next
    case False
    with admitted.prems obtain a where c: "c = (moment, Inr (Accepted a))"
      and x: "pa_origin_message_id a = Some x" and r: "r = Inr (Accepted a)"
      by (auto simp: origin_at_def)
    note ad = admit_origin[OF admitted.hyps(3)[unfolded r] x]
    from ad(1,3) show ?thesis by (auto simp: ledger_remembers_def claimed_at_def c)
  qed
qed simp

text \<open>
  \<^bold>\<open>C30.\<close> Whatever messages the proxy bot sends and however often it repeats them, no original of
  the owner opens a verified turn twice: the ledger keeps an id for two days, and no original
  older than one day, give or take five minutes of clock skew, is accepted.
\<close>
theorem proxy_origin_accepted_once:
  assumes "proxy_run px config h file"
  shows "distinct (origins h)"
  using assms
proof (induction rule: proxy_run.induct)
  case (admitted h lf moment message reader io_failure r lf')
  have "x \<notin> set (origins h)" if r: "r = Inr (Accepted a)" and x: "pa_origin_message_id a = Some x" for a x
  proof
    assume "x \<in> set (origins h)"
    then obtain c where c: "c \<in> set h" "origin_at c x" by (auto simp: in_origins)
    note ad = admit_origin[OF admitted.hyps(3)[unfolded r] x]
    have "ledger_remembers px moment lf (fst c) x"
      using proxy_run_remembers[OF admitted.hyps(1,2) c] .
    with ad show False
      by (force simp: ledger_remembers_def claimed_at_def LEDGER_RETENTION_SECONDS_def
          CLOCK_SKEW_SECONDS_def MAX_AGE_SECONDS_def)
  qed
  with admitted.IH show ?case by (auto split: sum.splits proxy_verdict.splits option.splits)
qed simp

definition sample_px :: proxy_env where
  "sample_px = \<lparr>px_digit = (\<lambda>c. 48 \<le> c \<and> c \<le> 57), px_space = (\<lambda>c. c = 32 \<or> c = 10),
     px_int = (\<lambda>s. foldl (\<lambda>acc c. 10 * acc + (int c - 48)) 0 s), px_str = (\<lambda>_. [])\<rparr>"

definition sample_proxy_config :: proxy_config where
  "sample_proxy_config = \<lparr>pc_bot_id = ''7'', pc_origin_channel_id = ''200000000000000'',
     pc_agent_chat_channel_id = ''5'', pc_owner_id = ''9'', pc_owner_webhook_ids = []\<rparr>"

definition sample_proxy_message :: "codepoints \<Rightarrow> proxy_message" where
  "sample_proxy_message s = \<lparr>pm_author_id = ''7'', pm_channel_id = ''5'', pm_parent_channel_id = None,
     pm_guild_id = Some ''100000000000000'', pm_message_id = None, pm_text = s\<rparr>"

definition sample_proxy_text :: codepoints where
  "sample_proxy_text = 91 # PROXY_NAME @ header_middle @
     of_ascii ''https://discord.com/channels/100000000000000/200000000000000/300000000000000] save it''"

definition sample_origin_reader :: origin_reader where
  "sample_origin_reader = \<lparr>or_channel = (\<lambda>_. Inr [(''guild_id'', JStr ''100000000000000'')]),
     or_message = (\<lambda>_ _. Inr [(''id'', JStr ''300000000000000''), (''channel_id'', JStr ''200000000000000''),
       (''author'', JObj [(''id'', JStr ''9'')])])\<rparr>"

definition sample_admission :: "ledger_file \<Rightarrow> (py_exn + proxy_verdict) \<times> ledger_file" where
  "sample_admission file = admit sample_px (sample_proxy_message sample_proxy_text) sample_proxy_config
     sample_origin_reader 1420142000 None file"

text \<open>The sample message, matched and admitted.\<close>

lemmas match_defs = HEADER_match_def header_with_name_def header_middle_def PROXY_NAME_def of_ascii_def header_char_def
  LINK_findall.simps LINK_match_def LINK_fullmatch_def LINK_HOSTS_def link_after_host_def id_before_slash_def sample_px_def
  upt_conv_Cons

lemma sample_header: "HEADER_match sample_proxy_text = Some \<lparr>hm_name = PROXY_NAME,
    hm_link = of_ascii ''https://discord.com/channels/100000000000000/200000000000000/300000000000000'', hm_end = 93\<rparr>"
  by (simp add: match_defs sample_proxy_text_def Let_def)
definition sample_link :: link_match where
 "sample_link = \<lparr>lm_guild = of_ascii ''100000000000000'', lm_channel = of_ascii ''200000000000000'', lm_message = of_ascii ''300000000000000'', lm_length = 76\<rparr>"
lemma sample_links: "map fst (LINK_findall sample_px sample_proxy_text) = [sample_link]"
  by (simp add: match_defs sample_proxy_text_def sample_link_def)
lemma sample_full: "LINK_fullmatch sample_px (of_ascii ''https://discord.com/channels/100000000000000/200000000000000/300000000000000'')"
  by (simp add: match_defs)

lemma sample_precheck: "precheck sample_px (sample_proxy_message sample_proxy_text) sample_proxy_config
   sample_origin_reader 1420142000 = Inr (Inr (sample_link, of_ascii ''save it'', ''owner''))"
proof -
  obtain shown where l: "LINK_findall sample_px sample_proxy_text = [(sample_link, shown)]"
    using sample_links by (cases "LINK_findall sample_px sample_proxy_text") auto
  have st: "strip_by (px_space sample_px) (of_ascii ''https://discord.com/channels/100000000000000/200000000000000/300000000000000'')
     = of_ascii ''https://discord.com/channels/100000000000000/200000000000000/300000000000000''"
    by (simp add: sample_px_def strip_by_def lstrip_by_def rstrip_by_def of_ascii_def)
  have body: "strip_by (px_space sample_px) (drop 93 sample_proxy_text) = of_ascii ''save it''"
    by (simp add: sample_proxy_text_def sample_px_def strip_by_def lstrip_by_def rstrip_by_def of_ascii_def header_middle_def PROXY_NAME_def)
  have age: "snowflake_seconds sample_px (lm_message sample_link) = 1420141925573 / 1000"
    by (simp add: snowflake_seconds_def sample_px_def sample_link_def of_ascii_def DISCORD_EPOCH_MS_def)
  have lk: "lm_guild sample_link = of_ascii ''100000000000000''" "lm_channel sample_link = of_ascii ''200000000000000''"
    "lm_message sample_link = of_ascii ''300000000000000''" by (simp_all add: sample_link_def)
  have ne: "of_ascii ''save it'' \<noteq> []" by (simp add: of_ascii_def)
  show ?thesis
    using sample_full
    by (simp add: precheck_def sample_proxy_message_def sample_proxy_config_def sample_header l st body ne age[unfolded lk] lk
       sample_origin_reader_def MAX_AGE_SECONDS_def CLOCK_SKEW_SECONDS_def str_get_def jget_def thread_type_def origin_via_def)
qed
lemma ascii_id_of_ascii [simp]: "ascii_id (of_ascii s) = s"
  by (simp add: ascii_id_def of_ascii_def comp_def map_idI)

lemma sample_origin_link: "origin_link sample_link =
    Some (of_ascii ''https://discord.com/channels/100000000000000/200000000000000/300000000000000'')"
  by (simp add: origin_link_def sample_link_def discord_link_def link_def om_snowflake_def
      dec_char_def strip_by_def lstrip_by_def rstrip_by_def)

lemma sample_admitted: "\<exists>a. fst (sample_admission Absent) = Inr (Accepted a) \<and>
   pa_origin_message_id a = Some (of_ascii ''300000000000000'') \<and>
   ledger_read (snd (sample_admission Absent)) = Inr [(''300000000000000'', 1420142000)]"
  by (simp add: sample_admission_def admit_def verify_def sample_precheck ledger_claim_def ledger_read_def
     List.map_filter_def ledger_number_def sample_origin_link) (simp add: sample_link_def)

lemma sample_readmitted: "ledger_read file = Inr [(''300000000000000'', 1420142000)] \<Longrightarrow>
   \<exists>a. fst (sample_admission file) = Inr (Accepted a) \<and> pa_origin_message_id a = None"
  by (simp add: sample_admission_def admit_def verify_def sample_precheck ledger_claim_def sample_link_def UNTRUSTED_REASONS_def)

theorem proxy_origin_accepted_once_witness:
  "let first = sample_admission Absent; second = sample_admission (snd first);
       h = [(1420142000, fst second), (1420142000, fst first)]
   in proxy_run sample_px sample_proxy_config h (snd second) \<and>
      origins h = [of_ascii ''300000000000000''] \<and> distinct (origins h)"
proof -
  define first where "first = sample_admission Absent"
  define second where "second = sample_admission (snd first)"
  have "proxy_run sample_px sample_proxy_config [(1420142000, fst first)] (snd first)"
    by (rule proxy_run.admitted[OF proxy_run.opened[of _ _ Absent], where io_failure = None
        and message = "sample_proxy_message sample_proxy_text" and reader = sample_origin_reader])
       (simp_all add: first_def sample_admission_def)
  then have run: "proxy_run sample_px sample_proxy_config
      [(1420142000, fst second), (1420142000, fst first)] (snd second)"
    by (rule proxy_run.admitted[where io_failure = None
        and message = "sample_proxy_message sample_proxy_text" and reader = sample_origin_reader])
       (simp_all add: second_def sample_admission_def)
  obtain a where "fst first = Inr (Accepted a)"
    and "pa_origin_message_id a = Some (of_ascii ''300000000000000'')"
    and led: "ledger_read (snd first) = Inr [(''300000000000000'', 1420142000)]"
    using sample_admitted by (auto simp: first_def)
  moreover obtain b where "fst second = Inr (Accepted b)" and "pa_origin_message_id b = None"
    using sample_readmitted[OF led] by (auto simp: second_def)
  ultimately have "origins [(1420142000, fst second), (1420142000, fst first)] = [of_ascii ''300000000000000'']"
    by simp
  with run proxy_origin_accepted_once[OF run] show ?thesis
    by (simp only: Let_def first_def[symmetric] second_def[symmetric] simp_thms)
qed

text \<open>
  A request without a body is admitted when it also has no link: \<open>verify\<close> refuses it for
  the link before it looks at the body, and \<open>admit\<close> then opens a turn with the empty body, although
  an empty body is one of the reasons for which nothing is to be processed.
\<close>
theorem linkless_empty_request_admitted:
  "admit sample_px (sample_proxy_message (91 # PROXY_NAME @ header_middle @ of_ascii '']'')) sample_proxy_config
     reader moment io_failure file =
   (Inr (Accepted \<lparr>pa_link = None, pa_origin_message_id = None, pa_body = [], pa_via = ''dori'',
      pa_origin_failure = Some ''link_count''\<rparr>), file)"
proof -
  let ?s = "91 # PROXY_NAME @ header_middle @ of_ascii '']''"
  have h: "HEADER_match ?s = Some \<lparr>hm_name = PROXY_NAME, hm_link = [], hm_end = length ?s\<rparr>"
    by (simp add: match_defs)
  have l: "LINK_findall sample_px ?s = []" by (simp add: match_defs)
  have b: "strip_by (px_space sample_px) (drop (length ?s) ?s) = []" by (simp add: strip_by_def lstrip_by_def rstrip_by_def)
  show "admit sample_px (sample_proxy_message ?s) sample_proxy_config reader moment io_failure file =
     (Inr (Accepted \<lparr>pa_link = None, pa_origin_message_id = None, pa_body = [], pa_via = ''dori'',
        pa_origin_failure = Some ''link_count''\<rparr>), file)"
    using h l b
    by (simp add: admit_def verify_def precheck_def sample_proxy_message_def sample_proxy_config_def UNTRUSTED_REASONS_def)
qed

end
