(* ===== verification/Git_Release.thy ===== *)
theory Git_Release
  imports Chunker
begin

text \<open>
  Model of \<open>automation/git_tag_signature.py\<close>: the advertisement of a remote as release tags, and the
  verification of a tag's SSH signature by git. Git itself is a parameter: the exit status and the
  two outputs of a command, or an exception. Errors of the module carry a prefix the callers report.
\<close>

abbreviation RemoteRefError :: "string \<Rightarrow> py_exn" where
  "RemoteRefError \<equiv> TaggedError ''RemoteRefError''"

abbreviation TagSignatureError :: "string \<Rightarrow> py_exn" where
  "TagSignatureError \<equiv> TaggedError ''TagSignatureError''"

section \<open>References\<close>

definition HEAD_REF :: string where
  "HEAD_REF = ''refs/heads/main''"

definition TAG_PREFIX :: string where
  "TAG_PREFIX = ''refs/tags/''"

text \<open>\<open>^{}\<close>, the suffix of a peeled tag.\<close>

definition PEELED_SUFFIX :: string where
  "PEELED_SUFFIX = [CHR 0x5E, CHR 0x7B, CHR 0x7D]"

definition hex_char :: "char \<Rightarrow> bool" where
  "hex_char c \<longleftrightarrow> (let n = of_char c :: nat in 48 \<le> n \<and> n \<le> 57 \<or> 97 \<le> n \<and> n \<le> 102)"

definition OBJECT_ID :: "string \<Rightarrow> bool" where
  "OBJECT_ID s \<longleftrightarrow> (length s = 40 \<or> length s = 64) \<and> list_all hex_char s"

record remote_release_tag =
  rt_name :: string
  rt_object_sha :: string
  rt_commit_sha :: string

definition ends_with :: "string \<Rightarrow> string \<Rightarrow> bool" where
  "ends_with suffix s \<longleftrightarrow> starts_with (rev suffix) (rev s)"

text \<open>The three tables of the loop: main, tag objects, and peeled commits, as the dictionaries they are.\<close>

record advertisement =
  ad_head :: string
  ad_objects :: "(string \<times> string) list"
  ad_peeled :: "(string \<times> string) list"

definition read_ref :: "string \<Rightarrow> advertisement \<Rightarrow> py_exn + advertisement" where
  "read_ref line ad =
     (case py_words [] line of
        [sha, name] \<Rightarrow>
          if \<not> OBJECT_ID sha then Inl (RemoteRefError ''REMOTE-REFS'')
          else if name = HEAD_REF then
            (if ad_head ad \<noteq> [] \<and> ad_head ad \<noteq> sha then Inl (RemoteRefError ''REMOTE-REFS'')
             else Inr (ad\<lparr>ad_head := sha\<rparr>))
          else if starts_with TAG_PREFIX name then
            (let tag = drop (length TAG_PREFIX) name in
             if ends_with PEELED_SUFFIX tag
             then Inr (ad\<lparr>ad_peeled := dict_set (take (length tag - 3) tag) sha (ad_peeled ad)\<rparr>)
             else Inr (ad\<lparr>ad_objects := dict_set tag sha (ad_objects ad)\<rparr>))
          else Inr ad
      | _ \<Rightarrow> Inl (RemoteRefError ''REMOTE-REFS''))"

fun read_refs :: "string list \<Rightarrow> advertisement \<Rightarrow> py_exn + advertisement" where
  "read_refs [] ad = Inr ad"
| "read_refs (line # lines) ad = sum_bind (read_ref line ad) (read_refs lines)"

text \<open>Published annotated tags, by name and descending.\<close>

definition annotated_tags :: "advertisement \<Rightarrow> remote_release_tag list" where
  "annotated_tags ad = rev (sort_key rt_name
     (concat (map (\<lambda>(name, sha). case map_of (ad_peeled ad) name of
          Some commit \<Rightarrow> [\<lparr>rt_name = name, rt_object_sha = sha, rt_commit_sha = commit\<rparr>]
        | None \<Rightarrow> []) (ad_objects ad))))"

definition parse_remote_release_refs :: "string \<Rightarrow> py_exn + remote_release_tag list" where
  "parse_remote_release_refs text_of =
     sum_bind (read_refs (py_splitlines [] text_of) \<lparr>ad_head = [], ad_objects = [], ad_peeled = []\<rparr>) (\<lambda>ad.
     if ad_head ad = [] then Inl (RemoteRefError ''REMOTE-UNRESOLVED'')
     else if annotated_tags ad = [] then Inl (RemoteRefError ''UNSIGNED-HEAD'')
     else Inr (annotated_tags ad))"

section \<open>Signatures\<close>

text \<open>A git command: exit status, standard output and standard error.\<close>

record 'w git_runner =
  gr_run :: "string list \<Rightarrow> ('w, int \<times> string \<times> string) io"
  gr_subprocess_error :: "py_exn \<Rightarrow> bool"

text \<open>The search for the principal in git's answer: the first place where a word between the two texts fits.\<close>

definition PRINCIPAL_BEFORE :: string where
  "PRINCIPAL_BEFORE = ''Good \"git\" signature for ''"

fun verified_principal :: "string \<Rightarrow> string option" where
  "verified_principal [] = None"
| "verified_principal (c # cs) =
     (let rest = drop (length PRINCIPAL_BEFORE) (c # cs);
          word = takeWhile (\<lambda>x. \<not> py_space x) rest
      in if starts_with PRINCIPAL_BEFORE (c # cs) \<and> word \<noteq> [] \<and> starts_with '' with '' (drop (length word) rest)
         then Some word else verified_principal cs)"

record signature_request =
  sr_repository :: string
  sr_tag :: string
  sr_allowed_signers :: string
  sr_expected_principal :: string

definition verify_tag_signature :: "'w git_runner \<Rightarrow> signature_request \<Rightarrow> ('w, unit) io" where
  "verify_tag_signature g r =
     bindM (attemptM (gr_run g [''git'', ''-C'', sr_repository r, ''-c'',
         ''gpg.ssh.allowedSignersFile='' @ sr_allowed_signers r, ''verify-tag'', sr_tag r])) (\<lambda>res.
     case res of
       Inl e \<Rightarrow> raise (if is_os_error e \<or> gr_subprocess_error g e then TagSignatureError ''BAD-SIGNATURE'' else e)
     | Inr (code, out, err) \<Rightarrow>
         if code \<noteq> 0 then raise (TagSignatureError ''BAD-SIGNATURE'')
         else if verified_principal (out @ newline # err) \<noteq> Some (sr_expected_principal r)
         then raise (TagSignatureError ''WRONG-PRINCIPAL'')
         else ret ())"

section \<open>What an accepted advertisement says\<close>

definition advertises :: "string list \<Rightarrow> string \<Rightarrow> string \<Rightarrow> bool" where
  "advertises lines sha name \<longleftrightarrow> OBJECT_ID sha \<and> (\<exists>l \<in> set lines. py_words [] l = [sha, name])"

definition read_so_far :: "string list \<Rightarrow> advertisement \<Rightarrow> bool" where
  "read_so_far lines ad \<longleftrightarrow> distinct (map fst (ad_objects ad)) \<and>
     (\<forall>n s. map_of (ad_objects ad) n = Some s \<longrightarrow> advertises lines s (TAG_PREFIX @ n)) \<and>
     (\<forall>n s. map_of (ad_peeled ad) n = Some s \<longrightarrow> advertises lines s (TAG_PREFIX @ n @ PEELED_SUFFIX))"

lemma starts_with_drop: "starts_with p s \<Longrightarrow> p @ drop (length p) s = s"
  by (induction p s rule: starts_with.induct) auto

lemma ends_with_take:
  assumes "ends_with suffix s"
  shows "take (length s - length suffix) s @ suffix = s"
proof -
  have "rev suffix @ drop (length suffix) (rev s) = rev s"
    using starts_with_drop[OF assms[unfolded ends_with_def]] by simp
  then have "rev (rev suffix @ drop (length suffix) (rev s)) = s" by simp
  then show ?thesis by (simp add: rev_drop)
qed

lemma peeled_length: "length PEELED_SUFFIX = 3"
  by (simp add: PEELED_SUFFIX_def)

lemma read_ref_so_far:
  assumes "read_ref l ad = Inr ad'" and "read_so_far lines ad" and "l \<in> set lines"
  shows "read_so_far lines ad'"
proof -
  obtain sha name where l: "py_words [] l = [sha, name]" "OBJECT_ID sha"
    using assms(1) by (auto simp: read_ref_def split: list.splits if_splits)
  then have seen: "advertises lines sha name" using assms(3) by (auto simp: advertises_def)
  show ?thesis
  proof (cases "name = HEAD_REF \<or> \<not> starts_with TAG_PREFIX name")
    case True
    then show ?thesis using assms(1,2) l by (auto simp: read_ref_def read_so_far_def split: if_splits)
  next
    case False
    let ?tag = "drop (length TAG_PREFIX) name"
    have name: "name = TAG_PREFIX @ ?tag" using False starts_with_drop[of TAG_PREFIX name] by simp
    have peeled: "ends_with PEELED_SUFFIX ?tag \<Longrightarrow> take (length ?tag - 3) ?tag @ PEELED_SUFFIX = ?tag"
      using ends_with_take[of PEELED_SUFFIX ?tag] by (simp only: peeled_length)
    show ?thesis
      using assms(1,2) l seen name peeled False
      by (auto simp: read_ref_def read_so_far_def Let_def split: if_splits)
  qed
qed

lemma read_refs_so_far:
  "read_refs ls ad = Inr ad' \<Longrightarrow> read_so_far lines ad \<Longrightarrow> set ls \<subseteq> set lines \<Longrightarrow> read_so_far lines ad'"
  by (induction ls arbitrary: ad) (auto elim!: sum_bind_InrE intro: read_ref_so_far)

text \<open>
  An accepted advertisement yields release tags in strictly descending order of their names,
  and each of them was published as an annotated tag: the remote's text has a line with its object
  and a line with the commit it peels to, both object ids.
\<close>

theorem parse_refs_faithful:
  assumes "parse_remote_release_refs s = Inr tags"
  shows "tags \<noteq> [] \<and> sorted_wrt (\<lambda>a b. rt_name b < rt_name a) tags \<and>
     (\<forall>t \<in> set tags. advertises (py_splitlines [] s) (rt_object_sha t) (TAG_PREFIX @ rt_name t) \<and>
        advertises (py_splitlines [] s) (rt_commit_sha t) (TAG_PREFIX @ rt_name t @ PEELED_SUFFIX))"
proof -
  obtain ad where ad: "read_refs (py_splitlines [] s) \<lparr>ad_head = [], ad_objects = [], ad_peeled = []\<rparr> = Inr ad"
    "tags = annotated_tags ad" "tags \<noteq> []"
    using assms by (auto simp: parse_remote_release_refs_def elim!: sum_bind_InrE split: if_splits)
  have so_far: "read_so_far (py_splitlines [] s) ad"
    by (rule read_refs_so_far[OF ad(1)]) (simp_all add: read_so_far_def)
  let ?published = "\<lambda>objects. concat (map (\<lambda>(name, sha). case map_of (ad_peeled ad) name of
          Some commit \<Rightarrow> [\<lparr>rt_name = name, rt_object_sha = sha, rt_commit_sha = commit\<rparr>]
        | None \<Rightarrow> []) objects)"
  have "map rt_name (?published objects) = filter (\<lambda>n. map_of (ad_peeled ad) n \<noteq> None) (map fst objects)" for objects
    by (induction objects) (auto split: option.split)
  then have "distinct (map rt_name (?published (ad_objects ad)))"
    using so_far by (simp add: read_so_far_def)
  then have "distinct (map rt_name (sort_key rt_name (?published (ad_objects ad))))"
    using so_far by (simp add: read_so_far_def distinct_map)
  moreover have "sorted (map rt_name (sort_key rt_name (?published (ad_objects ad))))"
    by simp
  ultimately have "sorted_wrt (<) (map rt_name (sort_key rt_name (?published (ad_objects ad))))"
    using strict_sorted_iff by blast
  then have order: "sorted_wrt (\<lambda>a b. rt_name b < rt_name a) tags"
    by (simp add: ad(2) annotated_tags_def sorted_wrt_rev sorted_wrt_map)
  have "advertises (py_splitlines [] s) (rt_object_sha t) (TAG_PREFIX @ rt_name t) \<and>
        advertises (py_splitlines [] s) (rt_commit_sha t) (TAG_PREFIX @ rt_name t @ PEELED_SUFFIX)"
    if "t \<in> set tags" for t
  proof -
    have "(rt_name t, rt_object_sha t) \<in> set (ad_objects ad)" "map_of (ad_peeled ad) (rt_name t) = Some (rt_commit_sha t)"
      using that by (auto simp: ad(2) annotated_tags_def split: option.splits)
    then show ?thesis using so_far by (auto simp: read_so_far_def)
  qed
  then show ?thesis using ad(3) order by blast
qed

definition sample_sha :: "char \<Rightarrow> string" where
  "sample_sha c = replicate 40 c"

definition sample_refs :: string where
  "sample_refs = sample_sha (CHR ''a'') @ '' refs/heads/main'' @ [newline] @
     sample_sha (CHR ''b'') @ '' refs/tags/v1.9.0'' @ [newline] @
     sample_sha (CHR ''c'') @ '' refs/tags/v1.9.0'' @ PEELED_SUFFIX @ [newline] @
     sample_sha (CHR ''d'') @ '' refs/tags/v1.10.0'' @ [newline] @
     sample_sha (CHR ''e'') @ '' refs/tags/v1.10.0'' @ PEELED_SUFFIX @ [newline]"

definition sample_release :: "char \<Rightarrow> char \<Rightarrow> string \<Rightarrow> remote_release_tag" where
  "sample_release a b name = \<lparr>rt_name = name, rt_object_sha = sample_sha a, rt_commit_sha = sample_sha b\<rparr>"

lemma parse_refs_faithful_witness:
  "\<exists>tags. parse_remote_release_refs sample_refs = Inr tags \<and> tags \<noteq> [] \<and>
     sorted_wrt (\<lambda>a b. rt_name b < rt_name a) tags \<and>
     (\<forall>t \<in> set tags. advertises (py_splitlines [] sample_refs) (rt_object_sha t) (TAG_PREFIX @ rt_name t) \<and>
        advertises (py_splitlines [] sample_refs) (rt_commit_sha t) (TAG_PREFIX @ rt_name t @ PEELED_SUFFIX))"
proof -
  have "parse_remote_release_refs sample_refs =
     Inr [sample_release (CHR ''b'') (CHR ''c'') ''v1.9.0'', sample_release (CHR ''d'') (CHR ''e'') ''v1.10.0'']"
    by code_simp
  from this parse_refs_faithful[OF this] show ?thesis by blast
qed

end
