(* ===== verification/Deploy_Reconcile.thy ===== *)
theory Deploy_Reconcile
  imports Git_Release
begin

text \<open>
  Model of \<open>automation/deploy_reconcile.py\<close>, the state machine that compares what production runs
  with what the repository names and tells the owner, with its persisted state
  (\<open>deploy_reconcile_state.py\<close>), the sending rule of \<open>deploy_reconcile_notice.py\<close> and the recorder
  and backlog observation of \<open>deploy_reconcile_unsigned.py\<close>. Effects are in the io monad of the
  prelude: \<open>deliver\<close> sends one notice, \<open>converge\<close> runs the privileged helper. The wording of the
  notices, the recognition of a recovery text, the JSON codec, the state file and git are
  parameters; times are exact rationals in seconds.
\<close>

section \<open>State\<close>

definition LOCK_CONTENTION_RC :: int where
  "LOCK_CONTENTION_RC = 5"

definition FAILED_RELEASE_RC :: int where
  "FAILED_RELEASE_RC = 6"

definition FAILURE_NOTICE_THRESHOLD :: int where
  "FAILURE_NOTICE_THRESHOLD = 3"

definition DRIFT_NOTICE_SECONDS :: rat where
  "DRIFT_NOTICE_SECONDS = 600"

definition BACKLOG_NOTICE_SECONDS :: rat where
  "BACKLOG_NOTICE_SECONDS = 259200"

record reconcile_state =
  consecutive_failures :: int
  drift_since :: "rat option"
  notified_target :: "string option"
  pending_notice :: "string option"
  incident_open :: bool
  skip_reason :: "string option"
  mirror_state :: string

definition ReconcileState :: reconcile_state where
  "ReconcileState = \<lparr>consecutive_failures = 0, drift_since = None, notified_target = None,
     pending_notice = None, incident_open = False, skip_reason = None, mirror_state = ''unknown''\<rparr>"

record backlog =
  bl_head :: string
  bl_count :: "int option"
  bl_mirror_state :: string

definition Backlog :: backlog where
  "Backlog = \<lparr>bl_head = [], bl_count = None, bl_mirror_state = ''unknown''\<rparr>"

text \<open>The notice texts, and whether a text is the recovery notice.\<close>

record words =
  drift_notice :: "string \<Rightarrow> string \<Rightarrow> int \<Rightarrow> rat \<Rightarrow> string"
  recovery_notice :: "string \<Rightarrow> string"
  release_backlog_notice :: "string \<Rightarrow> string \<Rightarrow> int option \<Rightarrow> rat \<Rightarrow> string \<Rightarrow> string"
  is_recovery :: "string \<Rightarrow> bool"

text \<open>A delivery callable, and whether it is the owner facade itself.\<close>

record 'w deliver =
  dl_facade :: bool
  dl_send :: "string \<Rightarrow> ('w, bool) io"

text \<open>\<open>send_notice\<close>: the facade is not given recovery notices; they count as delivered.\<close>

definition send_notice :: "words \<Rightarrow> 'w deliver \<Rightarrow> string \<Rightarrow> ('w, bool) io" where
  "send_notice ws dv content =
     (if \<not> dl_facade dv then dl_send dv content
      else if is_recovery ws content then ret True
      else dl_send dv content)"

text \<open>\<open>int(x)\<close> of a float truncates towards zero.\<close>

definition py_trunc :: "rat \<Rightarrow> int" where
  "py_trunc x = (if x < 0 then - \<lfloor>- x\<rfloor> else \<lfloor>x\<rfloor>)"

section \<open>One tick\<close>

text \<open>\<open>None if delivered else notice\<close>.\<close>

definition queue_unless :: "bool \<Rightarrow> string \<Rightarrow> string option" where
  "queue_unless delivered notice = (if delivered then None else Some notice)"

text \<open>The backlog digest after its queued notice is out.\<close>

definition backlog_digest ::
  "words \<Rightarrow> 'w deliver \<Rightarrow> reconcile_state \<Rightarrow> string \<Rightarrow> string \<Rightarrow> rat \<Rightarrow> int option \<Rightarrow> string \<Rightarrow>
   ('w, reconcile_state) io" where
  "backlog_digest ws dv st remote_head current_sha moment commit_count mirror =
     (let same_episode = (skip_reason st = Some ''release-backlog'');
          failures = (if same_episode then consecutive_failures st + 1 else 1);
          backlog_since = (case drift_since st of Some t \<Rightarrow> if same_episode then t else moment | None \<Rightarrow> moment);
          st = st\<lparr>consecutive_failures := failures, drift_since := Some backlog_since,
                  skip_reason := Some ''release-backlog'', mirror_state := mirror\<rparr>;
          elapsed = moment - backlog_since;
          period = \<lfloor>elapsed / BACKLOG_NOTICE_SECONDS\<rfloor>;
          incident_key = ''backlog:'' @ str_int (py_trunc backlog_since) @ '':'' @ str_int period
      in if period < 1 \<or> notified_target st = Some incident_key then ret st
         else let notice = release_backlog_notice ws remote_head current_sha commit_count elapsed mirror in
           bindM (send_notice ws dv notice) (\<lambda>delivered.
           ret (st\<lparr>notified_target := Some incident_key, pending_notice := queue_unless delivered notice,
                   incident_open := True\<rparr>)))"

definition reconcile_unsigned_head ::
  "words \<Rightarrow> 'w deliver \<Rightarrow> reconcile_state \<Rightarrow> string \<Rightarrow> string \<Rightarrow> rat \<Rightarrow> int option \<Rightarrow> string \<Rightarrow>
   ('w, reconcile_state) io" where
  "reconcile_unsigned_head ws dv st remote_head current_sha moment commit_count mirror =
     (case pending_notice st of
        None \<Rightarrow> backlog_digest ws dv st remote_head current_sha moment commit_count mirror
      | Some n \<Rightarrow> bindM (send_notice ws dv n) (\<lambda>ok.
          if \<not> ok then ret st
          else backlog_digest ws dv (st\<lparr>pending_notice := None\<rparr>) remote_head current_sha moment commit_count mirror))"

text \<open>The queued notice is tried first; what remains queued stays in the state.\<close>

definition flush_pending :: "words \<Rightarrow> 'w deliver \<Rightarrow> reconcile_state \<Rightarrow> ('w, reconcile_state) io" where
  "flush_pending ws dv st =
     (case pending_notice st of
        None \<Rightarrow> ret st
      | Some n \<Rightarrow> bindM (send_notice ws dv n) (\<lambda>ok. ret (if ok then st\<lparr>pending_notice := None\<rparr> else st)))"

definition reconcile_skip ::
  "words \<Rightarrow> 'w deliver \<Rightarrow> reconcile_state \<Rightarrow> string \<Rightarrow> rat \<Rightarrow> ('w, reconcile_state) io" where
  "reconcile_skip ws dv st reason moment =
     bindM (flush_pending ws dv st) (\<lambda>st.
     let same_reason = (skip_reason st = Some reason);
         failures = (if same_reason then consecutive_failures st + 1 else 1);
         since = (case drift_since st of Some t \<Rightarrow> if same_reason then t else moment | None \<Rightarrow> moment);
         incident_key = ''skip:'' @ reason;
         st = st\<lparr>consecutive_failures := failures, drift_since := Some since, skip_reason := Some reason\<rparr>
     in if failures < FAILURE_NOTICE_THRESHOLD \<or> notified_target st = Some incident_key then ret st
        else let notice = drift_notice ws ''unresolved'' (''blocked: '' @ reason) failures (moment - since) in
          bindM (send_notice ws dv notice) (\<lambda>delivered.
          ret (st\<lparr>notified_target := Some incident_key, incident_open := True,
                  pending_notice := queue_unless delivered notice\<rparr>)))"

text \<open>The branch for a target that was rolled back.\<close>

definition tick_rollback ::
  "words \<Rightarrow> 'w deliver \<Rightarrow> reconcile_state \<Rightarrow> string \<Rightarrow> string \<Rightarrow> rat \<Rightarrow> ('w, reconcile_state) io" where
  "tick_rollback ws dv st origin_sha current_sha moment =
     (let same_reason = (skip_reason st = Some ''rollback-pending'');
          failures = (if same_reason then consecutive_failures st + 1 else 1);
          since = (case drift_since st of Some t \<Rightarrow> if same_reason then t else moment | None \<Rightarrow> moment);
          incident_key = ''rollback:'' @ origin_sha;
          st = st\<lparr>consecutive_failures := failures, drift_since := Some since, incident_open := True,
                  skip_reason := Some ''rollback-pending''\<rparr>
      in if failures < FAILURE_NOTICE_THRESHOLD \<or> notified_target st = Some incident_key then ret st
         else let notice = drift_notice ws origin_sha current_sha failures (moment - since) in
           bindM (send_notice ws dv notice) (\<lambda>delivered.
           ret (st\<lparr>notified_target := Some incident_key, pending_notice := queue_unless delivered notice\<rparr>)))"

text \<open>The branch for an ordinary attempt, successful or not.\<close>

definition tick_drift ::
  "words \<Rightarrow> 'w deliver \<Rightarrow> reconcile_state \<Rightarrow> string \<Rightarrow> string \<Rightarrow> rat \<Rightarrow> rat \<Rightarrow> int \<Rightarrow> ('w, reconcile_state) io" where
  "tick_drift ws dv st origin_sha current_sha moment since rc =
     (let (st, since) = (if skip_reason st \<noteq> None
            then (st\<lparr>consecutive_failures := 0, drift_since := None, skip_reason := None\<rparr>, moment)
            else (st, since));
          failures = (if rc = 0 \<or> rc = LOCK_CONTENTION_RC then consecutive_failures st
                      else consecutive_failures st + 1);
          elapsed = moment - since;
          should_notify = ((failures \<ge> FAILURE_NOTICE_THRESHOLD \<or> elapsed \<ge> DRIFT_NOTICE_SECONDS) \<and>
            notified_target st \<noteq> Some origin_sha);
          st = st\<lparr>consecutive_failures := failures, drift_since := Some since\<rparr>
      in if \<not> should_notify then ret st
         else let notice = drift_notice ws origin_sha current_sha failures elapsed in
           bindM (send_notice ws dv notice) (\<lambda>delivered.
           ret (st\<lparr>notified_target := Some origin_sha, incident_open := True,
                   pending_notice := queue_unless delivered notice\<rparr>)))"

text \<open>The branch for a runtime that is where it should be.\<close>

definition tick_converged ::
  "words \<Rightarrow> 'w deliver \<Rightarrow> reconcile_state \<Rightarrow> string \<Rightarrow> string \<Rightarrow> rat \<Rightarrow> backlog option \<Rightarrow> ('w, reconcile_state) io" where
  "tick_converged ws dv st origin_sha current_sha moment bl =
     (let settle = (\<lambda>st. case bl of
            Some b \<Rightarrow> if bl_head b \<noteq> [] \<and> bl_head b \<noteq> origin_sha
              then reconcile_unsigned_head ws dv st (bl_head b) origin_sha moment (bl_count b) (bl_mirror_state b)
              else ret ReconcileState
          | None \<Rightarrow> ret ReconcileState)
      in if incident_open st then
           let recovery = recovery_notice ws current_sha in
           bindM (send_notice ws dv recovery) (\<lambda>ok.
           if \<not> ok then ret (st\<lparr>pending_notice := Some recovery, incident_open := False\<rparr>)
           else settle ReconcileState)
         else settle st)"

definition reconcile_tick ::
  "words \<Rightarrow> 'w deliver \<Rightarrow> ('w, int) io \<Rightarrow> reconcile_state \<Rightarrow> string \<Rightarrow> string \<Rightarrow> rat \<Rightarrow> backlog option \<Rightarrow>
   ('w, reconcile_state) io" where
  "reconcile_tick ws dv converge st origin_sha current_sha moment bl =
     bindM (flush_pending ws dv st) (\<lambda>st.
     if origin_sha = current_sha then tick_converged ws dv st origin_sha current_sha moment bl
     else
       let since = (case drift_since st of Some t \<Rightarrow> t | None \<Rightarrow> moment) in
       bindM converge (\<lambda>rc.
       if rc = FAILED_RELEASE_RC then tick_rollback ws dv st origin_sha current_sha moment
       else tick_drift ws dv st origin_sha current_sha moment since rc))"

section \<open>The state file (deploy_reconcile_state.py)\<close>

definition MIRROR_STATES :: "string list" where
  "MIRROR_STATES = [''dirty'', ''ahead'', ''behind'', ''clean'', ''unknown'']"

definition require_int :: "json \<Rightarrow> int option" where
  "require_int v = (case v of JInt n \<Rightarrow> Some n | _ \<Rightarrow> None)"

definition require_bool :: "json \<Rightarrow> bool option" where
  "require_bool v = (case v of JBool b \<Rightarrow> Some b | _ \<Rightarrow> None)"

definition optional_float :: "json \<Rightarrow> rat option option" where
  "optional_float v = (case v of JNull \<Rightarrow> Some None | JInt n \<Rightarrow> Some (Some (of_int n))
     | JFloat x \<Rightarrow> Some (Some x) | _ \<Rightarrow> None)"

definition optional_str :: "json \<Rightarrow> string option option" where
  "optional_str v = (case v of JNull \<Rightarrow> Some None | JStr s \<Rightarrow> Some (Some s) | _ \<Rightarrow> None)"

definition mirror_state_of :: "json \<Rightarrow> string" where
  "mirror_state_of v = (case v of JStr s \<Rightarrow> if s \<in> set MIRROR_STATES then s else ''unknown'' | _ \<Rightarrow> ''unknown'')"

text \<open>\<open>load_state\<close>, from the decoded file; anything unexpected reads as the state with no incident.\<close>

definition state_of :: "jobj \<Rightarrow> reconcile_state option" where
  "state_of raw =
     (case (require_int (jget_or raw ''consecutive_failures'' (JInt 0)),
            optional_float (jget_or raw ''drift_since'' JNull),
            optional_str (jget_or raw ''notified_target'' JNull),
            optional_str (jget_or raw ''pending_notice'' JNull),
            require_bool (jget_or raw ''incident_open'' (JBool False)),
            optional_str (jget_or raw ''skip_reason'' JNull)) of
        (Some failures, Some since, Some target, Some pending, Some is_open, Some reason) \<Rightarrow>
          Some \<lparr>consecutive_failures = failures, drift_since = since, notified_target = target,
                pending_notice = pending, incident_open = is_open, skip_reason = reason,
                mirror_state = mirror_state_of (jget_or raw ''mirror_state'' (JStr ''unknown''))\<rparr>
      | _ \<Rightarrow> None)"

definition load_state :: "py_exn + json \<Rightarrow> py_exn + reconcile_state" where
  "load_state file =
     (case file of
        Inl e \<Rightarrow> if is_os_error e \<or> is_value_error e then Inr ReconcileState else Inl e
      | Inr (JObj raw) \<Rightarrow> Inr (case state_of raw of Some st \<Rightarrow> st | None \<Rightarrow> ReconcileState)
      | Inr _ \<Rightarrow> Inr ReconcileState)"

definition opt_json :: "('a \<Rightarrow> json) \<Rightarrow> 'a option \<Rightarrow> json" where
  "opt_json f v = (case v of None \<Rightarrow> JNull | Some x \<Rightarrow> f x)"

text \<open>The payload \<open>save_state\<close> writes.\<close>

definition state_payload :: "reconcile_state \<Rightarrow> json" where
  "state_payload st = JObj
     [(''consecutive_failures'', JInt (consecutive_failures st)),
      (''drift_since'', opt_json JFloat (drift_since st)),
      (''notified_target'', opt_json JStr (notified_target st)),
      (''pending_notice'', opt_json JStr (pending_notice st)),
      (''incident_open'', JBool (incident_open st)),
      (''skip_reason'', opt_json JStr (skip_reason st)),
      (''mirror_state'', JStr (mirror_state st))]"

text \<open>The state file of the recorder: what reading it gives, and its atomic replacement.\<close>

record 'w state_file =
  sf_read :: "('w, py_exn + json) io"
  sf_replace :: "json \<Rightarrow> ('w, unit) io"

definition save_state :: "'w state_file \<Rightarrow> reconcile_state \<Rightarrow> ('w, unit) io" where
  "save_state sf st = sf_replace sf (state_payload st)"

definition recorder_skip ::
  "words \<Rightarrow> 'w deliver \<Rightarrow> 'w state_file \<Rightarrow> ('w, rat) io \<Rightarrow> string \<Rightarrow> ('w, unit) io" where
  "recorder_skip ws dv sf clock reason =
     bindM (sf_read sf) (\<lambda>file. bindM (lift_sum (load_state file)) (\<lambda>st.
     bindM clock (\<lambda>moment. bindM (reconcile_skip ws dv st reason moment) (save_state sf))))"

definition recorder_unsigned ::
  "words \<Rightarrow> 'w deliver \<Rightarrow> 'w state_file \<Rightarrow> ('w, rat) io \<Rightarrow> string \<Rightarrow> string \<Rightarrow> int option \<Rightarrow> string \<Rightarrow> ('w, unit) io" where
  "recorder_unsigned ws dv sf clock remote_head current_sha commit_count mirror =
     bindM (sf_read sf) (\<lambda>file. bindM (lift_sum (load_state file)) (\<lambda>st.
     bindM clock (\<lambda>moment.
     bindM (reconcile_unsigned_head ws dv st remote_head current_sha moment commit_count mirror) (save_state sf))))"

section \<open>Observing the backlog (deploy_reconcile_unsigned.py)\<close>

text \<open>
  A git command gives an exit status and its output, or raises; \<open>OBJECT_ID\<close> is forty or sixty-four
  lower-case hexadecimal digits.
\<close>

record 'w git =
  git_run :: "string list \<Rightarrow> ('w, int \<times> string) io"
  git_subprocess_error :: "py_exn \<Rightarrow> bool"

definition raw_remote_main_sha :: "'w git \<Rightarrow> string \<Rightarrow> string option \<Rightarrow> ('w, string) io" where
  "raw_remote_main_sha g mirror update_channel =
     bindM (attemptM (git_run g [''git'', ''-C'', mirror, ''ls-remote'',
         (case update_channel of Some c \<Rightarrow> c | None \<Rightarrow> ''origin''), HEAD_REF])) (\<lambda>r.
     case r of
       Inl e \<Rightarrow> if is_os_error e \<or> git_subprocess_error g e then ret [] else raise e
     | Inr (code, out) \<Rightarrow>
         if code \<noteq> 0 then ret []
         else (case py_words [] out of
             [sha, name] \<Rightarrow> ret (if OBJECT_ID sha \<and> name = HEAD_REF then sha else [])
           | _ \<Rightarrow> ret []))"

definition unreleased_commit_count :: "'w git \<Rightarrow> string \<Rightarrow> string \<Rightarrow> string \<Rightarrow> ('w, int option) io" where
  "unreleased_commit_count g mirror current_sha remote_head =
     (if \<not> OBJECT_ID current_sha \<or> \<not> OBJECT_ID remote_head then ret None
      else bindM (attemptM (git_run g [''git'', ''-C'', mirror, ''rev-list'', ''--count'',
             current_sha @ ''..'' @ remote_head])) (\<lambda>r.
        case r of
          Inl e \<Rightarrow> if is_os_error e \<or> git_subprocess_error g e then ret None else raise e
        | Inr (code, out) \<Rightarrow>
            if code \<noteq> 0 then ret None
            else let n = strip_by py_space out in
              if list_all dec_char n \<and> n \<noteq> [] then ret (Some (dec_value n))
              else if py_isdigit n then raise ValueError else ret None))"

definition observe_release_backlog ::
  "'w git \<Rightarrow> string \<Rightarrow> string \<Rightarrow> string option \<Rightarrow> (string option \<Rightarrow> ('w, string) io) \<Rightarrow> ('w, backlog) io" where
  "observe_release_backlog g mirror target_sha update_channel mirror_of =
     bindM (raw_remote_main_sha g mirror update_channel) (\<lambda>head.
     if head = [] \<or> head = target_sha then ret Backlog
     else bindM (unreleased_commit_count g mirror target_sha head) (\<lambda>count.
          bindM (mirror_of update_channel) (\<lambda>ms.
          ret \<lparr>bl_head = head, bl_count = count, bl_mirror_state = ms\<rparr>)))"

section \<open>Round trip of the state\<close>

lemma state_roundtrip:
  "mirror_state st \<in> set MIRROR_STATES \<Longrightarrow> load_state (Inr (state_payload st)) = Inr st"
  by (cases "drift_since st"; cases "notified_target st"; cases "pending_notice st"; cases "skip_reason st")
     (simp_all add: load_state_def state_payload_def state_of_def jget_or_def require_int_def
       require_bool_def optional_float_def optional_str_def opt_json_def mirror_state_of_def)

section \<open>One notice per incident\<close>

text \<open>
  A channel to the owner that works or not from one attempt to the next, and keeps what it
  delivered.
\<close>

record owner_channel =
  oc_answers :: "bool list"
  oc_delivered :: "string list"

definition channel_send :: "string \<Rightarrow> (owner_channel, bool) io" where
  "channel_send content = (\<lambda>w. case oc_answers w of
     [] \<Rightarrow> (Inr False, w)
   | ok # rest \<Rightarrow> (Inr ok, w\<lparr>oc_answers := rest,
       oc_delivered := (if ok then oc_delivered w @ [content] else oc_delivered w)\<rparr>))"

definition channel :: "bool \<Rightarrow> owner_channel deliver" where
  "channel facade = \<lparr>dl_facade = facade, dl_send = channel_send\<rparr>"

text \<open>
  Ticks during which the target stays the same and is not reached, each with its time and the
  exit status of the helper.
\<close>

fun drift_ticks ::
  "words \<Rightarrow> bool \<Rightarrow> string \<Rightarrow> string \<Rightarrow> (rat \<times> int) list \<Rightarrow> reconcile_state \<Rightarrow> (owner_channel, reconcile_state) io" where
  "drift_ticks ws facade origin current [] st = ret st"
| "drift_ticks ws facade origin current ((moment, rc) # ticks) st =
     bindM (reconcile_tick ws (channel facade) (ret rc) st origin current moment None) (\<lambda>st'.
     drift_ticks ws facade origin current ticks st')"

text \<open>Nothing said and nothing queued, the notice queued, or the notice delivered.\<close>

definition notice_accounted :: "string \<Rightarrow> nat \<Rightarrow> reconcile_state \<Rightarrow> owner_channel \<Rightarrow> bool" where
  "notice_accounted origin n st w \<longleftrightarrow> skip_reason st = None \<and>
     (if notified_target st = Some origin
      then (case pending_notice st of None \<Rightarrow> length (oc_delivered w) = n + 1 | Some _ \<Rightarrow> length (oc_delivered w) = n)
      else pending_notice st = None \<and> length (oc_delivered w) = n)"

lemma channel_send_cases:
  "\<exists>ok w'. channel_send s w = (Inr ok, w') \<and>
     length (oc_delivered w') = length (oc_delivered w) + (if ok then 1 else 0)"
  by (cases "oc_answers w") (auto simp: channel_send_def)

lemma send_notice_channel:
  assumes "\<not> is_recovery ws s"
  shows "\<exists>ok w'. send_notice ws (channel facade) s w = (Inr ok, w') \<and>
     length (oc_delivered w') = length (oc_delivered w) + (if ok then 1 else 0)"
  using assms channel_send_cases by (simp add: send_notice_def channel_def)

definition drift_words :: "words \<Rightarrow> bool" where
  "drift_words ws \<longleftrightarrow> (\<forall>a b n t. \<not> is_recovery ws (drift_notice ws a b n t))"

text \<open>What is queued during a drift is a drift notice.\<close>

definition queue_ok :: "words \<Rightarrow> reconcile_state \<Rightarrow> bool" where
  "queue_ok ws st \<longleftrightarrow> (\<forall>n. pending_notice st = Some n \<longrightarrow> \<not> is_recovery ws n)"

lemma flush_accounted:
  assumes "notice_accounted origin n st w" and "queue_ok ws st"
  shows "\<exists>st' w'. flush_pending ws (channel facade) st w = (Inr st', w') \<and>
    notice_accounted origin n st' w' \<and> queue_ok ws st' \<and> notified_target st' = notified_target st \<and>
    drift_since st' = drift_since st \<and> consecutive_failures st' = consecutive_failures st"
proof (cases "pending_notice st")
  case None
  then show ?thesis using assms by (simp add: flush_pending_def ret_def)
next
  case (Some s)
  then have "\<not> is_recovery ws s" using assms(2) by (simp add: queue_ok_def)
  from send_notice_channel[OF this] obtain ok w'
    where "send_notice ws (channel facade) s w = (Inr ok, w')"
      "length (oc_delivered w') = length (oc_delivered w) + (if ok then 1 else 0)" by blast
  with assms Some show ?thesis
    by (auto simp: flush_pending_def bindM_def ret_def notice_accounted_def queue_ok_def split: if_splits)
qed

lemma tick_drift_accounted:
  assumes "drift_words ws" and "notice_accounted origin n st w" and "queue_ok ws st"
  shows "\<exists>st' w'. tick_drift ws (channel facade) st origin current moment since rc w = (Inr st', w') \<and>
    notice_accounted origin n st' w' \<and> queue_ok ws st' \<and> drift_since st' = Some since \<and>
    (DRIFT_NOTICE_SECONDS \<le> moment - since \<or>
     rc \<noteq> 0 \<and> rc \<noteq> LOCK_CONTENTION_RC \<and> FAILURE_NOTICE_THRESHOLD \<le> consecutive_failures st + 1 \<longrightarrow>
       notified_target st' = Some origin)"
proof -
  have skip: "skip_reason st = None" using assms(2) by (simp add: notice_accounted_def)
  define failures where "failures = (if rc = 0 \<or> rc = LOCK_CONTENTION_RC then consecutive_failures st
    else consecutive_failures st + 1)"
  define st1 where "st1 = st\<lparr>consecutive_failures := failures, drift_since := Some since\<rparr>"
  define notice where "notice = drift_notice ws origin current failures (moment - since)"
  define due where "due = ((failures \<ge> FAILURE_NOTICE_THRESHOLD \<or> moment - since \<ge> DRIFT_NOTICE_SECONDS) \<and>
    notified_target st \<noteq> Some origin)"
  have eq: "tick_drift ws (channel facade) st origin current moment since rc =
    (if \<not> due then ret st1 else bindM (send_notice ws (channel facade) notice) (\<lambda>delivered.
       ret (st1\<lparr>notified_target := Some origin, incident_open := True,
         pending_notice := queue_unless delivered notice\<rparr>)))"
    by (simp add: tick_drift_def skip failures_def st1_def notice_def due_def Let_def)
  show ?thesis
  proof (cases due)
    case False
    then show ?thesis using assms(2,3)
      by (auto simp: eq ret_def st1_def notice_accounted_def queue_ok_def due_def failures_def split: if_splits)
  next
    case True
    have nr: "\<not> is_recovery ws notice" using assms(1) by (simp add: drift_words_def notice_def)
    from send_notice_channel[OF this] obtain ok w'
      where "send_notice ws (channel facade) notice w = (Inr ok, w')"
        "length (oc_delivered w') = length (oc_delivered w) + (if ok then 1 else 0)" by blast
    then show ?thesis using True nr assms(2)
      by (auto simp: eq bindM_def ret_def st1_def notice_accounted_def queue_ok_def queue_unless_def due_def)
  qed
qed

lemma drift_tick_accounted:
  assumes "drift_words ws" and "notice_accounted origin n st w" and "queue_ok ws st"
    and "origin \<noteq> current" and "rc \<noteq> FAILED_RELEASE_RC"
  shows "\<exists>st' w'. reconcile_tick ws (channel facade) (ret rc) st origin current moment None w = (Inr st', w') \<and>
    notice_accounted origin n st' w' \<and> queue_ok ws st' \<and>
    drift_since st' = Some (case drift_since st of Some t \<Rightarrow> t | None \<Rightarrow> moment) \<and>
    (DRIFT_NOTICE_SECONDS \<le> moment - (case drift_since st of Some t \<Rightarrow> t | None \<Rightarrow> moment) \<longrightarrow>
      notified_target st' = Some origin)"
proof -
  from flush_accounted[OF assms(2,3)] obtain st1 w1
    where f: "flush_pending ws (channel facade) st w = (Inr st1, w1)" "notice_accounted origin n st1 w1"
      "queue_ok ws st1" "drift_since st1 = drift_since st" by blast
  from tick_drift_accounted[OF assms(1) f(2,3), of facade current moment
      "case drift_since st of Some t \<Rightarrow> t | None \<Rightarrow> moment" rc]
  show ?thesis using f(1,4) assms(4,5) by (auto simp: reconcile_tick_def bindM_def ret_def)
qed


definition sample_words :: words where
  "sample_words = \<lparr>drift_notice = (\<lambda>a b n t. ''drift''), recovery_notice = (\<lambda>s. ''back''),
     release_backlog_notice = (\<lambda>a b n t m. ''backlog''), is_recovery = (\<lambda>s. s = ''back'')\<rparr>"


text \<open>
  A notice that could not be delivered is lost when production catches up: with the owner
  facade the recovery counts as sent without being sent, and the state that follows has neither
  the queued notice nor the incident, although the tick begins by saying that dropping a queued
  notice would lose the only signal.
\<close>
theorem undelivered_incident_forgotten:
  assumes "pending_notice st = Some n" and "\<not> is_recovery ws n" and "incident_open st"
    and "is_recovery ws (recovery_notice ws sha)"
  shows "reconcile_tick ws (channel True) converge st sha sha moment None
      \<lparr>oc_answers = [], oc_delivered = sent\<rparr> =
    (Inr ReconcileState, \<lparr>oc_answers = [], oc_delivered = sent\<rparr>)"
  using assms
  by (simp add: reconcile_tick_def flush_pending_def tick_converged_def send_notice_def channel_def
      channel_send_def bindM_def ret_def)

theorem undelivered_incident_forgotten_witness:
  "let st = ReconcileState\<lparr>pending_notice := Some ''drift'', incident_open := True\<rparr> in
   reconcile_tick sample_words (channel True) (ret 0) st ''new'' ''new'' 900 None
      \<lparr>oc_answers = [], oc_delivered = []\<rparr> =
    (Inr ReconcileState, \<lparr>oc_answers = [], oc_delivered = []\<rparr>)"
proof -
  let ?st = "ReconcileState\<lparr>pending_notice := Some ''drift'', incident_open := True\<rparr>"
  have "pending_notice ?st = Some ''drift''" and "\<not> is_recovery sample_words ''drift''"
    and "incident_open ?st" and "is_recovery sample_words (recovery_notice sample_words ''new'')"
    by (simp_all add: sample_words_def)
  from undelivered_incident_forgotten[OF this] show ?thesis unfolding Let_def .
qed

end
