(* ===== verification/Skill_Gate.thy ===== *)
theory Skill_Gate
  imports Record_Contract Approval_Surface Interop_Protocol
begin

text \<open>
  Model of the skill supply-chain gate: \<open>automation/skill_gate_specs.py\<close> (what a deploy or publish
  approval binds), \<open>skill_gate_surface.py\<close> (where it is posted and read), \<open>skill_gate_approval.py\<close>
  (the gate over the pending record, an adapter of the approval lifecycle), \<open>skill_gate_request.py\<close>
  (requesting) and \<open>skill_gate_retire.py\<close> (consuming and abandoning). The pending records are the
  part \<open>pn_files\<close> of the world; Discord, the channel directory, the digest, the JSON codec, the
  rendered texts and the patterns that read them back are parameters. The pending files hold UTF-8 text;
  a reaction emoji is its
  URL-quoted form.
\<close>

type_synonym rec = "(string \<times> string) list"

definition rget :: "rec \<Rightarrow> string \<Rightarrow> string" where
  "rget r k = (case map_of r k of Some v \<Rightarrow> v | None \<Rightarrow> [])"

section \<open>Specifications (skill_gate_specs.py)\<close>

record stored_binding =
  sb_action_hash :: string
  sb_message_id :: string
  sb_nonce :: string

record provenance =
  pv_lines :: string
  pv_tag :: string
  pv_manifest_sha256 :: string
  pv_personal_head_sha :: string

text \<open>\<open>hash_parts\<close>: the digest of the parts joined by line feeds.\<close>

definition hash_parts :: "(string \<Rightarrow> string) \<Rightarrow> string list \<Rightarrow> string" where
  "hash_parts sha256 parts = sha256 (join_lines parts)"

definition content_matches :: "(string \<Rightarrow> string) \<Rightarrow> string \<Rightarrow> string option \<Rightarrow> bool" where
  "content_matches sha256 content expected = (Some (hash_parts sha256 [content]) = expected)"

definition binding_fields :: "approval_binding \<Rightarrow> rec" where
  "binding_fields b =
     [(''channel_id'', ab_channel_id b), (''kind'', kind_value (ab_kind b)),
      (''policy_version'', str_int (ab_policy_version b)), (''surface'', surface_value (ab_surface b))]"

record deploy_spec =
  dp_skill :: string
  dp_digest :: string
  dp_deploy_nonce :: string
  dp_provenance :: provenance
  dp_peer_attest_mode :: string
  dp_render_version :: int
  dp_posted_text :: string

record publish_spec =
  pb_skill :: string
  pb_digest :: string
  pb_manifest_hash :: string
  pb_tag :: string
  pb_publish_nonce :: string
  pb_render_version :: int
  pb_posted_text :: string

text \<open>
  Texts and patterns: the version 1 cards, their first lines, the other card versions, the groups
  of the binding patterns, and the digest.
\<close>

record spec_env =
  se_sha256 :: "string \<Rightarrow> string"
  se_deploy_v1 :: "deploy_spec \<Rightarrow> string"
  se_deploy_header :: "string \<Rightarrow> string"
  se_legacy_header :: string
  se_deploy_card :: "deploy_spec \<Rightarrow> string"
  se_deploy_match :: "string \<Rightarrow> (string \<times> string \<times> string) option"
  se_publish_v1 :: "publish_spec \<Rightarrow> string"
  se_publish_card :: "publish_spec \<Rightarrow> string"
  se_publish_match :: "string \<Rightarrow> (string \<times> string \<times> string \<times> string \<times> string) option"

definition render_fields :: "spec_env \<Rightarrow> int \<Rightarrow> string \<Rightarrow> rec" where
  "render_fields se version posted_text =
     (if posted_text = [] then []
      else [(''render_version'', str_int version),
            (''content_sha256'', hash_parts (se_sha256 se) [posted_text])])"

definition deploy_key :: "deploy_spec \<Rightarrow> string" where
  "deploy_key s = ''skill-deploy:'' @ dp_skill s"

definition deploy_action_hash :: "spec_env \<Rightarrow> deploy_spec \<Rightarrow> string" where
  "deploy_action_hash se s = hash_parts (se_sha256 se)
     ([''skill-deploy'', dp_skill s, dp_digest s, pv_tag (dp_provenance s), pv_manifest_sha256 (dp_provenance s)] @
      (if pv_personal_head_sha (dp_provenance s) \<noteq> [] then [''personal-head'', pv_personal_head_sha (dp_provenance s)] else []) @
      (if dp_peer_attest_mode s = ''signed'' then [''peer-attest'', ''signed''] else []))"

definition deploy_stored :: "rec \<Rightarrow> stored_binding option" where
  "deploy_stored r =
     (if rget r ''hash'' = [] \<or> rget r ''message_id'' = [] \<or>
         rget r ''action_hash'' \<noteq> [] \<and> rget r ''deploy_nonce'' = [] then None
      else Some \<lparr>sb_action_hash = rget r ''action_hash'', sb_message_id = rget r ''message_id'',
                 sb_nonce = rget r ''deploy_nonce''\<rparr>)"

definition deploy_new_record :: "spec_env \<Rightarrow> deploy_spec \<Rightarrow> string \<Rightarrow> approval_binding \<Rightarrow> rec" where
  "deploy_new_record se s message_id b =
     [(''deploy_nonce'', dp_deploy_nonce s), (''hash'', dp_digest s), (''message_id'', message_id),
      (''action_hash'', deploy_action_hash se s), (''approval_action'', ''skill.deploy''),
      (''approval_destination'', ''skill:'' @ dp_skill s)] @
     (if pv_personal_head_sha (dp_provenance s) \<noteq> []
      then [(''personal_head_sha'', pv_personal_head_sha (dp_provenance s))]
      else if pv_lines (dp_provenance s) \<noteq> [] then [(''provenance_lines'', pv_lines (dp_provenance s))] else []) @
     binding_fields b @ render_fields se (dp_render_version s) (dp_posted_text s)"

definition deploy_bound_stored :: "spec_env \<Rightarrow> deploy_spec \<Rightarrow> string \<Rightarrow> rec \<Rightarrow> bool" where
  "deploy_bound_stored se s content r \<longleftrightarrow>
     map_of r ''render_version'' \<in> {Some ''1'', Some ''2'', Some ''3''} \<and>
     content_matches (se_sha256 se) content (map_of r ''content_sha256'') \<and>
     se_deploy_match se content = Some (dp_skill s, rget r ''hash'', rget r ''deploy_nonce'')"

definition removeprefix :: "string \<Rightarrow> string \<Rightarrow> string" where
  "removeprefix p s = (if starts_with p s then drop (length p) s else s)"

definition deploy_bound :: "spec_env \<Rightarrow> deploy_spec \<Rightarrow> string \<Rightarrow> rec \<Rightarrow> bool" where
  "deploy_bound se s content r =
     (if rget r ''personal_head_sha'' \<noteq> pv_personal_head_sha (dp_provenance s) then False
      else if map_of r ''render_version'' \<noteq> None \<or> map_of r ''content_sha256'' \<noteq> None
      then deploy_bound_stored se s content r
      else let lines = (case map_of r ''provenance_lines'' of Some l \<Rightarrow> l | None \<Rightarrow> pv_lines (dp_provenance s));
               expected = se_deploy_v1 se (s\<lparr>dp_digest := rget r ''hash'', dp_deploy_nonce := rget r ''deploy_nonce'',
                 dp_provenance := (dp_provenance s)\<lparr>pv_lines := lines\<rparr>\<rparr>);
               legacy = se_legacy_header se @ removeprefix (se_deploy_header se (dp_skill s)) expected
           in (content = expected \<or> content = legacy) \<and>
              se_deploy_match se content = Some (dp_skill s, rget r ''hash'', rget r ''deploy_nonce''))"

definition publish_key :: "publish_spec \<Rightarrow> string" where
  "publish_key s = ''skill-publish:'' @ pb_skill s"

definition publish_action_hash :: "spec_env \<Rightarrow> publish_spec \<Rightarrow> string" where
  "publish_action_hash se s = hash_parts (se_sha256 se)
     [''skill-publish'', pb_skill s, pb_digest s, pb_manifest_hash s, pb_tag s]"

definition publish_stored :: "rec \<Rightarrow> stored_binding option" where
  "publish_stored r =
     (if rget r ''hash'' = [] \<or> rget r ''message_id'' = [] \<or>
         rget r ''action_hash'' \<noteq> [] \<and>
           (rget r ''manifest_hash'' = [] \<or> rget r ''tag'' = [] \<or> rget r ''publish_nonce'' = []) then None
      else Some \<lparr>sb_action_hash = rget r ''action_hash'', sb_message_id = rget r ''message_id'',
                 sb_nonce = rget r ''publish_nonce''\<rparr>)"

definition publish_new_record :: "spec_env \<Rightarrow> publish_spec \<Rightarrow> string \<Rightarrow> approval_binding \<Rightarrow> rec" where
  "publish_new_record se s message_id b =
     [(''hash'', pb_digest s), (''manifest_hash'', pb_manifest_hash s), (''message_id'', message_id),
      (''publish_nonce'', pb_publish_nonce s), (''tag'', pb_tag s), (''action_hash'', publish_action_hash se s),
      (''approval_action'', ''skill.publish''), (''approval_destination'', ''skill:'' @ pb_skill s)] @
     binding_fields b @ render_fields se (pb_render_version s) (pb_posted_text s)"

definition publish_bound_stored :: "spec_env \<Rightarrow> publish_spec \<Rightarrow> string \<Rightarrow> rec \<Rightarrow> bool" where
  "publish_bound_stored se s content r \<longleftrightarrow>
     map_of r ''render_version'' \<in> {Some ''1'', Some ''2'', Some ''3''} \<and>
     content_matches (se_sha256 se) content (map_of r ''content_sha256'') \<and>
     se_publish_match se content = Some (pb_skill s, rget r ''hash'', rget r ''manifest_hash'', rget r ''tag'',
       rget r ''publish_nonce'')"

definition publish_bound :: "spec_env \<Rightarrow> publish_spec \<Rightarrow> string \<Rightarrow> rec \<Rightarrow> bool" where
  "publish_bound se s content r =
     (if map_of r ''render_version'' \<noteq> None \<or> map_of r ''content_sha256'' \<noteq> None
      then publish_bound_stored se s content r
      else content = se_publish_v1 se (s\<lparr>pb_digest := rget r ''hash'', pb_manifest_hash := rget r ''manifest_hash'',
             pb_tag := rget r ''tag'', pb_publish_nonce := rget r ''publish_nonce''\<rparr>) \<and>
           se_publish_match se content = Some (pb_skill s, rget r ''hash'', rget r ''manifest_hash'', rget r ''tag'',
             rget r ''publish_nonce''))"

text \<open>What the gate uses of a specification, whichever class it is.\<close>

record gate_spec =
  sp_skill :: string
  sp_digest :: string
  sp_key :: string
  sp_record_name :: string
  sp_action_hash :: string
  sp_stored :: "rec \<Rightarrow> stored_binding option"
  sp_bound :: "string \<Rightarrow> rec \<Rightarrow> bool"
  sp_card :: string
  sp_new_record :: "string \<Rightarrow> approval_binding \<Rightarrow> rec"

definition DeploySpec :: "spec_env \<Rightarrow> deploy_spec \<Rightarrow> gate_spec" where
  "DeploySpec se s = \<lparr>sp_skill = dp_skill s, sp_digest = dp_digest s, sp_key = deploy_key s,
     sp_record_name = dp_skill s, sp_action_hash = deploy_action_hash se s, sp_stored = deploy_stored,
     sp_bound = deploy_bound se s,
     sp_card = (if dp_posted_text s \<noteq> [] then dp_posted_text s
                else if dp_render_version s = 2 \<or> dp_render_version s = 3 then se_deploy_card se s
                else se_deploy_v1 se s),
     sp_new_record = deploy_new_record se s\<rparr>"

definition PublishSpec :: "spec_env \<Rightarrow> publish_spec \<Rightarrow> gate_spec" where
  "PublishSpec se s = \<lparr>sp_skill = pb_skill s, sp_digest = pb_digest s, sp_key = publish_key s,
     sp_record_name = ''publish-'' @ pb_skill s, sp_action_hash = publish_action_hash se s,
     sp_stored = publish_stored, sp_bound = publish_bound se s,
     sp_card = (if pb_posted_text s \<noteq> [] then pb_posted_text s
                else if pb_render_version s = 2 \<or> pb_render_version s = 3 then se_publish_card se s
                else se_publish_v1 se s),
     sp_new_record = publish_new_record se s\<rparr>"

section \<open>The surface (skill_gate_surface.py)\<close>

definition deploy_kind :: "string \<Rightarrow> approval_kind" where
  "deploy_kind skill = (if starts_with ''managed-'' skill then MANAGED_ACTIVATE else SKILL_DEPLOY)"

record 'w supply_surface =
  su_kind :: approval_kind
  su_owner :: string
  su_directory :: "'w channel_directory"
  su_pinned :: "string option"
  su_new_pinned :: "string option"
  su_notice_channel :: "string option"

definition supply_new :: "'w supply_surface \<Rightarrow> ('w, approval_binding) io" where
  "supply_new su = resolve_new_binding (su_kind su) (su_directory su) (su_owner su)
     (if su_new_pinned su = None \<or> su_new_pinned su = Some [] then su_pinned su else su_new_pinned su) None"

definition parent_of :: "'w channel_directory \<Rightarrow> string \<Rightarrow> ('w, string option) io" where
  "parent_of dir channel_id =
     bindM (attemptM (cd_describe dir channel_id)) (\<lambda>r.
     ret (case r of Inl _ \<Rightarrow> None
        | Inr facts \<Rightarrow> if cf_channel_type facts = 11 \<or> cf_channel_type facts = 12 then cf_parent_id facts else None))"

definition surface_of_value :: "string \<Rightarrow> approval_surface option" where
  "surface_of_value s = map_of (map (\<lambda>x. (surface_value x, x)) [OWNER_DM, SKILL_APPROVALS, AGENT_CHAT_THREAD]) s"

text \<open>
  \<open>SupplyChainSurface.stored\<close>. The stamped version is digits of one byte; the three superscript
  digits pass \<open>isdigit\<close> but not \<open>int\<close>, whose \<open>ValueError\<close> is turned like that of an unknown surface.
\<close>

definition supply_stored :: "'w supply_surface \<Rightarrow> rec \<Rightarrow> ('w, approval_binding) io" where
  "supply_stored su r =
     (let stamped = rget r ''policy_version''; channel_id = rget r ''channel_id'';
          surface = rget r ''surface'' in
      bindM (case su_notice_channel su of
               None \<Rightarrow> ret (su_pinned su)
             | Some sel \<Rightarrow>
                 if channel_id = sel then ret (Some sel)
                 else bindM (if channel_id = [] then ret None else parent_of (su_directory su) channel_id) (\<lambda>p.
                      ret (if p = Some sel then Some sel else su_pinned su))) (\<lambda>pinned.
      if \<not> py_isdigit stamped \<or> channel_id = [] \<or> surface = [] then
        legacy_binding (su_kind su) (if channel_id = [] then None else Some channel_id) (su_directory su)
          (su_owner su) pinned
      else if rget r ''kind'' \<noteq> kind_value (su_kind su) then raise SurfacePolicyError
      else case surface_of_value surface of
        None \<Rightarrow> raise SurfacePolicyError
      | Some sf \<Rightarrow>
          if \<not> list_all dec_char stamped then raise SurfacePolicyError
          else bindM (ApprovalBinding (su_kind su) sf channel_id (dec_value stamped) None) (\<lambda>b.
               validate_stored_binding b (su_directory su) (su_owner su) TRANSITIONS pinned)))"

definition binding_of_post :: "approval_kind \<Rightarrow> string \<Rightarrow> ('w, approval_binding) io" where
  "binding_of_post kind channel_id =
     bindM (lift_sum (required_surface kind)) (\<lambda>s. ApprovalBinding kind s channel_id POLICY_VERSION None)"

section \<open>The gate (skill_gate_approval.py)\<close>

datatype pending_file = PUnreadable | PGarbled | PValue json

record 'x pending_store =
  pn_files :: "(string \<times> pending_file) list"
  pn_rest :: 'x

type_synonym 'x sgw = "'x pending_store world"

record 'x gate_surface =
  sf_api :: "string \<Rightarrow> string \<Rightarrow> json option \<Rightarrow> ('x sgw, json) io"
  sf_owner_id :: "('x sgw, string) io"
  sf_str :: "json \<Rightarrow> string"
  sf_bindings :: "'x sgw supply_surface"

record 'x skill_gate =
  sg_surface :: "'x gate_surface"
  sg_spec :: gate_spec

fun string_fields :: "jobj \<Rightarrow> rec option" where
  "string_fields [] = Some []"
| "string_fields ((k, JStr v) # d) = map_option (Cons (k, v)) (string_fields d)"
| "string_fields ((k, _) # d) = None"

definition record_of :: "pending_file option \<Rightarrow> py_exn + rec option" where
  "record_of f =
     (case f of
        None \<Rightarrow> Inr None
      | Some (PValue (JObj d)) \<Rightarrow>
          (case string_fields d of Some r \<Rightarrow> Inr (Some r) | None \<Rightarrow> Inl ApprovalRecordsError)
      | Some _ \<Rightarrow> Inl ApprovalRecordsError)"

definition pending_of :: "string \<Rightarrow> 'x sgw \<Rightarrow> pending_file option" where
  "pending_of name w = map_of (pn_files (w_gate w)) name"

definition gate_stored :: "'x skill_gate \<Rightarrow> ('x sgw, rec option) io" where
  "gate_stored g = (\<lambda>w. (record_of (pending_of (sp_record_name (sg_spec g)) w), w))"

definition gate_binding :: "'x skill_gate \<Rightarrow> ('x sgw, stored_binding option) io" where
  "gate_binding g = bindM (gate_stored g) (\<lambda>r. case r of
     None \<Rightarrow> ret None
   | Some rec \<Rightarrow> (case sp_stored (sg_spec g) rec of
        None \<Rightarrow> raise ApprovalRecordsError | Some b \<Rightarrow> ret (Some b)))"

definition channel_of :: "'x skill_gate \<Rightarrow> rec \<Rightarrow> ('x sgw, string) io" where
  "channel_of g rec = bindM (supply_stored (sf_bindings (sg_surface g)) rec) (\<lambda>b. ret (ab_channel_id b))"

definition gate_channel_id :: "'x skill_gate \<Rightarrow> ('x sgw, string) io" where
  "gate_channel_id g = bindM (gate_stored g) (\<lambda>r. case r of
     None \<Rightarrow> bindM (supply_new (sf_bindings (sg_surface g))) (\<lambda>b. ret (ab_channel_id b))
   | Some rec \<Rightarrow> channel_of g rec)"

definition gate_outstanding :: "'x skill_gate \<Rightarrow> string \<Rightarrow> ('x sgw, approval_request list) io" where
  "gate_outstanding g key =
     (if key \<noteq> sp_key (sg_spec g) then raise ApprovalRecordsError
      else bindM (gate_stored g) (\<lambda>r. case r of
        None \<Rightarrow> ret []
      | Some rec \<Rightarrow> (case sp_stored (sg_spec g) rec of
          None \<Rightarrow> raise ApprovalRecordsError
        | Some b \<Rightarrow> bindM (channel_of g rec) (\<lambda>c.
            ret [\<lparr>rq_key = key, rq_action_hash = sb_action_hash b, rq_message_id = sb_message_id b,
                  rq_channel_id = c, rq_created_at = []\<rparr>]))))"

definition gate_new_record :: "'x skill_gate \<Rightarrow> posted_approval \<Rightarrow> ('x sgw, rec) io" where
  "gate_new_record g p =
     bindM (binding_of_post (su_kind (sf_bindings (sg_surface g))) (pa_channel_id p)) (\<lambda>b.
     ret (sp_new_record (sg_spec g) (pa_message_id p) b))"

text \<open>The tuple \<open>_TRANSPORT_ERRORS\<close>, all turned into the lifecycle's surface error.\<close>

definition gate_transport_exn :: "py_exn \<Rightarrow> bool" where
  "gate_transport_exn e \<longleftrightarrow> is_os_error e \<or> is_value_error e \<or> e = KeyError \<or> e = TypeError"

definition card_path :: "approval_request \<Rightarrow> string" where
  "card_path r = ''/channels/'' @ rq_channel_id r @ ''/messages/'' @ rq_message_id r"

definition gate_get :: "'x skill_gate \<Rightarrow> string \<Rightarrow> ('x sgw, json option) io" where
  "gate_get g path =
     tryM (bindM (sf_api (sg_surface g) ''GET'' path None) (\<lambda>j. ret (Some j)))
       (\<lambda>e. if e = HTTPError 404 then ret None
            else if gate_transport_exn e then raise ApprovalSurfaceError else raise e)"

definition gate_content :: "'x skill_gate \<Rightarrow> approval_request \<Rightarrow> ('x sgw, string option) io" where
  "gate_content g r = bindM (gate_get g (card_path r)) (\<lambda>m.
     ret (case m of
        Some (JObj d) \<Rightarrow> (case jget d ''content'' of Some (JStr s) \<Rightarrow> if s = [] then None else Some s | _ \<Rightarrow> None)
      | _ \<Rightarrow> None))"

text \<open>\<open>str(v)\<close> is a parameter for values that are no strings.\<close>

definition owner_entry :: "(json \<Rightarrow> string) \<Rightarrow> string \<Rightarrow> json \<Rightarrow> bool" where
  "owner_entry str owner user = (case user of
     JObj d \<Rightarrow> (case jget_or d ''id'' (JStr []) of JStr i \<Rightarrow> i | v \<Rightarrow> str v) = owner \<and> \<not> truthy (jget_or d ''bot'' (JBool False))
   | _ \<Rightarrow> False)"

definition SG_APPROVE :: string where
  "SG_APPROVE = ''%E2%9C%85''"

definition SG_CANCEL :: string where
  "SG_CANCEL = ''%E2%9B%94''"

definition gate_owner_reacted :: "'x skill_gate \<Rightarrow> approval_request \<Rightarrow> string \<Rightarrow> ('x sgw, bool) io" where
  "gate_owner_reacted g r emoji =
     bindM (gate_get g (card_path r @ ''/reactions/'' @ emoji @ ''?limit=100'')) (\<lambda>users.
     case users of
       Some (JArr us) \<Rightarrow> bindM (sf_owner_id (sg_surface g)) (\<lambda>owner. ret (list_ex (owner_entry (sf_str (sg_surface g)) owner) us))
     | _ \<Rightarrow> ret False)"

text \<open>\<open>owner_decision\<close>: the stop reaction wins over the approval.\<close>

datatype owner_decision = Denied | Approved | Absent_decision

definition decide_owner :: "(string \<Rightarrow> ('w, bool) io) \<Rightarrow> ('w, owner_decision) io" where
  "decide_owner reacted =
     bindM (reacted SG_CANCEL) (\<lambda>no. if no then ret Denied
       else bindM (reacted SG_APPROVE) (\<lambda>yes. ret (if yes then Approved else Absent_decision)))"

definition gate_probe :: "'x skill_gate \<Rightarrow> approval_request \<Rightarrow> ('x sgw, probe) io" where
  "gate_probe g r =
     bindM (tryM (gate_stored g) (\<lambda>e. raise (if e = ApprovalRecordsError then ApprovalSurfaceError else e))) (\<lambda>stored.
     bindM (gate_content g r) (\<lambda>content.
     case content of
       None \<Rightarrow> ret MISSING
     | Some body \<Rightarrow>
         (case stored of
            None \<Rightarrow> ret BINDING_MISMATCH
          | Some rec \<Rightarrow>
              (case sp_stored (sg_spec g) rec of
                 None \<Rightarrow> ret BINDING_MISMATCH
               | Some b \<Rightarrow>
                   bindM (if sb_action_hash b = []
                          then bindM (channel_of g rec) (\<lambda>c.
                               ret (rq_key r = sp_key (sg_spec g) \<and> rq_action_hash r = [] \<and>
                                    rq_message_id r = sb_message_id b \<and> rq_channel_id r = c))
                          else ret (sp_bound (sg_spec g) body rec)) (\<lambda>bound.
                   if \<not> bound then ret BINDING_MISMATCH
                   else bindM (decide_owner (gate_owner_reacted g r)) (\<lambda>d.
                     ret (case d of Denied \<Rightarrow> CANCELLED | Approved \<Rightarrow> APPROVED | Absent_decision \<Rightarrow> BOUND_PENDING)))))))"

definition unlink_record :: "'x skill_gate \<Rightarrow> ('x sgw, unit) io" where
  "unlink_record g = (\<lambda>w. if \<not> w_disk w then (Inl OSError, w)
     else (Inr (), w\<lparr>w_gate := (w_gate w)\<lparr>pn_files :=
       filter (\<lambda>(n, _). n \<noteq> sp_record_name (sg_spec g)) (pn_files (w_gate w))\<rparr>\<rparr>))"

definition gate_delete :: "'x skill_gate \<Rightarrow> approval_request \<Rightarrow> ('x sgw, unit) io" where
  "gate_delete g r =
     tryM (bindM (sf_api (sg_surface g) ''DELETE'' (card_path r) None) (\<lambda>_. ret ()))
       (\<lambda>e. if e = HTTPError 404 then ret ()
            else if gate_transport_exn e then raise ApprovalSurfaceError else raise e)"

definition gate_drop :: "'x skill_gate \<Rightarrow> approval_request \<Rightarrow> ('x sgw, unit) io" where
  "gate_drop g r =
     (if rq_key r \<noteq> sp_key (sg_spec g) then ret ()
      else bindM (tryM (gate_binding g) (\<lambda>e. if e = ApprovalRecordsError then ret None else raise e)) (\<lambda>found.
        case found of
          None \<Rightarrow> ret ()
        | Some b \<Rightarrow> if sb_action_hash b = rq_action_hash r \<and> sb_message_id b = rq_message_id r
                    then unlink_record g else ret ()))"

definition gate_post :: "'x skill_gate \<Rightarrow> approval_intent \<Rightarrow> ('x sgw, posted_approval) io" where
  "gate_post g intent =
     bindM (tryM (sf_api (sg_surface g) ''POST'' (''/channels/'' @ in_channel_id intent @ ''/messages'')
               (Some (JObj [(''content'', JStr (sp_card (sg_spec g)))])))
             (\<lambda>e. raise (if gate_transport_exn e then ApprovalSurfaceError else e))) (\<lambda>message.
     case message of
       JObj d \<Rightarrow> (case jget d ''id'' of
          Some (JStr i) \<Rightarrow> if i = [] then raise ApprovalSurfaceError
             else ret \<lparr>pa_message_id = i, pa_channel_id = in_channel_id intent\<rparr>
        | _ \<Rightarrow> raise ApprovalSurfaceError)
     | _ \<Rightarrow> raise ApprovalSurfaceError)"

definition write_record :: "'x skill_gate \<Rightarrow> rec \<Rightarrow> ('x sgw, unit) io" where
  "write_record g rec = (\<lambda>w. if \<not> w_disk w then (Inl OSError, w)
     else (Inr (), w\<lparr>w_gate := (w_gate w)\<lparr>pn_files :=
       dict_set (sp_record_name (sg_spec g)) (PValue (JObj (map (\<lambda>(k, v). (k, JStr v)) rec)))
         (pn_files (w_gate w))\<rparr>\<rparr>))"

definition seed_reaction :: "'x skill_gate \<Rightarrow> posted_approval \<Rightarrow> string \<Rightarrow> ('x sgw, unit) io" where
  "seed_reaction g p emoji =
     tryM (bindM (sf_api (sg_surface g) ''PUT'' (''/channels/'' @ pa_channel_id p @ ''/messages/'' @ pa_message_id p @
             ''/reactions/'' @ emoji @ ''/@me'') None) (\<lambda>_. ret ()))
       (\<lambda>e. if gate_transport_exn e then ret () else raise e)"

definition gate_commit :: "'x skill_gate \<Rightarrow> approval_intent \<Rightarrow> posted_approval \<Rightarrow> string \<Rightarrow> ('x sgw, unit) io" where
  "gate_commit g intent p created_at =
     bindM (\<lambda>w. if w_disk w then (Inr (), w) else (Inl OSError, w)) (\<lambda>_.
     bindM (gate_new_record g p) (\<lambda>rec.
     bindM (write_record g rec) (\<lambda>_.
     bindM (seed_reaction g p SG_APPROVE) (\<lambda>_. seed_reaction g p SG_CANCEL))))"

definition skill_gate_ops :: "'x skill_gate \<Rightarrow> 'x sgw gate" where
  "skill_gate_ops g = \<lparr>g_outstanding = gate_outstanding g, g_probe = gate_probe g, g_delete = gate_delete g,
     g_drop = gate_drop g, g_post = gate_post g, g_commit = gate_commit g, g_restore = None\<rparr>"

section \<open>Judging an execution (skill_gate_approval.py)\<close>

datatype reject_cause =
    RECORD_ABSENT | RECORD_UNREADABLE | LEGACY_BINDING_INCOMPLETE | BINDING_UNREADABLE | KEY_MISMATCH
  | SHA_MISMATCH | MESSAGE_ID_MISMATCH | NONCE_MISMATCH | ACTION_MISMATCH | DESTINATION_MISMATCH
  | CHANNEL_MISMATCH | PENDING_NONCE_REUSED | PENDING_RECORD_UNREADABLE | APPROVAL_LOG_UNREADABLE
  | APPROVAL_LOG_NONCE_REBOUND | SURFACE_UNVERIFIABLE | RC_MESSAGE_MISSING | PROBE_BINDING_MISMATCH
  | PROBE_UNVERIFIABLE | OWNER_CANCELLED | OWNER_REACTION_ABSENT

fun PROBE_CAUSES :: "probe \<Rightarrow> reject_cause option" where
  "PROBE_CAUSES MISSING = Some RC_MESSAGE_MISSING"
| "PROBE_CAUSES BINDING_MISMATCH = Some PROBE_BINDING_MISMATCH"
| "PROBE_CAUSES UNVERIFIABLE = Some PROBE_UNVERIFIABLE"
| "PROBE_CAUSES CANCELLED = Some OWNER_CANCELLED"
| "PROBE_CAUSES BOUND_PENDING = Some OWNER_REACTION_ABSENT"
| "PROBE_CAUSES APPROVED = None"

record binding_outcome =
  bo_state :: "probe option"
  bo_cause :: "reject_cause option"

definition outcome_approved :: "binding_outcome \<Rightarrow> bool" where
  "outcome_approved o' \<longleftrightarrow> bo_state o' = Some APPROVED"

definition outcome_bound :: "binding_outcome \<Rightarrow> bool" where
  "outcome_bound o' \<longleftrightarrow> bo_state o' \<in> {Some APPROVED, Some BOUND_PENDING}"

definition refused_for :: "reject_cause \<Rightarrow> binding_outcome" where
  "refused_for c = \<lparr>bo_state = None, bo_cause = Some c\<rparr>"

record approval_execution =
  ex_request :: approval_request
  ex_nonce :: string
  ex_action :: string
  ex_destination :: string

text \<open>\<open>_pending_nonce_reused\<close>: the nonce in another pending record, or a record that cannot be read.\<close>

fun nonce_in :: "string \<Rightarrow> (string \<times> pending_file) list \<Rightarrow> string \<Rightarrow> reject_cause option" where
  "nonce_in own [] nonce = None"
| "nonce_in own ((name, f) # fs) nonce =
     (if name = own then nonce_in own fs nonce
      else case f of
        PValue (JObj d) \<Rightarrow>
          if jget_or d ''deploy_nonce'' (jget_or d ''publish_nonce'' (jget_or d ''release_nonce'' JNull)) = JStr nonce
          then Some PENDING_NONCE_REUSED else nonce_in own fs nonce
      | _ \<Rightarrow> Some PENDING_RECORD_UNREADABLE)"

definition pending_nonce_reused :: "'x skill_gate \<Rightarrow> string \<Rightarrow> ('x sgw, reject_cause option) io" where
  "pending_nonce_reused g nonce =
     getsM (\<lambda>w. nonce_in (sp_record_name (sg_spec g)) (pn_files (w_gate w)) nonce)"

text \<open>
  \<open>_approval_nonce_reused\<close>: a line of the approval log that binds the nonce to anything else. The
  log is absent, unreadable, or its lines.
\<close>

definition expected_binding :: "approval_execution \<Rightarrow> jobj" where
  "expected_binding x =
     [(''action'', JStr (ex_action x)), (''action_hash'', JStr (rq_action_hash (ex_request x))),
      (''deploy_nonce'', JStr (ex_nonce x)), (''destination'', JStr (ex_destination x)),
      (''message_id'', JStr (rq_message_id (ex_request x)))]"

definition same_object :: "jobj \<Rightarrow> jobj \<Rightarrow> bool" where
  "same_object a b \<longleftrightarrow> set (map fst a) = set (map fst b) \<and> list_all (\<lambda>(k, v). map_of b k = Some v) a"

fun nonce_rebound :: "json_codec \<Rightarrow> approval_execution \<Rightarrow> string list \<Rightarrow> py_exn + reject_cause option" where
  "nonce_rebound js x [] = Inr None"
| "nonce_rebound js x (line # lines) =
     (case js_loads js line of
        Inl e \<Rightarrow> if e = JSONDecodeError then nonce_rebound js x lines else Inl e
      | Inr (JObj d) \<Rightarrow>
          (case jget d ''binding'' of
             Some (JObj b) \<Rightarrow>
               if jget b ''deploy_nonce'' = Some (JStr (ex_nonce x)) \<and> \<not> same_object b (expected_binding x)
               then Inr (Some APPROVAL_LOG_NONCE_REBOUND) else nonce_rebound js x lines
           | _ \<Rightarrow> nonce_rebound js x lines)
      | Inr _ \<Rightarrow> nonce_rebound js x lines)"

definition approval_nonce_reused ::
  "json_codec \<Rightarrow> approval_execution \<Rightarrow> (py_exn + string) option \<Rightarrow> py_exn + reject_cause option" where
  "approval_nonce_reused js x log_file =
     (case log_file of
        None \<Rightarrow> Inr None
      | Some (Inl e) \<Rightarrow> if is_os_error e then Inr (Some APPROVAL_LOG_UNREADABLE) else Inl e
      | Some (Inr content) \<Rightarrow> nonce_rebound js x (py_splitlines [] content))"

text \<open>The table of the seven comparisons, in order; the first difference names the cause.\<close>

fun first_mismatch :: "(reject_cause \<times> string \<times> string) list \<Rightarrow> reject_cause option" where
  "first_mismatch [] = None"
| "first_mismatch ((c, a, b) # rows) = (if a \<noteq> b then Some c else first_mismatch rows)"

definition comparisons :: "gate_spec \<Rightarrow> approval_execution \<Rightarrow> rec \<Rightarrow> stored_binding \<Rightarrow> string \<Rightarrow>
    (reject_cause \<times> string \<times> string) list" where
  "comparisons sp x rec b c =
     [(KEY_MISMATCH, rq_key (ex_request x), sp_key sp),
      (SHA_MISMATCH, sb_action_hash b, rq_action_hash (ex_request x)),
      (MESSAGE_ID_MISMATCH, sb_message_id b, rq_message_id (ex_request x)),
      (NONCE_MISMATCH, sb_nonce b, ex_nonce x),
      (ACTION_MISMATCH, rget rec ''approval_action'', ex_action x),
      (DESTINATION_MISMATCH, rget rec ''approval_destination'', ex_destination x),
      (CHANNEL_MISMATCH, c, rq_channel_id (ex_request x))]"

definition lifecycle_exn :: "py_exn \<Rightarrow> bool" where
  "lifecycle_exn e \<longleftrightarrow> e = ApprovalRecordsError \<or> e = ApprovalSurfaceError"

definition binding_outcome_of ::
  "json_codec \<Rightarrow> (py_exn + string) option \<Rightarrow> 'x skill_gate \<Rightarrow> approval_execution \<Rightarrow> ('x sgw, binding_outcome) io" where
  "binding_outcome_of js log_file g x =
     bindM (attemptM (gate_stored g)) (\<lambda>stored.
     case stored of
       Inl e \<Rightarrow> if lifecycle_exn e then ret (refused_for RECORD_UNREADABLE) else raise e
     | Inr None \<Rightarrow> ret (refused_for RECORD_ABSENT)
     | Inr (Some rec) \<Rightarrow>
         (case sp_stored (sg_spec g) rec of
            None \<Rightarrow> ret (refused_for LEGACY_BINDING_INCOMPLETE)
          | Some b \<Rightarrow>
              bindM (attemptM (channel_of g rec)) (\<lambda>channel.
              case channel of
                Inl e \<Rightarrow> if lifecycle_exn e then ret (refused_for BINDING_UNREADABLE) else raise e
              | Inr c \<Rightarrow>
                  (case first_mismatch (comparisons (sg_spec g) x rec b c) of
                     Some cause \<Rightarrow> ret (refused_for cause)
                   | None \<Rightarrow>
                       bindM (pending_nonce_reused g (ex_nonce x)) (\<lambda>p.
                       bindM (case p of Some cause \<Rightarrow> ret p
                              | None \<Rightarrow> lift_sum (approval_nonce_reused js x log_file)) (\<lambda>reused.
                       case reused of
                         Some cause \<Rightarrow> ret (refused_for cause)
                       | None \<Rightarrow>
                           bindM (attemptM (gate_probe g (ex_request x))) (\<lambda>probed.
                           case probed of
                             Inl e \<Rightarrow> if e = ApprovalSurfaceError then ret (refused_for SURFACE_UNVERIFIABLE) else raise e
                           | Inr p \<Rightarrow> ret \<lparr>bo_state = Some p, bo_cause = PROBE_CAUSES p\<rparr>)))))))"

definition valid_approval ::
  "json_codec \<Rightarrow> (py_exn + string) option \<Rightarrow> 'x skill_gate \<Rightarrow> approval_execution \<Rightarrow> ('x sgw, bool) io" where
  "valid_approval js log_file g x = bindM (binding_outcome_of js log_file g x) (\<lambda>o'. ret (outcome_approved o'))"

definition valid_binding ::
  "json_codec \<Rightarrow> (py_exn + string) option \<Rightarrow> 'x skill_gate \<Rightarrow> approval_execution \<Rightarrow> ('x sgw, bool) io" where
  "valid_binding js log_file g x = bindM (binding_outcome_of js log_file g x) (\<lambda>o'. ret (outcome_bound o'))"

section \<open>Requesting (skill_gate_request.py)\<close>

definition LIFECYCLE_REFUSAL_EXIT :: int where
  "LIFECYCLE_REFUSAL_EXIT = 6"

record requested =
  rd_record :: "rec option"
  rd_exit_code :: int
  rd_refusal :: "reason option"
  rd_posted :: bool

definition refused_request :: "reason \<Rightarrow> requested" where
  "refused_request r = \<lparr>rd_record = None, rd_exit_code = LIFECYCLE_REFUSAL_EXIT, rd_refusal = Some r, rd_posted = False\<rparr>"

definition clear_one :: "'w gate \<Rightarrow> approval_request \<Rightarrow> ('w, reason option) io" where
  "clear_one g r =
     bindM (attemptM (g_probe g r)) (\<lambda>p.
     case p of
       Inl e \<Rightarrow> if surface_exn e then ret (Some R_UNVERIFIABLE) else raise e
     | Inr APPROVED \<Rightarrow> ret (Some OWNER_DECIDED)
     | Inr CANCELLED \<Rightarrow> ret (Some OWNER_DECIDED)
     | Inr UNVERIFIABLE \<Rightarrow> ret (Some R_UNVERIFIABLE)
     | Inr BINDING_MISMATCH \<Rightarrow> ret (Some R_BINDING_MISMATCH)
     | Inr MISSING \<Rightarrow> bindM (g_drop g r) (\<lambda>_. ret None)
     | Inr BOUND_PENDING \<Rightarrow> bindM (attemptM (g_delete g r)) (\<lambda>d.
         case d of
           Inl e \<Rightarrow> if surface_exn e then ret (Some SUPERSEDE_FAILED) else raise e
         | Inr _ \<Rightarrow> bindM (g_drop g r) (\<lambda>_. ret None)))"

fun clear_each :: "'w gate \<Rightarrow> approval_request list \<Rightarrow> ('w, reason option) io" where
  "clear_each g [] = ret None"
| "clear_each g (r # rs) = bindM (clear_one g r) (\<lambda>why. case why of Some x \<Rightarrow> ret (Some x) | None \<Rightarrow> clear_each g rs)"

definition supersede :: "'g world gate \<Rightarrow> string \<Rightarrow> ('g world, reason option) io" where
  "supersede g key = hold key (\<lambda>owned.
     if \<not> owned then ret (Some LEASE_HELD)
     else bindM (attemptM (g_outstanding g key)) (\<lambda>o'.
       case o' of
         Inl e \<Rightarrow> if e = ApprovalRecordsError then ret (Some STORE_UNREADABLE) else raise e
       | Inr rs \<Rightarrow> clear_each g rs))"

definition settle :: "'x skill_gate \<Rightarrow> verdict \<Rightarrow> ('x sgw, requested) io" where
  "settle g v =
     (case v_outcome v of
        POSTED \<Rightarrow> (case v_posted v of
            None \<Rightarrow> ret (refused_request SUPERSEDE_FAILED)
          | Some p \<Rightarrow> bindM (gate_new_record g p) (\<lambda>rec.
              ret \<lparr>rd_record = Some rec, rd_exit_code = 0, rd_refusal = None, rd_posted = True\<rparr>))
      | PENDING \<Rightarrow> bindM (attemptM (gate_stored g)) (\<lambda>s.
          case s of
            Inl e \<Rightarrow> if e = ApprovalRecordsError then ret (refused_request STORE_UNREADABLE) else raise e
          | Inr None \<Rightarrow> ret (refused_request MESSAGE_MISSING)
          | Inr (Some rec) \<Rightarrow> ret \<lparr>rd_record = Some rec, rd_exit_code = 0, rd_refusal = None, rd_posted = False\<rparr>)
      | _ \<Rightarrow> ret (refused_request (case v_reason v of Some r \<Rightarrow> r | None \<Rightarrow> R_UNVERIFIABLE)))"

definition reuse :: "'x skill_gate \<Rightarrow> ('x sgw, requested option) io" where
  "reuse g = bindM (attemptM (gate_stored g)) (\<lambda>s.
     case s of
       Inl e \<Rightarrow> if e = ApprovalRecordsError then ret (Some (refused_request STORE_UNREADABLE)) else raise e
     | Inr None \<Rightarrow> ret None
     | Inr (Some rec) \<Rightarrow>
         (case sp_stored (sg_spec g) rec of
            None \<Rightarrow> ret (Some (refused_request STORE_UNREADABLE))
          | Some b \<Rightarrow> ret (if sb_action_hash b = sp_action_hash (sg_spec g)
              then Some \<lparr>rd_record = Some rec, rd_exit_code = 0, rd_refusal = None, rd_posted = False\<rparr> else None)))"

text \<open>
  \<open>post_request\<close> after \<open>_prepare_card\<close>, which fixes the text of the card or refuses: \<open>prepared\<close> is
  its result.
\<close>

definition post_request :: "'x skill_gate option \<Rightarrow> bool \<Rightarrow> ('x sgw, requested) io" where
  "post_request prepared fresh =
     (case prepared of
        None \<Rightarrow> ret (refused_request R_UNVERIFIABLE)
      | Some g \<Rightarrow>
          bindM (if fresh then supersede (skill_gate_ops g) (sp_key (sg_spec g)) else ret None) (\<lambda>refusal.
          case refusal of
            Some r \<Rightarrow> ret (refused_request r)
          | None \<Rightarrow>
              bindM (gate_channel_id g) (\<lambda>c.
              bindM (request_owner_approval \<lparr>in_key = sp_key (sg_spec g), in_action_hash = sp_action_hash (sg_spec g),
                  in_channel_id = c\<rparr> (skill_gate_ops g) None None) (settle g))))"

section \<open>Retiring (skill_gate_retire.py)\<close>

datatype retirement =
    CONSUMED_R | ABANDONED | R_RECORD_ABSENT | RECORD_SUPERSEDED | RT_BINDING_MISMATCH | RT_STORE_UNREADABLE
  | RT_LEASE_HELD | DROP_FAILED | AUDIT_FAILED | RT_SUPERSEDE_FAILED | NOT_LEGACY

record retired =
  rt_outcome :: retirement
  rt_exit_code :: int

definition RETIREMENT_REFUSAL_EXIT :: int where
  "RETIREMENT_REFUSAL_EXIT = 1"

definition retire_failed :: "retirement \<Rightarrow> retired" where
  "retire_failed o' = \<lparr>rt_outcome = o', rt_exit_code = RETIREMENT_REFUSAL_EXIT\<rparr>"

definition matched :: "'x skill_gate \<Rightarrow> string \<Rightarrow> ('x sgw, retirement + rec) io" where
  "matched g message_id = bindM (attemptM (gate_stored g)) (\<lambda>s.
     case s of
       Inl e \<Rightarrow> if e = ApprovalRecordsError then ret (Inl RT_STORE_UNREADABLE) else raise e
     | Inr None \<Rightarrow> ret (Inl R_RECORD_ABSENT)
     | Inr (Some rec) \<Rightarrow>
         ret (if rget rec ''hash'' \<noteq> sp_digest (sg_spec g) \<or> rget rec ''message_id'' \<noteq> message_id
              then Inl RECORD_SUPERSEDED else Inr rec))"

text \<open>\<open>consume\<close>: the part under the lease, then the whole.\<close>

definition consume_owned :: "'x skill_gate \<Rightarrow> string \<Rightarrow> ('x sgw, retired) io" where
  "consume_owned g message_id = bindM (matched g message_id) (\<lambda>found.
     case found of
       Inl o' \<Rightarrow> ret (if o' = R_RECORD_ABSENT \<or> o' = RECORD_SUPERSEDED
           then \<lparr>rt_outcome = o', rt_exit_code = 0\<rparr> else retire_failed o')
     | Inr rec \<Rightarrow> bindM (attemptM (unlink_record g)) (\<lambda>u.
         case u of
           Inl e \<Rightarrow> if is_os_error e then ret (retire_failed DROP_FAILED) else raise e
         | Inr _ \<Rightarrow> ret \<lparr>rt_outcome = CONSUMED_R, rt_exit_code = 0\<rparr>))"

definition consume :: "'x skill_gate \<Rightarrow> string \<Rightarrow> ('x sgw, retired) io" where
  "consume g message_id = hold (sp_key (sg_spec g)) (\<lambda>owned.
     if \<not> owned then ret (retire_failed RT_LEASE_HELD) else consume_owned g message_id)"

record abandon_order =
  ao_message_id :: string
  ao_reason :: string
  ao_actor :: string
  ao_legacy_only :: bool

definition SCHEMA_FIELDS :: "string list" where
  "SCHEMA_FIELDS = [''action_hash'', ''kind'', ''channel_id'', ''policy_version'', ''surface'']"

definition skill_abandon :: "'x skill_gate \<Rightarrow> abandon_order \<Rightarrow> ('x sgw, retired) io" where
  "skill_abandon g order = hold (sp_key (sg_spec g)) (\<lambda>owned.
     if \<not> owned then ret (retire_failed RT_LEASE_HELD)
     else bindM (matched g (ao_message_id order)) (\<lambda>found.
       case found of
         Inl o' \<Rightarrow> ret (retire_failed (if o' = RECORD_SUPERSEDED then RT_BINDING_MISMATCH else o'))
       | Inr rec \<Rightarrow>
           if ao_legacy_only order \<and> set SCHEMA_FIELDS \<subseteq> set (map fst rec) then ret (retire_failed NOT_LEGACY)
           else if map_of rec ''hash'' = None \<or> map_of rec ''message_id'' = None then raise KeyError
           else bindM now (\<lambda>stamp.
             bindM (attemptM (append_audit
               [(''actor'', JStr (ao_actor order)), (''event'', JStr ''skill-gate-abandon''),
                (''hash'', JStr (rget rec ''hash'')), (''key'', JStr (sp_key (sg_spec g))),
                (''message_id'', JStr (rget rec ''message_id'')), (''reason'', JStr (ao_reason order)),
                (''skill'', JStr (sp_skill (sg_spec g))), (''timestamp'', JStr stamp)])) (\<lambda>a.
             case a of
               Inl e \<Rightarrow> if is_os_error e then ret (retire_failed AUDIT_FAILED) else raise e
             | Inr _ \<Rightarrow> bindM (attemptM (unlink_record g)) (\<lambda>u.
                 case u of
                   Inl e \<Rightarrow> if is_os_error e then ret (retire_failed DROP_FAILED) else raise e
                 | Inr _ \<Rightarrow> ret \<lparr>rt_outcome = ABANDONED, rt_exit_code = 0\<rparr>)))))"

section \<open>The pending records as a record store\<close>

text \<open>
  The card a pending record stands for, with the channel its stored binding resolves to as a
  parameter, and the effect of a drop on the files.
\<close>

definition pending_cards ::
  "gate_spec \<Rightarrow> (rec \<Rightarrow> string) \<Rightarrow> string \<Rightarrow> (string \<times> pending_file) list \<Rightarrow> approval_request list" where
  "pending_cards sp chan key files =
     (if key \<noteq> sp_key sp then []
      else case record_of (map_of files (sp_record_name sp)) of
        Inr (Some rec) \<Rightarrow>
          (case sp_stored sp rec of
             Some b \<Rightarrow> [\<lparr>rq_key = key, rq_action_hash = sb_action_hash b, rq_message_id = sb_message_id b,
                        rq_channel_id = chan rec, rq_created_at = []\<rparr>]
           | None \<Rightarrow> [])
      | _ \<Rightarrow> [])"

definition without_record :: "gate_spec \<Rightarrow> (string \<times> pending_file) list \<Rightarrow> (string \<times> pending_file) list" where
  "without_record sp files = filter (\<lambda>(n, _). n \<noteq> sp_record_name sp) files"

definition drop_pending ::
  "gate_spec \<Rightarrow> approval_request \<Rightarrow> (string \<times> pending_file) list \<Rightarrow> (string \<times> pending_file) list" where
  "drop_pending sp r files =
     (if list_ex (same_card r) (pending_cards sp (\<lambda>_. []) (sp_key sp) files)
      then without_record sp files else files)"

lemma map_of_without [simp]:
  "map_of (without_record sp files) n = (if n = sp_record_name sp then None else map_of files n)"
  by (induction files) (auto simp: without_record_def)

lemma cards_without [simp]: "pending_cards sp chan k (without_record sp files) = []"
  by (simp add: pending_cards_def record_of_def)

lemma pending_cards_single:
  "pending_cards sp chan k files = [] \<or>
   (\<exists>rec b. pending_cards sp chan k files =
      [\<lparr>rq_key = k, rq_action_hash = sb_action_hash b, rq_message_id = sb_message_id b,
        rq_channel_id = chan rec, rq_created_at = []\<rparr>] \<and>
      k = sp_key sp \<and> record_of (map_of files (sp_record_name sp)) = Inr (Some rec) \<and>
      sp_stored sp rec = Some b)"
  by (auto simp: pending_cards_def split: sum.splits option.splits)

text \<open>The pending records of every specification satisfy the record contract of the lifecycle.\<close>

interpretation pending_records: approval_records "pending_cards sp chan" "drop_pending sp" for sp chan
proof
  fix k r files
  show "pending_cards sp chan k (drop_pending sp r files) =
      filter (\<lambda>x. \<not> same_card r x) (pending_cards sp chan k files)"
    by (auto simp: drop_pending_def same_card_def pending_cards_def record_of_def
        split: sum.splits option.splits)
qed

text \<open>The operations of the gate on that store.\<close>

definition pending_files :: "'x sgw \<Rightarrow> (string \<times> pending_file) list" where
  "pending_files w = pn_files (w_gate w)"

lemma gate_drop_files:
  assumes "gate_drop g r w = (Inr (), w')"
  shows "pending_files w' = drop_pending (sg_spec g) r (pending_files w)"
  using assms pending_cards_single[of "sg_spec g" "\<lambda>_. []" "sp_key (sg_spec g)" "pending_files w"]
  by (auto simp: gate_drop_def gate_binding_def gate_stored_def pending_of_def pending_files_def unlink_record_def
      drop_pending_def same_card_def without_record_def pending_cards_def bindM_def tryM_def ret_def raise_def
      split: if_splits sum.splits option.splits)

lemma unlink_record_files:
  "unlink_record g w = (x, w') \<Longrightarrow>
     pending_files w' = (case x of Inl _ \<Rightarrow> pending_files w | Inr _ \<Rightarrow> without_record (sg_spec g) (pending_files w))"
  by (auto simp: unlink_record_def pending_files_def without_record_def split: if_splits)

lemma gate_stored_run: "gate_stored g w = (record_of (map_of (pending_files w) (sp_record_name (sg_spec g))), w)"
  by (simp add: gate_stored_def pending_of_def pending_files_def)

lemma gate_outstanding_cards:
  assumes "gate_outstanding g k w = (Inr cards, u)"
  shows "\<exists>chan. cards = pending_cards (sg_spec g) chan k (pending_files w)"
proof (cases cards)
  case Nil
  then show ?thesis using assms
    by (auto simp: gate_outstanding_def gate_stored_run pending_cards_def bindM_def ret_def raise_def
        split: if_splits sum.splits option.splits prod.splits)
next
  case (Cons x xs)
  then show ?thesis using assms
    by (intro exI[of _ "\<lambda>_. rq_channel_id x"])
      (auto simp: gate_outstanding_def gate_stored_run pending_cards_def bindM_def ret_def raise_def
        split: if_splits sum.splits option.splits prod.splits)
qed

text \<open>What an approving probe saw, and what every passed comparison means.\<close>

lemma gate_owner_reacted_True:
  assumes "gate_owner_reacted g r emoji w = (Inr True, w')"
  shows "\<exists>us owner w1. sf_api (sg_surface g) ''GET''
      (card_path r @ ''/reactions/'' @ emoji @ ''?limit=100'') None w = (Inr (JArr us), w1) \<and>
    sf_owner_id (sg_surface g) w1 = (Inr owner, w') \<and> list_ex (owner_entry (sf_str (sg_surface g)) owner) us"
  using assms
  by (auto simp: gate_owner_reacted_def gate_get_def bindM_def tryM_def ret_def raise_def
      split: prod.splits sum.splits option.splits json.splits if_splits)

lemma decide_owner_Approved:
  assumes "decide_owner reacted w = (Inr Approved, w')"
  shows "\<exists>w1. reacted SG_CANCEL w = (Inr False, w1) \<and> reacted SG_APPROVE w1 = (Inr True, w')"
  using assms by (auto simp: decide_owner_def bindM_def ret_def split: prod.splits sum.splits if_splits)

lemma gate_probe_approved:
  assumes "gate_probe g r w = (Inr APPROVED, w')"
  shows "\<exists>rec b body w1 w2 w3.
     record_of (pending_of (sp_record_name (sg_spec g)) w) = Inr (Some rec) \<and>
     sp_stored (sg_spec g) rec = Some b \<and> gate_content g r w = (Inr (Some body), w1) \<and>
     (sb_action_hash b \<noteq> [] \<longrightarrow> sp_bound (sg_spec g) body rec) \<and>
     gate_owner_reacted g r SG_CANCEL w2 = (Inr False, w3) \<and>
     gate_owner_reacted g r SG_APPROVE w3 = (Inr True, w')"
proof -
  obtain rec content w1 where rec: "record_of (pending_of (sp_record_name (sg_spec g)) w) = Inr rec"
    and content: "gate_content g r w = (Inr content, w1)"
    using assms unfolding gate_probe_def gate_stored_def
    by (auto simp: bindM_def tryM_def raise_def split: sum.splits if_splits prod.splits)
  note run = assms[unfolded gate_probe_def gate_stored_def bindM_def tryM_def]
  obtain body r' b where some: "content = Some body" "rec = Some r'" "sp_stored (sg_spec g) r' = Some b"
    using run by (auto simp: rec content ret_def split: option.splits)
  have "(sb_action_hash b \<noteq> [] \<longrightarrow> sp_bound (sg_spec g) body r') \<and>
      (\<exists>w2. decide_owner (gate_owner_reacted g r) w2 = (Inr Approved, w'))"
    using run
    by (auto simp: rec content some ret_def split: sum.splits prod.splits if_splits owner_decision.splits)
  then show ?thesis
    using decide_owner_Approved[of "gate_owner_reacted g r"] rec content some by blast
qed

lemma comparisons_equal:
  "first_mismatch (comparisons sp x rec b c) = None \<longleftrightarrow>
     rq_key (ex_request x) = sp_key sp \<and> sb_action_hash b = rq_action_hash (ex_request x) \<and>
     sb_message_id b = rq_message_id (ex_request x) \<and> sb_nonce b = ex_nonce x \<and>
     rget rec ''approval_action'' = ex_action x \<and> rget rec ''approval_destination'' = ex_destination x \<and>
     c = rq_channel_id (ex_request x)"
  by (simp add: comparisons_def)

lemma nonce_in_None:
  "nonce_in own files nonce = None \<Longrightarrow> (name, f) \<in> set files \<Longrightarrow> name \<noteq> own \<Longrightarrow>
     \<exists>d. f = PValue (JObj d) \<and>
       jget_or d ''deploy_nonce'' (jget_or d ''publish_nonce'' (jget_or d ''release_nonce'' JNull)) \<noteq> JStr nonce"
  by (induction own files nonce rule: nonce_in.induct)
    (auto split: if_splits pending_file.splits json.splits)

lemma binding_outcome_approved:
  assumes "binding_outcome_of js log_file g x w = (Inr o', w')" and "outcome_approved o'"
  shows "\<exists>rec b w1. record_of (pending_of (sp_record_name (sg_spec g)) w) = Inr (Some rec) \<and>
     sp_stored (sg_spec g) rec = Some b \<and> channel_of g rec w = (Inr (rq_channel_id (ex_request x)), w1) \<and>
     first_mismatch (comparisons (sg_spec g) x rec b (rq_channel_id (ex_request x))) = None \<and>
     nonce_in (sp_record_name (sg_spec g)) (pending_files w1) (ex_nonce x) = None \<and>
     approval_nonce_reused js x log_file = Inr None \<and>
     gate_probe g (ex_request x) w1 = (Inr APPROVED, w')"
proof -
  note approved = assms(2)[unfolded outcome_approved_def]
  note run = assms(1)[unfolded binding_outcome_of_def gate_stored_def]
  obtain rec b where rec: "record_of (pending_of (sp_record_name (sg_spec g)) w) = Inr (Some rec)"
      "sp_stored (sg_spec g) rec = Some b"
    using run approved
    by (auto simp: bindM_def attemptM_def ret_def raise_def refused_for_def split: sum.splits option.splits if_splits)
  obtain c w1 where c: "channel_of g rec w = (Inr c, w1)" "first_mismatch (comparisons (sg_spec g) x rec b c) = None"
    using run approved
    by (auto simp: rec bindM_def attemptM_def ret_def raise_def refused_for_def
        split: sum.splits option.splits if_splits prod.splits)
  then have eq: "c = rq_channel_id (ex_request x)"
    by (simp add: comparisons_equal)
  have "nonce_in (sp_record_name (sg_spec g)) (pending_files w1) (ex_nonce x) = None \<and>
     approval_nonce_reused js x log_file = Inr None \<and> gate_probe g (ex_request x) w1 = (Inr APPROVED, w')"
    using run approved
    by (auto simp: rec c bindM_def attemptM_def ret_def raise_def refused_for_def pending_nonce_reused_def getsM_def
        lift_sum_def pending_files_def split: sum.splits option.splits if_splits prod.splits)
  then show ?thesis using rec c eq by blast
qed

lemma matched_run:
  assumes "matched g m w = (x, w')"
  shows "w' = w" and "x = Inr (Inr rec) \<Longrightarrow>
    record_of (map_of (pending_files w) (sp_record_name (sg_spec g))) = Inr (Some rec) \<and>
    rget rec ''hash'' = sp_digest (sg_spec g) \<and> rget rec ''message_id'' = m"
  using assms
  by (auto simp: matched_def gate_stored_run bindM_def attemptM_def ret_def raise_def
      split: sum.splits option.splits if_splits)

lemma hold_files:
  assumes "hold k body w = (x, w')"
  shows "(x = Inl OSError \<and> w' = w) \<or> body False w = (x, w') \<or>
    (\<exists>u u'. pending_files u = pending_files w \<and> body True u = (x, u') \<and> pending_files u' = pending_files w')"
proof (cases "\<not> w_disk w \<or> slug_of k \<in> w_held w")
  case True
  then show ?thesis using assms by (auto simp: hold_def split: if_splits)
next
  case False
  let ?u = "w\<lparr>w_held := insert (slug_of k) (w_held w)\<rparr>"
  obtain u' where "body True ?u = (x, u')" "w' = u'\<lparr>w_held := w_held u' - {slug_of k}\<rparr>"
    using assms False by (auto simp: hold_def split: prod.splits)
  then have "pending_files ?u = pending_files w \<and> body True ?u = (x, u') \<and> pending_files u' = pending_files w'"
    by (simp add: pending_files_def)
  then show ?thesis by blast
qed

definition swapped :: "'x skill_gate \<Rightarrow> string \<Rightarrow> retired \<Rightarrow> 'x sgw \<Rightarrow> 'x sgw \<Rightarrow> bool" where
  "swapped g message_id o' u u' \<longleftrightarrow>
     (if rt_outcome o' = CONSUMED_R
      then pending_files u' = without_record (sg_spec g) (pending_files u) \<and>
        (\<exists>rec. record_of (map_of (pending_files u) (sp_record_name (sg_spec g))) = Inr (Some rec) \<and>
          rget rec ''hash'' = sp_digest (sg_spec g) \<and> rget rec ''message_id'' = message_id)
      else pending_files u' = pending_files u)"

lemma consume_owned_files:
  assumes run: "consume_owned g message_id u = (Inr o', u')"
  shows "swapped g message_id o' u u'"
proof -
  obtain found w1 where "matched g message_id u = (Inr found, w1)"
    using run unfolding consume_owned_def by (rule bindM_InrE)
  then have found: "matched g message_id u = (Inr found, u)" using matched_run(1) by blast
  show ?thesis
  proof (cases found)
    case (Inl why)
    then have "why \<noteq> CONSUMED_R"
      using found by (auto simp: matched_def gate_stored_run bindM_def attemptM_def ret_def raise_def
          split: sum.splits option.splits if_splits)
    then show ?thesis
      using run by (auto simp: consume_owned_def swapped_def bindM_def found Inl ret_def retire_failed_def split: if_splits)
  next
    case (Inr rec)
    obtain x where x: "unlink_record g u = (x, u')" by (cases "unlink_record g u")
      (use run in \<open>auto simp: consume_owned_def bindM_def found Inr ret_def raise_def attemptM_def
          split: sum.splits if_splits\<close>)
    have rec: "record_of (map_of (pending_files u) (sp_record_name (sg_spec g))) = Inr (Some rec)"
        "rget rec ''hash'' = sp_digest (sg_spec g)" "rget rec ''message_id'' = message_id"
      using matched_run(2)[OF found, of rec] Inr by auto
    have o': "o' = (case x of Inl _ \<Rightarrow> retire_failed DROP_FAILED | Inr _ \<Rightarrow> \<lparr>rt_outcome = CONSUMED_R, rt_exit_code = 0\<rparr>)"
      using run by (auto simp: consume_owned_def bindM_def found Inr x ret_def raise_def attemptM_def
          split: sum.splits if_splits)
    show ?thesis
      using unlink_record_files[OF x] rec by (cases x) (auto simp: swapped_def o' retire_failed_def)
  qed
qed

lemma consume_swapped:
  assumes "consume g message_id w = (Inr o', w')"
  shows "swapped g message_id o' w w'"
  using hold_files[OF assms[unfolded consume_def]]
proof (elim disjE exE conjE)
  fix u u'
  assume files: "pending_files u = pending_files w" "pending_files u' = pending_files w'"
    and run: "(if \<not> True then ret (retire_failed RT_LEASE_HELD) else consume_owned g message_id) u = (Inr o', u')"
  have "swapped g message_id o' u u'" using consume_owned_files run by simp
  then show ?thesis unfolding swapped_def files .
qed (auto simp: swapped_def ret_def retire_failed_def)

section \<open>Properties\<close>

text \<open>
  Dropping a card through the skill gate implements the record contract: after a
  successful \<open>drop\<close>, what the gate lists for every key is the previous list without the dropped
  card, and every pending record of another skill is unchanged.
\<close>

theorem skill_drop_exact:
  assumes "gate_drop g r w = (Inr (), w')"
  shows "pending_cards (sg_spec g) chan k (pending_files w') =
       filter (\<lambda>x. \<not> same_card r x) (pending_cards (sg_spec g) chan k (pending_files w)) \<and>
     (gate_outstanding g k w' = (Inr cards, u) \<longrightarrow> (\<forall>x \<in> set cards. \<not> same_card r x)) \<and>
     (name \<noteq> sp_record_name (sg_spec g) \<longrightarrow> pending_of name w' = pending_of name w)"
  using gate_drop_files[OF assms] pending_records.cards_drop[of "sg_spec g" chan k r "pending_files w"]
    gate_outstanding_cards[of g k w' cards u] pending_records.dropped_not_listed[of _ "sg_spec g" _ k r "pending_files w"]
  by (auto simp: pending_of_def drop_pending_def simp flip: pending_files_def)



text \<open>
  The judgement catches the errors of the lifecycle only. When the stored record is
  stamped for another approval kind, reading its binding raises the error class of the same name of
  the surface policy, which leaves \<open>valid_approval\<close> as an exception; the refusal
  \<open>BINDING_UNREADABLE\<close> is not given.
\<close>

theorem inconsistent_binding_escapes:
  assumes "record_of (pending_of (sp_record_name (sg_spec g)) w) = Inr (Some rec)"
    and "sp_stored (sg_spec g) rec = Some b" and "su_notice_channel (sf_bindings (sg_surface g)) = None"
    and "py_isdigit (rget rec ''policy_version'')" and "rget rec ''channel_id'' \<noteq> []" and "rget rec ''surface'' \<noteq> []"
    and "rget rec ''kind'' \<noteq> kind_value (su_kind (sf_bindings (sg_surface g)))"
  shows "valid_approval js log_file g x w = (Inl SurfacePolicyError, w)"
proof -
  have "channel_of g rec w = (Inl SurfacePolicyError, w)"
    using assms by (simp add: channel_of_def supply_stored_def bindM_def raise_def ret_def)
  then show ?thesis
    using assms(1,2)
    by (simp add: valid_approval_def binding_outcome_of_def gate_stored_def bindM_def attemptM_def raise_def
        lifecycle_exn_def)
qed

section \<open>A sample deploy\<close>

definition sample_deploy :: deploy_spec where
  "sample_deploy = \<lparr>dp_skill = ''mail'', dp_digest = ''d1'', dp_deploy_nonce = ''n1'',
     dp_provenance = \<lparr>pv_lines = [], pv_tag = ''v1'', pv_manifest_sha256 = ''m1'', pv_personal_head_sha = []\<rparr>,
     dp_peer_attest_mode = [], dp_render_version = 2, dp_posted_text = ''card''\<rparr>"

definition sample_spec_env :: spec_env where
  "sample_spec_env = \<lparr>se_sha256 = (\<lambda>s. CHR ''#'' # s),
     se_deploy_v1 = dp_skill, se_deploy_header = (\<lambda>s. s), se_legacy_header = [], se_deploy_card = dp_skill,
     se_deploy_match = (\<lambda>s. if s = ''card'' then Some (''mail'', ''d1'', ''n1'') else None),
     se_publish_v1 = pb_skill, se_publish_card = pb_skill, se_publish_match = (\<lambda>_. None)\<rparr>"

definition sample_sg_directory :: "'w channel_directory" where
  "sample_sg_directory = \<lparr>cd_owner_dm = ret ''41'', cd_skill_approvals = ret ''31'', cd_agent_chat = ret ''51'',
     cd_agent_chat_thread = (\<lambda>_. ret ''61''), cd_agent_chat_request_thread = (\<lambda>_ _. ret ''61''),
     cd_describe = (\<lambda>_. ret \<lparr>cf_channel_type = 0, cf_name = of_ascii ''approvals'', cf_recipient_ids = [],
       cf_parent_id = None, cf_guild_id = Some ''1''\<rparr>)\<rparr>"

text \<open>A server that shows the card and the owner's approval, and knows of no stop reaction.\<close>

definition sample_api :: "string \<Rightarrow> string \<Rightarrow> json option \<Rightarrow> (unit sgw, json) io" where
  "sample_api verb path body =
     (if path = ''/channels/31/messages/77'' then ret (JObj [(''content'', JStr ''card'')])
      else if path = ''/channels/31/messages/77/reactions/%E2%9C%85?limit=100''
      then ret (JArr [JObj [(''id'', JStr ''9'')]])
      else raise (HTTPError 404))"

definition sample_skill_gate :: "unit skill_gate" where
  "sample_skill_gate =
     \<lparr>sg_surface = \<lparr>sf_api = sample_api, sf_owner_id = ret ''9'', sf_str = (\<lambda>_. []),
        sf_bindings = \<lparr>su_kind = SKILL_DEPLOY, su_owner = ''9'', su_directory = sample_sg_directory,
          su_pinned = Some ''31'', su_new_pinned = None, su_notice_channel = None\<rparr>\<rparr>,
      sg_spec = DeploySpec sample_spec_env sample_deploy\<rparr>"

definition sample_pending :: "unit sgw" where
  "sample_pending = idle_world \<lparr>pn_files =
     [(''mail'', PValue (JObj (map (\<lambda>(k, v). (k, JStr v)) (deploy_new_record sample_spec_env sample_deploy ''77''
        \<lparr>ab_kind = SKILL_DEPLOY, ab_surface = SKILL_APPROVALS, ab_channel_id = ''31'',
         ab_policy_version = 8, ab_guild_id = None\<rparr>)))),
      (''wiki'', PValue (JObj [(''deploy_nonce'', JStr ''n2'')]))], pn_rest = ()\<rparr>"

definition sample_execution :: approval_execution where
  "sample_execution =
     \<lparr>ex_request = \<lparr>rq_key = ''skill-deploy:mail'', rq_action_hash = deploy_action_hash sample_spec_env sample_deploy,
        rq_message_id = ''77'', rq_channel_id = ''31'', rq_created_at = []\<rparr>,
      ex_nonce = ''n1'', ex_action = ''skill.deploy'', ex_destination = ''skill:mail''\<rparr>"

lemma sample_approved:
  "fst (valid_approval sample_json None sample_skill_gate sample_execution sample_pending) = Inr True"
  by code_simp


lemma sample_drop:
  "fst (gate_drop sample_skill_gate (ex_request sample_execution) sample_pending) = Inr ()"
  by code_simp

theorem skill_drop_exact_witness:
  "pending_of ''wiki'' (snd (gate_drop sample_skill_gate (ex_request sample_execution) sample_pending)) =
     pending_of ''wiki'' sample_pending \<and>
   pending_cards (sg_spec sample_skill_gate) (\<lambda>_. ''31'') ''skill-deploy:mail''
     (pending_files (snd (gate_drop sample_skill_gate (ex_request sample_execution) sample_pending))) = []"
proof -
  have "gate_drop sample_skill_gate (ex_request sample_execution) sample_pending =
      (Inr (), snd (gate_drop sample_skill_gate (ex_request sample_execution) sample_pending))"
    using sample_drop by (metis prod.collapse)
  moreover have "filter (\<lambda>x. \<not> same_card (ex_request sample_execution) x)
      (pending_cards (sg_spec sample_skill_gate) (\<lambda>_. ''31'') ''skill-deploy:mail'' (pending_files sample_pending)) = []"
    by code_simp
  moreover have "sp_record_name (sg_spec sample_skill_gate) = ''mail''"
    by code_simp
  ultimately show ?thesis
    using skill_drop_exact[of sample_skill_gate "ex_request sample_execution" sample_pending
        "snd (gate_drop sample_skill_gate (ex_request sample_execution) sample_pending)"
        "\<lambda>_. ''31''" "''skill-deploy:mail''" _ _ "''wiki''"]
    by auto
qed

lemma sample_consume:
  "consume sample_skill_gate ''77'' sample_pending =
     (Inr \<lparr>rt_outcome = CONSUMED_R, rt_exit_code = 0\<rparr>, snd (consume sample_skill_gate ''77'' sample_pending))"
proof -
  have "fst (consume sample_skill_gate ''77'' sample_pending) = Inr \<lparr>rt_outcome = CONSUMED_R, rt_exit_code = 0\<rparr>"
    by code_simp
  then show ?thesis by (metis prod.collapse)
qed


text \<open>A record whose stamped kind is another one: the judgement ends in the policy error.\<close>

definition sample_inconsistent :: "unit skill_gate" where
  "sample_inconsistent = sample_skill_gate\<lparr>sg_surface := (sg_surface sample_skill_gate)\<lparr>sf_bindings :=
     (sf_bindings (sg_surface sample_skill_gate))\<lparr>su_kind := SKILL_PUBLISH\<rparr>\<rparr>\<rparr>"

theorem inconsistent_binding_escapes_witness:
  "valid_approval sample_json None sample_inconsistent sample_execution sample_pending =
     (Inl SurfacePolicyError, sample_pending)"
  by (rule inconsistent_binding_escapes[where rec = "deploy_new_record sample_spec_env sample_deploy ''77''
        \<lparr>ab_kind = SKILL_DEPLOY, ab_surface = SKILL_APPROVALS, ab_channel_id = ''31'',
         ab_policy_version = 8, ab_guild_id = None\<rparr>"]) (code_simp | rule refl)+


end
