(* ===== verification/Supply_Chain.thy ===== *)
theory Supply_Chain
  imports Skill_Gate "HOL-Library.Sublist"
begin

text \<open>
  Model of the watcher that resumes approved deploys: what is enumerated
  (\<open>automation/supply_chain_records.py\<close>), what the owner answered (\<open>supply_chain_decide.py\<close>), what
  is planned (\<open>supply_chain_plan.py\<close>), the one command it may run (\<open>supply_chain_effects.py\<close>), how
  an approval that is already mounted is retired (\<open>supply_chain_reconcile.py\<close>), one tick and the
  backoff (\<open>supply_chain_watch.py\<close>), and the bookkeeping of \<open>supply_chain_watch_cli.py\<close>. It works on
  the world of the skill gate. The owner's answer for a message, the runner of a command and the
  live store are parameters; times are exact rationals in seconds.
\<close>

section \<open>Plans (supply_chain_plan.py)\<close>

record pending_request =
  pr_key :: string
  pr_kind :: string
  pr_name :: string
  pr_record_name :: string

datatype plan_action = RESUME | PLAN_SETTLED | RETAIN

record plan =
  pl_request :: pending_request
  pl_action :: plan_action
  pl_reason :: string

definition SUPPORTED_KINDS :: "string list" where
  "SUPPORTED_KINDS = [''skill-deploy'']"

text \<open>\<open>_plan_for\<close>; \<open>py_repr\<close> is \<open>repr\<close> of a string.\<close>

definition plan_for ::
  "(string \<Rightarrow> string) \<Rightarrow> (pending_request \<Rightarrow> ('w, string) io) \<Rightarrow> pending_request \<Rightarrow> ('w, plan) io" where
  "plan_for py_repr decide r =
     (if pr_kind r \<notin> set SUPPORTED_KINDS
      then ret \<lparr>pl_request = r, pl_action = RETAIN, pl_reason = ''unsupported-kind:'' @ pr_kind r\<rparr>
      else bindM (attemptM (decide r)) (\<lambda>d. ret
        (case d of
           Inl e \<Rightarrow> \<lparr>pl_request = r, pl_action = RETAIN, pl_reason = ''undecidable:'' @ exn_name e\<rparr>
         | Inr s \<Rightarrow>
             if s = ''approved'' then \<lparr>pl_request = r, pl_action = RESUME, pl_reason = ''owner-approved''\<rparr>
             else if s = ''denied'' then \<lparr>pl_request = r, pl_action = PLAN_SETTLED, pl_reason = ''owner-denied''\<rparr>
             else if s = ''absent'' then \<lparr>pl_request = r, pl_action = RETAIN, pl_reason = ''unanswered''\<rparr>
             else if s = ''missing''
             then \<lparr>pl_request = r, pl_action = PLAN_SETTLED, pl_reason = ''approval-message-missing''\<rparr>
             else \<lparr>pl_request = r, pl_action = RETAIN, pl_reason = ''unreadable-decision:'' @ py_repr s\<rparr>)))"

definition plan_tick ::
  "(string \<Rightarrow> string) \<Rightarrow> (pending_request \<Rightarrow> ('w, string) io) \<Rightarrow> pending_request list \<Rightarrow> ('w, plan list) io" where
  "plan_tick py_repr decide requests = mapM (plan_for py_repr decide) requests"

section \<open>Reading the answer (supply_chain_decide.py)\<close>

definition UndecidableRequest :: py_exn where
  "UndecidableRequest = OtherError ''UndecidableRequest''"

definition bound_message_id :: "pending_request \<Rightarrow> ('x sgw, string) io" where
  "bound_message_id r = (\<lambda>w.
     (case pending_of (pr_record_name r) w of
        Some (PValue (JObj d)) \<Rightarrow>
          (case jget d ''message_id'' of
             Some (JStr m) \<Rightarrow> if m = [] then Inl UndecidableRequest else Inr m
           | _ \<Rightarrow> Inl UndecidableRequest)
      | _ \<Rightarrow> Inl UndecidableRequest, w))"

definition make_decider :: "(string \<Rightarrow> ('x sgw, string) io) \<Rightarrow> pending_request \<Rightarrow> ('x sgw, string) io" where
  "make_decider decision_of r = bindM (bound_message_id r) decision_of"

section \<open>The command (supply_chain_effects.py)\<close>

definition UnsupportedResume :: py_exn where
  "UnsupportedResume = OtherError ''UnsupportedResume''"

definition resume_command :: "string \<Rightarrow> pending_request \<Rightarrow> py_exn + string list" where
  "resume_command helper r =
     (if pr_kind r \<notin> set SUPPORTED_KINDS then Inl UnsupportedResume
      else Inr [''sudo'', ''-n'', helper, ''--skill'', pr_name r])"

definition LEASE_CONTENTION_EXIT :: int where
  "LEASE_CONTENTION_EXIT = 8"

definition CANCELLED_EXIT :: int where
  "CANCELLED_EXIT = 9"

definition interpret_resume :: "int \<Rightarrow> string" where
  "interpret_resume exit_code =
     (if exit_code = 0 then ''done''
      else if exit_code = LEASE_CONTENTION_EXIT then ''retry''
      else if exit_code = CANCELLED_EXIT then ''settled''
      else ''failed'')"

section \<open>Enumeration (supply_chain_records.py)\<close>

definition PUBLISH_PREFIX :: string where
  "PUBLISH_PREFIX = ''publish-''"

definition request_for :: "string \<Rightarrow> pending_request" where
  "request_for record_name =
     (if starts_with PUBLISH_PREFIX record_name
      then \<lparr>pr_key = ''skill-publish:'' @ removeprefix PUBLISH_PREFIX record_name, pr_kind = ''skill-publish'',
            pr_name = removeprefix PUBLISH_PREFIX record_name, pr_record_name = record_name\<rparr>
      else \<lparr>pr_key = ''skill-deploy:'' @ record_name, pr_kind = kind_value (deploy_kind record_name),
            pr_name = record_name, pr_record_name = record_name\<rparr>)"

text \<open>
  \<open>enumerate_pending\<close>: the record files in the order of their file names, and whether the directory
  could be read. The store lists regular files by their stem.
\<close>

definition record_order :: "string list \<Rightarrow> string list" where
  "record_order names = sort_key (\<lambda>n. n @ ''.json'') names"

definition enumerate_pending :: "('x sgw, pending_request list \<times> bool) io" where
  "enumerate_pending = (\<lambda>w.
     (Inr (if w_disk w then (map request_for (record_order (map fst (pn_files (w_gate w)))), True)
           else ([], False)), w))"

section \<open>Retiring what is already mounted (supply_chain_reconcile.py)\<close>

datatype reconcile_verdict = RETIRE_DONE | RECONCILE_RUN | HOLD | RECONCILE_SETTLED

record reconciled =
  rc_verdict :: reconcile_verdict
  rc_reason :: string

definition hold_for :: "string \<Rightarrow> reconciled" where
  "hold_for reason = \<lparr>rc_verdict = HOLD, rc_reason = reason\<rparr>"

fun probe_value :: "probe \<Rightarrow> string" where
  "probe_value BOUND_PENDING = ''bound-pending''"
| "probe_value APPROVED = ''approved''"
| "probe_value CANCELLED = ''cancelled''"
| "probe_value MISSING = ''missing''"
| "probe_value BINDING_MISMATCH = ''binding-mismatch''"
| "probe_value UNVERIFIABLE = ''unverifiable''"

fun retirement_value :: "retirement \<Rightarrow> string" where
  "retirement_value CONSUMED_R = ''consumed''"
| "retirement_value ABANDONED = ''abandoned''"
| "retirement_value R_RECORD_ABSENT = ''record-absent''"
| "retirement_value RECORD_SUPERSEDED = ''record-superseded''"
| "retirement_value RT_BINDING_MISMATCH = ''binding-mismatch''"
| "retirement_value RT_STORE_UNREADABLE = ''store-unreadable''"
| "retirement_value RT_LEASE_HELD = ''lease-held''"
| "retirement_value DROP_FAILED = ''drop-failed''"
| "retirement_value AUDIT_FAILED = ''audit-failed''"
| "retirement_value RT_SUPERSEDE_FAILED = ''supersede-failed''"
| "retirement_value NOT_LEGACY = ''not-legacy''"

text \<open>
  The live store: what stands at \<open>live/<skill>\<close>, with the target of a link as the normalised path
  \<open>Path\<close> compares, and the root.
\<close>

datatype live_entry = Live_absent | Live_other | Live_unreadable | Live_link string

record 'w live_store =
  ls_root :: string
  ls_live :: "string \<Rightarrow> ('w, live_entry) io"

definition release_path :: "'w live_store \<Rightarrow> string \<Rightarrow> string \<Rightarrow> string" where
  "release_path ls name digest = ls_root ls @ ''/releases/'' @ name @ ''/'' @ digest"

text \<open>The approval is probed on the record's own coordinates, and only an approved one is consumed.\<close>

definition retire_live ::
  "'x skill_gate \<Rightarrow> pending_request \<Rightarrow> rec \<Rightarrow> ('x sgw, reconciled) io" where
  "retire_live g r rec =
     bindM (attemptM (bindM (gate_channel_id g) (\<lambda>c.
       gate_probe g \<lparr>rq_key = pr_key r, rq_action_hash = rget rec ''action_hash'',
         rq_message_id = rget rec ''message_id'', rq_channel_id = c, rq_created_at = []\<rparr>))) (\<lambda>p.
     case p of
       Inl e \<Rightarrow> if lifecycle_exn e \<or> is_os_error e then ret (hold_for ''approval-unreadable'') else raise e
     | Inr MISSING \<Rightarrow> ret \<lparr>rc_verdict = RECONCILE_SETTLED, rc_reason = ''approval-message-missing''\<rparr>
     | Inr APPROVED \<Rightarrow>
         bindM (consume g (rget rec ''message_id'')) (\<lambda>o'.
           ret (if rt_outcome o' \<noteq> CONSUMED_R then hold_for (''retirement-'' @ retirement_value (rt_outcome o'))
                else \<lparr>rc_verdict = RETIRE_DONE, rc_reason = ''already-realized''\<rparr>))
     | Inr d \<Rightarrow> ret (hold_for (''approval-'' @ probe_value d)))"

text \<open>The gate of one skill at one digest, with a fresh nonce (\<open>_deploy_gate\<close> of \<open>skill_gate.py\<close>).\<close>

definition deploy_gate ::
  "spec_env \<Rightarrow> (string \<Rightarrow> 'x gate_surface) \<Rightarrow> (string \<Rightarrow> string \<Rightarrow> string) \<Rightarrow> provenance \<Rightarrow>
   string \<Rightarrow> string \<Rightarrow> 'x skill_gate" where
  "deploy_gate se surface nonce prov skill digest =
     \<lparr>sg_surface = surface skill,
      sg_spec = DeploySpec se \<lparr>dp_skill = skill, dp_digest = digest, dp_deploy_nonce = nonce skill digest,
        dp_provenance = prov, dp_peer_attest_mode = ''discord'', dp_render_version = 1, dp_posted_text = []\<rparr>\<rparr>"

definition reconcile ::
  "(string \<Rightarrow> string \<Rightarrow> 'x skill_gate) \<Rightarrow> 'x sgw live_store \<Rightarrow> pending_request \<Rightarrow> ('x sgw, reconciled) io" where
  "reconcile gate_for ls r =
     (let discovery = gate_for (pr_name r) [] in
      if sp_record_name (sg_spec discovery) \<noteq> pr_record_name r then ret (hold_for ''record-path-mismatch'')
      else bindM (attemptM (gate_stored discovery)) (\<lambda>s.
        case s of
          Inl e \<Rightarrow> if e = ApprovalRecordsError then ret (hold_for ''record-unreadable'') else raise e
        | Inr None \<Rightarrow> ret (hold_for ''record-missing'')
        | Inr (Some rec) \<Rightarrow>
            (let digest = rget rec ''hash'' in
             if digest = [] \<or> rget rec ''message_id'' = [] then ret (hold_for ''record-incomplete'')
             else bindM (ls_live ls (pr_name r)) (\<lambda>live.
               case live of
                 Live_other \<Rightarrow> ret (hold_for ''live-not-symlink'')
               | Live_absent \<Rightarrow> ret \<lparr>rc_verdict = RECONCILE_RUN, rc_reason = ''live-absent''\<rparr>
               | Live_unreadable \<Rightarrow> ret (hold_for ''live-unreadable'')
               | Live_link target \<Rightarrow>
                   if target \<noteq> release_path ls (pr_name r) digest
                   then ret \<lparr>rc_verdict = RECONCILE_RUN, rc_reason = ''live-digest-mismatch''\<rparr>
                   else retire_live (gate_for (pr_name r) digest) r rec))))"

section \<open>One tick (supply_chain_watch.py)\<close>

record watch_result =
  tk_request :: pending_request
  tk_outcome :: string
  tk_reason :: string

fun action_value :: "plan_action \<Rightarrow> string" where
  "action_value RESUME = ''resume''"
| "action_value PLAN_SETTLED = ''settled''"
| "action_value RETAIN = ''retain''"

definition execute_plan ::
  "string \<Rightarrow> (string list \<Rightarrow> ('w, int) io) \<Rightarrow> (pending_request \<Rightarrow> ('w, reconciled) io) \<Rightarrow>
   (pending_request \<Rightarrow> bool) \<Rightarrow> plan \<Rightarrow> ('w, watch_result) io" where
  "execute_plan helper run rec_of eligible p =
     (let r = pl_request p in
      if pl_action p \<noteq> RESUME
      then ret \<lparr>tk_request = r, tk_outcome = action_value (pl_action p), tk_reason = pl_reason p\<rparr>
      else if \<not> eligible r then ret \<lparr>tk_request = r, tk_outcome = ''backoff'', tk_reason = ''backoff-active''\<rparr>
      else bindM (attemptM (rec_of r)) (\<lambda>s.
        case s of
          Inl _ \<Rightarrow> ret \<lparr>tk_request = r, tk_outcome = ''retain'', tk_reason = ''reconcile-failed''\<rparr>
        | Inr settled \<Rightarrow>
            (case rc_verdict settled of
               RETIRE_DONE \<Rightarrow> ret \<lparr>tk_request = r, tk_outcome = ''retire-done'', tk_reason = rc_reason settled\<rparr>
             | RECONCILE_SETTLED \<Rightarrow> ret \<lparr>tk_request = r, tk_outcome = ''settled'', tk_reason = rc_reason settled\<rparr>
             | HOLD \<Rightarrow> ret \<lparr>tk_request = r, tk_outcome = ''retain'', tk_reason = ''hold:'' @ rc_reason settled\<rparr>
             | RECONCILE_RUN \<Rightarrow>
                 bindM (attemptM (bindM (lift_sum (resume_command helper r)) run)) (\<lambda>c. ret
                   (case c of
                      Inl _ \<Rightarrow> \<lparr>tk_request = r, tk_outcome = ''failed'', tk_reason = pl_reason p\<rparr>
                    | Inr code \<Rightarrow>
                        let outcome = interpret_resume code in
                        \<lparr>tk_request = r, tk_outcome = outcome,
                         tk_reason = (if outcome = ''done'' then pl_reason p
                                      else ''resume-exit:'' @ str_int code)\<rparr>)))))"

text \<open>All plans are made before the first is executed.\<close>

definition watch_tick ::
  "(string \<Rightarrow> string) \<Rightarrow> string \<Rightarrow> (string \<Rightarrow> ('x sgw, string) io) \<Rightarrow> (string list \<Rightarrow> ('x sgw, int) io) \<Rightarrow>
   (pending_request \<Rightarrow> ('x sgw, reconciled) io) \<Rightarrow> (pending_request \<Rightarrow> bool) \<Rightarrow>
   ('x sgw, watch_result list \<times> bool) io" where
  "watch_tick py_repr helper decide run rec_of eligible =
     bindM enumerate_pending (\<lambda>(requests, succeeded).
     bindM (plan_tick py_repr (make_decider decide) requests) (\<lambda>plans.
     bindM (mapM (execute_plan helper run rec_of eligible) plans) (\<lambda>results. ret (results, succeeded))))"

section \<open>Backoff (supply_chain_watch.py, supply_chain_watch_cli.py)\<close>

record failure_attempt =
  fa_fingerprint :: string
  fa_attempts :: int
  fa_next_attempt_at :: rat

text \<open>
  \<open>120.0 * 2 ** (attempts - 1)\<close> converts the integer to a float, which raises from \<open>2 ** 1024\<close> on;
  below that the product is exact or infinite, and the minimum is taken after it.
\<close>

definition OverflowError :: py_exn where
  "OverflowError = OtherError ''OverflowError''"

definition transient_delay :: "int \<Rightarrow> py_exn + rat" where
  "transient_delay attempts =
     (if attempts - 1 \<ge> 1024 then Inl OverflowError
      else Inr (min (if attempts \<ge> 1 then 120 * 2 ^ nat (attempts - 1) else 120 / 2 ^ nat (1 - attempts)) 3600))"

definition update_failure ::
  "failure_attempt option \<Rightarrow> watch_result \<Rightarrow> string \<Rightarrow> rat \<Rightarrow> py_exn + failure_attempt \<times> bool" where
  "update_failure previous result release_sha moment =
     (let fingerprint = release_sha @ '':'' @ tk_reason result;
          attempts = (case previous of
              Some p \<Rightarrow> if fa_fingerprint p = fingerprint then fa_attempts p + 1 else 1
            | None \<Rightarrow> 1)
      in sum_bind (if tk_outcome result = ''retry'' then transient_delay attempts else Inr 3600) (\<lambda>delay.
         Inr (\<lparr>fa_fingerprint = fingerprint, fa_attempts = attempts, fa_next_attempt_at = moment + delay\<rparr>,
              case previous of None \<Rightarrow> True | Some p \<Rightarrow> fa_fingerprint p \<noteq> fingerprint)))"

definition retry_due :: "failure_attempt option \<Rightarrow> string \<Rightarrow> rat \<Rightarrow> bool" where
  "retry_due previous release_sha moment =
     (case previous of
        None \<Rightarrow> True
      | Some p \<Rightarrow> if takeWhile (\<lambda>c. c \<noteq> CHR '':'') (fa_fingerprint p) \<noteq> release_sha then True
                  else fa_next_attempt_at p \<le> moment)"

text \<open>The loop of \<open>main\<close> over the results, with the failures of the next tick and the alert flag.\<close>

type_synonym failures = "(string \<times> failure_attempt) list"

definition dict_pop :: "string \<Rightarrow> (string \<times> 'a) list \<Rightarrow> (string \<times> 'a) list" where
  "dict_pop k d = filter (\<lambda>(k', _). k' \<noteq> k) d"

fun book_results ::
  "failures \<Rightarrow> string \<Rightarrow> rat \<Rightarrow> watch_result list \<Rightarrow> failures \<times> bool \<Rightarrow> py_exn + failures \<times> bool" where
  "book_results failures release_sha moment [] st = Inr st"
| "book_results failures release_sha moment (t # ts) (next_failures, alerted) =
     (let key = pr_key (tk_request t) in
      if tk_outcome t = ''backoff'' then book_results failures release_sha moment ts (next_failures, alerted)
      else if tk_outcome t = ''failed'' \<or> tk_outcome t = ''retry'' then
        sum_bind (update_failure (map_of failures key) t release_sha moment) (\<lambda>(attempt, alert).
        book_results failures release_sha moment ts (dict_set key attempt next_failures, alerted \<or> alert))
      else book_results failures release_sha moment ts (dict_pop key next_failures, alerted))"

definition tick_failures ::
  "failures \<Rightarrow> string \<Rightarrow> rat \<Rightarrow> watch_result list \<times> bool \<Rightarrow> py_exn + failures \<times> bool" where
  "tick_failures failures release_sha moment = (\<lambda>(results, succeeded).
     book_results failures release_sha moment results
       (if succeeded then filter (\<lambda>(k, _). k \<in> set (map (\<lambda>t. pr_key (tk_request t)) results)) failures
        else failures, False))"

text \<open>The part of \<open>main\<close> from the loaded failures to those of the next tick.\<close>

definition watch_main ::
  "(string \<Rightarrow> string) \<Rightarrow> string \<Rightarrow> (string \<Rightarrow> ('x sgw, string) io) \<Rightarrow> (string list \<Rightarrow> ('x sgw, int) io) \<Rightarrow>
   (pending_request \<Rightarrow> ('x sgw, reconciled) io) \<Rightarrow> failures \<Rightarrow> string \<Rightarrow> rat \<Rightarrow>
   ('x sgw, watch_result list \<times> failures \<times> bool) io" where
  "watch_main py_repr helper decide run rec_of failures release_sha moment =
     bindM (watch_tick py_repr helper decide run rec_of
       (\<lambda>r. retry_due (map_of failures (pr_key r)) release_sha moment)) (\<lambda>tick.
     bindM (lift_sum (tick_failures failures release_sha moment tick)) (\<lambda>(next_failures, alerted).
     ret (fst tick, next_failures, alerted)))"

section \<open>What a tick does\<close>

lemma plan_for_run:
  assumes observer: "\<And>m v. snd (decide m v) = v"
  shows "\<exists>p. plan_for py_repr (make_decider decide) r w = (Inr p, w) \<and> pl_request p = r \<and>
     (pl_action p = RESUME \<longrightarrow> pr_kind r \<in> set SUPPORTED_KINDS \<and>
       (\<exists>m. fst (bound_message_id r w) = Inr m \<and> fst (decide m w) = Inr ''approved''))"
proof (cases "pr_kind r \<in> set SUPPORTED_KINDS")
  case False
  then show ?thesis by (simp add: plan_for_def ret_def)
next
  case True
  have decided: "make_decider decide r w =
      (case fst (bound_message_id r w) of Inl e \<Rightarrow> Inl e | Inr m \<Rightarrow> fst (decide m w), w)"
    using observer by (auto simp: make_decider_def bindM_def bound_message_id_def prod_eq_iff
        split: sum.split option.split pending_file.split json.split prod.split)
  show ?thesis
    using True unfolding plan_for_def
    by (auto simp: decided bindM_def attemptM_def ret_def split: sum.splits if_splits)
qed

lemma plan_tick_run:
  assumes "\<And>m v. snd (decide m v) = v"
  shows "\<exists>ps. plan_tick py_repr (make_decider decide) rs w = (Inr ps, w) \<and> map pl_request ps = rs \<and>
     (\<forall>p \<in> set ps. pl_action p = RESUME \<longrightarrow> pr_kind (pl_request p) \<in> set SUPPORTED_KINDS \<and>
       (\<exists>m. fst (bound_message_id (pl_request p) w) = Inr m \<and> fst (decide m w) = Inr ''approved''))"
  unfolding plan_tick_def
proof (induction rs)
  case (Cons r rs)
  obtain p where "plan_for py_repr (make_decider decide) r w = (Inr p, w)" "pl_request p = r"
    "pl_action p = RESUME \<longrightarrow> pr_kind r \<in> set SUPPORTED_KINDS \<and>
       (\<exists>m. fst (bound_message_id r w) = Inr m \<and> fst (decide m w) = Inr ''approved'')"
    using plan_for_run[where decide = decide, OF assms] by blast
  then show ?case using Cons by (auto simp: bindM_def ret_def)
qed (simp add: ret_def)

text \<open>The command of a request, and what justified running it.\<close>

definition command_of :: "string \<Rightarrow> pending_request \<Rightarrow> string list" where
  "command_of helper r = [''sudo'', ''-n'', helper, ''--skill'', pr_name r]"

definition asked_to_run :: "(pending_request \<Rightarrow> ('w, reconciled) io) \<Rightarrow> pending_request \<Rightarrow> bool" where
  "asked_to_run rec_of r \<longleftrightarrow> (\<exists>v v' s. rec_of r v = (Inr s, v') \<and> rc_verdict s = RECONCILE_RUN)"

lemma execute_plan_run:
  assumes logged: "\<And>c v. cmds (snd (run c v)) = cmds v @ [c]" and quiet: "\<And>r v. cmds (snd (rec_of r v)) = cmds v"
  shows "\<exists>t w'. execute_plan helper run rec_of eligible p w = (Inr t, w') \<and> tk_request t = pl_request p \<and>
     (cmds w' = cmds w \<or>
      cmds w' = cmds w @ [command_of helper (pl_request p)] \<and> pl_action p = RESUME \<and>
        eligible (pl_request p) \<and> asked_to_run rec_of (pl_request p))"
proof (cases "pl_action p = RESUME \<and> eligible (pl_request p)")
  case False
  then show ?thesis by (auto simp: execute_plan_def ret_def Let_def)
next
  case True
  let ?r = "pl_request p"
  obtain s w1 where s: "rec_of ?r w = (s, w1)" by (cases "rec_of ?r w")
  have w1: "cmds w1 = cmds w" using quiet[of ?r w] s by simp
  show ?thesis
  proof (cases "\<exists>v. s = Inr v \<and> rc_verdict v = RECONCILE_RUN")
    case False
    then show ?thesis
      using True s w1 by (auto simp: execute_plan_def Let_def bindM_def attemptM_def ret_def
          split: sum.split reconcile_verdict.split)
  next
    case go: True
    then obtain v where v: "s = Inr v" "rc_verdict v = RECONCILE_RUN" by blast
    then have asked: "asked_to_run rec_of ?r" using s by (auto simp: asked_to_run_def)
    show ?thesis
    proof (cases "pr_kind ?r \<in> set SUPPORTED_KINDS")
      case False
      then show ?thesis
        using True s v w1 by (simp add: execute_plan_def Let_def bindM_def attemptM_def ret_def resume_command_def
            lift_sum_def raise_def)
    next
      case supported: True
      obtain c w2 where c: "run (command_of helper ?r) w1 = (c, w2)" by (cases "run (command_of helper ?r) w1")
      then have "cmds w2 = cmds w @ [command_of helper ?r]" using logged[of "command_of helper ?r" w1] w1 by simp
      then show ?thesis
        using True supported s v c asked
        by (auto simp: execute_plan_def Let_def bindM_def attemptM_def ret_def resume_command_def lift_sum_def
            command_of_def split: sum.split)
    qed
  qed
qed

lemma execute_plans_run:
  assumes "\<And>c v. cmds (snd (run c v)) = cmds v @ [c]" and "\<And>r v. cmds (snd (rec_of r v)) = cmds v"
  shows "\<exists>ts w' ran. mapM (execute_plan helper run rec_of eligible) ps w = (Inr ts, w') \<and>
     map tk_request ts = map pl_request ps \<and> cmds w' = cmds w @ map (command_of helper) ran \<and>
     subseq ran (map pl_request ps) \<and>
     (\<forall>r \<in> set ran. eligible r \<and> asked_to_run rec_of r \<and> (\<exists>p \<in> set ps. pl_request p = r \<and> pl_action p = RESUME))"
proof (induction ps arbitrary: w)
  case Nil
  have "mapM (execute_plan helper run rec_of eligible) [] w = (Inr [], w)" by (simp add: ret_def)
  then show ?case by (intro exI[of _ "[]"] exI[of _ w]) simp
next
  case (Cons p ps)
  obtain t w1 where t: "execute_plan helper run rec_of eligible p w = (Inr t, w1)" "tk_request t = pl_request p"
    "cmds w1 = cmds w \<or> cmds w1 = cmds w @ [command_of helper (pl_request p)] \<and> pl_action p = RESUME \<and>
        eligible (pl_request p) \<and> asked_to_run rec_of (pl_request p)"
    using execute_plan_run[where cmds = cmds and run = run and rec_of = rec_of, OF assms] by blast
  obtain ts w' ran where ih: "mapM (execute_plan helper run rec_of eligible) ps w1 = (Inr ts, w')"
     "map tk_request ts = map pl_request ps" "cmds w' = cmds w1 @ map (command_of helper) ran"
     "subseq ran (map pl_request ps)"
     "\<forall>r \<in> set ran. eligible r \<and> asked_to_run rec_of r \<and> (\<exists>p \<in> set ps. pl_request p = r \<and> pl_action p = RESUME)"
    using Cons.IH[of w1] by blast
  have run: "mapM (execute_plan helper run rec_of eligible) (p # ps) w = (Inr (t # ts), w')"
    using t ih by (simp add: bindM_def ret_def)
  from t(3) show ?case
  proof (elim disjE conjE)
    assume "cmds w1 = cmds w"
    then show ?case using run t(2) ih
      by (intro exI[of _ "t # ts"] exI[of _ w'] exI[of _ ran]) auto
  next
    assume "cmds w1 = cmds w @ [command_of helper (pl_request p)]" "pl_action p = RESUME"
      "eligible (pl_request p)" "asked_to_run rec_of (pl_request p)"
    then show ?case using run t(2) ih
      by (intro exI[of _ "t # ts"] exI[of _ w'] exI[of _ "pl_request p # ran"]) auto
  qed
qed

lemma subseq_distinct: "subseq xs ys \<Longrightarrow> distinct ys \<Longrightarrow> distinct xs"
  by (induction rule: list_emb.induct) (auto dest: list_emb_set)

text \<open>The requests of a world, in the order of their files.\<close>

definition requests_of :: "'x sgw \<Rightarrow> pending_request list" where
  "requests_of w = (if w_disk w then map request_for (record_order (map fst (pending_files w))) else [])"

lemma enumerate_pending_run: "enumerate_pending w = (Inr (requests_of w, w_disk w), w)"
  by (simp add: enumerate_pending_def requests_of_def pending_files_def)

lemma request_for_name [simp]: "pr_record_name (request_for n) = n"
  by (simp add: request_for_def)

lemma requests_distinct: "distinct (map fst (pending_files w)) \<Longrightarrow> distinct (requests_of w)"
  by (auto simp: requests_of_def distinct_map record_order_def
      intro!: inj_onI dest: arg_cong[where f = pr_record_name])

section \<open>Properties\<close>

text \<open>
  \<^bold>\<open>C37.\<close> A tick of the supply-chain watcher always completes with one result per enumerated
  request, in order, whatever record, answer, reconciliation or command fails. The commands it
  starts are those of some of the enumerated requests, in order and each at most once; each of
  these is a plain deploy that is not held back, whose record is bound to a message on which the
  owner's answer is \<open>approved\<close> when the tick begins, and that reconciliation found not yet mounted.
\<close>

theorem watch_runs_only_approved:
  assumes "\<And>m v. snd (decide m v) = v" and "\<And>c v. cmds (snd (run c v)) = cmds v @ [c]"
    and "\<And>r v. cmds (snd (rec_of r v)) = cmds v"
  shows "\<exists>results w' ran.
     watch_tick py_repr helper decide run rec_of eligible w = (Inr (results, w_disk w), w') \<and>
     map tk_request results = requests_of w \<and>
     cmds w' = cmds w @ map (command_of helper) ran \<and> subseq ran (requests_of w) \<and>
     (distinct (map fst (pending_files w)) \<longrightarrow> distinct ran) \<and>
     (\<forall>r \<in> set ran. pr_kind r = ''skill-deploy'' \<and> eligible r \<and> asked_to_run rec_of r \<and>
        (\<exists>m. fst (bound_message_id r w) = Inr m \<and> fst (decide m w) = Inr ''approved''))"
proof -
  obtain ps where ps: "plan_tick py_repr (make_decider decide) (requests_of w) w = (Inr ps, w)" "map pl_request ps = requests_of w"
     "\<forall>p \<in> set ps. pl_action p = RESUME \<longrightarrow> pr_kind (pl_request p) \<in> set SUPPORTED_KINDS \<and>
       (\<exists>m. fst (bound_message_id (pl_request p) w) = Inr m \<and> fst (decide m w) = Inr ''approved'')"
    using plan_tick_run[where decide = decide, OF assms(1)] by blast
  obtain ts w' ran where run: "mapM (execute_plan helper run rec_of eligible) ps w = (Inr ts, w')"
     "map tk_request ts = map pl_request ps" "cmds w' = cmds w @ map (command_of helper) ran"
     "subseq ran (map pl_request ps)"
     "\<forall>r \<in> set ran. eligible r \<and> asked_to_run rec_of r \<and> (\<exists>p \<in> set ps. pl_request p = r \<and> pl_action p = RESUME)"
    using execute_plans_run[where cmds = cmds and run = run and rec_of = rec_of and helper = helper and
        eligible = eligible and ps = ps and w = w, OF assms(2,3)] by (elim exE conjE) rule
  have tick: "watch_tick py_repr helper decide run rec_of eligible w = (Inr (ts, w_disk w), w')"
    using enumerate_pending_run[of w] ps(1) run(1) by (simp add: watch_tick_def bindM_def ret_def)
  have sub: "subseq ran (requests_of w)" using run(4) ps(2) by simp
  have "distinct (map fst (pending_files w)) \<longrightarrow> distinct ran"
    using sub requests_distinct[of w] subseq_distinct by blast
  moreover have "\<forall>r \<in> set ran. pr_kind r = ''skill-deploy'' \<and> eligible r \<and> asked_to_run rec_of r \<and>
        (\<exists>m. fst (bound_message_id r w) = Inr m \<and> fst (decide m w) = Inr ''approved'')"
    using run(5) ps(3) by (fastforce simp: SUPPORTED_KINDS_def)
  ultimately show ?thesis using tick run(2,3) ps(2) sub by metis
qed


lemma retire_live_done:
  assumes "retire_live g r rec w = (Inr s, w')" and "rc_verdict s = RETIRE_DONE"
  shows "\<exists>q w2 w3 o'. gate_probe g q w2 = (Inr APPROVED, w3) \<and> rq_message_id q = rget rec ''message_id'' \<and>
     rq_action_hash q = rget rec ''action_hash'' \<and>
     consume g (rget rec ''message_id'') w3 = (Inr o', w') \<and> rt_outcome o' = CONSUMED_R"
proof -
  let ?q = "\<lambda>c. \<lparr>rq_key = pr_key r, rq_action_hash = rget rec ''action_hash'',
         rq_message_id = rget rec ''message_id'', rq_channel_id = c, rq_created_at = []\<rparr>"
  obtain p w3 where attempt: "attemptM (bindM (gate_channel_id g) (\<lambda>c. gate_probe g (?q c))) w = (Inr p, w3)"
    and run: "(case p of
       Inl e \<Rightarrow> if lifecycle_exn e \<or> is_os_error e then ret (hold_for ''approval-unreadable'') else raise e
     | Inr MISSING \<Rightarrow> ret \<lparr>rc_verdict = RECONCILE_SETTLED, rc_reason = ''approval-message-missing''\<rparr>
     | Inr APPROVED \<Rightarrow>
         bindM (consume g (rget rec ''message_id'')) (\<lambda>o'.
           ret (if rt_outcome o' \<noteq> CONSUMED_R then hold_for (''retirement-'' @ retirement_value (rt_outcome o'))
                else \<lparr>rc_verdict = RETIRE_DONE, rc_reason = ''already-realized''\<rparr>))
     | Inr d \<Rightarrow> ret (hold_for (''approval-'' @ probe_value d))) w3 = (Inr s, w')"
    using assms(1) unfolding retire_live_def by (rule bindM_InrE)
  have p: "bindM (gate_channel_id g) (\<lambda>c. gate_probe g (?q c)) w = (p, w3)"
    using attempt by (auto simp: attemptM_def split: prod.splits)
  have "p = Inr APPROVED"
    using run assms(2) by (auto simp: ret_def raise_def hold_for_def split: sum.splits probe.splits if_splits)
  moreover from this obtain c w2 where "gate_probe g (?q c) w2 = (Inr APPROVED, w3)"
    using p by (auto elim: bindM_InrE)
  moreover from \<open>p = Inr APPROVED\<close> obtain o' where "consume g (rget rec ''message_id'') w3 = (Inr o', w')"
    "rt_outcome o' = CONSUMED_R"
    using run assms(2) by (auto simp: ret_def hold_for_def split: if_splits elim!: bindM_InrE)
  ultimately show ?thesis by (intro exI[of _ "?q c"] exI[of _ w2] exI[of _ w3] exI[of _ o']) simp
qed

text \<open>
  An approval is retired without a deploy only when it is already mounted: if reconciliation
  answers \<open>retire-done\<close>, then the pending record names a digest and a message, the live link of the
  skill points to exactly the release of that digest, the owner's decision on the record's own
  message was probed as approved, and what was removed is the record of this skill, still holding
  that digest and message; the records of all other skills are kept.
\<close>

theorem reconcile_retires_only_mounted:
  assumes "reconcile (deploy_gate se surface nonce prov) ls r w = (Inr s, w')" and "rc_verdict s = RETIRE_DONE"
  shows "\<exists>rec g q w1 w2 w3 rec'.
     record_of (pending_of (pr_record_name r) w) = Inr (Some rec) \<and>
     rget rec ''hash'' \<noteq> [] \<and> rget rec ''message_id'' \<noteq> [] \<and>
     ls_live ls (pr_name r) w = (Inr (Live_link (release_path ls (pr_name r) (rget rec ''hash''))), w1) \<and>
     g = deploy_gate se surface nonce prov (pr_name r) (rget rec ''hash'') \<and>
     rq_message_id q = rget rec ''message_id'' \<and> rq_action_hash q = rget rec ''action_hash'' \<and>
     gate_probe g q w2 = (Inr APPROVED, w3) \<and>
     record_of (pending_of (pr_record_name r) w3) = Inr (Some rec') \<and>
     rget rec' ''hash'' = rget rec ''hash'' \<and> rget rec' ''message_id'' = rget rec ''message_id'' \<and>
     pending_files w' = filter (\<lambda>(n, _). n \<noteq> pr_record_name r) (pending_files w3)"
proof -
  let ?gate = "deploy_gate se surface nonce prov"
  note run = assms(1)[unfolded reconcile_def gate_stored_def]
  have name: "pr_name r = pr_record_name r"
    using run assms(2) by (auto simp: deploy_gate_def DeploySpec_def ret_def hold_for_def split: if_splits)
  obtain rec where rec: "record_of (pending_of (pr_record_name r) w) = Inr (Some rec)"
    using run assms(2) name
    by (auto simp: deploy_gate_def DeploySpec_def ret_def raise_def hold_for_def bindM_def attemptM_def
        split: if_splits sum.splits option.splits)
  have keys: "rget rec ''hash'' \<noteq> []" "rget rec ''message_id'' \<noteq> []"
    using run assms(2) name rec
    by (auto simp: deploy_gate_def DeploySpec_def ret_def raise_def hold_for_def bindM_def attemptM_def Let_def
        split: if_splits)
  obtain w1 where live: "ls_live ls (pr_name r) w = (Inr (Live_link (release_path ls (pr_name r) (rget rec ''hash''))), w1)"
    and retired: "retire_live (?gate (pr_name r) (rget rec ''hash'')) r rec w1 = (Inr s, w')"
    using run assms(2) name rec keys
    by (auto simp: deploy_gate_def DeploySpec_def ret_def raise_def hold_for_def bindM_def attemptM_def Let_def
        split: if_splits sum.splits prod.splits live_entry.splits)
  obtain q w2 w3 o' where probe: "gate_probe (?gate (pr_name r) (rget rec ''hash'')) q w2 = (Inr APPROVED, w3)"
      "rq_message_id q = rget rec ''message_id''" "rq_action_hash q = rget rec ''action_hash''"
    and consumed: "consume (?gate (pr_name r) (rget rec ''hash'')) (rget rec ''message_id'') w3 = (Inr o', w')"
      "rt_outcome o' = CONSUMED_R"
    using retire_live_done[OF retired assms(2)] by blast
  have spec: "sp_record_name (sg_spec (?gate (pr_name r) (rget rec ''hash''))) = pr_record_name r"
    "sp_digest (sg_spec (?gate (pr_name r) (rget rec ''hash''))) = rget rec ''hash''"
    using name by (simp_all add: deploy_gate_def DeploySpec_def)
  obtain rec' where "record_of (pending_of (pr_record_name r) w3) = Inr (Some rec')"
     "rget rec' ''hash'' = rget rec ''hash''" "rget rec' ''message_id'' = rget rec ''message_id''"
     "pending_files w' = filter (\<lambda>(n, _). n \<noteq> pr_record_name r) (pending_files w3)"
    using consume_swapped[OF consumed(1)] consumed(2) spec
    by (auto simp: swapped_def without_record_def pending_of_def pending_files_def)
  then show ?thesis using rec keys live probe by blast
qed

section \<open>Backoff\<close>

lemma map_of_pop [simp]: "map_of (dict_pop k d) k' = (if k' = k then None else map_of d k')"
  by (induction d) (auto simp: dict_pop_def)

lemma book_results_other:
  "k \<notin> set (map (\<lambda>t. pr_key (tk_request t)) ts) \<Longrightarrow>
   book_results failures sha moment ts st = Inr (next_failures, alerted) \<Longrightarrow>
   map_of next_failures k = map_of (fst st) k"
  by (induction failures sha moment ts st rule: book_results.induct)
    (auto simp: Let_def sum_bind_Inr_iff split: if_splits)

lemma update_failure_bounds:
  assumes "update_failure p t sha moment = Inr (a, alert)" and "\<And>x. p = Some x \<Longrightarrow> 0 \<le> fa_attempts x"
  shows "fa_fingerprint a = sha @ '':'' @ tk_reason t \<and> moment + 120 \<le> fa_next_attempt_at a \<and>
     fa_next_attempt_at a \<le> moment + 3600 \<and> 1 \<le> fa_attempts a \<and>
     (tk_outcome t \<noteq> ''retry'' \<longrightarrow> fa_next_attempt_at a = moment + 3600)"
proof -
  obtain n delay where n: "1 \<le> n" "fa_attempts a = n" "fa_next_attempt_at a = moment + delay"
      "fa_fingerprint a = sha @ '':'' @ tk_reason t"
    and delay: "(if tk_outcome t = ''retry'' then transient_delay n else Inr 3600) = Inr delay"
    using assms by (fastforce simp: update_failure_def Let_def sum_bind_Inr_iff split: option.splits if_splits)
  have "(1 :: rat) \<le> 2 ^ nat (n - 1)" by simp
  then have "120 \<le> delay \<and> delay \<le> 3600"
    using delay n(1) by (auto simp: transient_delay_def split: if_splits)
  moreover have "tk_outcome t \<noteq> ''retry'' \<longrightarrow> delay = 3600" using delay by auto
  ultimately show ?thesis using n by simp
qed

lemma book_results_entry:
  "distinct (map (\<lambda>t. pr_key (tk_request t)) ts) \<Longrightarrow> t \<in> set ts \<Longrightarrow>
   tk_outcome t \<in> {''failed'', ''retry''} \<Longrightarrow>
   book_results failures sha moment ts st = Inr (next_failures, alerted) \<Longrightarrow>
   \<exists>a alert. update_failure (map_of failures (pr_key (tk_request t))) t sha moment = Inr (a, alert) \<and>
     map_of next_failures (pr_key (tk_request t)) = Some a"
proof (induction failures sha moment ts st rule: book_results.induct)
  case (2 failures sha moment u ts nf al)
  show ?case
  proof (cases "u = t")
    case True
    then obtain a alert where u: "update_failure (map_of failures (pr_key (tk_request t))) t sha moment = Inr (a, alert)"
      "book_results failures sha moment ts (dict_set (pr_key (tk_request t)) a nf, al \<or> alert) =
         Inr (next_failures, alerted)"
      using 2(5-7) by (auto simp: Let_def sum_bind_Inr_iff split: if_splits)
    have "map_of next_failures (pr_key (tk_request t)) = Some a"
      using book_results_other[OF _ u(2)] 2(4) True by simp
    then show ?thesis using u(1) by blast
  next
    case False
    then have "t \<in> set ts" "distinct (map (\<lambda>t. pr_key (tk_request t)) ts)" using 2(4,5) by auto
    then show ?thesis
      using 2(1-3,6,7) by (auto simp: Let_def sum_bind_Inr_iff split: if_splits)
  qed
qed simp

lemma takeWhile_fingerprint: "CHR '':'' \<notin> set sha \<Longrightarrow> takeWhile (\<lambda>c. c \<noteq> CHR '':'') (sha @ '':'' @ x) = sha"
  by (induction sha) auto

text \<open>
  A failed resume is held back for at least two minutes and at most an hour: after the
  bookkeeping of a tick, every request whose attempt failed or met a held lease has a record by
  which it is not due again under the same release until its time, which lies between 120 and 3600
  seconds ahead and is the full hour for a real failure; under another release it is due at once.
\<close>

theorem retry_backoff:
  assumes "tick_failures failures sha moment (results, ok) = Inr (next_failures, alerted)"
    and "distinct (map (\<lambda>t. pr_key (tk_request t)) results)" and "t \<in> set results"
    and "tk_outcome t \<in> {''failed'', ''retry''}" and "CHR '':'' \<notin> set sha"
    and "\<And>k a. map_of failures k = Some a \<Longrightarrow> 0 \<le> fa_attempts a"
  shows "\<exists>a. map_of next_failures (pr_key (tk_request t)) = Some a \<and>
     moment + 120 \<le> fa_next_attempt_at a \<and> fa_next_attempt_at a \<le> moment + 3600 \<and>
     (tk_outcome t = ''failed'' \<longrightarrow> fa_next_attempt_at a = moment + 3600) \<and>
     (\<forall>s. retry_due (Some a) sha s \<longleftrightarrow> fa_next_attempt_at a \<le> s) \<and>
     (\<forall>sha' s. sha' \<noteq> sha \<longrightarrow> retry_due (Some a) sha' s)"
proof -
  obtain a alert where a: "update_failure (map_of failures (pr_key (tk_request t))) t sha moment = Inr (a, alert)"
     "map_of next_failures (pr_key (tk_request t)) = Some a"
    using book_results_entry[OF assms(2-4) assms(1)[unfolded tick_failures_def split]] by blast
  then show ?thesis
    using update_failure_bounds[OF a(1) assms(6)] assms(4) takeWhile_fingerprint[OF assms(5)]
    by (auto simp: retry_due_def)
qed

text \<open>
  From the 1025th consecutive contention with the same reason on, the power of two does not fit a
  float and the bookkeeping of the tick raises.
\<close>

theorem long_contention_overflows:
  assumes "map_of failures (pr_key (tk_request t)) = Some p" and "1024 \<le> fa_attempts p"
    and "fa_fingerprint p = sha @ '':'' @ tk_reason t" and "tk_outcome t = ''retry''"
  shows "tick_failures failures sha moment ([t], ok) = Inl OverflowError"
  using assms by (simp add: tick_failures_def Let_def update_failure_def transient_delay_def)


section \<open>Sample runs\<close>

text \<open>A world that keeps the started commands, and a runner that records them.\<close>

definition sample_watch :: "string list list sgw" where
  "sample_watch = idle_world \<lparr>pn_files =
     [(''publish-wiki'', PGarbled), (''mail'', PValue (JObj [(''message_id'', JStr ''77'')]))], pn_rest = []\<rparr>"

definition sample_run :: "string list \<Rightarrow> (string list list sgw, int) io" where
  "sample_run c = (\<lambda>w. (Inr 8, w\<lparr>w_gate := (w_gate w)\<lparr>pn_rest := pn_rest (w_gate w) @ [c]\<rparr>\<rparr>))"

theorem watch_runs_only_approved_witness:
  "\<exists>results w' ran.
     watch_tick id ''helper'' (\<lambda>_. ret ''approved'') sample_run
       (\<lambda>_. ret \<lparr>rc_verdict = RECONCILE_RUN, rc_reason = []\<rparr>) (\<lambda>_. True) sample_watch = (Inr (results, True), w') \<and>
     map tk_request results = [request_for ''mail'', request_for ''publish-wiki''] \<and>
     pn_rest (w_gate w') = map (command_of ''helper'') ran"
proof -
  have order: "requests_of sample_watch = [request_for ''mail'', request_for ''publish-wiki'']"
    by (simp add: requests_of_def sample_watch_def idle_world_def pending_files_def record_order_def)
  have start: "pn_rest (w_gate sample_watch) = []" "w_disk sample_watch"
    by (simp_all add: sample_watch_def idle_world_def)
  obtain results w' ran where
    "watch_tick id ''helper'' (\<lambda>_. ret ''approved'') sample_run
       (\<lambda>_. ret \<lparr>rc_verdict = RECONCILE_RUN, rc_reason = []\<rparr>) (\<lambda>_. True) sample_watch =
       (Inr (results, w_disk sample_watch), w')"
    "map tk_request results = requests_of sample_watch"
    "pn_rest (w_gate w') = pn_rest (w_gate sample_watch) @ map (command_of ''helper'') ran"
    using watch_runs_only_approved[of "\<lambda>_. ret ''approved''" "\<lambda>w. pn_rest (w_gate w)" sample_run
        "\<lambda>_. ret \<lparr>rc_verdict = RECONCILE_RUN, rc_reason = []\<rparr>" id "''helper''" "\<lambda>_. True" sample_watch]
    by (force simp: ret_def sample_run_def)
  then show ?thesis using order start by auto
qed

definition sample_live :: "'w live_store" where
  "sample_live = \<lparr>ls_root = ''/store'', ls_live = (\<lambda>_. ret (Live_link ''/store/releases/mail/d1''))\<rparr>"

definition sample_reconcile :: "(unit sgw, reconciled) io" where
  "sample_reconcile = reconcile (deploy_gate sample_spec_env (\<lambda>_. sg_surface sample_skill_gate) (\<lambda>_ _. ''n9'')
     (dp_provenance sample_deploy)) sample_live (request_for ''mail'')"

lemma sample_retires:
  "fst (sample_reconcile sample_pending) = Inr \<lparr>rc_verdict = RETIRE_DONE, rc_reason = ''already-realized''\<rparr>"
  by code_simp

theorem reconcile_retires_only_mounted_witness:
  "\<exists>rec. record_of (pending_of ''mail'' sample_pending) = Inr (Some rec) \<and>
     release_path (sample_live :: unit sgw live_store) ''mail'' (rget rec ''hash'') = ''/store/releases/mail/d1''"
proof -
  obtain w' where "sample_reconcile sample_pending = (Inr \<lparr>rc_verdict = RETIRE_DONE, rc_reason = ''already-realized''\<rparr>, w')"
    using sample_retires by (metis prod.collapse)
  from reconcile_retires_only_mounted[OF this[unfolded sample_reconcile_def]] show ?thesis
    by (auto simp: sample_live_def ret_def request_for_def PUBLISH_PREFIX_def release_path_def)
qed

theorem retry_backoff_witness:
  "\<exists>next_failures a. tick_failures [] ''abc'' 1000
       ([\<lparr>tk_request = request_for ''mail'', tk_outcome = ''retry'', tk_reason = ''resume-exit:8''\<rparr>], True) =
       Inr (next_failures, True) \<and>
     map_of next_failures ''skill-deploy:mail'' = Some a \<and> 1120 \<le> fa_next_attempt_at a \<and>
     \<not> retry_due (Some a) ''abc'' 1100"
proof -
  let ?t = "\<lparr>tk_request = request_for ''mail'', tk_outcome = ''retry'', tk_reason = ''resume-exit:8''\<rparr>"
  have key: "pr_key (tk_request ?t) = ''skill-deploy:mail''" by code_simp
  obtain nf where run: "tick_failures [] ''abc'' 1000 ([?t], True) = Inr (nf, True)"
    by (simp add: tick_failures_def Let_def update_failure_def transient_delay_def)
  from retry_backoff[OF run, of ?t] key show ?thesis using run by fastforce
qed

theorem long_contention_overflows_witness:
  "tick_failures [(''skill-deploy:mail'', \<lparr>fa_fingerprint = ''abc:resume-exit:8'', fa_attempts = 1024, fa_next_attempt_at = 0\<rparr>)]
     ''abc'' 1000 ([\<lparr>tk_request = request_for ''mail'', tk_outcome = ''retry'', tk_reason = ''resume-exit:8''\<rparr>], True) =
   Inl OverflowError"
  by (rule long_contention_overflows[where p = "\<lparr>fa_fingerprint = ''abc:resume-exit:8'', fa_attempts = 1024, fa_next_attempt_at = 0\<rparr>"])
    (code_simp | simp)+


end
