(* ===== verification/Update_Trust.thy ===== *)
theory Update_Trust
  imports Git_Release
begin

text \<open>
  Model of \<open>automation/update_trust_state.py\<close>, the monotone release floor of an installation, and of
  \<open>automation/update_trust.py\<close>, which resolves an update through its signed release tag. The world
  holds the floor file, whether its path can be resolved and lies in a checkout, whether it can be
  written and made readable, and git's own state. Git, the temporary repository and the JSON codec
  are parameters.
\<close>

abbreviation ReleaseFloorError :: "string \<Rightarrow> py_exn" where
  "ReleaseFloorError \<equiv> TaggedError ''ReleaseFloorError''"

abbreviation UpdateTrustError :: "string \<Rightarrow> py_exn" where
  "UpdateTrustError \<equiv> TaggedError ''UpdateTrustError''"

section \<open>Versions and the floor (update_trust_state.py)\<close>

record release_floor =
  fl_tag :: string
  fl_commit_sha :: string
  fl_ordering :: "int \<times> int \<times> int"

definition MAX_TAG_LENGTH :: nat where
  "MAX_TAG_LENGTH = 128"

definition tag_char :: "char \<Rightarrow> bool" where
  "tag_char c \<longleftrightarrow> (let n = of_char c :: nat in
     48 \<le> n \<and> n \<le> 57 \<or> 65 \<le> n \<and> n \<le> 90 \<or> 97 \<le> n \<and> n \<le> 122)"

text \<open>The pattern \<open>_VERSION_TAG\<close>: its three numbers, which are followed by a separator or the suffix.\<close>

definition version_suffix :: "string \<Rightarrow> bool" where
  "version_suffix s \<longleftrightarrow> s = [] \<or>
     (hd s = CHR ''+'' \<or> hd s = CHR ''-'') \<and> tl s \<noteq> [] \<and> tag_char (hd (tl s)) \<and>
     list_all (\<lambda>c. tag_char c \<or> c = CHR ''.'' \<or> c = CHR ''-'') (tl (tl s))"

definition version_tag :: "string \<Rightarrow> (string \<times> string \<times> string) option" where
  "version_tag tag =
     (let major = takeWhile dec_char (tl tag); r1 = dropWhile dec_char (tl tag);
          minor = takeWhile dec_char (tl r1); r2 = dropWhile dec_char (tl r1);
          patch = takeWhile dec_char (tl r2); suffix = dropWhile dec_char (tl r2)
      in if tag \<noteq> [] \<and> hd tag = CHR ''v'' \<and> major \<noteq> [] \<and> r1 \<noteq> [] \<and> hd r1 = CHR ''.'' \<and>
            minor \<noteq> [] \<and> r2 \<noteq> [] \<and> hd r2 = CHR ''.'' \<and> patch \<noteq> [] \<and> version_suffix suffix
         then Some (major, minor, patch) else None)"

definition parse_release_version :: "string \<Rightarrow> py_exn + int \<times> int \<times> int" where
  "parse_release_version tag =
     (if length tag > MAX_TAG_LENGTH then Inl (ReleaseFloorError ''RELEASE-VERSION'')
      else case version_tag tag of
        None \<Rightarrow> Inl (ReleaseFloorError ''RELEASE-VERSION'')
      | Some (major, minor, patch) \<Rightarrow> Inr (dec_value major, dec_value minor, dec_value patch))"

definition release_floor_for :: "string \<Rightarrow> string \<Rightarrow> py_exn + release_floor" where
  "release_floor_for tag commit_sha =
     (if \<not> OBJECT_ID commit_sha then Inl (ReleaseFloorError ''RELEASE-FLOOR'')
      else sum_bind (parse_release_version tag) (\<lambda>version.
        Inr \<lparr>fl_tag = tag, fl_commit_sha = commit_sha, fl_ordering = version\<rparr>))"

definition refuse_release_rollback :: "release_floor option \<Rightarrow> release_floor \<Rightarrow> py_exn + unit" where
  "refuse_release_rollback anchor candidate =
     (case anchor of
        None \<Rightarrow> Inr ()
      | Some f \<Rightarrow>
          if fl_ordering candidate < fl_ordering f then Inl (ReleaseFloorError ''RELEASE-ROLLBACK'')
          else if fl_ordering candidate = fl_ordering f \<and>
            (fl_tag candidate \<noteq> fl_tag f \<or> fl_commit_sha candidate \<noteq> fl_commit_sha f)
          then Inl (ReleaseFloorError ''RELEASE-ROLLBACK'')
          else Inr ())"

text \<open>The file of the floor.\<close>

datatype floor_file = Floor_absent | Floor_unreadable | Floor_not_utf8 | Floor_text string

record 'g trust_world =
  tw_floor :: floor_file
  tw_checkout :: "bool option"
  tw_writable :: bool
  tw_chmod :: bool
  tw_git :: 'g

definition FLOOR_KEYS :: "string list" where
  "FLOOR_KEYS = [''schema_version'', ''tag'', ''commit_sha'']"

definition parse_floor :: "json \<Rightarrow> py_exn + release_floor" where
  "parse_floor payload =
     (case payload of
        JObj d \<Rightarrow>
          if set (map fst d) \<noteq> set FLOOR_KEYS then Inl (ReleaseFloorError ''RELEASE-FLOOR'')
          else if jget d ''schema_version'' \<noteq> Some (JInt 1) then Inl (ReleaseFloorError ''RELEASE-FLOOR'')
          else (case (jget d ''tag'', jget d ''commit_sha'') of
             (Some (JStr tag), Some (JStr sha)) \<Rightarrow>
               (case release_floor_for tag sha of
                  Inl _ \<Rightarrow> Inl (ReleaseFloorError ''RELEASE-FLOOR'')
                | Inr f \<Rightarrow> Inr f)
           | _ \<Rightarrow> Inl (ReleaseFloorError ''RELEASE-FLOOR''))
      | _ \<Rightarrow> Inl (ReleaseFloorError ''RELEASE-FLOOR''))"

text \<open>What a file means; only an absent file is the bootstrap case.\<close>

definition floor_of_file :: "(string \<Rightarrow> py_exn + json) \<Rightarrow> floor_file \<Rightarrow> py_exn + release_floor option" where
  "floor_of_file loads f =
     (case f of
        Floor_absent \<Rightarrow> Inr None
      | Floor_unreadable \<Rightarrow> Inl (ReleaseFloorError ''RELEASE-FLOOR'')
      | Floor_not_utf8 \<Rightarrow> Inl (ReleaseFloorError ''RELEASE-FLOOR'')
      | Floor_text s \<Rightarrow>
          (case loads s of
             Inl e \<Rightarrow> Inl (if e = JSONDecodeError then ReleaseFloorError ''RELEASE-FLOOR'' else e)
           | Inr payload \<Rightarrow> sum_bind (parse_floor payload) (\<lambda>r. Inr (Some r))))"

definition load_release_floor ::
  "(string \<Rightarrow> py_exn + json) \<Rightarrow> ('g trust_world, release_floor option) io" where
  "load_release_floor loads = (\<lambda>w. (floor_of_file loads (tw_floor w), w))"

definition floor_payload :: "release_floor \<Rightarrow> json" where
  "floor_payload f = JObj [(''commit_sha'', JStr (fl_commit_sha f)), (''schema_version'', JInt 1), (''tag'', JStr (fl_tag f))]"

definition refuse_checkout_path :: "('g trust_world, unit) io" where
  "refuse_checkout_path = (\<lambda>w. (if tw_checkout w = Some False then Inr () else Inl (ReleaseFloorError ''RELEASE-FLOOR''), w))"

definition save_release_floor :: "(json \<Rightarrow> string) \<Rightarrow> release_floor \<Rightarrow> ('g trust_world, unit) io" where
  "save_release_floor dumps f = bindM refuse_checkout_path (\<lambda>_ w.
     if tw_writable w then (Inr (), w\<lparr>tw_floor := Floor_text (dumps (floor_payload f) @ [newline])\<rparr>)
     else (Inl (ReleaseFloorError ''RELEASE-FLOOR''), w))"

text \<open>The check of the unprivileged side, and the advance of the privileged one.\<close>

definition advance_release_floor ::
  "(string \<Rightarrow> py_exn + json) \<Rightarrow> string \<Rightarrow> string \<Rightarrow> ('g trust_world, unit) io" where
  "advance_release_floor loads tag commit_sha =
     bindM (lift_sum (release_floor_for tag commit_sha)) (\<lambda>candidate.
     bindM (load_release_floor loads) (\<lambda>anchor.
     lift_sum (refuse_release_rollback anchor candidate)))"

definition privileged_advance_release_floor ::
  "(string \<Rightarrow> py_exn + json) \<Rightarrow> (json \<Rightarrow> string) \<Rightarrow> string \<Rightarrow> string \<Rightarrow> ('g trust_world, unit) io" where
  "privileged_advance_release_floor loads dumps tag commit_sha =
     bindM (lift_sum (release_floor_for tag commit_sha)) (\<lambda>candidate.
     bindM (load_release_floor loads) (\<lambda>anchor.
     bindM (lift_sum (refuse_release_rollback anchor candidate)) (\<lambda>_.
     if (case anchor of None \<Rightarrow> True | Some f \<Rightarrow> fl_ordering f < fl_ordering candidate)
     then bindM (save_release_floor dumps candidate) (\<lambda>_ w.
       (if tw_chmod w then Inr () else Inl (ReleaseFloorError ''RELEASE-FLOOR''), w))
     else ret ())))"

section \<open>Resolving an update (update_trust.py)\<close>

definition UPDATE_TRUST_PRINCIPAL :: string where
  "UPDATE_TRUST_PRINCIPAL = ''update-trust@autophagy''"

record trusted_update =
  tu_tag :: string
  tu_commit_sha :: string

record 'w tag_verifier =
  tv_git :: "'w git_runner"
  tv_remote_url :: string
  tv_allowed_signers :: string
  tv_workspace :: "('w, string) io"

definition git_output :: "'w git_runner \<Rightarrow> string list \<Rightarrow> string \<Rightarrow> ('w, string) io" where
  "git_output g args prefix =
     bindM (attemptM (gr_run g args)) (\<lambda>res.
     case res of
       Inl e \<Rightarrow> raise (if is_os_error e \<or> gr_subprocess_error g e then UpdateTrustError prefix else e)
     | Inr (code, out, err) \<Rightarrow> if code \<noteq> 0 then raise (UpdateTrustError prefix) else ret out)"

definition error_class :: "py_exn \<Rightarrow> string \<Rightarrow> bool" where
  "error_class e c \<longleftrightarrow> (case e of TaggedError c' _ \<Rightarrow> c' = c | _ \<Rightarrow> False)"

definition retag :: "string \<Rightarrow> py_exn \<Rightarrow> py_exn" where
  "retag c e = (case e of TaggedError _ p \<Rightarrow> TaggedError c p | _ \<Rightarrow> e)"

definition py_strip :: "string \<Rightarrow> string" where
  "py_strip s = strip_by py_space s"

definition verify_remote_tag :: "'w tag_verifier \<Rightarrow> remote_release_tag \<Rightarrow> ('w, trusted_update) io" where
  "verify_remote_tag v tag =
     bindM (tryM (tv_workspace v) (\<lambda>e. raise (if is_os_error e then UpdateTrustError ''VERIFY-WORKSPACE'' else e)))
       (\<lambda>temporary.
     let repository = temporary @ ''/repository.git''; tag_ref = TAG_PREFIX @ rt_name tag; g = tv_git v in
     bindM (git_output g [''git'', ''init'', ''--bare'', repository] ''VERIFY-WORKSPACE'') (\<lambda>_.
     bindM (git_output g [''git'', ''-C'', repository, ''-c'', ''remote.origin.url='' @ tv_remote_url v, ''fetch'',
        ''--force'', ''--no-tags'', ''--depth=1'', ''origin'', ''+'' @ tag_ref @ '':'' @ tag_ref] ''TAG-FETCH'') (\<lambda>_.
     bindM (git_output g [''git'', ''-C'', repository, ''rev-parse'', tag_ref] ''TAG-BINDING'') (\<lambda>fetched_object.
     if py_strip fetched_object \<noteq> rt_object_sha tag then raise (UpdateTrustError ''TAG-RACE'')
     else bindM (tryM (verify_tag_signature g \<lparr>sr_repository = repository, sr_tag = tag_ref,
          sr_allowed_signers = tv_allowed_signers v, sr_expected_principal = UPDATE_TRUST_PRINCIPAL\<rparr>)
          (\<lambda>e. raise (if error_class e ''TagSignatureError'' then retag ''UpdateTrustError'' e else e))) (\<lambda>_.
     bindM (git_output g [''git'', ''-C'', repository, ''rev-parse'', tag_ref @ ''^{commit}''] ''TAG-BINDING'')
       (\<lambda>commit_sha.
     if py_strip commit_sha \<noteq> rt_commit_sha tag then raise (UpdateTrustError ''TAG-RACE'')
     else ret \<lparr>tu_tag = rt_name tag, tu_commit_sha = py_strip commit_sha\<rparr>))))))"

text \<open>Newest release first, equal versions in the order given; names that are no release are left out.\<close>

definition versioned :: "remote_release_tag list \<Rightarrow> ((int \<times> int \<times> int) \<times> remote_release_tag) list" where
  "versioned tags = concat (map (\<lambda>t. case parse_release_version (rt_name t) of
       Inl _ \<Rightarrow> [] | Inr version \<Rightarrow> [(version, t)]) tags)"

definition release_candidates :: "remote_release_tag list \<Rightarrow> remote_release_tag list" where
  "release_candidates tags = map snd (rev (sort_key fst (rev (versioned tags))))"

definition remote_argument :: "string option \<Rightarrow> py_exn + string" where
  "remote_argument remote_url =
     (case remote_url of
        None \<Rightarrow> Inr ''origin''
      | Some url \<Rightarrow> if url = [] \<or> hd url = CHR ''-'' then Inl (UpdateTrustError ''REMOTE-URL'') else Inr url)"

text \<open>One candidate: verified first, then held against the floor.\<close>

definition try_tag ::
  "(string \<Rightarrow> py_exn + json) \<Rightarrow> 'g trust_world tag_verifier \<Rightarrow> remote_release_tag \<Rightarrow>
   ('g trust_world, trusted_update) io" where
  "try_tag loads v tag =
     bindM (verify_remote_tag v tag) (\<lambda>update.
     bindM (advance_release_floor loads (tu_tag update) (tu_commit_sha update)) (\<lambda>_. ret update))"

fun first_trusted ::
  "(string \<Rightarrow> py_exn + json) \<Rightarrow> 'g trust_world tag_verifier \<Rightarrow> remote_release_tag list \<Rightarrow> py_exn option \<Rightarrow>
   ('g trust_world, trusted_update) io" where
  "first_trusted loads v [] last_error =
     raise (case last_error of Some e \<Rightarrow> e | None \<Rightarrow> UpdateTrustError ''UNSIGNED-HEAD'')"
| "first_trusted loads v (tag # tags) last_error =
     bindM (attemptM (try_tag loads v tag)) (\<lambda>r.
     case r of
       Inl e \<Rightarrow> if error_class e ''UpdateTrustError'' then first_trusted loads v tags (Some e)
         else if error_class e ''ReleaseFloorError''
         then first_trusted loads v tags (Some (retag ''UpdateTrustError'' e))
         else raise e
     | Inr update \<Rightarrow> ret update)"

definition parsed_release :: "string \<Rightarrow> py_exn + remote_release_tag list" where
  "parsed_release s = (case parse_remote_release_refs s of
     Inl e \<Rightarrow> Inl (if error_class e ''RemoteRefError'' then retag ''UpdateTrustError'' e else e) | Inr tags \<Rightarrow> Inr tags)"

definition resolve_signed_update ::
  "(string \<Rightarrow> py_exn + json) \<Rightarrow> 'g trust_world git_runner \<Rightarrow> ('g trust_world, string) io \<Rightarrow>
   string \<Rightarrow> string \<Rightarrow> string option \<Rightarrow> ('g trust_world, trusted_update) io" where
  "resolve_signed_update loads g workspace mirror allowed_signers remote_url =
     bindM (lift_sum (remote_argument remote_url)) (\<lambda>remote.
     bindM (git_output g [''git'', ''-C'', mirror, ''ls-remote'', remote, HEAD_REF, ''refs/tags/*''] ''REMOTE-REFS'') (\<lambda>refs.
     bindM (lift_sum (parsed_release refs)) (\<lambda>tags.
     bindM (if remote_url \<noteq> None then ret remote
            else bindM (git_output g [''git'', ''-C'', mirror, ''remote'', ''get-url'', ''origin''] ''REMOTE-URL'')
              (\<lambda>out. ret (py_strip out))) (\<lambda>url.
     if url = [] \<or> hd url = CHR ''-'' then raise (UpdateTrustError ''REMOTE-URL'')
     else first_trusted loads \<lparr>tv_git = g, tv_remote_url = url, tv_allowed_signers = allowed_signers,
       tv_workspace = workspace\<rparr> (release_candidates tags) None))))"

definition resolve_update_target ::
  "(string \<Rightarrow> py_exn + json) \<Rightarrow> 'g trust_world git_runner \<Rightarrow> ('g trust_world, string) io \<Rightarrow>
   string \<Rightarrow> bool \<Rightarrow> string \<Rightarrow> string option \<Rightarrow> ('g trust_world, string) io" where
  "resolve_update_target loads g workspace mirror require_signed allowed_signers remote_url =
     (if require_signed
      then bindM (resolve_signed_update loads g workspace mirror allowed_signers remote_url) (\<lambda>u. ret (tu_commit_sha u))
      else bindM (lift_sum (remote_argument remote_url)) (\<lambda>remote.
        bindM (git_output g [''git'', ''-C'', mirror, ''ls-remote'', remote, HEAD_REF] ''REMOTE-UNRESOLVED'') (\<lambda>out.
        case py_words [] out of
          [sha, name] \<Rightarrow> if OBJECT_ID sha \<and> name = HEAD_REF then ret sha
            else raise (UpdateTrustError ''REMOTE-UNRESOLVED'')
        | _ \<Rightarrow> raise (UpdateTrustError ''REMOTE-UNRESOLVED''))))"

section \<open>The floor never falls\<close>

lemma release_floor_for_fields:
  "release_floor_for tag sha = Inr f \<Longrightarrow> fl_tag f = tag \<and> fl_commit_sha f = sha \<and>
     parse_release_version tag = Inr (fl_ordering f) \<and> OBJECT_ID sha"
  by (auto simp: release_floor_for_def sum_bind_Inr_iff split: if_splits)

lemma parse_floor_payload:
  "release_floor_for tag sha = Inr f \<Longrightarrow> parse_floor (floor_payload f) = Inr f"
  using release_floor_for_fields[of tag sha f]
  by (auto simp: parse_floor_def floor_payload_def FLOOR_KEYS_def jget_def)

lemma parse_floor_wf:
  assumes "parse_floor payload = Inr f"
  shows "\<exists>tag sha. release_floor_for tag sha = Inr f"
proof -
  obtain d where d: "payload = JObj d" using assms by (cases payload) (simp_all add: parse_floor_def)
  then obtain tag sha where "jget d ''tag'' = Some (JStr tag)" "jget d ''commit_sha'' = Some (JStr sha)"
    using assms unfolding parse_floor_def by (simp split: if_splits option.splits json.splits)
  then show ?thesis
    using assms d unfolding parse_floor_def by (auto split: if_splits sum.splits)
qed

lemma floor_of_file_wf:
  assumes "floor_of_file loads file = Inr (Some f)"
  shows "release_floor_for (fl_tag f) (fl_commit_sha f) = Inr f"
proof -
  obtain s where s: "file = Floor_text s"
    using assms by (cases "file") (simp_all add: floor_of_file_def)
  obtain payload where p: "loads s = Inr payload"
    using assms by (cases "loads s") (simp_all add: floor_of_file_def s)
  have "parse_floor payload = Inr f"
    using assms by (cases "parse_floor payload") (simp_all add: floor_of_file_def s p)
  then obtain tag sha where f: "release_floor_for tag sha = Inr f" using parse_floor_wf by blast
  then have "fl_tag f = tag" "fl_commit_sha f = sha" using release_floor_for_fields[OF f] by simp_all
  then show ?thesis using f by (simp only:)
qed

definition newer_or_same :: "release_floor \<Rightarrow> release_floor \<Rightarrow> bool" where
  "newer_or_same f g \<longleftrightarrow> fl_ordering f < fl_ordering g \<or> f = g"

lemma newer_or_same_trans: "newer_or_same f g \<Longrightarrow> newer_or_same g h \<Longrightarrow> newer_or_same f h"
  by (auto simp: newer_or_same_def dest: less_trans)

lemma accepted_newer_or_same:
  assumes "refuse_release_rollback (Some f) c = Inr ()" and "floor_of_file loads file = Inr (Some f)"
    and "release_floor_for tag sha = Inr c"
  shows "newer_or_same f c"
proof (cases "fl_ordering f < fl_ordering c")
  case False
  then have "fl_tag c = fl_tag f" "fl_commit_sha c = fl_commit_sha f"
    using assms(1) by (auto simp: refuse_release_rollback_def split: if_splits)
  moreover have "fl_tag c = tag" "fl_commit_sha c = sha"
    using release_floor_for_fields[OF assms(3)] by simp_all
  ultimately have "fl_tag f = tag" "fl_commit_sha f = sha" by (simp_all only:)
  then have "release_floor_for tag sha = Inr f"
    using floor_of_file_wf[OF assms(2)] by (simp only:)
  then have "c = f" using assms(3) by (simp only: sum.inject)
  then show ?thesis by (simp add: newer_or_same_def)
qed (simp add: newer_or_same_def)

text \<open>What one privileged advance does to the floor the file stands for.\<close>

lemma privileged_advance_step:
  assumes codec: "\<And>f. loads (dumps (floor_payload f) @ [newline]) = Inr (floor_payload f)"
    and run: "privileged_advance_release_floor loads dumps tag sha w = (r, w')"
  shows "(floor_of_file loads (tw_floor w') = floor_of_file loads (tw_floor w) \<or>
      (\<exists>c. release_floor_for tag sha = Inr c \<and> floor_of_file loads (tw_floor w') = Inr (Some c) \<and>
        (\<forall>f. floor_of_file loads (tw_floor w) = Inr (Some f) \<longrightarrow> newer_or_same f c))) \<and>
     (r = Inr () \<longrightarrow> (\<exists>c. release_floor_for tag sha = Inr c \<and> floor_of_file loads (tw_floor w') = Inr (Some c)))"
proof (cases "\<exists>c anchor. release_floor_for tag sha = Inr c \<and> floor_of_file loads (tw_floor w) = Inr anchor \<and>
    refuse_release_rollback anchor c = Inr ()")
  case False
  then show ?thesis using run
    by (auto simp: privileged_advance_release_floor_def load_release_floor_def bindM_def lift_sum_def ret_def raise_def
        split: sum.splits)
next
  case True
  then obtain c anchor where c: "release_floor_for tag sha = Inr c" "floor_of_file loads (tw_floor w) = Inr anchor"
    "refuse_release_rollback anchor c = Inr ()" by blast
  have saved: "floor_of_file loads (Floor_text (dumps (floor_payload c) @ [newline])) = Inr (Some c)"
    using codec parse_floor_payload[OF c(1)] by (simp add: floor_of_file_def)
  have newer: "anchor = Some f \<Longrightarrow> newer_or_same f c" for f
    using accepted_newer_or_same[of f c loads "tw_floor w" tag sha] c by simp
  show ?thesis
  proof (cases "case anchor of None \<Rightarrow> True | Some f \<Rightarrow> fl_ordering f < fl_ordering c")
    case True
    then show ?thesis
      using run c saved newer
      by (auto simp: privileged_advance_release_floor_def load_release_floor_def save_release_floor_def
          refuse_checkout_path_def bindM_def lift_sum_def ret_def raise_def split: if_splits option.splits)
  next
    case False
    then obtain f where "anchor = Some f" "f = c"
      using newer by (auto simp: newer_or_same_def split: option.splits)
    then show ?thesis
      using run c False
      by (auto simp: privileged_advance_release_floor_def load_release_floor_def bindM_def lift_sum_def ret_def
          raise_def)
  qed
qed

text \<open>
  A history of attempts by the privileged side, each with the state of the path, the disk and the
  permissions it meets; \<open>run_advances\<close> gives the accepted releases and the final world.
\<close>

type_synonym attempt = "string \<times> string \<times> bool option \<times> bool \<times> bool"

fun run_advances ::
  "(string \<Rightarrow> py_exn + json) \<Rightarrow> (json \<Rightarrow> string) \<Rightarrow> attempt list \<Rightarrow> 'g trust_world \<Rightarrow>
   release_floor list \<times> 'g trust_world" where
  "run_advances loads dumps [] w = ([], w)"
| "run_advances loads dumps ((tag, sha, checkout, writable, chmod) # attempts) w =
     (case privileged_advance_release_floor loads dumps tag sha
         (w\<lparr>tw_checkout := checkout, tw_writable := writable, tw_chmod := chmod\<rparr>) of
        (r, w1) \<Rightarrow> (case run_advances loads dumps attempts w1 of
          (accepted, w2) \<Rightarrow> ((case r of Inl _ \<Rightarrow> [] | Inr _ \<Rightarrow> [projr (release_floor_for tag sha)]) @ accepted, w2)))"

text \<open>
  \<^bold>\<open>C6.\<close> The installed releases never go backwards: over any history of privileged advances, with
  failing disks, foreign paths and unreadable results in between, the accepted releases are ascending
  in their version, a version never stands for two tags or commits, and the floor at the end is at
  least as new as the floor at the start and as every accepted release.
\<close>

theorem floor_never_rolls_back:
  assumes "\<And>f. loads (dumps (floor_payload f) @ [newline]) = Inr (floor_payload f)"
    and "run_advances loads dumps attempts w = (accepted, w')"
  shows "sorted_wrt newer_or_same accepted \<and>
     (\<forall>f. floor_of_file loads (tw_floor w) = Inr (Some f) \<longrightarrow>
        (\<forall>a \<in> set accepted. newer_or_same f a) \<and>
        (\<exists>g. floor_of_file loads (tw_floor w') = Inr (Some g) \<and> newer_or_same f g)) \<and>
     (accepted \<noteq> [] \<longrightarrow> (\<exists>g. floor_of_file loads (tw_floor w') = Inr (Some g) \<and>
        (\<forall>a \<in> set accepted. newer_or_same a g)))"
  using assms(2)
proof (induction attempts arbitrary: w accepted)
  case Nil
  then show ?case by (auto simp: newer_or_same_def)
next
  case (Cons a attempts)
  obtain tag sha checkout writable chmod where a: "a = (tag, sha, checkout, writable, chmod)"
    by (cases a) auto
  let ?w = "w\<lparr>tw_checkout := checkout, tw_writable := writable, tw_chmod := chmod\<rparr>"
  obtain r w1 where step: "privileged_advance_release_floor loads dumps tag sha ?w = (r, w1)" by fastforce
  obtain rest where rest: "run_advances loads dumps attempts w1 = (rest, w')"
    "accepted = (case r of Inl _ \<Rightarrow> [] | Inr _ \<Rightarrow> [projr (release_floor_for tag sha)]) @ rest"
    using Cons.prems by (auto simp: a step split: prod.splits)
  note ih = Cons.IH[OF rest(1)]
  have moved: "newer_or_same f g" if "floor_of_file loads (tw_floor w) = Inr (Some f)"
     "floor_of_file loads (tw_floor w1) = Inr (Some g)" for f g
    using privileged_advance_step[OF assms(1) step] that by (auto simp: newer_or_same_def)
  have kept: "\<exists>g. floor_of_file loads (tw_floor w1) = Inr (Some g)" if "floor_of_file loads (tw_floor w) = Inr (Some f)" for f
    using privileged_advance_step[OF assms(1) step] that by auto
  show ?case
  proof (cases r)
    case (Inl e)
    then have acc: "accepted = rest" using rest(2) by simp
    show ?thesis unfolding acc
    proof (intro conjI allI impI)
      show "sorted_wrt newer_or_same rest" using ih by simp
    next
      fix f assume f: "floor_of_file loads (tw_floor w) = Inr (Some f)"
      obtain g where g: "floor_of_file loads (tw_floor w1) = Inr (Some g)" using kept[OF f] by blast
      have fg: "newer_or_same f g" using moved[OF f g] .
      have after: "\<forall>a \<in> set rest. newer_or_same g a"
        "\<exists>h. floor_of_file loads (tw_floor w') = Inr (Some h) \<and> newer_or_same g h"
        using ih g by blast+
      show "\<forall>a \<in> set rest. newer_or_same f a" using after(1) newer_or_same_trans[OF fg] by simp
      show "\<exists>g. floor_of_file loads (tw_floor w') = Inr (Some g) \<and> newer_or_same f g"
        using after(2) newer_or_same_trans[OF fg] by blast
    next
      assume "rest \<noteq> []"
      then show "\<exists>g. floor_of_file loads (tw_floor w') = Inr (Some g) \<and> (\<forall>a \<in> set rest. newer_or_same a g)"
        using ih by simp
    qed
  next
    case (Inr u)
    then obtain c where c: "release_floor_for tag sha = Inr c" "floor_of_file loads (tw_floor w1) = Inr (Some c)"
      using privileged_advance_step[OF assms(1) step] by auto
    then have acc: "accepted = c # rest" using rest(2) Inr by simp
    have same: "newer_or_same c c" by (simp add: newer_or_same_def)
    obtain g where g: "floor_of_file loads (tw_floor w') = Inr (Some g)" "newer_or_same c g"
      "\<forall>a \<in> set rest. newer_or_same c a"
      using ih c(2) by blast
    have below: "\<forall>a \<in> set rest. newer_or_same a g"
      using ih g(1) by (cases "rest = []") auto
    have start: "newer_or_same f c" if "floor_of_file loads (tw_floor w) = Inr (Some f)" for f
      using moved[OF that c(2)] .
    show ?thesis unfolding acc
    proof (intro conjI allI impI)
      show "sorted_wrt newer_or_same (c # rest)" using ih g(3) by simp
    next
      fix f assume f: "floor_of_file loads (tw_floor w) = Inr (Some f)"
      show "\<forall>a \<in> set (c # rest). newer_or_same f a"
        using start[OF f] g(3) newer_or_same_trans by auto
      show "\<exists>g. floor_of_file loads (tw_floor w') = Inr (Some g) \<and> newer_or_same f g"
        using start[OF f] g(1,2) newer_or_same_trans by blast
    next
      show "\<exists>g. floor_of_file loads (tw_floor w') = Inr (Some g) \<and> (\<forall>a \<in> set (c # rest). newer_or_same a g)"
        using g(1,2) below by auto
    qed
  qed
qed

section \<open>Which release an update resolves to\<close>

text \<open>Code that leaves the floor alone.\<close>

definition keeps_floor :: "('g trust_world, 'a) io \<Rightarrow> bool" where
  "keeps_floor m \<longleftrightarrow> (\<forall>w. tw_floor (snd (m w)) = tw_floor w)"

named_theorems keeps \<open>rules for code that leaves the floor alone\<close>

lemma keeps_floorD: "keeps_floor m \<Longrightarrow> m w = (r, w') \<Longrightarrow> tw_floor w' = tw_floor w"
  by (metis keeps_floor_def snd_conv)

lemma keeps_ret [keeps]: "keeps_floor (ret a)"
  by (simp add: keeps_floor_def ret_def)

lemma keeps_raise [keeps]: "keeps_floor (raise e)"
  by (simp add: keeps_floor_def raise_def)

lemma keeps_lift_sum [keeps]: "keeps_floor (lift_sum s)"
  by (simp add: lift_sum_def keeps_ret keeps_raise split: sum.split)

lemma keeps_bindM [keeps]:
  assumes "keeps_floor m" and "\<And>a. keeps_floor (f a)"
  shows "keeps_floor (bindM m f)"
  unfolding keeps_floor_def
proof
  fix w
  obtain r w1 where m: "m w = (r, w1)" by fastforce
  then show "tw_floor (snd (bindM m f w)) = tw_floor w"
    using keeps_floorD[OF assms(1) m] assms(2)
    by (cases r) (simp_all add: bindM_def keeps_floor_def)
qed

lemma keeps_attemptM [keeps]: "keeps_floor m \<Longrightarrow> keeps_floor (attemptM m)"
  by (simp add: keeps_floor_def attemptM_def split_beta)

lemma keeps_tryM [keeps]:
  assumes "keeps_floor m" and "\<And>e. keeps_floor (h e)"
  shows "keeps_floor (tryM m h)"
  unfolding keeps_floor_def
proof
  fix w
  obtain r w1 where m: "m w = (r, w1)" by fastforce
  then show "tw_floor (snd (tryM m h w)) = tw_floor w"
    using keeps_floorD[OF assms(1) m] assms(2)
    by (cases r) (simp_all add: tryM_def keeps_floor_def)
qed

lemma keeps_if [keeps]: "keeps_floor m \<Longrightarrow> keeps_floor m' \<Longrightarrow> keeps_floor (if b then m else m')"
  by simp

lemma keeps_sum [keeps]:
  "(\<And>e. keeps_floor (f e)) \<Longrightarrow> (\<And>a. keeps_floor (h a)) \<Longrightarrow> keeps_floor (case s of Inl e \<Rightarrow> f e | Inr a \<Rightarrow> h a)"
  by (simp split: sum.split)

lemma keeps_prod [keeps]:
  "(\<And>a b. keeps_floor (f a b)) \<Longrightarrow> keeps_floor (case p of (a, b) \<Rightarrow> f a b)"
  by (simp split: prod.split)

lemma keeps_load [keeps]: "keeps_floor (load_release_floor loads)"
  by (simp add: keeps_floor_def load_release_floor_def)

lemma keeps_advance [keeps]: "keeps_floor (advance_release_floor loads tag sha)"
  unfolding advance_release_floor_def by (intro keeps)

lemma keeps_git_output [keeps]:
  "(\<And>args. keeps_floor (gr_run g args)) \<Longrightarrow> keeps_floor (git_output g args prefix)"
  unfolding git_output_def by (intro keeps) simp_all

lemma keeps_verify_tag [keeps]:
  "(\<And>args. keeps_floor (gr_run g args)) \<Longrightarrow> keeps_floor (verify_tag_signature g r)"
  unfolding verify_tag_signature_def by (intro keeps) simp_all

lemma keeps_verify_remote [keeps]:
  assumes "\<And>args. keeps_floor (gr_run (tv_git v) args)" and "keeps_floor (tv_workspace v)"
  shows "keeps_floor (verify_remote_tag v tag)"
  unfolding verify_remote_tag_def Let_def by (intro keeps assms)

lemma keeps_try_tag [keeps]:
  assumes "\<And>args. keeps_floor (gr_run (tv_git v) args)" and "keeps_floor (tv_workspace v)"
  shows "keeps_floor (try_tag loads v tag)"
  unfolding try_tag_def by (intro keeps assms)

text \<open>A tag that counts as trusted: git accepted its signature for the update principal.\<close>

definition signature_accepted :: "'w tag_verifier \<Rightarrow> remote_release_tag \<Rightarrow> bool" where
  "signature_accepted v tag \<longleftrightarrow> (\<exists>repository wa wb out err.
     gr_run (tv_git v) [''git'', ''-C'', repository, ''-c'', ''gpg.ssh.allowedSignersFile='' @ tv_allowed_signers v,
        ''verify-tag'', TAG_PREFIX @ rt_name tag] wa = (Inr (0, out, err), wb) \<and>
     verified_principal (out @ newline # err) = Some UPDATE_TRUST_PRINCIPAL)"

lemma verify_tag_signature_ok:
  assumes "verify_tag_signature g r w = (Inr u, w')"
  shows "\<exists>out err. gr_run g [''git'', ''-C'', sr_repository r, ''-c'',
         ''gpg.ssh.allowedSignersFile='' @ sr_allowed_signers r, ''verify-tag'', sr_tag r] w = (Inr (0, out, err), w') \<and>
       verified_principal (out @ newline # err) = Some (sr_expected_principal r)"
proof -
  let ?call = "gr_run g [''git'', ''-C'', sr_repository r, ''-c'',
         ''gpg.ssh.allowedSignersFile='' @ sr_allowed_signers r, ''verify-tag'', sr_tag r]"
  obtain res w1 where call: "?call w = (res, w1)" by fastforce
  show ?thesis
  proof (cases res)
    case (Inl e)
    then show ?thesis using assms call
      by (simp add: verify_tag_signature_def bindM_def attemptM_def raise_def)
  next
    case (Inr p)
    obtain code out err where "p = (code, out, err)" by (cases p) auto
    then show ?thesis using assms call Inr
      by (simp add: verify_tag_signature_def bindM_def attemptM_def raise_def ret_def split: if_splits)
  qed
qed

lemma returns_verify_tag:
  "returns (\<lambda>_. signature_accepted v tag)
     (verify_tag_signature (tv_git v) \<lparr>sr_repository = repository, sr_tag = TAG_PREFIX @ rt_name tag,
     sr_allowed_signers = tv_allowed_signers v, sr_expected_principal = UPDATE_TRUST_PRINCIPAL\<rparr>)"
  unfolding returns_def
proof (intro allI impI)
  fix w a w'
  assume run: "verify_tag_signature (tv_git v) \<lparr>sr_repository = repository, sr_tag = TAG_PREFIX @ rt_name tag,
     sr_allowed_signers = tv_allowed_signers v, sr_expected_principal = UPDATE_TRUST_PRINCIPAL\<rparr> w = (Inr a, w')"
  show "signature_accepted v tag"
    using verify_tag_signature_ok[OF run, unfolded signature_request.select_convs]
    unfolding signature_accepted_def by blast
qed

lemma returns_verify_remote:
  "returns (\<lambda>u. u = \<lparr>tu_tag = rt_name tag, tu_commit_sha = rt_commit_sha tag\<rparr> \<and> signature_accepted v tag)
     (verify_remote_tag v tag)"
  unfolding verify_remote_tag_def Let_def
  apply (intro returns_bind)
  subgoal for temporary x1 x2 fetched
    by (cases "py_strip fetched = rt_object_sha tag")
      (auto intro!: returns_bind returns_bind2[OF returns_reraise[OF returns_verify_tag]])
  done

text \<open>One candidate that was accepted, with the floor it was held against.\<close>

definition fresh_release :: "(string \<Rightarrow> py_exn + json) \<Rightarrow> floor_file \<Rightarrow> trusted_update \<Rightarrow> bool" where
  "fresh_release loads held u \<longleftrightarrow> (\<exists>anchor candidate. floor_of_file loads held = Inr anchor \<and>
     release_floor_for (tu_tag u) (tu_commit_sha u) = Inr candidate \<and>
     refuse_release_rollback anchor candidate = Inr ())"

lemma advance_release_floor_ok:
  assumes "advance_release_floor loads tag sha w = (Inr x, w')"
  shows "fresh_release loads (tw_floor w) \<lparr>tu_tag = tag, tu_commit_sha = sha\<rparr>"
  using assms by (auto simp: fresh_release_def advance_release_floor_def load_release_floor_def
      elim!: bindM_InrE dest!: lift_sum_Inr)

lemma try_tag_ok:
  assumes "try_tag loads v tag w = (Inr u, w')"
    and "\<And>args. keeps_floor (gr_run (tv_git v) args)" and "keeps_floor (tv_workspace v)"
  shows "u = \<lparr>tu_tag = rt_name tag, tu_commit_sha = rt_commit_sha tag\<rparr> \<and> signature_accepted v tag \<and>
     fresh_release loads (tw_floor w) u"
proof -
  obtain a w1 where a: "verify_remote_tag v tag w = (Inr a, w1)"
    and rest: "bindM (advance_release_floor loads (tu_tag a) (tu_commit_sha a)) (\<lambda>_. ret a) w1 = (Inr u, w')"
    using assms(1) unfolding try_tag_def by (rule bindM_InrE)
  obtain x w2 where x: "advance_release_floor loads (tu_tag a) (tu_commit_sha a) w1 = (Inr x, w2)"
    and "ret a w2 = (Inr u, w')"
    using rest by (rule bindM_InrE)
  then have u: "u = a" by (simp add: ret_def)
  have held: "tw_floor w1 = tw_floor w"
    by (rule keeps_floorD[OF keeps_verify_remote a]) (fact assms)+
  show ?thesis
    using returnsD[OF returns_verify_remote a] advance_release_floor_ok[OF x] u held by simp
qed

text \<open>A candidate that was tried, and turned away by a failed verification or by the floor.\<close>

definition turned_away ::
  "(string \<Rightarrow> py_exn + json) \<Rightarrow> 'g trust_world tag_verifier \<Rightarrow> remote_release_tag \<Rightarrow> bool" where
  "turned_away loads v tag \<longleftrightarrow> (\<exists>w e w'. try_tag loads v tag w = (Inl e, w') \<and>
     (error_class e ''UpdateTrustError'' \<or> error_class e ''ReleaseFloorError''))"

lemma first_trusted_ok:
  assumes "first_trusted loads v tags earlier w = (Inr u, w')"
    and git: "\<And>args. keeps_floor (gr_run (tv_git v) args)" and space: "keeps_floor (tv_workspace v)"
  shows "\<exists>before t after. tags = before @ t # after \<and> (\<forall>b \<in> set before. turned_away loads v b) \<and>
     u = \<lparr>tu_tag = rt_name t, tu_commit_sha = rt_commit_sha t\<rparr> \<and> signature_accepted v t \<and>
     fresh_release loads (tw_floor w) u"
  using assms(1)
proof (induction tags arbitrary: earlier w)
  case Nil
  then show ?case by (simp add: raise_def)
next
  case (Cons t tags)
  obtain r w1 where r: "try_tag loads v t w = (r, w1)" by fastforce
  have held: "tw_floor w1 = tw_floor w"
    by (rule keeps_floorD[OF keeps_try_tag r]) (fact git space)+
  show ?case
  proof (cases r)
    case (Inr u')
    then have "u' = u" using Cons.prems r by (simp add: bindM_def attemptM_def ret_def)
    then have "t # tags = [] @ t # tags \<and> u = \<lparr>tu_tag = rt_name t, tu_commit_sha = rt_commit_sha t\<rparr> \<and>
       signature_accepted v t \<and> fresh_release loads (tw_floor w) u"
      using try_tag_ok[OF _ git space] r Inr by simp
    then show ?thesis by fastforce
  next
    case (Inl e)
    then obtain e1 where go: "first_trusted loads v tags e1 w1 = (Inr u, w')"
      and e: "error_class e ''UpdateTrustError'' \<or> error_class e ''ReleaseFloorError''"
      using Cons.prems r by (auto simp: bindM_def attemptM_def raise_def split: if_splits)
    then have away: "turned_away loads v t"
      using r Inl unfolding turned_away_def by blast
    obtain before s after where s: "tags = before @ s # after" "\<forall>b \<in> set before. turned_away loads v b"
      "u = \<lparr>tu_tag = rt_name s, tu_commit_sha = rt_commit_sha s\<rparr>" "signature_accepted v s"
      "fresh_release loads (tw_floor w) u"
      using Cons.IH[OF go] held by auto
    have "t # tags = (t # before) @ s # after" using s(1) by simp
    moreover have "\<forall>b \<in> set (t # before). turned_away loads v b" using s(2) away by simp
    ultimately show ?thesis using s(3-5) by blast
  qed
qed

text \<open>The order of the candidates.\<close>

definition release_order :: "remote_release_tag \<Rightarrow> int \<times> int \<times> int" where
  "release_order t = projr (parse_release_version (rt_name t))"

lemma versioned_order: "p \<in> set (versioned tags) \<Longrightarrow> fst p = release_order (snd p) \<and> snd p \<in> set tags"
  by (auto simp: versioned_def release_order_def dest!: sym[of "Inr _"] split: sum.splits)

lemma release_candidates_sorted: "sorted_wrt (\<lambda>a b. release_order b \<le> release_order a) (release_candidates tags)"
proof -
  have "sorted_wrt (\<lambda>p q. fst p \<le> fst q) (sort_key fst (rev (versioned tags)))"
    using sorted_sort_key[of fst "rev (versioned tags)"] by (simp add: sorted_wrt_map)
  then have "sorted_wrt (\<lambda>p q. release_order (snd p) \<le> release_order (snd q)) (sort_key fst (rev (versioned tags)))"
    by (rule sorted_wrt_mono_rel[rotated]) (simp add: versioned_order[THEN conjunct1, symmetric])
  then show ?thesis
    by (simp add: release_candidates_def sorted_wrt_map sorted_wrt_rev)
qed


section \<open>Witnesses\<close>

text \<open>A codec that restores every floor: the length of the commit, the commit, the tag.\<close>

definition sample_floor_dumps :: "json \<Rightarrow> string" where
  "sample_floor_dumps payload = (case payload of
     JObj [(_, JStr sha), _, (_, JStr tag)] \<Rightarrow> replicate (length sha) (CHR ''x'') @ '','' @ sha @ tag | _ \<Rightarrow> [])"

definition sample_floor_loads :: "string \<Rightarrow> py_exn + json" where
  "sample_floor_loads s = (let n = length (takeWhile (\<lambda>c. c = CHR ''x'') s); rest = butlast (drop (Suc n) s) in
     Inr (JObj [(''commit_sha'', JStr (take n rest)), (''schema_version'', JInt 1), (''tag'', JStr (drop n rest))]))"

lemma sample_floor_codec: "sample_floor_loads (sample_floor_dumps (floor_payload f) @ [newline]) = Inr (floor_payload f)"
  by (simp add: sample_floor_loads_def sample_floor_dumps_def floor_payload_def Let_def takeWhile_append butlast_append)

definition sample_trust_world :: "unit trust_world" where
  "sample_trust_world = \<lparr>tw_floor = Floor_absent, tw_checkout = Some False, tw_writable = True, tw_chmod = True, tw_git = ()\<rparr>"

definition sample_attempts :: "attempt list" where
  "sample_attempts = [(''v1.9.0'', sample_sha (CHR ''c''), Some False, True, True),
     (''v1.8.0'', sample_sha (CHR ''d''), Some False, True, True),
     (''v1.10.0'', sample_sha (CHR ''e''), Some False, False, True),
     (''v1.10.0'', sample_sha (CHR ''e''), Some False, True, True)]"

lemma floor_never_rolls_back_witness:
  "\<exists>accepted w'. run_advances sample_floor_loads sample_floor_dumps sample_attempts sample_trust_world = (accepted, w') \<and>
     map fl_tag accepted = [''v1.9.0'', ''v1.10.0''] \<and> sorted_wrt newer_or_same accepted"
proof -
  obtain accepted w' where run:
    "run_advances sample_floor_loads sample_floor_dumps sample_attempts sample_trust_world = (accepted, w')"
    by fastforce
  have "map fl_tag (fst (run_advances sample_floor_loads sample_floor_dumps sample_attempts sample_trust_world)) =
     [''v1.9.0'', ''v1.10.0'']"
    by code_simp
  then show ?thesis
    using run floor_never_rolls_back[OF sample_floor_codec run] by auto
qed

definition sample_git_answer :: "string list \<Rightarrow> string" where
  "sample_git_answer args =
     (if ''ls-remote'' \<in> set args then sample_refs
      else if ''get-url'' \<in> set args then ''https://example.org/repo'' @ [newline]
      else if ''verify-tag'' \<in> set args then PRINCIPAL_BEFORE @ UPDATE_TRUST_PRINCIPAL @ '' with ED25519 key''
      else if ''rev-parse'' \<in> set args
      then (if py_in ''v1.10.0'' (last args)
            then sample_sha (if py_in ''commit'' (last args) then CHR ''e'' else CHR ''0'')
            else sample_sha (if py_in ''commit'' (last args) then CHR ''c'' else CHR ''b'')) @ [newline]
      else [])"

definition sample_git :: "unit trust_world git_runner" where
  "sample_git = \<lparr>gr_run = (\<lambda>args. ret (0, sample_git_answer args, [])), gr_subprocess_error = (\<lambda>_. False)\<rparr>"


end
