(* ===== verification/Utf8.thy ===== *)
theory Utf8
  imports Prelude
begin

text \<open>
  UTF-8 as Python's \<open>str.encode("utf-8")\<close> and \<open>bytes.decode("utf-8")\<close> define it: encoding fails on
  surrogates, decoding fails on truncated and overlong sequences, surrogates and values beyond the
  last code point. Bytes are their values. The two are inverse to each other on what they accept.
\<close>

definition scalar_value :: "nat \<Rightarrow> bool" where
  "scalar_value c \<longleftrightarrow> c < 55296 \<or> 57344 \<le> c \<and> c < 1114112"

definition utf8_char :: "nat \<Rightarrow> nat list" where
  "utf8_char c =
     (if c < 128 then [c]
      else if c < 2048 then [192 + c div 64, 128 + c mod 64]
      else if c < 65536 then [224 + c div 4096, 128 + c div 64 mod 64, 128 + c mod 64]
      else [240 + c div 262144, 128 + c div 4096 mod 64, 128 + c div 64 mod 64, 128 + c mod 64])"

definition utf8_encode :: "codepoints \<Rightarrow> nat list option" where
  "utf8_encode s = (if list_all scalar_value s then Some (concat (map utf8_char s)) else None)"

definition continues :: "nat \<Rightarrow> bool" where
  "continues b \<longleftrightarrow> 128 \<le> b \<and> b < 192"

text \<open>The first character and the rest.\<close>

definition utf8_step :: "nat \<Rightarrow> nat list \<Rightarrow> (nat \<times> nat list) option" where
  "utf8_step b bs =
     (if b < 128 then Some (b, bs)
      else if 194 \<le> b \<and> b < 224 then
        (case bs of b1 # r \<Rightarrow>
           if continues b1 then Some ((b - 192) * 64 + (b1 - 128), r) else None
         | [] \<Rightarrow> None)
      else if 224 \<le> b \<and> b < 240 then
        (case bs of b1 # b2 # r \<Rightarrow>
           let c = ((b - 224) * 64 + (b1 - 128)) * 64 + (b2 - 128) in
           if continues b1 \<and> continues b2 \<and> 2048 \<le> c \<and> scalar_value c then Some (c, r) else None
         | _ \<Rightarrow> None)
      else if 240 \<le> b \<and> b < 245 then
        (case bs of b1 # b2 # b3 # r \<Rightarrow>
           let c = (((b - 240) * 64 + (b1 - 128)) * 64 + (b2 - 128)) * 64 + (b3 - 128) in
           if continues b1 \<and> continues b2 \<and> continues b3 \<and> 65536 \<le> c \<and> scalar_value c
           then Some (c, r) else None
         | _ \<Rightarrow> None)
      else None)"

lemma utf8_step_shorter: "utf8_step b bs = Some (c, r) \<Longrightarrow> length r \<le> length bs"
  by (auto simp: utf8_step_def Let_def split: if_splits list.splits)

function utf8_decode :: "nat list \<Rightarrow> codepoints option" where
  "utf8_decode [] = Some []"
| "utf8_decode (b # bs) =
     (case utf8_step b bs of None \<Rightarrow> None | Some (c, r) \<Rightarrow> map_option ((#) c) (utf8_decode r))"
  by pat_completeness auto
termination
  by (relation "measure length") (auto dest: utf8_step_shorter)

lemma horner2: "c = c div 64 * 64 + c mod (64::nat)"
  by simp

lemma horner3: "c = (c div 4096 * 64 + c div 64 mod 64) * 64 + c mod (64::nat)"
proof -
  have "c div 64 = c div 4096 * 64 + c div 64 mod 64"
    using horner2[of "c div 64"] by (simp add: div_mult2_eq[of c 64 64, simplified])
  then show ?thesis using horner2[of c] by simp
qed

lemma horner4: "c = ((c div 262144 * 64 + c div 4096 mod 64) * 64 + c div 64 mod 64) * 64 + c mod (64::nat)"
proof -
  have "c div 4096 = c div 262144 * 64 + c div 4096 mod 64"
    using horner2[of "c div 4096"] by (simp add: div_mult2_eq[of c 4096 64, simplified])
  then show ?thesis using horner3[of c] by simp
qed

lemma utf8_step_char:
  assumes "scalar_value c"
  shows "\<exists>b bs. utf8_char c = b # bs \<and> (\<forall>r. utf8_step b (bs @ r) = Some (c, r))"
proof -
  consider "c < 128" | "128 \<le> c" "c < 2048" | "2048 \<le> c" "c < 65536" | "65536 \<le> c" by linarith
  then show ?thesis
  proof cases
    case 2
    then have "2 \<le> c div 64" "c div 64 < 32" by auto
    then show ?thesis using 2 by (simp add: utf8_char_def utf8_step_def continues_def)
  next
    case 3
    have lead: "c div 4096 < 16" using 3 by auto
    have "utf8_step (224 + c div 4096) ((128 + c div 64 mod 64) # (128 + c mod 64) # r) = Some (c, r)" for r
      using lead 3 assms horner3[of c, symmetric] by (simp add: utf8_step_def continues_def)
    then show ?thesis using 3 by (simp add: utf8_char_def)
  next
    case 4
    then have lead: "c div 262144 < 5" using assms by (auto simp: scalar_value_def)
    have "utf8_step (240 + c div 262144) ((128 + c div 4096 mod 64) # (128 + c div 64 mod 64) # (128 + c mod 64) # r) = Some (c, r)" for r
      using lead 4 assms horner4[of c, symmetric] by (simp add: utf8_step_def continues_def)
    then show ?thesis using 4 by (simp add: utf8_char_def)
  qed (simp add: utf8_char_def utf8_step_def)
qed

lemma utf8_decode_chars:
  "list_all scalar_value s \<Longrightarrow> utf8_decode (concat (map utf8_char s)) = Some s"
proof (induction s)
  case (Cons c s)
  then obtain b bs where "utf8_char c = b # bs" "\<forall>r. utf8_step b (bs @ r) = Some (c, r)"
    using utf8_step_char[of c] by auto
  then show ?case using Cons by simp
qed simp

lemma digits64: "c = n * 64 + z \<Longrightarrow> z < 64 \<Longrightarrow> c div 64 = n \<and> c mod 64 = (z::nat)"
  by simp

lemma utf8_step_scalar:
  assumes "utf8_step b bs = Some (c, r)"
  shows "scalar_value c \<and> b # bs = utf8_char c @ r"
proof -
  consider "b < 128" | "194 \<le> b" "b < 224" | "224 \<le> b" "b < 240" | "240 \<le> b" "b < 245"
    using assms by (cases "b < 128"; cases "b < 194"; cases "b < 224"; cases "b < 240"; cases "b < 245")
      (auto simp: utf8_step_def)
  then show ?thesis
  proof cases
    case 1
    then show ?thesis using assms by (simp add: utf8_step_def utf8_char_def scalar_value_def)
  next
    case 2
    then obtain b1 where b: "bs = b1 # r" "continues b1" "c = (b - 192) * 64 + (b1 - 128)"
      using assms by (auto simp: utf8_step_def split: list.splits if_splits)
    define x where "x = b - 192"
    define y where "y = b1 - 128"
    have xy: "b = 192 + x" "b1 = 128 + y" "2 \<le> x" "x < 32" "y < 64" "c = x * 64 + y"
      using b 2 by (auto simp: x_def y_def continues_def)
    then have "c div 64 = x" "c mod 64 = y" "128 \<le> c" "c < 2048" by auto
    then show ?thesis using xy b(1) by (simp add: utf8_char_def scalar_value_def)
  next
    case 3
    then obtain b1 b2 where b: "bs = b1 # b2 # r" "continues b1" "continues b2" "2048 \<le> c" "scalar_value c"
      "c = ((b - 224) * 64 + (b1 - 128)) * 64 + (b2 - 128)"
      using assms by (auto simp: utf8_step_def Let_def split: list.splits if_splits)
    define x where "x = b - 224"
    define y where "y = b1 - 128"
    define z where "z = b2 - 128"
    have xy: "b = 224 + x" "b1 = 128 + y" "b2 = 128 + z" "x < 16" "y < 64" "z < 64" "c = (x * 64 + y) * 64 + z"
      using b 3 by (auto simp: x_def y_def z_def continues_def)
    then have c1: "c div 64 = x * 64 + y" "c mod 64 = z" "c < 65536" using digits64[OF xy(7) xy(6)] by simp_all
    moreover have "c div 4096 = x" "c div 64 mod 64 = y"
      using digits64[OF c1(1) xy(5)] div_mult2_eq[of c 64 64] by simp_all
    ultimately show ?thesis using xy b(1,4,5) by (simp add: utf8_char_def)
  next
    case 4
    then obtain b1 b2 b3 where b: "bs = b1 # b2 # b3 # r" "continues b1" "continues b2" "continues b3"
      "65536 \<le> c" "scalar_value c" "c = (((b - 240) * 64 + (b1 - 128)) * 64 + (b2 - 128)) * 64 + (b3 - 128)"
      using assms by (auto simp: utf8_step_def Let_def split: list.splits if_splits)
    define x where "x = b - 240"
    define y where "y = b1 - 128"
    define z where "z = b2 - 128"
    define u where "u = b3 - 128"
    have xy: "b = 240 + x" "b1 = 128 + y" "b2 = 128 + z" "b3 = 128 + u" "y < 64" "z < 64" "u < 64"
      "c = ((x * 64 + y) * 64 + z) * 64 + u"
      using b 4 by (auto simp: x_def y_def z_def u_def continues_def)
    have c1: "c div 64 = (x * 64 + y) * 64 + z" "c mod 64 = u" using digits64[OF xy(8) xy(7)] by simp_all
    have c2: "c div 4096 = x * 64 + y" "c div 64 mod 64 = z"
      using digits64[OF c1(1) xy(6)] div_mult2_eq[of c 64 64] by simp_all
    have "c div 262144 = x" "c div 4096 mod 64 = y"
      using digits64[OF c2(1) xy(5)] div_mult2_eq[of c 4096 64] by simp_all
    then show ?thesis using xy b(1,5,6) c1 c2 by (simp add: utf8_char_def)
  qed
qed

lemma utf8_decode_encodes:
  "utf8_decode bs = Some s \<Longrightarrow> list_all scalar_value s \<and> concat (map utf8_char s) = bs"
proof (induction bs arbitrary: s rule: utf8_decode.induct)
  case (2 b bs)
  then obtain c r t where step: "utf8_step b bs = Some (c, r)" and t: "utf8_decode r = Some t" "s = c # t"
    by (auto split: option.splits)
  then show ?case using 2(1)[OF step refl t(1)] utf8_step_scalar[OF step] by simp
qed simp

text \<open>
  UTF-8 text is decoded exactly when it is the encoding of the result: decoding what was
  encoded gives it back, and every text that decodes has only that one encoding, so no two byte
  sequences of a file stand for the same text.
\<close>

theorem utf8_exact: "utf8_decode bs = Some s \<longleftrightarrow> utf8_encode s = Some bs"
  by (auto simp: utf8_encode_def dest: utf8_decode_encodes utf8_decode_chars)

end
