(* ===== verification/Repair_Patch.thy ===== *)
theory Repair_Patch
  imports Utf8
begin

text \<open>
  Model of \<open>automation/repair/repair_patch_diff.py\<close>, which reads a patch into the list of files an
  owner approves, and of \<open>automation/repair/repair_patch_binding.py\<close>, which binds an approval to the
  bytes of the patch and to that list. Text is code points. \<open>int(digits, 8)\<close>, the SHA-256 digest and
  the canonical JSON text are parameters. Both error classes carry only a message, which is left out.
\<close>

abbreviation PatchBindingError :: py_exn where
  "PatchBindingError \<equiv> TaggedError ''PatchBindingError'' []"

section \<open>Lines and characters\<close>

definition cp_line_break :: "nat \<Rightarrow> bool" where
  "cp_line_break n \<longleftrightarrow> 10 \<le> n \<and> n \<le> 13 \<or> 28 \<le> n \<and> n \<le> 30 \<or> n = 133 \<or> n = 8232 \<or> n = 8233"

fun cp_splitlines :: "codepoints \<Rightarrow> codepoints \<Rightarrow> codepoints list" where
  "cp_splitlines acc [] = (if acc = [] then [] else [rev acc])"
| "cp_splitlines acc (c # cs) =
     (if cp_line_break c
      then rev acc # cp_splitlines [] (if c = 13 \<and> cs \<noteq> [] \<and> hd cs = 10 then tl cs else cs)
      else cp_splitlines (c # acc) cs)"

text \<open>\<open>str.rstrip()\<close> removes the characters \<open>str.isspace\<close> holds of.\<close>

definition cp_space :: "nat \<Rightarrow> bool" where
  "cp_space n \<longleftrightarrow> 9 \<le> n \<and> n \<le> 13 \<or> 28 \<le> n \<and> n \<le> 32 \<or> n = 133 \<or> n = 160 \<or> n = 5760 \<or>
     8192 \<le> n \<and> n \<le> 8202 \<or> n = 8232 \<or> n = 8233 \<or> n = 8239 \<or> n = 8287 \<or> n = 12288"

definition cp :: "string \<Rightarrow> codepoints" where
  "cp s = of_ascii s"

definition begins :: "string \<Rightarrow> codepoints \<Rightarrow> bool" where
  "begins p s \<longleftrightarrow> starts_with (cp p) s"

text \<open>\<open>str.split(sep)\<close> with one character, and the split at the last occurrence a greedy group makes.\<close>

fun cp_split :: "nat \<Rightarrow> codepoints \<Rightarrow> codepoints \<Rightarrow> codepoints list" where
  "cp_split sep acc [] = [rev acc]"
| "cp_split sep acc (c # cs) =
     (if c = sep then rev acc # cp_split sep [] cs else cp_split sep (c # acc) cs)"

fun split_last :: "codepoints \<Rightarrow> codepoints \<Rightarrow> (codepoints \<times> codepoints) option" where
  "split_last sep [] = None"
| "split_last sep (c # cs) =
     (case split_last sep cs of
        Some (a, b) \<Rightarrow> Some (c # a, b)
      | None \<Rightarrow> if starts_with sep (c # cs) then Some ([], drop (length sep) (c # cs)) else None)"

section \<open>Paths\<close>

definition assert_repo_relative :: "codepoints \<Rightarrow> py_exn + unit" where
  "assert_repo_relative path =
     (if path = [] \<or> begins ''/'' path \<or> 0 \<in> set path \<or> 13 \<in> set path \<or> 10 \<in> set path
      then Inl PatchBindingError
      else if cp ''..'' \<in> set (cp_split 47 [] path) then Inl PatchBindingError
      else Inr ())"

definition validated :: "codepoints \<Rightarrow> py_exn + codepoints" where
  "validated candidate = sum_bind (assert_repo_relative candidate) (\<lambda>_. Inr candidate)"

definition escape_of :: "nat \<Rightarrow> nat option" where
  "escape_of c = map_of [(92, 92), (34, 34), (97, 7), (98, 8), (102, 12), (110, 10), (114, 13), (116, 9), (118, 11)] c"

definition octal_digit :: "nat \<Rightarrow> bool" where
  "octal_digit c \<longleftrightarrow> 48 \<le> c \<and> c \<le> 55"

definition octal :: "(codepoints \<Rightarrow> int option) \<Rightarrow> codepoints \<Rightarrow> py_exn + nat" where
  "octal int8 digits =
     (case int8 digits of
        None \<Rightarrow> Inl PatchBindingError
      | Some v \<Rightarrow> if length digits \<noteq> 3 \<or> v < 0 \<or> 255 < v then Inl PatchBindingError else Inr (nat v))"

text \<open>The bytes the body of a quoted path stands for.\<close>

function unescape :: "(codepoints \<Rightarrow> int option) \<Rightarrow> codepoints \<Rightarrow> py_exn + nat list" where
  "unescape int8 [] = Inr []"
| "unescape int8 (c # cs) =
     (if c \<noteq> 92 then
        (case utf8_encode [c] of
           None \<Rightarrow> Inl (OtherError ''UnicodeEncodeError'')
         | Some bs \<Rightarrow> sum_bind (unescape int8 cs) (\<lambda>r. Inr (bs @ r)))
      else if cs \<noteq> [] \<and> octal_digit (hd cs) then
        sum_bind (octal int8 (take 3 cs)) (\<lambda>b.
        sum_bind (unescape int8 (drop 3 cs)) (\<lambda>r. Inr (b # r)))
      else
        (case (if cs = [] then None else escape_of (hd cs)) of
           None \<Rightarrow> Inl PatchBindingError
         | Some e \<Rightarrow> sum_bind (unescape int8 (tl cs)) (\<lambda>r. Inr (e # r))))"
  by pat_completeness auto
termination
  by (relation "measure (\<lambda>(_, s). length s)") auto

definition unquote :: "(codepoints \<Rightarrow> int option) \<Rightarrow> codepoints \<Rightarrow> py_exn + codepoints" where
  "unquote int8 token =
     (if \<not> begins [CHR 0x22] token then Inr token
      else if length token < 2 \<or> last token \<noteq> 34 then Inl PatchBindingError
      else sum_bind (unescape int8 (butlast (tl token))) (\<lambda>decoded.
        case utf8_decode decoded of None \<Rightarrow> Inl PatchBindingError | Some s \<Rightarrow> Inr s))"

definition path_token :: "codepoints \<Rightarrow> codepoints" where
  "path_token raw = rstrip_by cp_space (hd (cp_split 9 [] raw))"

definition side_path ::
  "(codepoints \<Rightarrow> int option) \<Rightarrow> codepoints \<Rightarrow> string \<Rightarrow> py_exn + codepoints option" where
  "side_path int8 raw prefix =
     sum_bind (unquote int8 (path_token raw)) (\<lambda>candidate.
     if candidate = cp ''/dev/null'' then Inr None
     else if \<not> begins prefix candidate then Inl PatchBindingError
     else sum_bind (validated (drop (length prefix) candidate)) (\<lambda>p. Inr (Some p)))"

definition header_path :: "(codepoints \<Rightarrow> int option) \<Rightarrow> codepoints \<Rightarrow> py_exn + codepoints" where
  "header_path int8 raw = sum_bind (unquote int8 (path_token raw)) validated"

section \<open>The patch\<close>

record patch_file_delta =
  pf_old_path :: "codepoints option"
  pf_new_path :: "codepoints option"
  pf_insertions :: int
  pf_deletions :: int

record patch_section =
  sn_old_path :: "codepoints option"
  sn_new_path :: "codepoints option"
  sn_insertions :: int
  sn_deletions :: int
  sn_saw_paths :: bool

definition new_section :: patch_section where
  "new_section = \<lparr>sn_old_path = None, sn_new_path = None, sn_insertions = 0, sn_deletions = 0, sn_saw_paths = False\<rparr>"

definition freeze :: "patch_section \<Rightarrow> py_exn + patch_file_delta" where
  "freeze s =
     (if \<not> sn_saw_paths s \<or> sn_old_path s = None \<and> sn_new_path s = None then Inl PatchBindingError
      else Inr \<lparr>pf_old_path = sn_old_path s, pf_new_path = sn_new_path s,
        pf_insertions = sn_insertions s, pf_deletions = sn_deletions s\<rparr>)"

definition leaves_hunk :: "codepoints \<Rightarrow> bool" where
  "leaves_hunk l \<longleftrightarrow> begins ''@@'' l \<or> begins ''diff --'' l"

definition count_hunk_line :: "patch_section \<Rightarrow> codepoints \<Rightarrow> patch_section" where
  "count_hunk_line s l =
     (if begins [CHR 0x5C] l then s
      else if begins ''+'' l then s\<lparr>sn_insertions := sn_insertions s + 1\<rparr>
      else if begins ''-'' l then s\<lparr>sn_deletions := sn_deletions s + 1\<rparr>
      else s)"

definition section_started :: "(codepoints \<Rightarrow> int option) \<Rightarrow> codepoints \<Rightarrow> py_exn + patch_section" where
  "section_started int8 l =
     (case (if begins ''diff --git a/'' l then split_last (cp '' b/'') (drop 13 l) else None) of
        None \<Rightarrow> Inr new_section
      | Some (a, b) \<Rightarrow>
          sum_bind (header_path int8 a) (\<lambda>old.
          sum_bind (header_path int8 b) (\<lambda>new.
          Inr (new_section\<lparr>sn_old_path := Some old, sn_new_path := Some new, sn_saw_paths := True\<rparr>))))"

definition read_paths ::
  "(codepoints \<Rightarrow> int option) \<Rightarrow> codepoints \<Rightarrow> patch_section \<Rightarrow> py_exn + patch_section" where
  "read_paths int8 l s =
     (if begins ''--- '' l then
        sum_bind (side_path int8 (drop 4 l) ''a/'') (\<lambda>p. Inr (s\<lparr>sn_old_path := p, sn_saw_paths := True\<rparr>))
      else if begins ''+++ '' l then
        sum_bind (side_path int8 (drop 4 l) ''b/'') (\<lambda>p. Inr (s\<lparr>sn_new_path := p, sn_saw_paths := True\<rparr>))
      else if begins ''rename from '' l then
        sum_bind (header_path int8 (drop 12 l)) (\<lambda>p. Inr (s\<lparr>sn_old_path := Some p, sn_saw_paths := True\<rparr>))
      else if begins ''rename to '' l then
        sum_bind (header_path int8 (drop 10 l)) (\<lambda>p. Inr (s\<lparr>sn_new_path := Some p, sn_saw_paths := True\<rparr>))
      else Inr s)"

text \<open>The state of the loop: the files read, the file being read, and whether it is in a hunk.\<close>

type_synonym patch_state = "patch_file_delta list \<times> patch_section option \<times> bool"

definition read_structure ::
  "(codepoints \<Rightarrow> int option) \<Rightarrow> codepoints \<Rightarrow> patch_section option \<Rightarrow> patch_file_delta list \<Rightarrow>
   py_exn + patch_state" where
  "read_structure int8 l sec changes =
     (if begins ''diff --cc '' l \<or> begins ''diff --combined '' l \<or> begins ''@@@'' l then Inl PatchBindingError
      else if begins ''GIT binary patch'' l then Inl PatchBindingError
      else if begins ''diff --git '' l then
        sum_bind (case sec of None \<Rightarrow> Inr changes
          | Some s \<Rightarrow> sum_bind (freeze s) (\<lambda>d. Inr (changes @ [d]))) (\<lambda>changes'.
        sum_bind (section_started int8 l) (\<lambda>s. Inr (changes', Some s, False)))
      else case sec of
        None \<Rightarrow> Inr (changes, None, False)
      | Some s \<Rightarrow>
          if begins ''@@'' l then Inr (changes, Some s, True)
          else sum_bind (read_paths int8 l s) (\<lambda>s'. Inr (changes, Some s', False)))"

definition read_patch_line ::
  "(codepoints \<Rightarrow> int option) \<Rightarrow> codepoints \<Rightarrow> patch_state \<Rightarrow> py_exn + patch_state" where
  "read_patch_line int8 raw st =
     (let l = (if raw \<noteq> [] \<and> last raw = 13 then butlast raw else raw) in
      case st of (changes, sec, in_hunk) \<Rightarrow>
        if in_hunk \<and> \<not> leaves_hunk l then
          (case sec of None \<Rightarrow> Inl PatchBindingError
           | Some s \<Rightarrow> Inr (changes, Some (count_hunk_line s l), in_hunk))
        else read_structure int8 l sec changes)"

fun read_patch :: "(codepoints \<Rightarrow> int option) \<Rightarrow> codepoints list \<Rightarrow> patch_state \<Rightarrow> py_exn + patch_state" where
  "read_patch int8 [] st = Inr st"
| "read_patch int8 (l # ls) st = sum_bind (read_patch_line int8 l st) (read_patch int8 ls)"

definition parse_patch_changes ::
  "(codepoints \<Rightarrow> int option) \<Rightarrow> nat list \<Rightarrow> py_exn + patch_file_delta list" where
  "parse_patch_changes int8 patch_bytes =
     (case utf8_decode patch_bytes of
        None \<Rightarrow> Inl PatchBindingError
      | Some s \<Rightarrow>
          sum_bind (read_patch int8 (cp_splitlines [] s) ([], None, False)) (\<lambda>(changes, sec, _).
          sum_bind (case sec of None \<Rightarrow> Inr changes
            | Some s \<Rightarrow> sum_bind (freeze s) (\<lambda>d. Inr (changes @ [d]))) (\<lambda>all_changes.
          if all_changes = [] then Inl PatchBindingError else Inr all_changes)))"

section \<open>The binding of an approval (repair_patch_binding.py)\<close>

definition BINDING_VERSION :: int where
  "BINDING_VERSION = 2"

definition V2_KEYS :: "string list" where
  "V2_KEYS = [''content_binding_version'', ''patch_sha256'', ''changes'', ''patch_source_path'']"

text \<open>A string of a JSON document, as its UTF-8 bytes.\<close>

definition json_text :: "codepoints \<Rightarrow> json" where
  "json_text s = JStr (map char_of (concat (map utf8_char s)))"

definition text_of_json :: "string \<Rightarrow> codepoints option" where
  "text_of_json s = utf8_decode (map of_char s)"

record patch_artifact =
  pa_content :: "nat list"
  pa_sha256 :: string
  pa_changes :: "patch_file_delta list"

text \<open>The two digests and the canonical JSON text of \<open>json.dumps(..., sort_keys=True)\<close>.\<close>

record patch_env =
  pv_int8 :: "codepoints \<Rightarrow> int option"
  pv_sha256 :: "nat list \<Rightarrow> string"
  pv_hash_json :: "json \<Rightarrow> string"

definition load_patch_artifact ::
  "patch_env \<Rightarrow> ('w \<Rightarrow> nat list option) \<Rightarrow> ('w, patch_artifact) io" where
  "load_patch_artifact env read_bytes = (\<lambda>w.
     case read_bytes w of
       None \<Rightarrow> (Inl PatchBindingError, w)
     | Some content \<Rightarrow>
         (sum_bind (parse_patch_changes (pv_int8 env) content) (\<lambda>changes.
            Inr \<lparr>pa_content = content, pa_sha256 = pv_sha256 env content, pa_changes = changes\<rparr>), w))"

definition path_json :: "codepoints option \<Rightarrow> json" where
  "path_json p = (case p of None \<Rightarrow> JNull | Some s \<Rightarrow> json_text s)"

definition change_json :: "patch_file_delta \<Rightarrow> json" where
  "change_json d = JObj [(''deletions'', JInt (pf_deletions d)), (''insertions'', JInt (pf_insertions d)),
     (''new_path'', path_json (pf_new_path d)), (''old_path'', path_json (pf_old_path d))]"

definition changes_to_json :: "patch_file_delta list \<Rightarrow> json" where
  "changes_to_json ds = JArr (map change_json ds)"

definition action_preimage :: "codepoints \<Rightarrow> codepoints \<Rightarrow> string \<Rightarrow> patch_file_delta list \<Rightarrow> json" where
  "action_preimage ticket_id patch_name sha256 changes =
     JObj [(''binding_version'', JInt BINDING_VERSION), (''changes'', changes_to_json changes),
       (''operation'', JStr ''repair.apply''), (''patch_name'', json_text patch_name),
       (''patch_sha256'', JStr sha256), (''ticket_id'', json_text ticket_id)]"

definition content_action_hash ::
  "patch_env \<Rightarrow> codepoints \<Rightarrow> codepoints \<Rightarrow> string \<Rightarrow> patch_file_delta list \<Rightarrow> string" where
  "content_action_hash env ticket_id patch_name sha256 changes =
     ''sha256:'' @ pv_hash_json env (action_preimage ticket_id patch_name sha256 changes)"

definition stored_path :: "json \<Rightarrow> py_exn + codepoints option" where
  "stored_path v =
     (case v of
        JNull \<Rightarrow> Inr None
      | JStr s \<Rightarrow> (case text_of_json s of
          None \<Rightarrow> Inl PatchBindingError
        | Some p \<Rightarrow> sum_bind (assert_repo_relative p) (\<lambda>_. Inr (Some p)))
      | _ \<Rightarrow> Inl PatchBindingError)"

definition stored_count :: "json \<Rightarrow> py_exn + int" where
  "stored_count v = (case v of JInt n \<Rightarrow> if n < 0 then Inl PatchBindingError else Inr n | _ \<Rightarrow> Inl PatchBindingError)"

definition change_from_json :: "json \<Rightarrow> py_exn + patch_file_delta" where
  "change_from_json entry =
     (case entry of
        JObj d \<Rightarrow>
          if set (map fst d) \<noteq> {''deletions'', ''insertions'', ''new_path'', ''old_path''}
          then Inl PatchBindingError
          else
            sum_bind (stored_path (jget_or d ''old_path'' JNull)) (\<lambda>old.
            sum_bind (stored_path (jget_or d ''new_path'' JNull)) (\<lambda>new.
            if old = None \<and> new = None then Inl PatchBindingError
            else sum_bind (stored_count (jget_or d ''insertions'' JNull)) (\<lambda>ins.
              sum_bind (stored_count (jget_or d ''deletions'' JNull)) (\<lambda>del.
              Inr \<lparr>pf_old_path = old, pf_new_path = new, pf_insertions = ins, pf_deletions = del\<rparr>))))
      | _ \<Rightarrow> Inl PatchBindingError)"

fun each_change :: "json list \<Rightarrow> py_exn + patch_file_delta list" where
  "each_change [] = Inr []"
| "each_change (v # vs) = sum_bind (change_from_json v) (\<lambda>d. sum_bind (each_change vs) (\<lambda>ds. Inr (d # ds)))"

definition changes_from_json :: "json \<Rightarrow> py_exn + patch_file_delta list" where
  "changes_from_json raw =
     (case raw of JArr vs \<Rightarrow> if vs = [] then Inl PatchBindingError else each_change vs | _ \<Rightarrow> Inl PatchBindingError)"

record content_binding =
  cb_version :: int
  cb_sha256 :: string
  cb_changes :: "patch_file_delta list"
  cb_source :: string

definition hex64 :: "string \<Rightarrow> bool" where
  "hex64 s \<longleftrightarrow> length s = 64 \<and> list_all (\<lambda>c. c \<in> set ''0123456789abcdef'') s"

definition decode_content_binding :: "jobj \<Rightarrow> py_exn + content_binding option" where
  "decode_content_binding decoded =
     (let present = filter (\<lambda>k. k \<in> set (map fst decoded)) V2_KEYS in
      if present = [] then Inr None
      else if length present \<noteq> length V2_KEYS then Inl PatchBindingError
      else if jget decoded ''content_binding_version'' \<noteq> Some (JInt BINDING_VERSION) then Inl PatchBindingError
      else case jget_or decoded ''patch_sha256'' JNull of
        JStr digest \<Rightarrow>
          if \<not> hex64 digest then Inl PatchBindingError
          else (case jget_or decoded ''patch_source_path'' JNull of
             JStr source \<Rightarrow>
               if source = [] then Inl PatchBindingError
               else sum_bind (changes_from_json (jget_or decoded ''changes'' JNull)) (\<lambda>changes.
                 Inr (Some \<lparr>cb_version = BINDING_VERSION, cb_sha256 = digest, cb_changes = changes, cb_source = source\<rparr>))
           | _ \<Rightarrow> Inl PatchBindingError)
      | _ \<Rightarrow> Inl PatchBindingError)"

section \<open>Patches as git writes them\<close>

text \<open>
  A reference for the parser: the changes of a patch, and the lines git writes for them. A file that
  is created or removed has one path, a renamed one two.
\<close>

datatype patch_line = Context codepoints | Added codepoints | Removed codepoints | No_newline

record patch_hunk =
  hk_range :: codepoints
  hk_lines :: "patch_line list"

record file_change =
  fh_old :: "codepoints option"
  fh_new :: "codepoints option"
  fh_hunks :: "patch_hunk list"

fun line_of :: "patch_line \<Rightarrow> codepoints" where
  "line_of (Context s) = 32 # s"
| "line_of (Added s) = 43 # s"
| "line_of (Removed s) = 45 # s"
| "line_of No_newline = 92 # cp '' No newline at end of file''"

definition hunk_lines :: "patch_hunk \<Rightarrow> codepoints list" where
  "hunk_lines h = (cp ''@@ '' @ hk_range h) # map line_of (hk_lines h)"

definition side_of :: "string \<Rightarrow> codepoints option \<Rightarrow> codepoints" where
  "side_of prefix p = (case p of None \<Rightarrow> cp ''/dev/null'' | Some s \<Rightarrow> cp prefix @ s)"

definition sides :: "file_change \<Rightarrow> codepoints \<times> codepoints" where
  "sides c = (case (fh_old c, fh_new c) of
     (Some a, Some b) \<Rightarrow> (a, b) | (Some a, None) \<Rightarrow> (a, a) | (None, Some b) \<Rightarrow> (b, b) | (None, None) \<Rightarrow> ([], []))"

definition plain_section :: "file_change \<Rightarrow> codepoints list" where
  "plain_section c =
     [cp ''--- '' @ side_of ''a/'' (fh_old c), cp ''+++ '' @ side_of ''b/'' (fh_new c)] @
     concat (map hunk_lines (fh_hunks c))"

definition file_lines :: "file_change \<Rightarrow> codepoints list" where
  "file_lines c =
     (cp ''diff --git a/'' @ fst (sides c) @ cp '' b/'' @ snd (sides c)) # plain_section c"

definition patch_of :: "codepoints list \<Rightarrow> nat list" where
  "patch_of ls = concat (map utf8_char (concat (map (\<lambda>l. l @ [10]) ls)))"

definition plain_text :: "codepoints \<Rightarrow> bool" where
  "plain_text s \<longleftrightarrow> list_all (\<lambda>c. scalar_value c \<and> \<not> cp_line_break c) s"

definition plain_path :: "codepoints \<Rightarrow> bool" where
  "plain_path p \<longleftrightarrow> plain_text p \<and> assert_repo_relative p = Inr () \<and> 9 \<notin> set p \<and>
     \<not> cp_space (last p) \<and> hd p \<noteq> 34 \<and> \<not> py_in (cp '' b/'') p"

fun plain_line :: "patch_line \<Rightarrow> bool" where
  "plain_line (Context s) = plain_text s"
| "plain_line (Added s) = plain_text s"
| "plain_line (Removed s) = plain_text s"
| "plain_line No_newline = True"

definition plain_change :: "file_change \<Rightarrow> bool" where
  "plain_change c \<longleftrightarrow> (fh_old c \<noteq> None \<or> fh_new c \<noteq> None) \<and>
     pred_option plain_path (fh_old c) \<and> pred_option plain_path (fh_new c) \<and>
     list_all (\<lambda>h. plain_text (hk_range h) \<and> list_all plain_line (hk_lines h)) (fh_hunks c)"

definition added :: "patch_line \<Rightarrow> bool" where
  "added l \<longleftrightarrow> (case l of Added _ \<Rightarrow> True | _ \<Rightarrow> False)"

definition removed :: "patch_line \<Rightarrow> bool" where
  "removed l \<longleftrightarrow> (case l of Removed _ \<Rightarrow> True | _ \<Rightarrow> False)"

definition tally :: "(patch_line \<Rightarrow> bool) \<Rightarrow> patch_line list \<Rightarrow> int" where
  "tally p ls = int (length (filter p ls))"

definition body_of :: "file_change \<Rightarrow> patch_line list" where
  "body_of c = concat (map hk_lines (fh_hunks c))"

definition file_summary :: "file_change \<Rightarrow> patch_file_delta" where
  "file_summary c = \<lparr>pf_old_path = fh_old c, pf_new_path = fh_new c,
     pf_insertions = tally added (body_of c), pf_deletions = tally removed (body_of c)\<rparr>"

definition section_of :: "file_change \<Rightarrow> patch_section" where
  "section_of c = \<lparr>sn_old_path = fh_old c, sn_new_path = fh_new c,
     sn_insertions = tally added (body_of c), sn_deletions = tally removed (body_of c), sn_saw_paths = True\<rparr>"

section \<open>The parser on such patches\<close>

lemma cp_simps [simp]: "cp [] = []" "cp (c # s) = of_char c # cp s" "length (cp s) = length s"
  by (simp_all add: cp_def of_ascii_def)

lemma begins_append: "begins p (cp p @ s)"
  by (induction p) (simp_all add: begins_def)

lemma starts_with_append: "starts_with p (p @ s)"
  by (induction p) simp_all

lemma splitlines_line:
  "\<not> list_ex cp_line_break l \<Longrightarrow> cp_splitlines acc (l @ 10 # r) = (rev acc @ l) # cp_splitlines [] r"
  by (induction l arbitrary: acc) (simp_all add: cp_line_break_def)

lemma splitlines_lines:
  "\<forall>l \<in> set ls. \<not> list_ex cp_line_break l \<Longrightarrow> cp_splitlines [] (concat (map (\<lambda>l. l @ [10]) ls)) = ls"
  by (induction ls) (simp_all add: splitlines_line)

lemma split_last_none: "sep \<noteq> [] \<Longrightarrow> \<not> py_in sep s \<Longrightarrow> split_last sep s = None"
  by (induction s) auto

lemma split_last_append:
  "\<not> py_in (c # sep) (sep @ y) \<Longrightarrow> split_last (c # sep) (x @ c # sep @ y) = Some (x, y)"
proof (induction x)
  case Nil
  then have "split_last (c # sep) (sep @ y) = None" by (intro split_last_none) auto
  then show ?case by (simp add: starts_with_append)
qed simp

lemma split_no_sep: "sep \<notin> set s \<Longrightarrow> cp_split sep acc s = [rev acc @ s]"
  by (induction s arbitrary: acc) auto

lemma path_token_plain: "s \<noteq> [] \<Longrightarrow> 9 \<notin> set s \<Longrightarrow> \<not> cp_space (last s) \<Longrightarrow> path_token s = s"
  by (cases s rule: rev_cases) (simp_all add: path_token_def split_no_sep rstrip_by_def)

lemma plain_path_nonempty: "plain_path p \<Longrightarrow> p \<noteq> []"
  by (auto simp: plain_path_def assert_repo_relative_def)

lemma unquote_plain: "s = [] \<or> hd s \<noteq> 34 \<Longrightarrow> unquote int8 s = Inr s"
  by (cases s) (auto simp: unquote_def begins_def)

lemma header_path_plain: "plain_path p \<Longrightarrow> header_path int8 p = Inr p"
  using plain_path_nonempty[of p]
  by (simp add: header_path_def path_token_plain unquote_plain validated_def plain_path_def)

lemma side_path_plain:
  assumes "pred_option plain_path p" and "prefix = ''a/'' \<or> prefix = ''b/''"
  shows "side_path int8 (side_of prefix p) prefix = Inr p"
proof (cases p)
  case None
  have "path_token (cp ''/dev/null'') = cp ''/dev/null''"
    by (rule path_token_plain) (simp_all add: cp_space_def)
  then show ?thesis by (simp add: None side_of_def side_path_def unquote_plain)
next
  case (Some s)
  then have s: "plain_path s" "s \<noteq> []" using assms(1) plain_path_nonempty by auto
  then have "path_token (cp prefix @ s) = cp prefix @ s"
    using assms(2) by (intro path_token_plain) (auto simp: plain_path_def)
  moreover have "unquote int8 (cp prefix @ s) = Inr (cp prefix @ s)"
    using assms(2) by (auto intro!: unquote_plain)
  ultimately show ?thesis
    using s assms(2) by (auto simp: Some side_of_def side_path_def begins_append validated_def plain_path_def)
qed

lemma not_break_last: "plain_text s \<Longrightarrow> s \<noteq> [] \<Longrightarrow> last s \<noteq> 13"
  by (cases s rule: rev_cases) (auto simp: plain_text_def cp_line_break_def)

lemma plain_text_append [simp]: "plain_text (a @ b) \<longleftrightarrow> plain_text a \<and> plain_text b"
  by (simp add: plain_text_def)

lemma plain_text_Cons [simp]: "plain_text (c # s) \<longleftrightarrow> scalar_value c \<and> \<not> cp_line_break c \<and> plain_text s"
  by (simp add: plain_text_def)

lemma plain_text_Nil [simp]: "plain_text []"
  by (simp add: plain_text_def)

lemma read_plain_line:
  "plain_text l \<Longrightarrow> read_patch_line int8 l (changes, sec, in_hunk) =
     (if in_hunk \<and> \<not> leaves_hunk l then
        (case sec of None \<Rightarrow> Inl PatchBindingError
         | Some s \<Rightarrow> Inr (changes, Some (count_hunk_line s l), in_hunk))
      else read_structure int8 l sec changes)"
proof -
  assume "plain_text l"
  then have "(if l \<noteq> [] \<and> last l = 13 then butlast l else l) = l" using not_break_last[of l] by auto
  then show ?thesis unfolding read_patch_line_def Let_def by (simp only: prod.case)
qed

lemma line_of_plain: "plain_line l \<Longrightarrow> plain_text (line_of l)"
  by (cases l) (simp_all add: scalar_value_def cp_line_break_def)

text \<open>Adding counts to a file being read.\<close>

definition with_counts :: "patch_section \<Rightarrow> patch_line list \<Rightarrow> patch_section" where
  "with_counts s ls = s\<lparr>sn_insertions := sn_insertions s + tally added ls,
     sn_deletions := sn_deletions s + tally removed ls\<rparr>"

lemma with_counts_append: "with_counts (with_counts s a) b = with_counts s (a @ b)"
  by (simp add: with_counts_def tally_def)

lemma counted_Nil [simp]: "with_counts s [] = s"
  by (simp add: with_counts_def tally_def)

lemma count_line: "count_hunk_line s (line_of l) = with_counts s [l]"
  by (cases l) (simp_all add: count_hunk_line_def begins_def with_counts_def tally_def added_def removed_def)

lemma line_stays: "\<not> leaves_hunk (line_of l)"
  by (cases l) (simp_all add: leaves_hunk_def begins_def)

lemma read_body:
  "list_all plain_line ls \<Longrightarrow>
   read_patch int8 (map line_of ls @ rest) (changes, Some s, True) =
   read_patch int8 rest (changes, Some (with_counts s ls), True)"
proof (induction ls arbitrary: s)
  case (Cons l ls)
  have "read_patch int8 (map line_of (l # ls) @ rest) (changes, Some s, True) =
      read_patch int8 (map line_of ls @ rest) (changes, Some (with_counts s [l]), True)"
    using Cons.prems by (simp add: read_plain_line[OF line_of_plain] line_stays count_line)
  also have "\<dots> = read_patch int8 rest (changes, Some (with_counts s (l # ls)), True)"
    using Cons by (simp add: with_counts_append)
  finally show ?case .
qed simp

lemma hunk_header:
  "plain_text r \<Longrightarrow> read_patch_line int8 (cp ''@@ '' @ r) (changes, Some s, h) = Inr (changes, Some s, True)"
  by (subst read_plain_line) (simp_all add: leaves_hunk_def begins_def read_structure_def scalar_value_def cp_line_break_def)

lemma read_hunks:
  "list_all (\<lambda>h. plain_text (hk_range h) \<and> list_all plain_line (hk_lines h)) hs \<Longrightarrow>
   read_patch int8 (concat (map hunk_lines hs) @ rest) (changes, Some s, h) =
   read_patch int8 rest (changes, Some (with_counts s (concat (map hk_lines hs))), h \<or> hs \<noteq> [])"
proof (induction hs arbitrary: s h)
  case (Cons k hs)
  have head: "plain_text (hk_range k)" "list_all plain_line (hk_lines k)" using Cons.prems by auto
  have "read_patch int8 (concat (map hunk_lines (k # hs)) @ rest) (changes, Some s, h) =
     read_patch int8 (map line_of (hk_lines k) @ concat (map hunk_lines hs) @ rest) (changes, Some s, True)"
    by (simp only: hunk_lines_def list.map concat.simps append_Cons append_assoc read_patch.simps
        hunk_header[OF head(1)] sum_bind_simps)
  also have "\<dots> = read_patch int8 (concat (map hunk_lines hs) @ rest) (changes, Some (with_counts s (hk_lines k)), True)"
    by (rule read_body[OF head(2)])
  also have "\<dots> = read_patch int8 rest (changes, Some (with_counts s (concat (map hk_lines (k # hs)))), True)"
    using Cons by (simp add: with_counts_append)
  finally show ?case by simp
qed simp

lemma plain_side: "pred_option plain_path p \<Longrightarrow> prefix = ''a/'' \<or> prefix = ''b/'' \<Longrightarrow> plain_text (side_of prefix p)"
  by (cases p) (auto simp: side_of_def plain_path_def scalar_value_def cp_line_break_def)

lemma read_side_lines:
  assumes "pred_option plain_path (fh_old c)" and "pred_option plain_path (fh_new c)"
  shows "read_patch_line int8 (cp ''--- '' @ side_of ''a/'' (fh_old c)) (changes, Some s, False) =
      Inr (changes, Some (s\<lparr>sn_old_path := fh_old c, sn_saw_paths := True\<rparr>), False)"
    and "read_patch_line int8 (cp ''+++ '' @ side_of ''b/'' (fh_new c)) (changes, Some s, False) =
      Inr (changes, Some (s\<lparr>sn_new_path := fh_new c, sn_saw_paths := True\<rparr>), False)"
  using side_path_plain[OF assms(1), of "''a/''" int8] side_path_plain[OF assms(2), of "''b/''" int8]
    plain_side[OF assms(1), of "''a/''"] plain_side[OF assms(2), of "''b/''"]
  by (subst read_plain_line; simp add: read_structure_def begins_def read_paths_def scalar_value_def cp_line_break_def)+

lemma plain_sides: "plain_change c \<Longrightarrow> plain_path (fst (sides c)) \<and> plain_path (snd (sides c))"
  by (auto simp: plain_change_def sides_def split: option.splits)

lemma started_plain:
  assumes "plain_path a" and "plain_path b"
  shows "section_started int8 (cp ''diff --git a/'' @ a @ cp '' b/'' @ b) =
     Inr (new_section\<lparr>sn_old_path := Some a, sn_new_path := Some b, sn_saw_paths := True\<rparr>)"
proof -
  have "\<not> py_in [32, 98, 47] ([98, 47] @ b)" using assms(2) by (simp add: plain_path_def)
  then have "split_last [32, 98, 47] (a @ 32 # [98, 47] @ b) = Some (a, b)" by (rule split_last_append)
  then show ?thesis
    using header_path_plain[OF assms(1), of int8] header_path_plain[OF assms(2), of int8]
    by (simp add: section_started_def begins_def)
qed

definition flushed :: "patch_file_delta list \<Rightarrow> patch_section option \<Rightarrow> py_exn + patch_file_delta list" where
  "flushed changes sec = (case sec of None \<Rightarrow> Inr changes | Some s \<Rightarrow> sum_bind (freeze s) (\<lambda>d. Inr (changes @ [d])))"

lemma header_line:
  assumes "plain_path a" and "plain_path b" and "flushed changes sec = Inr all_changes"
  shows "read_patch_line int8 (cp ''diff --git a/'' @ a @ cp '' b/'' @ b) (changes, sec, h) =
     Inr (all_changes, Some (new_section\<lparr>sn_old_path := Some a, sn_new_path := Some b, sn_saw_paths := True\<rparr>), False)"
proof -
  have "plain_text (cp ''diff --git a/'' @ a @ cp '' b/'' @ b)"
    using assms(1,2) by (simp add: plain_path_def scalar_value_def cp_line_break_def)
  from read_plain_line[OF this, of int8] show ?thesis
    using started_plain[OF assms(1,2), of int8] assms(3)
    by (simp add: leaves_hunk_def begins_def read_structure_def flushed_def)
qed

lemma read_file:
  assumes "plain_change c" and "flushed changes sec = Inr all_changes"
  shows "read_patch int8 (file_lines c @ rest) (changes, sec, h) =
     read_patch int8 rest (all_changes, Some (section_of c), fh_hunks c \<noteq> [])"
proof -
  note p = plain_sides[OF assms(1)]
  have c: "pred_option plain_path (fh_old c)" "pred_option plain_path (fh_new c)"
    "list_all (\<lambda>h. plain_text (hk_range h) \<and> list_all plain_line (hk_lines h)) (fh_hunks c)"
    using assms(1) by (simp_all add: plain_change_def)
  let ?s = "new_section\<lparr>sn_old_path := Some (fst (sides c)), sn_new_path := Some (snd (sides c)), sn_saw_paths := True\<rparr>"
  let ?t = "new_section\<lparr>sn_old_path := fh_old c, sn_new_path := fh_new c, sn_saw_paths := True\<rparr>"
  have "read_patch int8 (file_lines c @ rest) (changes, sec, h) =
      read_patch int8 (plain_section c @ rest) (all_changes, Some ?s, False)"
    using header_line[OF conjunct1[OF p] conjunct2[OF p] assms(2), of int8 h]
    by (simp only: file_lines_def append_Cons read_patch.simps sum_bind_simps)
  also have "\<dots> = read_patch int8 (concat (map hunk_lines (fh_hunks c)) @ rest) (all_changes, Some ?t, False)"
    by (simp only: plain_section_def append_Cons append_Nil read_patch.simps read_side_lines[OF c(1,2)] sum_bind_simps) simp
  also have "\<dots> = read_patch int8 rest (all_changes, Some (with_counts ?t (body_of c)), fh_hunks c \<noteq> [])"
    using read_hunks[OF c(3)] by (simp add: body_of_def)
  also have "with_counts ?t (body_of c) = section_of c"
    by (simp add: with_counts_def section_of_def new_section_def)
  finally show ?thesis .
qed

lemma freeze_section: "plain_change c \<Longrightarrow> freeze (section_of c) = Inr (file_summary c)"
  by (auto simp: freeze_def section_of_def file_summary_def plain_change_def)

lemma read_files:
  "list_all plain_change cs \<Longrightarrow> plain_change c \<Longrightarrow> flushed changes sec = Inr all_changes \<Longrightarrow>
   \<exists>h'. read_patch int8 (concat (map file_lines (cs @ [c])) @ rest) (changes, sec, h) =
     read_patch int8 rest (all_changes @ map file_summary cs, Some (section_of c), h')"
proof (induction cs arbitrary: changes sec h all_changes)
  case Nil
  then show ?case using read_file[of c changes sec all_changes int8 rest h] by auto
next
  case (Cons d cs)
  have d: "plain_change d" "list_all plain_change cs" using Cons.prems by simp_all
  have "flushed all_changes (Some (section_of d)) = Inr (all_changes @ [file_summary d])"
    using freeze_section[OF d(1)] by (simp add: flushed_def)
  from Cons.IH[OF d(2) Cons.prems(2) this, of "fh_hunks d \<noteq> []"] obtain h' where
    "read_patch int8 (concat (map file_lines (cs @ [c])) @ rest) (all_changes, Some (section_of d), fh_hunks d \<noteq> []) =
      read_patch int8 rest ((all_changes @ [file_summary d]) @ map file_summary cs, Some (section_of c), h')" by blast
  then show ?case
    using read_file[OF d(1) Cons.prems(3), of int8 "concat (map file_lines (cs @ [c])) @ rest" h] by auto
qed

lemma plain_hunk_lines:
  "plain_text (hk_range h) \<Longrightarrow> list_all plain_line (hk_lines h) \<Longrightarrow> l \<in> set (hunk_lines h) \<Longrightarrow> plain_text l"
  by (auto simp: hunk_lines_def list_all_iff scalar_value_def cp_line_break_def dest: line_of_plain)

lemma plain_section_plain: "plain_change c \<Longrightarrow> l \<in> set (plain_section c) \<Longrightarrow> plain_text l"
  using plain_side[of "fh_old c" "''a/''"] plain_side[of "fh_new c" "''b/''"]
  by (auto simp: plain_section_def plain_change_def list_all_iff scalar_value_def cp_line_break_def
      intro: plain_hunk_lines)

lemma file_lines_plain: "plain_change c \<Longrightarrow> l \<in> set (file_lines c) \<Longrightarrow> plain_text l"
  using plain_sides[of c]
  by (auto simp: file_lines_def plain_path_def scalar_value_def cp_line_break_def dest: plain_section_plain)

lemma parse_lines:
  assumes "\<forall>l \<in> set ls. plain_text l"
  shows "parse_patch_changes int8 (patch_of ls) =
     sum_bind (read_patch int8 ls ([], None, False)) (\<lambda>(changes, sec, _).
     sum_bind (flushed changes sec) (\<lambda>all_changes.
     if all_changes = [] then Inl PatchBindingError else Inr all_changes))"
proof -
  have "list_all scalar_value (concat (map (\<lambda>l. l @ [10]) ls))"
    using assms by (auto simp: list_all_iff plain_text_def scalar_value_def)
  moreover have "\<forall>l \<in> set ls. \<not> list_ex cp_line_break l"
    using assms by (auto simp: plain_text_def list_all_iff list_ex_iff)
  ultimately show ?thesis
    by (simp add: parse_patch_changes_def patch_of_def utf8_decode_chars splitlines_lines flushed_def)
qed

lemma parse_files:
  assumes "cs \<noteq> []" and "list_all plain_change cs"
  shows "parse_patch_changes int8 (patch_of (concat (map file_lines cs))) = Inr (map file_summary cs)"
proof -
  obtain init c where cs: "cs = init @ [c]" using assms(1) by (cases cs rule: rev_cases) auto
  have "flushed [] None = Inr []" by (simp add: flushed_def)
  from read_files[of init c, OF _ _ this, of int8 "[]" False] obtain h' where
    "read_patch int8 (concat (map file_lines cs)) ([], None, False) = Inr (map file_summary init, Some (section_of c), h')"
    using assms(2) cs by auto
  moreover have "flushed (map file_summary init) (Some (section_of c)) = Inr (map file_summary cs)"
    using freeze_section[of c] assms(2) cs by (simp add: flushed_def)
  moreover have "\<forall>l \<in> set (concat (map file_lines cs)). plain_text l"
    using assms(2) file_lines_plain by (auto simp: list_all_iff)
  ultimately show ?thesis using assms(1) by (simp add: parse_lines)
qed



section \<open>Quoted paths\<close>

text \<open>A path as git writes it with \<open>core.quotePath\<close>: bytes outside printable ASCII as three octal digits.\<close>

definition quote_byte :: "nat \<Rightarrow> codepoints" where
  "quote_byte b =
     (if b = 34 \<or> b = 92 then [92, b]
      else if 32 \<le> b \<and> b < 127 then [b]
      else [92, 48 + b div 64, 48 + b div 8 mod 8, 48 + b mod 8])"

definition quote_path :: "codepoints \<Rightarrow> codepoints" where
  "quote_path s = 34 # concat (map quote_byte (concat (map utf8_char s))) @ [34]"

text \<open>What \<open>int(digits, 8)\<close> is on three octal digits.\<close>

definition octal_reader :: "(codepoints \<Rightarrow> int option) \<Rightarrow> bool" where
  "octal_reader int8 \<longleftrightarrow> (\<forall>a b c. a < 8 \<longrightarrow> b < 8 \<longrightarrow> c < 8 \<longrightarrow>
     int8 [48 + a, 48 + b, 48 + c] = Some (int ((a * 8 + b) * 8 + c)))"

lemma octal_byte:
  assumes "octal_reader int8" and "b < 256"
  shows "octal int8 [48 + b div 64, 48 + b div 8 mod 8, 48 + b mod 8] = Inr b"
proof -
  have digits: "b div 64 < 8" "b div 8 mod 8 < 8" "b mod 8 < 8" using assms(2) by auto
  have "b div 8 = b div 64 * 8 + b div 8 mod 8" using div_mult2_eq[of b 8 8] by simp
  then have "(b div 64 * 8 + b div 8 mod 8) * 8 + b mod 8 = b" by simp
  then show ?thesis
    using digits assms unfolding octal_reader_def by (simp add: octal_def)
qed

lemma unescape_byte:
  assumes "octal_reader int8" and "b < 256"
  shows "unescape int8 (quote_byte b @ r) = sum_bind (unescape int8 r) (\<lambda>x. Inr (b # x))"
proof -
  consider "b = 34 \<or> b = 92" | "32 \<le> b" "b < 127" "b \<noteq> 34" "b \<noteq> 92" | "b < 32 \<or> 127 \<le> b" by linarith
  then show ?thesis
  proof cases
    case 1
    then show ?thesis by (auto simp: quote_byte_def octal_digit_def escape_of_def)
  next
    case 2
    then show ?thesis by (simp add: quote_byte_def utf8_encode_def utf8_char_def scalar_value_def)
  next
    case 3
    then have "quote_byte b = [92, 48 + b div 64, 48 + b div 8 mod 8, 48 + b mod 8]"
      by (auto simp: quote_byte_def)
    moreover have "octal_digit (48 + b div 64)" using assms(2) by (simp add: octal_digit_def)
    ultimately show ?thesis using octal_byte[OF assms] by simp
  qed
qed

lemma unescape_bytes:
  "octal_reader int8 \<Longrightarrow> list_all (\<lambda>b. b < 256) bs \<Longrightarrow> unescape int8 (concat (map quote_byte bs)) = Inr bs"
  by (induction bs) (simp_all add: unescape_byte)

lemma utf8_char_bytes: "scalar_value c \<Longrightarrow> list_all (\<lambda>b. b < 256) (utf8_char c)"
  by (auto simp: utf8_char_def scalar_value_def)

text \<open>
  A path git had to quote is read back: whatever characters it has, Korean ones included,
  decoding the quoted form gives the path.
\<close>

theorem quoted_path_roundtrip:
  assumes "octal_reader int8" and "list_all scalar_value s"
  shows "unquote int8 (quote_path s) = Inr s"
proof -
  have "list_all (\<lambda>b. b < 256) (concat (map utf8_char s))"
    using assms(2) by (induction s) (simp_all add: utf8_char_bytes)
  then have "unescape int8 (concat (map quote_byte (concat (map utf8_char s)))) = Inr (concat (map utf8_char s))"
    using unescape_bytes[OF assms(1)] by blast
  then show ?thesis
    by (simp add: unquote_def quote_path_def begins_def utf8_decode_chars[OF assms(2)])
qed

section \<open>What a read patch satisfies\<close>

definition valid_path :: "codepoints option \<Rightarrow> bool" where
  "valid_path p \<longleftrightarrow> (case p of None \<Rightarrow> True | Some s \<Rightarrow> assert_repo_relative s = Inr () \<and> list_all scalar_value s)"

definition valid_delta :: "patch_file_delta \<Rightarrow> bool" where
  "valid_delta d \<longleftrightarrow> valid_path (pf_old_path d) \<and> valid_path (pf_new_path d) \<and>
     (pf_old_path d \<noteq> None \<or> pf_new_path d \<noteq> None) \<and> 0 \<le> pf_insertions d \<and> 0 \<le> pf_deletions d"

definition valid_section :: "patch_section \<Rightarrow> bool" where
  "valid_section s \<longleftrightarrow> valid_path (sn_old_path s) \<and> valid_path (sn_new_path s) \<and>
     0 \<le> sn_insertions s \<and> 0 \<le> sn_deletions s"

definition valid_state :: "patch_state \<Rightarrow> bool" where
  "valid_state st \<longleftrightarrow> list_all valid_delta (fst st) \<and> pred_option valid_section (fst (snd st))"

lemma validatedD: "validated s = Inr p \<Longrightarrow> p = s \<and> assert_repo_relative s = Inr ()"
  by (auto simp: validated_def elim!: sum_bind_InrE)

lemma scalar_subset: "list_all scalar_value s \<Longrightarrow> set t \<subseteq> set s \<Longrightarrow> list_all scalar_value t"
  by (auto simp: list_all_iff)

lemma cp_split_subset: "l \<in> set (cp_split sep acc s) \<Longrightarrow> set l \<subseteq> set acc \<union> set s"
  by (induction s arbitrary: acc) (fastforce split: if_splits)+

lemma path_token_subset: "set (path_token raw) \<subseteq> set raw"
proof -
  have "cp_split 9 acc s \<noteq> []" for acc s by (induction s arbitrary: acc) simp_all
  then have "set (hd (cp_split 9 [] raw)) \<subseteq> set raw"
    using cp_split_subset[of "hd (cp_split 9 [] raw)" 9 "[]" raw] by auto
  moreover have "set (rstrip_by cp_space s) \<subseteq> set s" for s
    unfolding rstrip_by_def by (metis set_dropWhileD set_rev subsetI)
  ultimately show ?thesis unfolding path_token_def by blast
qed

lemma unquote_scalar: "unquote int8 t = Inr s \<Longrightarrow> list_all scalar_value t \<Longrightarrow> list_all scalar_value s"
  by (auto simp: unquote_def sum_bind_Inr_iff dest: utf8_decode_encodes split: if_splits option.splits)

lemma header_path_valid:
  assumes "header_path int8 raw = Inr p" and "list_all scalar_value raw"
  shows "valid_path (Some p)"
proof -
  obtain c where c: "unquote int8 (path_token raw) = Inr c" "validated c = Inr p"
    using assms(1) by (auto simp: header_path_def elim!: sum_bind_InrE)
  then show ?thesis
    using unquote_scalar[OF c(1) scalar_subset[OF assms(2) path_token_subset]] validatedD[OF c(2)]
    by (simp add: valid_path_def)
qed

lemma side_path_valid:
  assumes "side_path int8 raw prefix = Inr p" and "list_all scalar_value raw"
  shows "valid_path p"
proof -
  obtain c where c: "unquote int8 (path_token raw) = Inr c"
    and p: "c = cp ''/dev/null'' \<and> p = None \<or>
       (\<exists>q. validated (drop (length prefix) c) = Inr q \<and> p = Some q)"
    using assms(1) by (auto simp: side_path_def elim!: sum_bind_InrE split: if_splits)
  have "list_all scalar_value c"
    by (rule unquote_scalar[OF c scalar_subset[OF assms(2) path_token_subset]])
  then have "list_all scalar_value (drop (length prefix) c)"
    by (auto simp: list_all_iff dest: in_set_dropD)
  then show ?thesis using p by (auto simp: valid_path_def dest: validatedD)
qed

lemma started_valid:
  assumes "section_started int8 l = Inr s" and "list_all scalar_value l"
  shows "valid_section s"
proof -
  have drop: "list_all scalar_value (drop 13 l)"
    using assms(2) by (auto simp: list_all_iff dest: in_set_dropD)
  have halves: "split_last sep t = Some (a, b) \<Longrightarrow> set a \<subseteq> set t \<and> set b \<subseteq> set t" for sep t a b
    by (induction t arbitrary: a b) (auto split: option.splits if_splits dest: in_set_dropD simp del: drop_Cons)
  consider "s = new_section" | a b old new where "split_last (cp '' b/'') (drop 13 l) = Some (a, b)"
      "header_path int8 a = Inr old" "header_path int8 b = Inr new"
      "s = new_section\<lparr>sn_old_path := Some old, sn_new_path := Some new, sn_saw_paths := True\<rparr>"
    using assms(1) by (auto simp: section_started_def elim!: sum_bind_InrE split: if_splits option.splits)
  then show ?thesis
  proof cases
    case 1
    then show ?thesis by (simp add: valid_section_def new_section_def valid_path_def)
  next
    case 2
    then have "list_all scalar_value a" "list_all scalar_value b"
      using halves[OF 2(1)] drop scalar_subset by blast+
    then show ?thesis
      using header_path_valid[OF 2(2)] header_path_valid[OF 2(3)] 2(4)
      by (simp add: valid_section_def new_section_def)
  qed
qed

lemma read_paths_valid:
  assumes "read_paths int8 l s = Inr s'" and "list_all scalar_value l" and "valid_section s"
  shows "valid_section s'"
proof -
  have "list_all scalar_value (drop n l)" for n
    using assms(2) by (auto simp: list_all_iff dest: in_set_dropD)
  then show ?thesis
    using assms(1,3) unfolding read_paths_def
    by (auto simp: valid_section_def elim!: sum_bind_InrE split: if_splits dest: side_path_valid header_path_valid)
qed

lemma freeze_valid: "freeze s = Inr d \<Longrightarrow> valid_section s \<Longrightarrow> valid_delta d"
  by (auto simp: freeze_def valid_section_def valid_delta_def split: if_splits)

lemma flushed_valid:
  "flushed changes sec = Inr ds \<Longrightarrow> list_all valid_delta changes \<Longrightarrow> pred_option valid_section sec \<Longrightarrow>
   list_all valid_delta ds"
  by (auto simp: flushed_def elim!: sum_bind_InrE split: option.splits dest: freeze_valid)

lemma read_structure_valid:
  assumes "read_structure int8 l sec changes = Inr st" and "list_all scalar_value l"
    and "list_all valid_delta changes" and "pred_option valid_section sec"
  shows "valid_state st"
proof (cases "begins ''diff --git '' l")
  case True
  then obtain ds s where "flushed changes sec = Inr ds" "section_started int8 l = Inr s" "st = (ds, Some s, False)"
    using assms(1) unfolding read_structure_def flushed_def by (auto elim!: sum_bind_InrE split: if_splits)
  then show ?thesis
    using flushed_valid[of changes sec ds] started_valid[of int8 l s] assms(2-4) by (simp add: valid_state_def)
next
  case False
  show ?thesis
  proof (cases sec)
    case None
    then show ?thesis using assms False by (auto simp: read_structure_def valid_state_def split: if_splits)
  next
    case (Some s)
    then show ?thesis
      using assms False
      by (auto simp: read_structure_def valid_state_def elim!: sum_bind_InrE split: if_splits intro: read_paths_valid)
  qed
qed

lemma read_patch_line_valid:
  assumes "read_patch_line int8 raw st = Inr st'" and "list_all scalar_value raw" and "valid_state st"
  shows "valid_state st'"
proof -
  obtain changes sec h where st: "st = (changes, sec, h)" by (cases st) auto
  let ?l = "if raw \<noteq> [] \<and> last raw = 13 then butlast raw else raw"
  have l: "list_all scalar_value ?l" using assms(2) by (auto simp: list_all_iff dest: in_set_butlastD)
  have v: "list_all valid_delta changes" "pred_option valid_section sec"
    using assms(3) by (simp_all add: st valid_state_def)
  show ?thesis
  proof (cases "h \<and> \<not> leaves_hunk ?l")
    case True
    then obtain s where "sec = Some s" "st' = (changes, Some (count_hunk_line s ?l), h)"
      using assms(1) by (auto simp: read_patch_line_def st Let_def split: option.splits)
    then show ?thesis using v by (auto simp: valid_state_def valid_section_def count_hunk_line_def)
  next
    case False
    then have "read_structure int8 ?l sec changes = Inr st'"
      using assms(1) unfolding read_patch_line_def st Let_def prod.case by (simp only: if_False)
    then show ?thesis using read_structure_valid[OF _ l v] by blast
  qed
qed

lemma read_patch_valid:
  "read_patch int8 ls st = Inr st' \<Longrightarrow> \<forall>l \<in> set ls. list_all scalar_value l \<Longrightarrow> valid_state st \<Longrightarrow> valid_state st'"
  by (induction ls arbitrary: st) (auto elim!: sum_bind_InrE dest: read_patch_line_valid)

lemma splitlines_subset: "l \<in> set (cp_splitlines acc s) \<Longrightarrow> set l \<subseteq> set acc \<union> set s"
proof (induction acc s rule: cp_splitlines.induct)
  case (2 acc c cs)
  have "set (tl cs) \<subseteq> set cs" by (cases cs) auto
  then show ?case using 2 by (fastforce split: if_splits)
qed (auto split: if_splits)

lemma parsed_changes_valid:
  assumes "parse_patch_changes int8 bytes = Inr ds"
  shows "ds \<noteq> [] \<and> list_all valid_delta ds"
proof -
  obtain s changes sec h where s: "utf8_decode bytes = Some s"
    "read_patch int8 (cp_splitlines [] s) ([], None, False) = Inr (changes, sec, h)"
    "flushed changes sec = Inr ds" "ds \<noteq> []"
    using assms by (auto simp: parse_patch_changes_def flushed_def[symmetric] elim!: sum_bind_InrE
        split: option.splits if_splits)
  have "\<forall>l \<in> set (cp_splitlines [] s). list_all scalar_value l"
  proof
    fix l assume "l \<in> set (cp_splitlines [] s)"
    then have "set l \<subseteq> set s" using splitlines_subset[of l "[]" s] by simp
    then show "list_all scalar_value l" using utf8_decode_encodes[OF s(1)] scalar_subset by blast
  qed
  then have "valid_state (changes, sec, h)"
    using read_patch_valid[OF s(2)] by (simp add: valid_state_def)
  then show ?thesis using flushed_valid[OF s(3)] s(4) by (simp add: valid_state_def)
qed

section \<open>The stored binding\<close>

lemma text_of_json_text: "list_all scalar_value s \<Longrightarrow> text_of_json (map char_of (concat (map utf8_char s))) = Some s"
proof -
  assume s: "list_all scalar_value s"
  then have "list_all (\<lambda>b. b < 256) (concat (map utf8_char s))"
    by (induction s) (simp_all add: utf8_char_bytes)
  then have "map of_char (map (char_of :: nat \<Rightarrow> char) (concat (map utf8_char s))) = concat (map utf8_char s)"
    by (induction "concat (map utf8_char s)") (auto simp: list_all_iff intro!: map_idI)
  then show ?thesis unfolding text_of_json_def using utf8_decode_chars[OF s] by simp
qed

lemma stored_path_json: "valid_path p \<Longrightarrow> stored_path (path_json p) = Inr p"
  by (cases p) (simp_all add: stored_path_def path_json_def json_text_def valid_path_def text_of_json_text)

lemma change_json_back:
  assumes "valid_delta d"
  shows "change_from_json (change_json d) = Inr d"
proof -
  have keys: "jget_or [(''deletions'', a), (''insertions'', b), (''new_path'', n), (''old_path'', p)] ''deletions'' x = a"
    "jget_or [(''deletions'', a), (''insertions'', b), (''new_path'', n), (''old_path'', p)] ''insertions'' x = b"
    "jget_or [(''deletions'', a), (''insertions'', b), (''new_path'', n), (''old_path'', p)] ''new_path'' x = n"
    "jget_or [(''deletions'', a), (''insertions'', b), (''new_path'', n), (''old_path'', p)] ''old_path'' x = p"
    for a b n p x by (simp_all add: jget_or_def)
  have set: "set (map fst [(''deletions'', a), (''insertions'', b), (''new_path'', n), (''old_path'', p)]) =
     {''deletions'', ''insertions'', ''new_path'', ''old_path''}" for a b n p :: json by simp
  have d: "\<not> (pf_old_path d = None \<and> pf_new_path d = None)" "0 \<le> pf_insertions d" "0 \<le> pf_deletions d"
    "valid_path (pf_old_path d)" "valid_path (pf_new_path d)" using assms by (auto simp: valid_delta_def)
  show ?thesis
    unfolding change_from_json_def change_json_def json.case keys set
    using d by (simp add: stored_path_json stored_count_def)
qed

lemma each_change_back: "list_all valid_delta ds \<Longrightarrow> each_change (map change_json ds) = Inr ds"
  by (induction ds) (simp_all add: change_json_back)

definition binding_json :: "content_binding \<Rightarrow> jobj" where
  "binding_json b = [(''content_binding_version'', JInt (cb_version b)), (''patch_sha256'', JStr (cb_sha256 b)),
     (''changes'', changes_to_json (cb_changes b)), (''patch_source_path'', JStr (cb_source b))]"


section \<open>Witnesses\<close>

definition sample_change :: file_change where
  "sample_change = \<lparr>fh_old = Some (cp ''automation/x.py''), fh_new = Some (cp ''automation/x.py''),
     fh_hunks = [\<lparr>hk_range = cp ''-1,2 +1,2 @@'',
       hk_lines = [Context (cp ''a = 1''), Removed (cp ''- b''), Added (cp ''++ b/c'')]\<rparr>]\<rparr>"

definition sample_new_file :: file_change where
  "sample_new_file = \<lparr>fh_old = None, fh_new = Some [100, 111, 99, 115, 47, 44592, 46, 109, 100],
     fh_hunks = [\<lparr>hk_range = cp ''-0,0 +1 @@'', hk_lines = [Added [44592], No_newline]\<rparr>]\<rparr>"

definition sample_int8 :: "codepoints \<Rightarrow> int option" where
  "sample_int8 s = (if length s = 3 \<and> list_all octal_digit s
     then Some (foldl (\<lambda>acc c. acc * 8 + (int c - 48)) 0 s) else None)"

lemma sample_octal_reader: "octal_reader sample_int8"
  by (simp add: octal_reader_def sample_int8_def octal_digit_def)

lemma plain_samples: "plain_change sample_change" "plain_change sample_new_file"
  by (simp_all add: plain_change_def sample_change_def sample_new_file_def plain_path_def plain_text_def
      assert_repo_relative_def begins_def cp_space_def cp_line_break_def scalar_value_def)



lemma quoted_path_roundtrip_witness:
  "unquote sample_int8 (quote_path [100, 111, 99, 115, 47, 44592]) = Inr [100, 111, 99, 115, 47, 44592]"
  by (rule quoted_path_roundtrip[OF sample_octal_reader]) (simp add: scalar_value_def)


end
