(* ===== verification/Repair_Loop.thy ===== *)
theory Repair_Loop
  imports Repair_Patch
begin

text \<open>
  Model of the repair loop: \<open>automation/repair/repair_core.py\<close> (one ticket per failure),
  \<open>repair_lifecycle.py\<close> (the durable state of a ticket), \<open>repair_ops_core.py\<close> (the run that validates,
  applies and rolls back a patch), \<open>repair_ops_git.py\<close> (the repository it changes) and the owner's
  approval of \<open>repair_ops_approval.py\<close>. The planner, the peer sandbox, git, the ticket board, the masking
  of secrets and the SHA-256 digest are parameters; the regression bank is the runner of its script.
\<close>

section \<open>Tickets (repair_core.py)\<close>

abbreviation RepairStateError :: py_exn where
  "RepairStateError \<equiv> TaggedError ''RepairStateError'' []"

record repair_event =
  ev_source :: string
  ev_location :: string
  ev_raw_log :: string

record repair_claim =
  rl_ticket_id :: string
  rl_occurrence :: int
  rl_created :: bool

text \<open>An entry of the registry: the ticket and the number as it was decoded.\<close>

type_synonym registry_entry = "string \<times> json"
type_synonym registry = "(string \<times> registry_entry) list"

text \<open>\<open>isinstance(v, int)\<close>, which holds of a bool too.\<close>

definition int_value :: "json \<Rightarrow> int option" where
  "int_value v = (case v of JInt n \<Rightarrow> Some n | JBool b \<Rightarrow> Some (of_bool b) | _ \<Rightarrow> None)"

definition registry_row :: "json \<Rightarrow> py_exn + registry_entry" where
  "registry_row entry =
     (case entry of
        JObj d \<Rightarrow>
          (case jget_or d ''ticket_id'' JNull of
             JStr ticket \<Rightarrow>
               (case int_value (jget_or d ''occurrences'' JNull) of
                  Some n \<Rightarrow> if n < 1 then Inl RepairStateError else Inr (ticket, jget_or d ''occurrences'' JNull)
                | None \<Rightarrow> Inl RepairStateError)
           | _ \<Rightarrow> Inl RepairStateError)
      | _ \<Rightarrow> Inl RepairStateError)"

fun registry_rows :: "jobj \<Rightarrow> py_exn + registry" where
  "registry_rows [] = Inr []"
| "registry_rows ((signature, entry) # d) =
     sum_bind (registry_row entry) (\<lambda>r. sum_bind (registry_rows d) (\<lambda>rs. Inr ((signature, r) # rs)))"

text \<open>The state file: absent, unreadable, or a document. \<open>rw_board\<close> is the world of the Kanban board.\<close>

record 'b registry_world =
  rw_state :: "(py_exn + json) option"
  rw_board :: 'b

definition registry_load :: "('b registry_world, registry) io" where
  "registry_load = (\<lambda>w.
     (case rw_state w of
        None \<Rightarrow> Inr []
      | Some (Inl e) \<Rightarrow> Inl (if e = JSONDecodeError then RepairStateError else e)
      | Some (Inr (JObj d)) \<Rightarrow> registry_rows d
      | Some (Inr _) \<Rightarrow> Inl RepairStateError, w))"

definition registry_json :: "registry \<Rightarrow> json" where
  "registry_json tickets = JObj (map (\<lambda>(signature, ticket, n).
     (signature, JObj [(''occurrences'', n), (''ticket_id'', JStr ticket)])) (sort_key fst tickets))"

definition registry_save :: "registry \<Rightarrow> ('b registry_world, unit) io" where
  "registry_save tickets = modifyM (\<lambda>w. w\<lparr>rw_state := Some (Inr (registry_json tickets))\<rparr>)"

definition on_board :: "('b, 'a) io \<Rightarrow> ('b registry_world, 'a) io" where
  "on_board m = (\<lambda>w. case m (rw_board w) of (r, b) \<Rightarrow> (r, w\<lparr>rw_board := b\<rparr>))"

text \<open>\<open>RepairRegistry.claim\<close>, which runs under an exclusive lock.\<close>

definition open_ticket ::
  "string \<Rightarrow> (string option \<Rightarrow> ('b, string) io) \<Rightarrow> string option \<Rightarrow> registry \<Rightarrow>
   ('b registry_world, repair_claim) io" where
  "open_ticket signature create superseded tickets =
     bindM (on_board (create superseded)) (\<lambda>ticket.
     bindM (registry_save (dict_set signature (ticket, JInt 1) tickets)) (\<lambda>_.
     ret \<lparr>rl_ticket_id = ticket, rl_occurrence = 1, rl_created = True\<rparr>))"

definition claim_ticket ::
  "string \<Rightarrow> (string option \<Rightarrow> ('b, string) io) \<Rightarrow> (string \<Rightarrow> ('b, bool option) io) option \<Rightarrow>
   ('b registry_world, repair_claim) io" where
  "claim_ticket signature create is_closed =
     bindM registry_load (\<lambda>tickets.
     case map_of tickets signature of
       None \<Rightarrow> open_ticket signature create None tickets
     | Some (ticket, n) \<Rightarrow>
         bindM (case is_closed of
             None \<Rightarrow> ret None
           | Some ask \<Rightarrow> tryM (on_board (ask ticket)) (\<lambda>_. ret None)) (\<lambda>closed.
         if closed = Some True then open_ticket signature create (Some ticket) tickets
         else
           let occurrence = the (int_value n) + 1 in
           bindM (registry_save (dict_set signature (ticket, JInt occurrence) tickets)) (\<lambda>_.
           ret \<lparr>rl_ticket_id = ticket, rl_occurrence = occurrence, rl_created = False\<rparr>)))"

text \<open>\<open>RepairService.record\<close>. The texts of the card are formatted from the redacted excerpt only.\<close>

record 'b repair_ports =
  rp_create :: "string \<Rightarrow> string \<Rightarrow> string \<Rightarrow> ('b, string) io"
  rp_comment :: "string \<Rightarrow> string \<Rightarrow> ('b, unit) io"
  rp_block :: "string \<Rightarrow> string \<Rightarrow> ('b, unit) io"
  rp_private_write :: "string \<Rightarrow> int \<Rightarrow> string \<Rightarrow> ('b, string) io"
  rp_is_closed :: "(string \<Rightarrow> ('b, bool option) io) option"
  rp_redact :: "string \<Rightarrow> string"
  rp_digest :: "string \<Rightarrow> string"
  rp_title :: "string \<Rightarrow> string"

definition log_excerpt :: "(string \<Rightarrow> string) \<Rightarrow> string \<Rightarrow> string" where
  "log_excerpt redact raw = take 400 (filter (\<lambda>c. c \<noteq> CHR 0x00) (redact raw))"

definition error_token :: "string \<Rightarrow> py_exn + string" where
  "error_token safe = (if safe = [] then Inr ''empty-error''
     else case py_words [] safe of [] \<Rightarrow> Inl (OtherError ''IndexError'') | w # _ \<Rightarrow> Inr w)"

definition repair_comment :: "int \<Rightarrow> string \<Rightarrow> string \<Rightarrow> string \<Rightarrow> string" where
  "repair_comment occurrence safe log_hash private_path =
     ''Repair occurrence: '' @ str_int occurrence @ [CHR 0x0A] @ ''Redacted excerpt: '' @ safe @ [CHR 0x0A] @
     ''sha256='' @ log_hash @ [CHR 0x0A] @ ''private-log='' @ private_path"

definition create_ticket ::
  "'b repair_ports \<Rightarrow> repair_event \<Rightarrow> string \<Rightarrow> string \<Rightarrow> string option \<Rightarrow> ('b, string) io" where
  "create_ticket p ev signature safe superseded =
     (let body = ''Repair ticket. Redacted excerpt: '' @ safe @ [CHR 0x0A] @ ''Signature: '' @ signature;
          body' = (case superseded of None \<Rightarrow> body
            | Some t \<Rightarrow> body @ [CHR 0x0A] @ ''Supersedes closed card: '' @ t);
          key = ''repair-'' @ signature;
          key' = (case superseded of None \<Rightarrow> key | Some t \<Rightarrow> key @ ''-after-'' @ t)
      in bindM (rp_create p (rp_title p (ev_source ev)) body' key') (\<lambda>ticket.
         bindM (rp_block p ticket ''Needs human repair review; do not dispatch an LLM worker.'') (\<lambda>_.
         ret ticket)))"

record repair_result =
  rr_claim :: repair_claim
  rr_excerpt :: string
  rr_log_hash :: string
  rr_private_path :: string
  rr_signature :: string

definition record_failure :: "'b repair_ports \<Rightarrow> repair_event \<Rightarrow> ('b registry_world, repair_result) io" where
  "record_failure p ev =
     (let safe = log_excerpt (rp_redact p) (ev_raw_log ev) in
      bindM (lift_sum (error_token safe)) (\<lambda>token.
      let signature = rp_digest p (ev_source ev @ [CHR 0x0A] @ ev_location ev @ [CHR 0x0A] @ token) in
      bindM (claim_ticket signature (create_ticket p ev signature safe) (rp_is_closed p)) (\<lambda>c.
      bindM (on_board (rp_private_write p (rl_ticket_id c) (rl_occurrence c) (ev_raw_log ev))) (\<lambda>private_path.
      bindM (on_board (rp_comment p (rl_ticket_id c)
          (repair_comment (rl_occurrence c) safe (rp_digest p (ev_raw_log ev)) private_path))) (\<lambda>_.
      ret \<lparr>rr_claim = c, rr_excerpt = safe, rr_log_hash = rp_digest p (ev_raw_log ev),
        rr_private_path = private_path, rr_signature = signature\<rparr>)))))"

section \<open>The lifecycle of a ticket (repair_lifecycle.py)\<close>

datatype lifecycle_state = OPEN | DIAGNOSING | SANDBOXED | AWAITING_APPROVAL | APPLIED | DONE | REOPENED

fun state_value :: "lifecycle_state \<Rightarrow> string" where
  "state_value OPEN = ''open''"
| "state_value DIAGNOSING = ''diagnosing''"
| "state_value SANDBOXED = ''sandboxed''"
| "state_value AWAITING_APPROVAL = ''awaiting_approval''"
| "state_value APPLIED = ''applied''"
| "state_value DONE = ''done''"
| "state_value REOPENED = ''reopened''"

definition lifecycle_state_of :: "string \<Rightarrow> lifecycle_state option" where
  "lifecycle_state_of s = map_of (map (\<lambda>x. (state_value x, x))
     [OPEN, DIAGNOSING, SANDBOXED, AWAITING_APPROVAL, APPLIED, DONE, REOPENED]) s"

definition MAX_SANDBOX_CHECKS :: nat where
  "MAX_SANDBOX_CHECKS = 960"

record lifecycle_record =
  lr_ticket_id :: string
  lr_state :: lifecycle_state
  lr_reason :: string
  lr_updated_at :: string
  lr_sandbox_checks :: string

text \<open>The directory: per ticket no file, a file that cannot be read, or a document.\<close>

type_synonym lifecycle_dir = "string \<Rightarrow> (py_exn + json) option"

fun string_mapping :: "jobj \<Rightarrow> py_exn + (string \<times> string) list" where
  "string_mapping [] = Inr []"
| "string_mapping ((k, v) # d) =
     (case v of JStr s \<Rightarrow> sum_bind (string_mapping d) (\<lambda>r. Inr ((k, s) # r)) | _ \<Rightarrow> Inl ValueError)"

definition required :: "(string \<times> string) list \<Rightarrow> string \<Rightarrow> py_exn + string" where
  "required d k = (case map_of d k of None \<Rightarrow> Inl ValueError | Some s \<Rightarrow> Inr s)"

definition lifecycle_read :: "string \<Rightarrow> lifecycle_dir \<Rightarrow> py_exn + lifecycle_record" where
  "lifecycle_read ticket dir =
     (case dir ticket of
        None \<Rightarrow> Inl OSError
      | Some (Inl e) \<Rightarrow> Inl e
      | Some (Inr (JObj d)) \<Rightarrow>
          sum_bind (string_mapping d) (\<lambda>m.
          sum_bind (required m ''state'') (\<lambda>s.
          case lifecycle_state_of s of
            None \<Rightarrow> Inl ValueError
          | Some st \<Rightarrow>
              sum_bind (required m ''reason'') (\<lambda>reason.
              sum_bind (required m ''updated_at'') (\<lambda>updated.
              Inr \<lparr>lr_ticket_id = ticket, lr_state = st, lr_reason = reason, lr_updated_at = updated,
                lr_sandbox_checks = (case map_of m ''sandbox_checks'' of None \<Rightarrow> [] | Some c \<Rightarrow> c)\<rparr>))))
      | Some (Inr _) \<Rightarrow> Inl ValueError)"

definition lifecycle_json :: "lifecycle_record \<Rightarrow> json" where
  "lifecycle_json r = JObj [(''ticket_id'', JStr (lr_ticket_id r)), (''state'', JStr (state_value (lr_state r))),
     (''reason'', JStr (lr_reason r)), (''updated_at'', JStr (lr_updated_at r)),
     (''sandbox_checks'', JStr (lr_sandbox_checks r))]"

definition lifecycle_transition ::
  "(string \<Rightarrow> string) \<Rightarrow> string \<Rightarrow> string \<Rightarrow> lifecycle_state \<Rightarrow> string \<Rightarrow> lifecycle_dir \<Rightarrow>
   (py_exn + lifecycle_record) \<times> lifecycle_dir" where
  "lifecycle_transition redact stamp ticket state reason dir =
     (case (if dir ticket = None then Inr []
            else sum_bind (lifecycle_read ticket dir) (\<lambda>r. Inr (lr_sandbox_checks r))) of
        Inl e \<Rightarrow> (Inl e, dir)
      | Inr existing \<Rightarrow>
          let r = \<lparr>lr_ticket_id = ticket, lr_state = state, lr_reason = take 240 (redact reason),
                lr_updated_at = stamp,
                lr_sandbox_checks = (if state = SANDBOXED then take MAX_SANDBOX_CHECKS (redact reason) else existing)\<rparr>
          in (Inr r, dir(ticket \<mapsto> Inr (lifecycle_json r))))"

section \<open>A repair run (repair_ops_core.py)\<close>

datatype repair_phase = Awaiting_approval | Sandbox_rejected | Bank_blocked | Completed | Reopened

record repair_plan =
  pl_ticket_id :: string
  pl_diagnosis :: string
  pl_repro_path :: string
  pl_patch_path :: string
  pl_bank_scenario :: "string option"

record sandbox_verdict =
  sv_existing_bank_passed :: bool
  sv_repro_green :: bool
  sv_checks :: string

record repair_outcome =
  oc_phase :: repair_phase
  oc_ticket_id :: string
  oc_commit :: "string option"
  oc_patch_doc :: "string option"

text \<open>
  The seven collaborators of a run. \<open>ag_state\<close> is the transition of the lifecycle store, absent when
  the run has none; \<open>sv_checks\<close> is the text \<open>sandbox_checks()\<close> formats.
\<close>

record 'w repair_agent =
  ag_plan :: "string \<Rightarrow> string \<Rightarrow> ('w, repair_plan) io"
  ag_validate :: "repair_plan \<Rightarrow> ('w, sandbox_verdict) io"
  ag_permits :: "string \<Rightarrow> string \<Rightarrow> ('w, bool) io"
  ag_apply :: "string \<Rightarrow> ('w, string) io"
  ag_register_bank :: "string \<Rightarrow> ('w, string option) io"
  ag_bank_passes :: "string option \<Rightarrow> ('w, bool) io"
  ag_bank_allows_apply :: "('w, bool) io"
  ag_revert :: "string \<Rightarrow> ('w, unit) io"
  ag_complete :: "string \<Rightarrow> string \<Rightarrow> ('w, unit) io"
  ag_reopen :: "string \<Rightarrow> string \<Rightarrow> ('w, unit) io"
  ag_write_doc :: "repair_plan \<Rightarrow> string \<Rightarrow> ('w, string) io"
  ag_state :: "(string \<Rightarrow> lifecycle_state \<Rightarrow> string \<Rightarrow> ('w, unit) io) option"

definition set_state :: "'w repair_agent \<Rightarrow> string \<Rightarrow> lifecycle_state \<Rightarrow> string \<Rightarrow> ('w, unit) io" where
  "set_state a ticket state reason = (case ag_state a of None \<Rightarrow> ret () | Some f \<Rightarrow> f ticket state reason)"

definition verify_and_finish ::
  "'w repair_agent \<Rightarrow> string \<Rightarrow> repair_plan \<Rightarrow> string \<Rightarrow> ('w, repair_outcome) io" where
  "verify_and_finish a ticket plan commit =
     bindM (ag_bank_passes a (pl_bank_scenario plan)) (\<lambda>passed.
     if \<not> passed then
       bindM (ag_revert a commit) (\<lambda>_.
       bindM (set_state a ticket REOPENED ''regression bank failed; patch reverted'') (\<lambda>_.
       bindM (ag_reopen a ticket ''regression bank failed; patch reverted'') (\<lambda>_.
       ret \<lparr>oc_phase = Reopened, oc_ticket_id = ticket, oc_commit = Some commit, oc_patch_doc = None\<rparr>)))
     else
       bindM (ag_write_doc a plan commit) (\<lambda>doc.
       bindM (set_state a ticket DONE commit) (\<lambda>_.
       bindM (ag_complete a ticket (''repair applied '' @ commit @ ''; '' @ doc)) (\<lambda>_.
       ret \<lparr>oc_phase = Completed, oc_ticket_id = ticket, oc_commit = Some commit, oc_patch_doc = Some doc\<rparr>))))"

definition apply_and_test :: "'w repair_agent \<Rightarrow> string \<Rightarrow> repair_plan \<Rightarrow> ('w, repair_outcome) io" where
  "apply_and_test a ticket plan =
     bindM (ag_apply a (pl_patch_path plan)) (\<lambda>commit.
     bindM (set_state a ticket APPLIED commit) (\<lambda>_.
     bindM (case pl_bank_scenario plan of
         None \<Rightarrow> ret commit
       | Some scenario \<Rightarrow> bindM (ag_register_bank a scenario) (\<lambda>registered.
           ret (case registered of None \<Rightarrow> commit | Some c \<Rightarrow> c)))
       (verify_and_finish a ticket plan)))"

definition repair_ticket :: "'w repair_agent \<Rightarrow> string \<Rightarrow> string \<Rightarrow> ('w, repair_outcome) io" where
  "repair_ticket a ticket private_log =
     bindM (set_state a ticket OPEN []) (\<lambda>_.
     bindM (set_state a ticket DIAGNOSING []) (\<lambda>_.
     bindM (ag_plan a ticket private_log) (\<lambda>plan.
     bindM (ag_validate a plan) (\<lambda>verdict.
     bindM (set_state a ticket SANDBOXED (sv_checks verdict)) (\<lambda>_.
     if \<not> sv_existing_bank_passed verdict \<or> \<not> sv_repro_green verdict then
       bindM (set_state a ticket REOPENED ''sandbox gate rejected'') (\<lambda>_.
       bindM (ag_reopen a ticket ''sandbox gate rejected; no patch applied'') (\<lambda>_.
       ret \<lparr>oc_phase = Sandbox_rejected, oc_ticket_id = ticket, oc_commit = None, oc_patch_doc = None\<rparr>))
     else bindM (ag_bank_allows_apply a) (\<lambda>allowed.
       if \<not> allowed then
         bindM (ag_reopen a ticket ''regression bank state is red; no patch applied'') (\<lambda>_.
         ret \<lparr>oc_phase = Bank_blocked, oc_ticket_id = ticket, oc_commit = None, oc_patch_doc = None\<rparr>)
       else bindM (ag_permits a ticket (pl_patch_path plan)) (\<lambda>permitted.
         if \<not> permitted then
           bindM (set_state a ticket AWAITING_APPROVAL []) (\<lambda>_.
           ret \<lparr>oc_phase = Awaiting_approval, oc_ticket_id = ticket, oc_commit = None, oc_patch_doc = None\<rparr>)
         else apply_and_test a ticket plan)))))))"

section \<open>The repository (repair_ops_git.py)\<close>

abbreviation RepairOpsError :: py_exn where
  "RepairOpsError \<equiv> TaggedError ''RepairOpsError'' []"

abbreviation PatchDigestMismatch :: py_exn where
  "PatchDigestMismatch \<equiv> TaggedError ''PatchDigestMismatch'' []"

definition ALLOWED_PREFIXES :: "string list" where
  "ALLOWED_PREFIXES = [''automation/'', ''configs/'', ''tests/'', ''docs/'']"

definition FORBIDDEN_PARTS :: "string list" where
  "FORBIDDEN_PARTS = [''secret'', ''credential'', ''.ssh'', ''/home/'', ''/srv/autophagy-private/'']"

text \<open>Git in the work clone: arguments and standard input to exit status and standard output.\<close>

record 'w git_repository =
  gp_env :: patch_env
  gp_lower :: "codepoints \<Rightarrow> codepoints"
  gp_read_bytes :: "string \<Rightarrow> 'w \<Rightarrow> nat list option"
  gp_git :: "codepoints list \<Rightarrow> nat list option \<Rightarrow> ('w, int \<times> codepoints) io"
  gp_expected_sha256 :: "string option"

definition run_git :: "'w git_repository \<Rightarrow> codepoints list \<Rightarrow> nat list option \<Rightarrow> ('w, codepoints) io" where
  "run_git g args input =
     bindM (gp_git g (cp ''git'' # args) input) (\<lambda>(code, out).
     if code \<noteq> 0 then raise RepairOpsError else ret out)"

text \<open>\<open>dict.fromkeys\<close> keeps the first of equal paths.\<close>

fun first_of_each :: "'a list \<Rightarrow> 'a list \<Rightarrow> 'a list" where
  "first_of_each seen [] = []"
| "first_of_each seen (x # xs) =
     (if x \<in> set seen then first_of_each seen xs else x # first_of_each (x # seen) xs)"

definition changed_paths :: "patch_file_delta list \<Rightarrow> codepoints list" where
  "changed_paths changes = first_of_each [] (concat (map (\<lambda>d.
     (case pf_old_path d of None \<Rightarrow> [] | Some p \<Rightarrow> [p]) @ (case pf_new_path d of None \<Rightarrow> [] | Some p \<Rightarrow> [p])) changes))"

definition allowed_path :: "codepoints \<Rightarrow> bool" where
  "allowed_path p \<longleftrightarrow> list_ex (\<lambda>prefix. begins prefix p) ALLOWED_PREFIXES"

definition forbidden_path :: "(codepoints \<Rightarrow> codepoints) \<Rightarrow> codepoints \<Rightarrow> bool" where
  "forbidden_path lower_case p \<longleftrightarrow> list_ex (\<lambda>part. py_in (cp part) (lower_case p)) FORBIDDEN_PARTS"

definition assert_scope :: "'w git_repository \<Rightarrow> nat list \<Rightarrow> py_exn + codepoints list" where
  "assert_scope g content =
     (case parse_patch_changes (pv_int8 (gp_env g)) content of
        Inl e \<Rightarrow> Inl (if e = PatchBindingError then RepairOpsError else e)
      | Inr changes \<Rightarrow>
          let paths = changed_paths changes in
          if paths = [] \<or> list_ex (\<lambda>p. \<not> allowed_path p) paths then Inl RepairOpsError
          else if list_ex (forbidden_path (gp_lower g)) paths then Inl RepairOpsError
          else Inr paths)"

definition cp_strip :: "codepoints \<Rightarrow> codepoints" where
  "cp_strip s = strip_by cp_space s"

definition git_apply :: "'w git_repository \<Rightarrow> string \<Rightarrow> ('w, codepoints) io" where
  "git_apply g patch_path = (\<lambda>w.
     case gp_read_bytes g patch_path w of
       None \<Rightarrow> (Inl OSError, w)
     | Some content \<Rightarrow>
         if gp_expected_sha256 g \<noteq> None \<and> gp_expected_sha256 g \<noteq> Some (pv_sha256 (gp_env g) content)
         then (Inl PatchDigestMismatch, w)
         else bindM (lift_sum (assert_scope g content)) (\<lambda>paths.
           bindM (run_git g [cp ''apply'', cp ''-''] (Some content)) (\<lambda>_.
           bindM (run_git g ([cp ''add'', cp ''--''] @ paths) None) (\<lambda>_.
           bindM (run_git g [cp ''commit'', cp ''-m'', cp ''fix: apply repair ticket''] None) (\<lambda>_.
           bindM (run_git g [cp ''rev-parse'', cp ''HEAD''] None) (\<lambda>out. ret (cp_strip out)))))) w)"

text \<open>
  Registration in the bank: the registry answers whether the scenario was merged, or the path of the
  file it added, relative to the clone.
\<close>

definition git_register_bank ::
  "'w git_repository \<Rightarrow> (string \<Rightarrow> ('w, codepoints option) io) \<Rightarrow> string \<Rightarrow> ('w, codepoints option) io" where
  "git_register_bank g register scenario =
     bindM (register scenario) (\<lambda>added_path.
     case added_path of
       None \<Rightarrow> ret None
     | Some path \<Rightarrow>
         bindM (run_git g [cp ''add'', cp ''--'', path] None) (\<lambda>_.
         bindM (run_git g [cp ''commit'', cp ''--amend'', cp ''--no-edit''] None) (\<lambda>_.
         bindM (run_git g [cp ''rev-parse'', cp ''HEAD''] None) (\<lambda>out. ret (Some (cp_strip out))))))"

definition git_revert :: "'w git_repository \<Rightarrow> codepoints \<Rightarrow> ('w, unit) io" where
  "git_revert g commit = bindM (run_git g [cp ''revert'', cp ''--no-edit'', commit] None) (\<lambda>_. ret ())"

section \<open>The owner's approval of a patch (repair_ops_approval.py)\<close>

record approval_reaction =
  rx_message_id :: string
  rx_user_id :: string
  rx_channel_id :: string
  rx_text :: string
  rx_bot :: bool

definition manual_approval_text :: "string \<Rightarrow> string \<Rightarrow> string" where
  "manual_approval_text ticket action_hash = ''APPROVE repair '' @ action_hash @ '' ticket:'' @ ticket"

text \<open>The ticket and the name of the patch as text; both are ASCII identifiers.\<close>

definition patch_action_hash ::
  "patch_env \<Rightarrow> ('w \<Rightarrow> nat list option) \<Rightarrow> string \<Rightarrow> string \<Rightarrow> ('w, string) io" where
  "patch_action_hash env read_bytes ticket patch_name = (\<lambda>w.
     case load_patch_artifact env read_bytes w of
       (Inl e, w') \<Rightarrow> (Inl (if e = PatchBindingError then RepairOpsError else e), w')
     | (Inr artifact, w') \<Rightarrow>
         (Inr (content_action_hash env (cp ticket) (cp patch_name) (pa_sha256 artifact) (pa_changes artifact)), w'))"

definition manual_permits ::
  "patch_env \<Rightarrow> string \<Rightarrow> approval_reaction option \<Rightarrow> string \<Rightarrow> string \<Rightarrow> string \<Rightarrow>
   ('w \<Rightarrow> nat list option) \<Rightarrow> ('w, bool) io" where
  "manual_permits env owner_id reaction expected_channel_id ticket patch_name read_bytes =
     (case reaction of
        None \<Rightarrow> ret False
      | Some r \<Rightarrow>
          if rx_bot r \<or> rx_user_id r \<noteq> owner_id then ret False
          else if rx_channel_id r \<noteq> expected_channel_id then ret False
          else bindM (patch_action_hash env read_bytes ticket patch_name) (\<lambda>h.
            if rx_text r \<noteq> manual_approval_text ticket h then raise RepairOpsError else ret True))"

section \<open>What a run may do\<close>

text \<open>
  The calls of a run, in order, with what they answered; \<open>None\<close> is a call that raised. \<open>spied\<close> is an
  agent whose collaborators also write these calls into a log.
\<close>

datatype repair_step =
    Planned
  | Validated "bool option"
  | Allowed "bool option"
  | Permitted "bool option"
  | Applied "string option"
  | Registered "string option option"
  | Tested "bool option"
  | Reverted string
  | Documented
  | Marked lifecycle_state
  | Told_complete
  | Told_reopen

definition answer :: "(py_exn + 'a) \<Rightarrow> 'a option" where
  "answer r = (case r of Inl _ \<Rightarrow> None | Inr a \<Rightarrow> Some a)"

lemma answer_simps [simp]: "answer (Inl e) = None" "answer (Inr a) = Some a"
  by (simp_all add: answer_def)

definition spy :: "(py_exn + 'a \<Rightarrow> 'e) \<Rightarrow> ('w, 'a) io \<Rightarrow> ('w \<times> 'e list, 'a) io" where
  "spy ev m = (\<lambda>(w, steps). case m w of (r, w') \<Rightarrow> (r, (w', steps @ [ev r])))"

definition green :: "sandbox_verdict \<Rightarrow> bool" where
  "green v \<longleftrightarrow> sv_existing_bank_passed v \<and> sv_repro_green v"

definition spied :: "'w repair_agent \<Rightarrow> ('w \<times> repair_step list) repair_agent" where
  "spied a = \<lparr>
     ag_plan = (\<lambda>t l. spy (\<lambda>_. Planned) (ag_plan a t l)),
     ag_validate = (\<lambda>p. spy (\<lambda>r. Validated (map_option green (answer r))) (ag_validate a p)),
     ag_permits = (\<lambda>t p. spy (\<lambda>r. Permitted (answer r)) (ag_permits a t p)),
     ag_apply = (\<lambda>p. spy (\<lambda>r. Applied (answer r)) (ag_apply a p)),
     ag_register_bank = (\<lambda>s. spy (\<lambda>r. Registered (answer r)) (ag_register_bank a s)),
     ag_bank_passes = (\<lambda>s. spy (\<lambda>r. Tested (answer r)) (ag_bank_passes a s)),
     ag_bank_allows_apply = spy (\<lambda>r. Allowed (answer r)) (ag_bank_allows_apply a),
     ag_revert = (\<lambda>c. spy (\<lambda>_. Reverted c) (ag_revert a c)),
     ag_complete = (\<lambda>t s. spy (\<lambda>_. Told_complete) (ag_complete a t s)),
     ag_reopen = (\<lambda>t s. spy (\<lambda>_. Told_reopen) (ag_reopen a t s)),
     ag_write_doc = (\<lambda>p c. spy (\<lambda>_. Documented) (ag_write_doc a p c)),
     ag_state = map_option (\<lambda>f t s r. spy (\<lambda>_. Marked s) (f t s r)) (ag_state a)\<rparr>"

text \<open>What the calls so far establish, and which call they allow next.\<close>

record repair_facts =
  fc_green :: bool
  fc_bank_allows :: bool
  fc_permitted :: bool
  fc_attempted :: bool
  fc_commit :: "string option"
  fc_tested :: "bool option"
  fc_reverted :: "string option"

definition no_facts :: repair_facts where
  "no_facts = \<lparr>fc_green = False, fc_bank_allows = False, fc_permitted = False, fc_attempted = False,
     fc_commit = None, fc_tested = None, fc_reverted = None\<rparr>"

fun note_step :: "repair_facts \<Rightarrow> repair_step \<Rightarrow> repair_facts" where
  "note_step f (Validated r) = f\<lparr>fc_green := (r = Some True)\<rparr>"
| "note_step f (Allowed r) = f\<lparr>fc_bank_allows := (r = Some True)\<rparr>"
| "note_step f (Permitted r) = f\<lparr>fc_permitted := (r = Some True)\<rparr>"
| "note_step f (Applied r) = f\<lparr>fc_attempted := True, fc_commit := r\<rparr>"
| "note_step f (Registered (Some (Some c))) = f\<lparr>fc_commit := Some c\<rparr>"
| "note_step f (Tested r) = f\<lparr>fc_tested := r\<rparr>"
| "note_step f (Reverted c) = f\<lparr>fc_reverted := Some c\<rparr>"
| "note_step f _ = f"

fun step_allowed :: "repair_facts \<Rightarrow> repair_step \<Rightarrow> bool" where
  "step_allowed f (Applied _) = (fc_green f \<and> fc_bank_allows f \<and> fc_permitted f \<and> \<not> fc_attempted f)"
| "step_allowed f (Permitted _) = (fc_green f \<and> fc_bank_allows f \<and> \<not> fc_attempted f)"
| "step_allowed f (Registered _) = (fc_commit f \<noteq> None \<and> fc_tested f = None)"
| "step_allowed f (Tested _) = (fc_commit f \<noteq> None \<and> fc_tested f = None)"
| "step_allowed f (Reverted c) = (fc_commit f = Some c \<and> fc_tested f = Some False \<and> fc_reverted f = None)"
| "step_allowed f Documented = (fc_tested f = Some True)"
| "step_allowed f (Marked APPLIED) = (fc_commit f \<noteq> None)"
| "step_allowed f (Marked DONE) = (fc_tested f = Some True)"
| "step_allowed f (Marked REOPENED) = (\<not> fc_attempted f \<or> fc_reverted f \<noteq> None)"
| "step_allowed f (Marked _) = (\<not> fc_attempted f)"
| "step_allowed f Told_complete = (fc_tested f = Some True)"
| "step_allowed f Told_reopen = (\<not> fc_attempted f \<or> fc_reverted f \<noteq> None)"
| "step_allowed f _ = (\<not> fc_attempted f)"

definition facts_of :: "repair_step list \<Rightarrow> repair_facts" where
  "facts_of steps = foldl note_step no_facts steps"

fun legal_from :: "repair_facts \<Rightarrow> repair_step list \<Rightarrow> bool" where
  "legal_from f [] = True"
| "legal_from f (s # ss) = (step_allowed f s \<and> legal_from (note_step f s) ss)"

text \<open>What the outcome of a run says about it.\<close>

definition outcome_told :: "repair_outcome \<Rightarrow> repair_facts \<Rightarrow> bool" where
  "outcome_told outcome f \<longleftrightarrow>
     (case oc_phase outcome of
        Completed \<Rightarrow> fc_tested f = Some True \<and> oc_commit outcome = fc_commit f \<and> fc_reverted f = None
      | Reopened \<Rightarrow> fc_tested f = Some False \<and> oc_commit outcome = fc_commit f \<and> fc_reverted f = fc_commit f
      | _ \<Rightarrow> \<not> fc_attempted f \<and> oc_commit outcome = None)"

lemma legal_from_append:
  "legal_from f (ss @ [s]) \<longleftrightarrow> legal_from f ss \<and> step_allowed (foldl note_step f ss) s"
  by (induction ss arbitrary: f) auto

definition legal_log :: "'w \<times> repair_step list \<Rightarrow> bool" where
  "legal_log s \<longleftrightarrow> legal_from no_facts (snd s)"

definition known :: "repair_facts \<Rightarrow> 'w \<times> repair_step list \<Rightarrow> bool" where
  "known f s \<longleftrightarrow> legal_log s \<and> facts_of (snd s) = f"

lemma hoare_spy:
  assumes "\<And>r. step_allowed f (ev r)"
  shows "hoare (known f) (spy ev m) (\<lambda>a. known (note_step f (ev (Inr a)))) (\<lambda>_. legal_log)"
proof (rule hoareI)
  fix s a s' assume s: "known f s" and "spy ev m s = (Inr a, s')"
  then obtain w' where "s' = (w', snd s @ [ev (Inr a)])"
    by (auto simp: spy_def split: prod.splits)
  then show "known (note_step f (ev (Inr a))) s'"
    using s assms by (auto simp: known_def legal_log_def facts_of_def legal_from_append)
next
  fix s e s' assume s: "known f s" and "spy ev m s = (Inl e, s')"
  then obtain w' where "s' = (w', snd s @ [ev (Inl e)])"
    by (auto simp: spy_def split: prod.splits)
  then show "legal_log s'"
    using s assms by (auto simp: known_def legal_log_def facts_of_def legal_from_append)
qed

lemma hoare_state:
  assumes "step_allowed f (Marked state)"
  shows "hoare (known f) (set_state (spied a) ticket state reason) (\<lambda>_. known f) (\<lambda>_. legal_log)"
proof (cases "ag_state a")
  case None
  then show ?thesis by (simp add: set_state_def spied_def hoare_def ret_def)
next
  case (Some g)
  have "hoare (known f) (spy (\<lambda>_. Marked state) (g ticket state reason))
     (\<lambda>_. known (note_step f (Marked state))) (\<lambda>_. legal_log)"
    by (rule hoare_spy) (rule assms)
  then show ?thesis using Some by (simp add: set_state_def spied_def)
qed

lemma hoare_told:
  "outcome_told outcome f \<Longrightarrow>
   hoare (known f) (ret outcome) (\<lambda>o' s. legal_log s \<and> outcome_told o' (facts_of (snd s))) (\<lambda>_. legal_log)"
  by (auto simp: hoare_def ret_def known_def)

abbreviation run_ok :: "('w \<times> repair_step list, repair_outcome) io \<Rightarrow> repair_facts \<Rightarrow> bool" where
  "run_ok m f \<equiv> hoare (known f) m (\<lambda>o' s. legal_log s \<and> outcome_told o' (facts_of (snd s))) (\<lambda>_. legal_log)"

lemmas spied_ops = spied_def repair_agent.select_convs

lemma finish_ok:
  assumes "fc_commit f = Some commit" and "fc_tested f = None" and "fc_reverted f = None"
  shows "run_ok (verify_and_finish (spied a) ticket plan commit) f"
  unfolding verify_and_finish_def
proof (rule hoare_bind)
  show "hoare (known f) (ag_bank_passes (spied a) (pl_bank_scenario plan))
     (\<lambda>passed. known (note_step f (Tested (answer (Inr passed))))) (\<lambda>_. legal_log)"
    using assms unfolding spied_ops by (intro hoare_spy) simp
next
  fix passed
  let ?f = "note_step f (Tested (answer (Inr passed)))"
  let ?g = "note_step ?f (Reverted commit)"
  show "run_ok (if \<not> passed then
       bindM (ag_revert (spied a) commit) (\<lambda>_.
       bindM (set_state (spied a) ticket REOPENED ''regression bank failed; patch reverted'') (\<lambda>_.
       bindM (ag_reopen (spied a) ticket ''regression bank failed; patch reverted'') (\<lambda>_.
       ret \<lparr>oc_phase = Reopened, oc_ticket_id = ticket, oc_commit = Some commit, oc_patch_doc = None\<rparr>)))
     else
       bindM (ag_write_doc (spied a) plan commit) (\<lambda>doc.
       bindM (set_state (spied a) ticket DONE commit) (\<lambda>_.
       bindM (ag_complete (spied a) ticket (''repair applied '' @ commit @ ''; '' @ doc)) (\<lambda>_.
       ret \<lparr>oc_phase = Completed, oc_ticket_id = ticket, oc_commit = Some commit, oc_patch_doc = Some doc\<rparr>)))) ?f"
  proof (cases passed)
    case False
    have revert: "hoare (known ?f) (ag_revert (spied a) commit) (\<lambda>_. known ?g) (\<lambda>_. legal_log)"
      using assms False unfolding spied_ops by (intro hoare_spy) simp
    have state: "hoare (known ?g) (set_state (spied a) ticket REOPENED r) (\<lambda>_. known ?g) (\<lambda>_. legal_log)" for r
      by (rule hoare_state) simp
    have reopen: "hoare (known ?g) (ag_reopen (spied a) ticket r) (\<lambda>_. known (note_step ?g Told_reopen)) (\<lambda>_. legal_log)" for r
      unfolding spied_ops by (intro hoare_spy) simp
    have told: "run_ok (ret \<lparr>oc_phase = Reopened, oc_ticket_id = ticket, oc_commit = Some commit,
       oc_patch_doc = None\<rparr>) (note_step ?g Told_reopen)"
      using assms False by (intro hoare_told) (simp add: outcome_told_def)
    have go: "(if \<not> passed then x else y) = x" for x y :: "('a \<times> repair_step list, repair_outcome) io" using False by simp
    show ?thesis
      unfolding go by (rule hoare_bind[OF revert], rule hoare_bind[OF state], rule hoare_bind[OF reopen], rule told)
  next
    case True
    have doc: "hoare (known ?f) (ag_write_doc (spied a) plan commit) (\<lambda>_. known ?f) (\<lambda>_. legal_log)"
      using hoare_spy[of ?f "\<lambda>_. Documented" "ag_write_doc a plan commit"] True unfolding spied_ops by simp
    have state: "hoare (known ?f) (set_state (spied a) ticket DONE commit) (\<lambda>_. known ?f) (\<lambda>_. legal_log)"
      by (rule hoare_state) (simp add: True)
    have complete: "hoare (known ?f) (ag_complete (spied a) ticket r) (\<lambda>_. known ?f) (\<lambda>_. legal_log)" for r
      using hoare_spy[of ?f "\<lambda>_. Told_complete" "ag_complete a ticket r"] True unfolding spied_ops by simp
    have told: "run_ok (ret \<lparr>oc_phase = Completed, oc_ticket_id = ticket, oc_commit = Some commit,
       oc_patch_doc = Some doc\<rparr>) ?f" for doc
      using assms True by (intro hoare_told) (simp add: outcome_told_def)
    have go: "(if \<not> passed then x else y) = y" for x y :: "('a \<times> repair_step list, repair_outcome) io" using True by simp
    show ?thesis
      unfolding go by (rule hoare_bind[OF doc], rule hoare_bind[OF state], rule hoare_bind[OF complete], rule told)
  qed
qed

lemma apply_ok:
  assumes "fc_green f" "fc_bank_allows f" "fc_permitted f" "\<not> fc_attempted f"
    and "fc_tested f = None" "fc_reverted f = None"
  shows "run_ok (apply_and_test (spied a) ticket plan) f"
  unfolding apply_and_test_def
proof (rule hoare_bind)
  show "hoare (known f) (ag_apply (spied a) (pl_patch_path plan))
     (\<lambda>c. known (note_step f (Applied (answer (Inr c))))) (\<lambda>_. legal_log)"
    using assms unfolding spied_ops by (intro hoare_spy) simp
next
  fix c
  let ?f = "note_step f (Applied (answer (Inr c)))"
  show "run_ok (bindM (set_state (spied a) ticket APPLIED c) (\<lambda>_.
     bindM (case pl_bank_scenario plan of
         None \<Rightarrow> ret c
       | Some scenario \<Rightarrow> bindM (ag_register_bank (spied a) scenario) (\<lambda>registered.
           ret (case registered of None \<Rightarrow> c | Some c' \<Rightarrow> c')))
       (verify_and_finish (spied a) ticket plan))) ?f"
  proof (rule hoare_bind)
    show "hoare (known ?f) (set_state (spied a) ticket APPLIED c) (\<lambda>_. known ?f) (\<lambda>_. legal_log)"
      by (rule hoare_state) simp
  next
    let ?S = "\<lambda>c' s. \<exists>g. known g s \<and> fc_commit g = Some c' \<and> fc_tested g = None \<and> fc_reverted g = None"
    show "run_ok (bindM (case pl_bank_scenario plan of
         None \<Rightarrow> ret c
       | Some scenario \<Rightarrow> bindM (ag_register_bank (spied a) scenario) (\<lambda>registered.
           ret (case registered of None \<Rightarrow> c | Some c' \<Rightarrow> c')))
       (verify_and_finish (spied a) ticket plan)) ?f"
    proof (rule hoare_bind[where S = ?S])
      show "hoare (known ?f) (case pl_bank_scenario plan of
           None \<Rightarrow> ret c
         | Some scenario \<Rightarrow> bindM (ag_register_bank (spied a) scenario) (\<lambda>registered.
             ret (case registered of None \<Rightarrow> c | Some c' \<Rightarrow> c'))) ?S (\<lambda>_. legal_log)"
      proof (cases "pl_bank_scenario plan")
        case None
        have "?S c s" if "known ?f s" for s
          using that assms by (intro exI[of _ ?f]) simp
        then show ?thesis using None by (auto simp: hoare_def ret_def)
      next
        case (Some scenario)
        have "hoare (known ?f) (ag_register_bank (spied a) scenario)
           (\<lambda>r. known (note_step ?f (Registered (answer (Inr r))))) (\<lambda>_. legal_log)"
          using assms unfolding spied_ops by (intro hoare_spy) simp
        moreover have "hoare (known (note_step ?f (Registered (answer (Inr r)))))
           (ret (case r of None \<Rightarrow> c | Some c' \<Rightarrow> c')) ?S (\<lambda>_. legal_log)" for r
        proof -
          have "?S (case r of None \<Rightarrow> c | Some c' \<Rightarrow> c') s" if "known (note_step ?f (Registered (answer (Inr r)))) s" for s
            using that assms by (intro exI[of _ "note_step ?f (Registered (answer (Inr r)))"]) (cases r; simp)
          then show ?thesis by (auto simp: hoare_def ret_def)
        qed
        ultimately show ?thesis using Some by (simp only: option.case) (rule hoare_bind)
      qed
    next
      fix c'
      show "hoare (?S c') (verify_and_finish (spied a) ticket plan c')
         (\<lambda>o' s. legal_log s \<and> outcome_told o' (facts_of (snd s))) (\<lambda>_. legal_log)"
      proof (rule hoareI)
        fix s o' s' assume "?S c' s" and run: "verify_and_finish (spied a) ticket plan c' s = (Inr o', s')"
        then obtain g where g: "known g s" "fc_commit g = Some c'" "fc_tested g = None" "fc_reverted g = None" by blast
        show "legal_log s' \<and> outcome_told o' (facts_of (snd s'))"
          by (rule hoareD1[OF finish_ok[OF g(2-4)] g(1) run])
      next
        fix s e s' assume "?S c' s" and run: "verify_and_finish (spied a) ticket plan c' s = (Inl e, s')"
        then obtain g where g: "known g s" "fc_commit g = Some c'" "fc_tested g = None" "fc_reverted g = None" by blast
        show "legal_log s'"
          by (rule hoareD2[OF finish_ok[OF g(2-4)] g(1) run])
      qed
    qed
  qed
qed

text \<open>The four ways a run ends before the patch is touched, and the one that goes on.\<close>

lemma rejected_ok:
  assumes "\<not> fc_attempted f"
  shows "run_ok (bindM (set_state (spied a) ticket REOPENED r1) (\<lambda>_.
       bindM (ag_reopen (spied a) ticket r2) (\<lambda>_.
       ret \<lparr>oc_phase = Sandbox_rejected, oc_ticket_id = ticket, oc_commit = None, oc_patch_doc = None\<rparr>))) f"
    and "run_ok (bindM (ag_reopen (spied a) ticket r2) (\<lambda>_.
       ret \<lparr>oc_phase = Bank_blocked, oc_ticket_id = ticket, oc_commit = None, oc_patch_doc = None\<rparr>)) f"
    and "run_ok (bindM (set_state (spied a) ticket AWAITING_APPROVAL []) (\<lambda>_.
       ret \<lparr>oc_phase = Awaiting_approval, oc_ticket_id = ticket, oc_commit = None, oc_patch_doc = None\<rparr>)) f"
proof -
  have reopen: "hoare (known f) (ag_reopen (spied a) ticket r2) (\<lambda>_. known f) (\<lambda>_. legal_log)"
    using hoare_spy[of f "\<lambda>_. Told_reopen" "ag_reopen a ticket r2"] assms unfolding spied_ops by simp
  have state: "hoare (known f) (set_state (spied a) ticket st r) (\<lambda>_. known f) (\<lambda>_. legal_log)"
    if "st = REOPENED \<or> st = AWAITING_APPROVAL" for st r
    using that assms by (intro hoare_state) auto
  have told: "run_ok (ret \<lparr>oc_phase = p, oc_ticket_id = ticket, oc_commit = None, oc_patch_doc = None\<rparr>) f"
    if "p \<noteq> Completed" "p \<noteq> Reopened" for p
    using that assms by (intro hoare_told) (cases p; simp add: outcome_told_def)
  show "run_ok (bindM (set_state (spied a) ticket REOPENED r1) (\<lambda>_.
       bindM (ag_reopen (spied a) ticket r2) (\<lambda>_.
       ret \<lparr>oc_phase = Sandbox_rejected, oc_ticket_id = ticket, oc_commit = None, oc_patch_doc = None\<rparr>))) f"
    by (rule hoare_bind[OF state], simp, rule hoare_bind[OF reopen], rule told) simp_all
  show "run_ok (bindM (ag_reopen (spied a) ticket r2) (\<lambda>_.
       ret \<lparr>oc_phase = Bank_blocked, oc_ticket_id = ticket, oc_commit = None, oc_patch_doc = None\<rparr>)) f"
    by (rule hoare_bind[OF reopen], rule told) simp_all
  show "run_ok (bindM (set_state (spied a) ticket AWAITING_APPROVAL []) (\<lambda>_.
       ret \<lparr>oc_phase = Awaiting_approval, oc_ticket_id = ticket, oc_commit = None, oc_patch_doc = None\<rparr>)) f"
    by (rule hoare_bind[OF state], simp, rule told) simp_all
qed

lemma repair_ok: "run_ok (repair_ticket (spied a) ticket private_log) no_facts"
proof -
  have mark: "hoare (known f) (set_state (spied a) ticket st r) (\<lambda>_. known f) (\<lambda>_. legal_log)"
    if "\<not> fc_attempted f" "st = OPEN \<or> st = DIAGNOSING \<or> st = SANDBOXED" for st r f
    using that by (intro hoare_state) auto
  have plan: "hoare (known no_facts) (ag_plan (spied a) ticket private_log) (\<lambda>_. known no_facts) (\<lambda>_. legal_log)"
    using hoare_spy[of no_facts "\<lambda>_. Planned" "ag_plan a ticket private_log"] unfolding spied_ops
    by (simp add: no_facts_def)
  have validate: "hoare (known no_facts) (ag_validate (spied a) plan)
     (\<lambda>v. known (no_facts\<lparr>fc_green := green v\<rparr>)) (\<lambda>_. legal_log)" for plan
    using hoare_spy[of no_facts "\<lambda>r. Validated (map_option green (answer r))" "ag_validate a plan"]
    unfolding spied_ops by (simp add: no_facts_def)
  have allows: "hoare (known f) (ag_bank_allows_apply (spied a))
     (\<lambda>b. known (f\<lparr>fc_bank_allows := b\<rparr>)) (\<lambda>_. legal_log)" if "\<not> fc_attempted f" for f
    using hoare_spy[of f "\<lambda>r. Allowed (answer r)" "ag_bank_allows_apply a"] that unfolding spied_ops by simp
  have permits: "hoare (known f) (ag_permits (spied a) ticket p)
     (\<lambda>b. known (f\<lparr>fc_permitted := b\<rparr>)) (\<lambda>_. legal_log)" if "fc_green f" "fc_bank_allows f" "\<not> fc_attempted f" for f p
    using hoare_spy[of f "\<lambda>r. Permitted (answer r)" "ag_permits a ticket p"] that unfolding spied_ops by simp
  show ?thesis
    unfolding repair_ticket_def
  proof (rule hoare_bind[OF mark], simp add: no_facts_def, simp, rule hoare_bind[OF mark], simp add: no_facts_def,
      simp, rule hoare_bind[OF plan], rule hoare_bind[OF validate], rule hoare_bind[OF mark],
      simp add: no_facts_def, simp)
    fix u1 :: unit and u2 :: unit and p v and u3 :: unit
    let ?f = "no_facts\<lparr>fc_green := green v\<rparr>"
    show "run_ok (if \<not> sv_existing_bank_passed v \<or> \<not> sv_repro_green v then
       bindM (set_state (spied a) ticket REOPENED ''sandbox gate rejected'') (\<lambda>_.
       bindM (ag_reopen (spied a) ticket ''sandbox gate rejected; no patch applied'') (\<lambda>_.
       ret \<lparr>oc_phase = Sandbox_rejected, oc_ticket_id = ticket, oc_commit = None, oc_patch_doc = None\<rparr>))
     else bindM (ag_bank_allows_apply (spied a)) (\<lambda>allowed.
       if \<not> allowed then
         bindM (ag_reopen (spied a) ticket ''regression bank state is red; no patch applied'') (\<lambda>_.
         ret \<lparr>oc_phase = Bank_blocked, oc_ticket_id = ticket, oc_commit = None, oc_patch_doc = None\<rparr>)
       else bindM (ag_permits (spied a) ticket (pl_patch_path p)) (\<lambda>permitted.
         if \<not> permitted then
           bindM (set_state (spied a) ticket AWAITING_APPROVAL []) (\<lambda>_.
           ret \<lparr>oc_phase = Awaiting_approval, oc_ticket_id = ticket, oc_commit = None, oc_patch_doc = None\<rparr>)
         else apply_and_test (spied a) ticket p))) ?f"
    proof (cases "green v")
      case False
      then have rejected: "(\<not> sv_existing_bank_passed v \<or> \<not> sv_repro_green v) = True" by (simp add: green_def)
      show ?thesis unfolding rejected if_True by (rule rejected_ok) (simp add: no_facts_def)
    next
      case True
      then have passed: "(\<not> sv_existing_bank_passed v \<or> \<not> sv_repro_green v) = False" by (simp add: green_def)
      show ?thesis unfolding passed if_False
      proof (rule hoare_bind[OF allows])
        show "\<not> fc_attempted ?f" by (simp add: no_facts_def)
        fix allowed
        let ?g = "?f\<lparr>fc_bank_allows := allowed\<rparr>"
        show "run_ok (if \<not> allowed then
         bindM (ag_reopen (spied a) ticket ''regression bank state is red; no patch applied'') (\<lambda>_.
         ret \<lparr>oc_phase = Bank_blocked, oc_ticket_id = ticket, oc_commit = None, oc_patch_doc = None\<rparr>)
       else bindM (ag_permits (spied a) ticket (pl_patch_path p)) (\<lambda>permitted.
         if \<not> permitted then
           bindM (set_state (spied a) ticket AWAITING_APPROVAL []) (\<lambda>_.
           ret \<lparr>oc_phase = Awaiting_approval, oc_ticket_id = ticket, oc_commit = None, oc_patch_doc = None\<rparr>)
         else apply_and_test (spied a) ticket p)) ?g"
        proof (cases allowed)
          case False
          show ?thesis
            by (simp only: False not_False_eq_True if_True, rule rejected_ok) (simp add: no_facts_def)
        next
          case allowed: True
          show ?thesis
          proof (simp only: allowed not_True_eq_False if_False, rule hoare_bind[OF permits])
            show "fc_green (?f\<lparr>fc_bank_allows := True\<rparr>)" "fc_bank_allows (?f\<lparr>fc_bank_allows := True\<rparr>)"
              "\<not> fc_attempted (?f\<lparr>fc_bank_allows := True\<rparr>)" using True by (simp_all add: no_facts_def)
            fix permitted
            let ?h = "?f\<lparr>fc_bank_allows := True\<rparr>\<lparr>fc_permitted := permitted\<rparr>"
            show "run_ok (if \<not> permitted then
               bindM (set_state (spied a) ticket AWAITING_APPROVAL []) (\<lambda>_.
               ret \<lparr>oc_phase = Awaiting_approval, oc_ticket_id = ticket, oc_commit = None, oc_patch_doc = None\<rparr>)
             else apply_and_test (spied a) ticket p) ?h"
            proof (cases permitted)
              case False
              show ?thesis
                by (simp only: False not_False_eq_True if_True, rule rejected_ok) (simp add: no_facts_def)
            next
              case permitted: True
              show ?thesis
                by (simp only: permitted not_True_eq_False if_False, rule apply_ok) (simp_all add: no_facts_def True)
            qed
          qed
        qed
      qed
    qed
  qed
qed

text \<open>
  \<^bold>\<open>C3.\<close> A repair changes the repository only after all three gates, and cleans up after itself: for
  every planner, sandbox, approval, repository and board, in every order of failures, the patch is
  applied at most once and only after the sandbox was green, the bank allowed it and the owner
  permitted it; a commit is reverted only when its bank run failed, and it is the commit that was
  tested; the ticket is completed only after a passing run and reopened after an application only
  when the commit was reverted. The phase a run returns says which of these happened.
\<close>

theorem repair_run_disciplined:
  "case repair_ticket (spied a) ticket private_log (w, []) of
     (r, w', steps) \<Rightarrow> legal_from no_facts steps \<and>
       (case r of Inl _ \<Rightarrow> True | Inr outcome \<Rightarrow> outcome_told outcome (facts_of steps))"
proof -
  have "known no_facts (w, [])" by (simp add: known_def legal_log_def facts_of_def)
  moreover obtain r w' steps where run: "repair_ticket (spied a) ticket private_log (w, []) = (r, w', steps)"
    by (metis prod.exhaust)
  ultimately show ?thesis
    using hoareD1[OF repair_ok, of "(w, [])"] hoareD2[OF repair_ok, of "(w, [])"]
    by (cases r) (fastforce simp: legal_log_def)+
qed

section \<open>One ticket per failure\<close>

definition entry_ok :: "registry_entry \<Rightarrow> bool" where
  "entry_ok e \<longleftrightarrow> (\<exists>n \<ge> 1. int_value (snd e) = Some n)"

definition registry_is :: "registry \<Rightarrow> 'b registry_world \<Rightarrow> bool" where
  "registry_is tickets w \<longleftrightarrow> fst (registry_load w) = Inr tickets \<and> distinct (map fst tickets) \<and>
     list_all (\<lambda>(_, e). entry_ok e) tickets"

lemma load_keeps_world: "snd (registry_load w) = w"
  by (simp add: registry_load_def)

lemma registry_row_back:
  assumes "entry_ok (ticket, n)"
  shows "registry_row (JObj [(''occurrences'', n), (''ticket_id'', JStr ticket)]) = Inr (ticket, n)"
proof -
  obtain k where "int_value n = Some k" "1 \<le> k" using assms by (auto simp: entry_ok_def)
  then show ?thesis by (simp add: registry_row_def jget_or_def)
qed

lemma registry_rows_back:
  "list_all (\<lambda>(_, e). entry_ok e) tickets \<Longrightarrow>
   registry_rows (map (\<lambda>(signature, ticket, n). (signature, JObj [(''occurrences'', n), (''ticket_id'', JStr ticket)])) tickets) =
   Inr tickets"
  by (induction tickets) (auto simp: registry_row_back)

lemma saved_registry:
  assumes "distinct (map fst tickets)" and "list_all (\<lambda>(_, e). entry_ok e) tickets"
  shows "registry_is (sort_key fst tickets) (w\<lparr>rw_state := Some (Inr (registry_json tickets))\<rparr>)"
proof -
  have "list_all (\<lambda>(_, e). entry_ok e) (sort_key fst tickets)"
    using assms(2) by (simp add: list_all_iff)
  moreover have "distinct (map fst (sort_key fst tickets))"
    using assms(1) by (simp add: distinct_map)
  ultimately show ?thesis
    using registry_rows_back[of "sort_key fst tickets"]
    by (simp add: registry_is_def registry_load_def registry_json_def)
qed

lemma map_of_sort_key: "distinct (map fst xs) \<Longrightarrow> map_of (sort_key fst xs) = map_of xs"
  by (rule map_of_eqI) (auto simp: distinct_map intro!: map_of_eqI ext)

text \<open>What a claim does to the registry.\<close>

lemma save_step:
  assumes "registry_is tickets w" and "entry_ok e"
  shows "\<exists>tickets'. registry_is tickets' (w2\<lparr>rw_state := Some (Inr (registry_json (dict_set s e tickets)))\<rparr>) \<and>
     map_of tickets' = (map_of tickets)(s \<mapsto> e)"
proof -
  have t: "distinct (map fst (dict_set s e tickets))"
    using assms(1) by (simp add: registry_is_def)
  have "x \<in> set (dict_set s e tickets) \<Longrightarrow> x = (s, e) \<or> x \<in> set tickets" for x
    by (induction s e tickets rule: dict_set.induct) (auto split: if_splits)
  then have "list_all (\<lambda>(_, e). entry_ok e) (dict_set s e tickets)"
    using assms by (fastforce simp: registry_is_def list_all_iff)
  from saved_registry[OF t this] show ?thesis
    using map_of_sort_key[OF t] by fastforce
qed
lemma open_ticket_step:
  assumes "open_ticket s create superseded tickets w = (Inr c, w')" and "registry_is tickets w"
  shows "rl_created c \<and> rl_occurrence c = 1 \<and>
     (\<exists>tickets'. registry_is tickets' w' \<and> map_of tickets' = (map_of tickets)(s \<mapsto> (rl_ticket_id c, JInt 1)))"
proof -
  obtain ticket b where create: "create superseded (rw_board w) = (Inr ticket, b)"
    and w': "w' = (w\<lparr>rw_board := b\<rparr>)\<lparr>rw_state := Some (Inr (registry_json (dict_set s (ticket, JInt 1) tickets)))\<rparr>"
    and c: "c = \<lparr>rl_ticket_id = ticket, rl_occurrence = 1, rl_created = True\<rparr>"
    using assms(1)
    by (auto simp: open_ticket_def bindM_def on_board_def registry_save_def modifyM_def ret_def
        split: prod.splits sum.splits)
  have "entry_ok (ticket, JInt 1)" by (simp add: entry_ok_def int_value_def)
  from save_step[OF assms(2) this, where ?w2.0 = "w\<lparr>rw_board := b\<rparr>" and s = s] show ?thesis by (simp add: w' c)
qed

lemma ticket_claim_step:
  assumes "claim_ticket s create is_closed w = (Inr c, w')" and "registry_is tickets w"
  shows "\<exists>tickets'. registry_is tickets' w' \<and>
     map_of tickets' = (map_of tickets)(s \<mapsto> (rl_ticket_id c, JInt (rl_occurrence c))) \<and>
     (rl_created c \<longrightarrow> rl_occurrence c = 1) \<and>
     (map_of tickets s = None \<longrightarrow> rl_created c) \<and>
     (\<forall>t n. map_of tickets s = Some (t, n) \<longrightarrow>
        (\<not> rl_created c \<longrightarrow> rl_ticket_id c = t \<and> rl_occurrence c = the (int_value n) + 1) \<and>
        (rl_created c \<longrightarrow> (\<exists>ask b. is_closed = Some ask \<and> ask t (rw_board w) = (Inr (Some True), b))))"
proof -
  have load: "registry_load w = (Inr tickets, w)"
    using assms(2) load_keeps_world[of w] by (simp add: registry_is_def prod_eq_iff)
  show ?thesis
  proof (cases "map_of tickets s")
    case None
    then have "open_ticket s create None tickets w = (Inr c, w')"
      using assms(1) by (simp add: claim_ticket_def bindM_def load)
    from open_ticket_step[OF this assms(2)] None show ?thesis by auto
  next
    case (Some e)
    obtain t n where e: "e = (t, n)" by (cases e)
    have ok: "entry_ok (t, n)"
      using Some assms(2) e map_of_SomeD[of tickets s] by (fastforce simp: registry_is_def list_all_iff)
    let ?ask = "case is_closed of None \<Rightarrow> ret None | Some ask \<Rightarrow> tryM (on_board (ask t)) (\<lambda>_. ret None)"
    obtain closed b where asked: "?ask w = (Inr closed, w\<lparr>rw_board := b\<rparr>)"
      and told: "closed = Some True \<longrightarrow> (\<exists>ask. is_closed = Some ask \<and> ask t (rw_board w) = (Inr (Some True), b))"
    proof (cases is_closed)
      case None
      then show ?thesis using that[of None "rw_board w"] by (simp add: ret_def)
    next
      case (Some ask)
      obtain r b where "ask t (rw_board w) = (r, b)" by fastforce
      then show ?thesis
        using that[of "case r of Inl _ \<Rightarrow> None | Inr x \<Rightarrow> x" b] Some
        by (cases r) (simp_all add: tryM_def on_board_def ret_def)
    qed
    have here: "registry_is tickets (w\<lparr>rw_board := b\<rparr>)"
      using assms(2) by (simp add: registry_is_def registry_load_def)
    show ?thesis
    proof (cases "closed = Some True")
      case True
      then have "open_ticket s create (Some t) tickets (w\<lparr>rw_board := b\<rparr>) = (Inr c, w')"
        using assms(1) Some e asked by (simp add: claim_ticket_def bindM_def load)
      from open_ticket_step[OF this here] Some e told True show ?thesis by auto
    next
      case False
      let ?n = "the (int_value n) + 1"
      have w': "w' = (w\<lparr>rw_board := b\<rparr>)\<lparr>rw_state := Some (Inr (registry_json (dict_set s (t, JInt ?n) tickets)))\<rparr>"
        and c: "c = \<lparr>rl_ticket_id = t, rl_occurrence = ?n, rl_created = False\<rparr>"
        using assms(1) Some e asked False
        by (simp_all add: claim_ticket_def bindM_def load registry_save_def modifyM_def ret_def Let_def)
      have "entry_ok (t, JInt ?n)" using ok by (auto simp: entry_ok_def int_value_def)
      from save_step[OF assms(2) this, where ?w2.0 = "w\<lparr>rw_board := b\<rparr>" and s = s] show ?thesis
        using Some e by (auto simp: w' c)
    qed
  qed
qed

text \<open>A history of failures, as the signatures that were claimed.\<close>

definition run_claims ::
  "(string option \<Rightarrow> ('b, string) io) \<Rightarrow> string list \<Rightarrow> ('b registry_world, repair_claim list) io" where
  "run_claims create sigs = mapM (\<lambda>s. claim_ticket s create None) sigs"

definition recorded_before :: "registry \<Rightarrow> string \<Rightarrow> int" where
  "recorded_before tickets s = (case map_of tickets s of None \<Rightarrow> 0 | Some (_, n) \<Rightarrow> the (int_value n))"

lemma run_claims_history:
  "run_claims create sigs w = (Inr cs, w') \<Longrightarrow> registry_is tickets w \<Longrightarrow>
   length cs = length sigs \<and> (\<forall>i < length sigs.
     rl_occurrence (cs ! i) = recorded_before tickets (sigs ! i) + int (count_list (take (Suc i) sigs) (sigs ! i)) \<and>
     rl_created (cs ! i) = (map_of tickets (sigs ! i) = None \<and> sigs ! i \<notin> set (take i sigs)) \<and>
     (\<forall>t n. map_of tickets (sigs ! i) = Some (t, n) \<longrightarrow> rl_ticket_id (cs ! i) = t) \<and>
     (\<forall>j < i. sigs ! j = sigs ! i \<longrightarrow> rl_ticket_id (cs ! j) = rl_ticket_id (cs ! i)))"
proof (induction sigs arbitrary: w cs tickets)
  case Nil
  then show ?case by (simp add: run_claims_def ret_def)
next
  case (Cons s sigs)
  obtain c w1 where c: "claim_ticket s create None w = (Inr c, w1)"
    and rest: "bindM (run_claims create sigs) (\<lambda>ys. ret (c # ys)) w1 = (Inr cs, w')"
    using Cons.prems(1) unfolding run_claims_def mapM.simps by (rule bindM_InrE)
  obtain cs1 where cs: "cs = c # cs1" "run_claims create sigs w1 = (Inr cs1, w')"
  proof -
    obtain ys w2 where "run_claims create sigs w1 = (Inr ys, w2)" "ret (c # ys) w2 = (Inr cs, w')"
      using rest by (rule bindM_InrE)
    then show ?thesis using that[of ys] by (simp add: ret_def)
  qed
  obtain tickets1 where t1: "registry_is tickets1 w1"
    "map_of tickets1 = (map_of tickets)(s \<mapsto> (rl_ticket_id c, JInt (rl_occurrence c)))"
    "rl_created c \<longrightarrow> rl_occurrence c = 1" "map_of tickets s = None \<longrightarrow> rl_created c"
    "\<forall>t n. map_of tickets s = Some (t, n) \<longrightarrow> \<not> rl_created c \<and> rl_ticket_id c = t \<and>
       rl_occurrence c = the (int_value n) + 1"
    using ticket_claim_step[OF c Cons.prems(2)] by fastforce
  note ih = Cons.IH[OF cs(2) t1(1)]
  have first: "rl_occurrence c = recorded_before tickets s + 1" "rl_created c = (map_of tickets s = None)"
    using t1(3-5) by (cases "map_of tickets s"; force simp: recorded_before_def)+
  have later: "recorded_before tickets1 x = recorded_before tickets x + (if x = s then 1 else 0)" for x
    using t1(2) first(1) by (auto simp: recorded_before_def int_value_def)
  show ?case
  proof (intro conjI allI impI)
    show "length cs = length (s # sigs)" using cs ih by simp
  next
    fix i assume "i < length (s # sigs)"
    show "rl_occurrence (cs ! i) =
        recorded_before tickets ((s # sigs) ! i) + int (count_list (take (Suc i) (s # sigs)) ((s # sigs) ! i))"
      using \<open>i < length (s # sigs)\<close> ih first later cs by (cases i) auto
  next
    fix i assume "i < length (s # sigs)"
    show "rl_created (cs ! i) = (map_of tickets ((s # sigs) ! i) = None \<and> (s # sigs) ! i \<notin> set (take i (s # sigs)))"
      using \<open>i < length (s # sigs)\<close> ih first t1(2) cs by (cases i) auto
  next
    fix i t n assume i: "i < length (s # sigs)" and known: "map_of tickets ((s # sigs) ! i) = Some (t, n)"
    have same: "rl_ticket_id c = t" if "map_of tickets s = Some (t, n)" using t1(5) that by blast
    show "rl_ticket_id (cs ! i) = t"
    proof (cases i)
      case 0
      then show ?thesis using known same cs(1) by simp
    next
      case (Suc k)
      then have k: "k < length sigs" "map_of tickets (sigs ! k) = Some (t, n)" using i known by simp_all
      then have "\<exists>n'. map_of tickets1 (sigs ! k) = Some (t, n')"
        using t1(2) same by (cases "sigs ! k = s") auto
      then have "rl_ticket_id (cs1 ! k) = t" using ih k(1) by blast
      then show ?thesis using Suc cs(1) by simp
    qed
  next
    fix i j assume i: "i < length (s # sigs)" and j: "j < i" and same: "(s # sigs) ! j = (s # sigs) ! i"
    then obtain k where k: "i = Suc k" "k < length sigs" by (cases i) auto
    show "rl_ticket_id (cs ! j) = rl_ticket_id (cs ! i)"
    proof (cases j)
      case 0
      then have "map_of tickets1 (sigs ! k) = Some (rl_ticket_id c, JInt (rl_occurrence c))"
        using same k t1(2) by simp
      then show ?thesis using ih k 0 cs by simp
    next
      case (Suc l)
      then show ?thesis using ih k j same cs by simp
    qed
  qed
qed

lemma claim_total:
  assumes "\<And>x b. \<exists>t b'. create x b = (Inr t, b')" and "registry_is tickets w"
  shows "\<exists>c w'. claim_ticket s create None w = (Inr c, w')"
proof -
  have load: "registry_load w = (Inr tickets, w)"
    using assms(2) load_keeps_world[of w] by (simp add: registry_is_def prod_eq_iff)
  obtain t b where "create None (rw_board w) = (Inr t, b)" using assms(1) by blast
  then show ?thesis
    by (cases "map_of tickets s")
      (auto simp: claim_ticket_def bindM_def load open_ticket_def on_board_def registry_save_def modifyM_def
        ret_def Let_def)
qed

lemma run_claims_total:
  assumes "\<And>x b. \<exists>t b'. create x b = (Inr t, b')" and "registry_is tickets w"
  shows "\<exists>cs w'. run_claims create sigs w = (Inr cs, w')"
  using assms(2)
proof (induction sigs arbitrary: w tickets)
  case (Cons s sigs)
  obtain c w1 where c: "claim_ticket s create None w = (Inr c, w1)" 
    using claim_total[where create = create and tickets = tickets and w = w and s = s] assms(1) Cons.prems by blast
  then obtain tickets1 where "registry_is tickets1 w1" using ticket_claim_step[OF c Cons.prems] by blast
  then obtain cs w' where "run_claims create sigs w1 = (Inr cs, w')" using Cons.IH by blast
  then show ?case using c by (simp add: run_claims_def bindM_def ret_def)
qed (simp add: run_claims_def ret_def)

text \<open>
  One failure, one card: over any history of recorded failures of an installation, whose board
  never reports a card closed, the first occurrence of a signature opens a card and every later one
  counts up on the same card, whatever other failures lie in between.
\<close>

theorem one_card_per_failure:
  assumes "run_claims create sigs \<lparr>rw_state = None, rw_board = board\<rparr> = (Inr cs, w')"
  shows "length cs = length sigs \<and> (\<forall>i < length sigs.
     rl_occurrence (cs ! i) = int (count_list (take (Suc i) sigs) (sigs ! i)) \<and>
     rl_created (cs ! i) = (sigs ! i \<notin> set (take i sigs)) \<and>
     (\<forall>j < i. sigs ! j = sigs ! i \<longrightarrow> rl_ticket_id (cs ! j) = rl_ticket_id (cs ! i)))"
proof -
  have "registry_is [] \<lparr>rw_state = None, rw_board = board\<rparr>"
    by (simp add: registry_is_def registry_load_def)
  from run_claims_history[OF assms this] show ?thesis by (simp add: recorded_before_def)
qed

section \<open>The durable state follows the transitions\<close>

lemma take_take_same: "take n (take n s) = take n s"
  by simp

lemma lifecycle_state_value: "lifecycle_state_of (state_value s) = Some s"
  by (cases s) (simp_all add: lifecycle_state_of_def)

lemma lifecycle_read_back:
  "dir (lr_ticket_id r) = Some (Inr (lifecycle_json r)) \<Longrightarrow> lifecycle_read (lr_ticket_id r) dir = Inr r"
  by (simp add: lifecycle_read_def lifecycle_json_def required_def lifecycle_state_value)

type_synonym lifecycle_step = "string \<times> string \<times> lifecycle_state \<times> string"

fun run_transitions ::
  "(string \<Rightarrow> string) \<Rightarrow> lifecycle_step list \<Rightarrow> lifecycle_dir \<Rightarrow> py_exn + lifecycle_dir" where
  "run_transitions redact [] dir = Inr dir"
| "run_transitions redact ((stamp, ticket, state, reason) # ts) dir =
     (case lifecycle_transition redact stamp ticket state reason dir of
        (Inl e, _) \<Rightarrow> Inl e
      | (Inr _, dir') \<Rightarrow> run_transitions redact ts dir')"

text \<open>The record a history of transitions stands for.\<close>

fun record_after ::
  "(string \<Rightarrow> string) \<Rightarrow> string \<Rightarrow> lifecycle_record option \<Rightarrow> lifecycle_step list \<Rightarrow> lifecycle_record option" where
  "record_after redact t r [] = r"
| "record_after redact t r ((stamp, ticket, state, reason) # ts) =
     record_after redact t
       (if ticket = t then Some \<lparr>lr_ticket_id = t, lr_state = state, lr_reason = take 240 (redact reason),
          lr_updated_at = stamp, lr_sandbox_checks = (if state = SANDBOXED then take 960 (redact reason)
            else case r of None \<Rightarrow> [] | Some r' \<Rightarrow> lr_sandbox_checks r')\<rparr>
        else r) ts"

definition dir_shows :: "lifecycle_dir \<Rightarrow> (string \<Rightarrow> lifecycle_record option) \<Rightarrow> bool" where
  "dir_shows dir view \<longleftrightarrow> (\<forall>t. case view t of None \<Rightarrow> dir t = None
     | Some r \<Rightarrow> lr_ticket_id r = t \<and> dir t = Some (Inr (lifecycle_json r)))"

lemma dir_shows_update:
  assumes "dir_shows dir view" and "lr_ticket_id r = ticket"
  shows "dir_shows (dir(ticket \<mapsto> Inr (lifecycle_json r))) (view(ticket := Some r))"
  unfolding dir_shows_def
proof
  fix t
  show "case (view(ticket := Some r)) t of None \<Rightarrow> (dir(ticket \<mapsto> Inr (lifecycle_json r))) t = None
     | Some r' \<Rightarrow> lr_ticket_id r' = t \<and> (dir(ticket \<mapsto> Inr (lifecycle_json r))) t = Some (Inr (lifecycle_json r'))"
  proof (cases "t = ticket")
    case False
    then show ?thesis
      using assms(1)[unfolded dir_shows_def, rule_format, of t] by (cases "view t") simp_all
  qed (use assms(2) in simp)
qed

lemma transition_shows:
  assumes "dir_shows dir view"
  shows "\<exists>r dir'. lifecycle_transition redact stamp ticket state reason dir = (Inr r, dir') \<and>
     dir_shows dir' (view(ticket := record_after redact ticket (view ticket) [(stamp, ticket, state, reason)]))"
proof -
  define existing where "existing = (case view ticket of None \<Rightarrow> [] | Some r \<Rightarrow> lr_sandbox_checks r)"
  define r where "r = \<lparr>lr_ticket_id = ticket, lr_state = state, lr_reason = take 240 (redact reason),
     lr_updated_at = stamp,
     lr_sandbox_checks = (if state = SANDBOXED then take 960 (redact reason) else existing)\<rparr>"
  have "(if dir ticket = None then Inr []
      else sum_bind (lifecycle_read ticket dir) (\<lambda>r. Inr (lr_sandbox_checks r))) = Inr existing"
  proof (cases "view ticket")
    case None
    then have "dir ticket = None" using assms by (auto simp: dir_shows_def dest: spec[of _ ticket])
    then show ?thesis by (simp add: existing_def None)
  next
    case (Some q)
    then have "lr_ticket_id q = ticket" "dir ticket = Some (Inr (lifecycle_json q))"
      using assms by (auto simp: dir_shows_def dest: spec[of _ ticket])
    then show ?thesis using lifecycle_read_back[of dir q] by (simp add: existing_def Some)
  qed
  then have "lifecycle_transition redact stamp ticket state reason dir = (Inr r, dir(ticket \<mapsto> Inr (lifecycle_json r)))"
    by (simp add: lifecycle_transition_def r_def MAX_SANDBOX_CHECKS_def Let_def)
  moreover have "record_after redact ticket (view ticket) [(stamp, ticket, state, reason)] = Some r"
    by (simp add: r_def existing_def)
  ultimately show ?thesis using dir_shows_update[OF assms, of r ticket] by (simp add: r_def)
qed

lemma run_transitions_shows:
  "dir_shows dir view \<Longrightarrow> \<exists>dir'. run_transitions redact ts dir = Inr dir' \<and>
     dir_shows dir' (\<lambda>t. record_after redact t (view t) ts)"
proof (induction ts arbitrary: dir view)
  case (Cons a ts)
  obtain stamp ticket state reason where a: "a = (stamp, ticket, state, reason)" by (cases a) auto
  obtain r dir1 where step: "lifecycle_transition redact stamp ticket state reason dir = (Inr r, dir1)"
    and shows1: "dir_shows dir1 (view(ticket := record_after redact ticket (view ticket) [(stamp, ticket, state, reason)]))"
    using transition_shows[OF Cons.prems] by blast
  have "(\<lambda>t. record_after redact t ((view(ticket := record_after redact ticket (view ticket) [(stamp, ticket, state, reason)])) t) ts) =
     (\<lambda>t. record_after redact t (view t) (a # ts))"
    by (rule ext) (simp add: a)
  then show ?case using Cons.IH[OF shows1] step by (simp add: a)
qed auto

text \<open>
  \<^bold>\<open>C39.\<close> The durable record is the history: no sequence of transitions over any tickets fails on files
  the store wrote itself, and afterwards reading a ticket gives its last state and reason, masked and
  cut, with the checks of its last sandbox run, which no later transition loses.
\<close>

theorem lifecycle_follows_history:
  "\<exists>dir. run_transitions redact ts (\<lambda>_. None) = Inr dir \<and>
     lifecycle_read t dir = (case record_after redact t None ts of None \<Rightarrow> Inl OSError | Some r \<Rightarrow> Inr r)"
proof -
  have "dir_shows (\<lambda>_. None) (\<lambda>_. None)" by (simp add: dir_shows_def)
  from run_transitions_shows[OF this, of redact ts] obtain dir where
    dir: "run_transitions redact ts (\<lambda>_. None) = Inr dir" "dir_shows dir (\<lambda>t. record_after redact t None ts)"
    by blast
  have "lifecycle_read t dir = (case record_after redact t None ts of None \<Rightarrow> Inl OSError | Some r \<Rightarrow> Inr r)"
  proof (cases "record_after redact t None ts")
    case None
    then have "dir t = None" using dir(2) by (auto simp: dir_shows_def dest!: spec[of _ t])
    then show ?thesis by (simp add: lifecycle_read_def None)
  next
    case (Some r)
    then have "lr_ticket_id r = t" "dir t = Some (Inr (lifecycle_json r))"
      using dir(2) by (auto simp: dir_shows_def dest!: spec[of _ t])
    then show ?thesis using lifecycle_read_back[of dir r] by (simp add: Some)
  qed
  then show ?thesis using dir(1) by blast
qed

section \<open>What reaches the repository\<close>

text \<open>The calls git got, in front of the state of git.\<close>

definition watched :: "'w git_repository \<Rightarrow> (codepoints list \<times> nat list option) list \<times> 'w \<Rightarrow> codepoints list \<Rightarrow>
   nat list option \<Rightarrow> (py_exn + int \<times> codepoints) \<times> (codepoints list \<times> nat list option) list \<times> 'w" where
  "watched g s args input = (case gp_git g args input (snd s) of (r, w) \<Rightarrow> (r, fst s @ [(args, input)], w))"

definition watched_repository ::
  "'w git_repository \<Rightarrow> ((codepoints list \<times> nat list option) list \<times> 'w) git_repository" where
  "watched_repository g = \<lparr>gp_env = gp_env g, gp_lower = gp_lower g,
     gp_read_bytes = (\<lambda>p s. gp_read_bytes g p (snd s)), gp_git = (\<lambda>args input s. watched g s args input),
     gp_expected_sha256 = gp_expected_sha256 g\<rparr>"

definition approved_content :: "'w git_repository \<Rightarrow> nat list \<Rightarrow> bool" where
  "approved_content g content \<longleftrightarrow>
     (gp_expected_sha256 g = None \<or> gp_expected_sha256 g = Some (pv_sha256 (gp_env g) content)) \<and>
     (\<exists>changes. parse_patch_changes (pv_int8 (gp_env g)) content = Inr changes \<and>
        (\<forall>d \<in> set changes. \<forall>p. pf_old_path d = Some p \<or> pf_new_path d = Some p \<longrightarrow>
           allowed_path p \<and> \<not> forbidden_path (gp_lower g) p))"

lemma set_first_of_each: "set (first_of_each seen xs) = set xs - set seen"
  by (induction xs arbitrary: seen) auto

lemma assert_scope_ok:
  assumes "assert_scope g content = Inr paths"
  shows "\<exists>changes. parse_patch_changes (pv_int8 (gp_env g)) content = Inr changes \<and>
     (\<forall>d \<in> set changes. \<forall>p. pf_old_path d = Some p \<or> pf_new_path d = Some p \<longrightarrow>
        allowed_path p \<and> \<not> forbidden_path (gp_lower g) p)"
proof (cases "parse_patch_changes (pv_int8 (gp_env g)) content")
  case (Inr changes)
  then have paths: "\<forall>p \<in> set (changed_paths changes). allowed_path p \<and> \<not> forbidden_path (gp_lower g) p"
    using assms by (auto simp: assert_scope_def Let_def list_ex_iff split: if_splits)
  have "p \<in> set (changed_paths changes)" if "d \<in> set changes" "pf_old_path d = Some p \<or> pf_new_path d = Some p" for d p
    using that by (auto simp: changed_paths_def set_first_of_each intro!: bexI[of _ d])
  then show ?thesis using Inr paths by blast
qed (use assms in \<open>simp add: assert_scope_def\<close>)

lemma run_git_call:
  assumes "run_git (watched_repository g) args input s = (r, s')"
  shows "fst s' = fst s @ [(cp ''git'' # args, input)]"
  using assms
  by (auto simp: run_git_def bindM_def watched_repository_def watched_def raise_def ret_def
      split: prod.splits sum.splits if_splits)

definition no_input :: "(codepoints list \<times> nat list option) list \<Rightarrow> bool" where
  "no_input calls \<longleftrightarrow> (\<forall>c \<in> set calls. snd c = None)"

lemma git_step:
  assumes "\<And>out. hoare (\<lambda>s. \<exists>calls. fst s = before @ calls \<and> no_input calls) (f out)
     (\<lambda>_ s. \<exists>calls. fst s = before @ calls \<and> no_input calls) (\<lambda>_ s. \<exists>calls. fst s = before @ calls \<and> no_input calls)"
  shows "hoare (\<lambda>s. \<exists>calls. fst s = before @ calls \<and> no_input calls)
     (bindM (run_git (watched_repository g) args None) f)
     (\<lambda>_ s. \<exists>calls. fst s = before @ calls \<and> no_input calls) (\<lambda>_ s. \<exists>calls. fst s = before @ calls \<and> no_input calls)"
proof (rule hoare_bind[OF _ assms])
  have "\<exists>calls. fst s' = before @ calls \<and> no_input calls"
    if listed: "\<exists>calls. fst s = before @ calls \<and> no_input calls"
      and run: "run_git (watched_repository g) args None s = (r, s')" for s s' r
  proof -
    obtain calls where calls: "fst s = before @ calls \<and> no_input calls" using listed by (elim exE)
    have "fst s' = before @ calls @ [(cp ''git'' # args, None)]" "no_input (calls @ [(cp ''git'' # args, None)])"
      using calls run_git_call[OF run] by (auto simp: no_input_def)
    then show ?thesis by blast
  qed
  then show "hoare (\<lambda>s. \<exists>calls. fst s = before @ calls \<and> no_input calls) (run_git (watched_repository g) args None)
     (\<lambda>_ s. \<exists>calls. fst s = before @ calls \<and> no_input calls) (\<lambda>_ s. \<exists>calls. fst s = before @ calls \<and> no_input calls)"
    by (intro hoareI) blast+
qed

lemma hoare_same: "hoare P (ret a) (\<lambda>_. P) (\<lambda>_. P)"
  by (simp add: hoare_def ret_def)

lemma watched_selectors:
  "gp_read_bytes (watched_repository g) p s = gp_read_bytes g p (snd s)"
  "gp_expected_sha256 (watched_repository g) = gp_expected_sha256 g"
  "gp_env (watched_repository g) = gp_env g"
  by (simp_all add: watched_repository_def)


text \<open>
  The owner's reaction counts for the bytes that are there now: an approval permits a run
  exactly when the reaction is the owner's own, on the request's channel, and its text binds the
  hash of the patch as it is read at that moment; a hash of other bytes raises instead of waiting.
\<close>

theorem manual_approval_exact:
  "fst (manual_permits env owner_id reaction channel ticket name read_bytes w) = Inr True \<longleftrightarrow>
     (\<exists>r content changes. reaction = Some r \<and> \<not> rx_bot r \<and> rx_user_id r = owner_id \<and> rx_channel_id r = channel \<and>
        read_bytes w = Some content \<and> parse_patch_changes (pv_int8 env) content = Inr changes \<and>
        rx_text r = manual_approval_text ticket
          (content_action_hash env (cp ticket) (cp name) (pv_sha256 env content) changes))"
proof (cases reaction)
  case None
  then show ?thesis by (simp add: manual_permits_def ret_def)
next
  case (Some r)
  show ?thesis
  proof (cases "rx_bot r \<or> rx_user_id r \<noteq> owner_id \<or> rx_channel_id r \<noteq> channel")
    case True
    then show ?thesis by (auto simp: manual_permits_def Some ret_def)
  next
    case False
    show ?thesis
    proof (cases "read_bytes w")
      case None
      then show ?thesis using False
        by (simp add: manual_permits_def Some bindM_def patch_action_hash_def load_patch_artifact_def)
    next
      case content: (Some content)
      show ?thesis
        using False content
        by (cases "parse_patch_changes (pv_int8 env) content")
          (simp_all add: manual_permits_def Some bindM_def patch_action_hash_def load_patch_artifact_def
            raise_def ret_def)
    qed
  qed
qed

section \<open>Witnesses\<close>

lemma one_card_per_failure_witness:
  "\<exists>cs w'. run_claims (\<lambda>_ n. (Inr (''t_'' @ str_nat n), Suc n)) [''a'', ''b'', ''a''] \<lparr>rw_state = None, rw_board = 0\<rparr> = (Inr cs, w') \<and>
     length cs = 3 \<and> rl_occurrence (cs ! 2) = 2 \<and> rl_ticket_id (cs ! 0) = rl_ticket_id (cs ! 2)"
proof -
  have "registry_is [] \<lparr>rw_state = None, rw_board = (0::nat)\<rparr>"
    by (simp add: registry_is_def registry_load_def)
  from run_claims_total[OF _ this, of "\<lambda>_ n. (Inr (''t_'' @ str_nat n), Suc n)" "[''a'', ''b'', ''a'']"]
  obtain cs w' where run: "run_claims (\<lambda>_ n. (Inr (''t_'' @ str_nat n), Suc n)) [''a'', ''b'', ''a'']
     \<lparr>rw_state = None, rw_board = 0\<rparr> = (Inr cs, w')" by auto
  from one_card_per_failure[OF run] have
    "length cs = 3" "rl_occurrence (cs ! 2) = 2" "rl_ticket_id (cs ! 0) = rl_ticket_id (cs ! 2)"
    by (auto simp: eval_nat_numeral All_less_Suc)
  then show ?thesis using run by blast
qed

definition sample_repository :: "unit git_repository" where
  "sample_repository = \<lparr>gp_env = \<lparr>pv_int8 = sample_int8, pv_sha256 = (\<lambda>_. ''d''), pv_hash_json = (\<lambda>_. ''h'')\<rparr>,
     gp_lower = (\<lambda>s. s), gp_read_bytes = (\<lambda>_ _. Some (patch_of (file_lines sample_change))),
     gp_git = (\<lambda>_ _. ret (0, [])), gp_expected_sha256 = Some ''d''\<rparr>"


end
