(* ===== verification/Repair_Queue.thy ===== *)
theory Repair_Queue
  imports Repair_Loop Update_Trust
begin

text \<open>
  Model of the reports of repairs: \<open>automation/repair/repair_capability.py\<close> (the capability of a
  ticket, which the agent publishes and the reports carry), \<open>repair_report_queue.py\<close> (the queue file,
  its admission, deduplication and compaction) and \<open>repair_report_reconcile.py\<close> (the recovery of
  missing reports from the durable lifecycle). JSON, ISO dates, digests, the HMAC and random ids are
  parameters; the files are fields of the world.
\<close>

section \<open>Capabilities (repair_capability.py)\<close>

abbreviation InvalidOccurrenceError :: py_exn where
  "InvalidOccurrenceError \<equiv> TaggedError ''InvalidOccurrenceError'' []"

text \<open>\<open>str(int(occurrence))\<close> of a number, refused when negative or longer than nine digits.\<close>

definition canonical_occurrence :: "int \<Rightarrow> py_exn + string" where
  "canonical_occurrence n = (if n < 0 \<or> length (str_int n) > 9 then Inl InvalidOccurrenceError else Inr (str_int n))"

record capability =
  cy_ticket_id :: string
  cy_occurrence :: string
  cy_mac :: string
  cy_issued_at :: string

text \<open>
  The directory of published records, whether it and the lock can be used, and the exception reading
  or creating the key raises, if it does.
\<close>

record capability_world =
  cw_dir :: bool
  cw_usable :: bool
  cw_key_error :: "py_exn option"
  cw_files :: "string \<Rightarrow> (py_exn + json) option"

record capability_env =
  ce_hmac :: "string \<Rightarrow> string"
  ce_issued_at :: string
  ce_int :: "string \<Rightarrow> int option"

definition capability_json :: "capability \<Rightarrow> json" where
  "capability_json c = JObj [(''issued_at'', JStr (cy_issued_at c)), (''mac'', JStr (cy_mac c)),
     (''occurrence'', JStr (cy_occurrence c)), (''ticket_id'', JStr (cy_ticket_id c))]"

definition capability_mac :: "capability_env \<Rightarrow> string \<Rightarrow> string \<Rightarrow> string" where
  "capability_mac e ticket occurrence = ce_hmac e (ticket @ ''|'' @ occurrence)"

text \<open>
  The occurrence of the record that is replaced: \<open>int(current_payload["occurrence"])\<close> raises on every
  other shape. A document \<open>null\<close> counts as no record.
\<close>

definition published_occurrence :: "capability_env \<Rightarrow> (py_exn + json) option \<Rightarrow> py_exn + int option" where
  "published_occurrence e f =
     (case f of
        None \<Rightarrow> Inr None
      | Some (Inl x) \<Rightarrow> Inl x
      | Some (Inr JNull) \<Rightarrow> Inr None
      | Some (Inr (JObj d)) \<Rightarrow>
          (case jget d ''occurrence'' of
             None \<Rightarrow> Inl KeyError
           | Some v \<Rightarrow>
               (case v of
                  JInt n \<Rightarrow> Inr (Some n)
                | JBool b \<Rightarrow> Inr (Some (of_bool b))
                | JFloat q \<Rightarrow> Inr (Some (if 0 \<le> q then \<lfloor>q\<rfloor> else \<lceil>q\<rceil>))
                | JStr s \<Rightarrow> (case ce_int e s of None \<Rightarrow> Inl ValueError | Some n \<Rightarrow> Inr (Some n))
                | _ \<Rightarrow> Inl TypeError))
      | Some (Inr _) \<Rightarrow> Inl TypeError)"

definition publish_locked ::
  "capability_env \<Rightarrow> string \<Rightarrow> string \<Rightarrow> int \<Rightarrow> (capability_world, unit) io" where
  "publish_locked e ticket occurrence n = (\<lambda>w.
     case published_occurrence e (cw_files w ticket) of
       Inl x \<Rightarrow> (Inl x, w)
     | Inr current \<Rightarrow>
         if (case current of None \<Rightarrow> False | Some k \<Rightarrow> n \<le> k) then (Inr (), w)
         else (Inr (), w\<lparr>cw_files := (cw_files w)(ticket \<mapsto> Inr (capability_json
           \<lparr>cy_ticket_id = ticket, cy_occurrence = occurrence, cy_mac = capability_mac e ticket occurrence,
             cy_issued_at = ce_issued_at e\<rparr>))\<rparr>))"

text \<open>Only \<open>OSError\<close> is caught; the lock cannot be used when \<open>cw_usable\<close> is false.\<close>

definition publish_capability :: "capability_env \<Rightarrow> string \<Rightarrow> int \<Rightarrow> (capability_world, unit) io" where
  "publish_capability e ticket n = (\<lambda>w.
     if \<not> cw_dir w \<or> \<not> cw_usable w then (Inr (), w)
     else case canonical_occurrence n of
       Inl x \<Rightarrow> (Inl x, w)
     | Inr occurrence \<Rightarrow>
         (case (case cw_key_error w of Some x \<Rightarrow> (Inl x, w) | None \<Rightarrow> publish_locked e ticket occurrence n w) of
            (Inl x, w') \<Rightarrow> if is_os_error x then (Inr (), w') else (Inl x, w')
          | r \<Rightarrow> r))"

text \<open>\<open>_OCCURRENCE\<close> and the canonical form: decimal digits without a leading zero.\<close>

definition occurrence_text :: "string \<Rightarrow> bool" where
  "occurrence_text s \<longleftrightarrow> s \<noteq> [] \<and> length s \<le> 9 \<and> list_all dec_char s"

definition canonical_text :: "string \<Rightarrow> bool" where
  "canonical_text s \<longleftrightarrow> s = ''0'' \<or> hd s \<noteq> CHR ''0''"

definition read_published ::
  "string \<Rightarrow> (string \<Rightarrow> (py_exn + json) option) \<Rightarrow> py_exn + capability option" where
  "read_published ticket files =
     (case files ticket of
        None \<Rightarrow> Inr None
      | Some (Inl x) \<Rightarrow> if is_os_error x \<or> x = JSONDecodeError then Inr None else Inl x
      | Some (Inr (JObj d)) \<Rightarrow>
          if set (map fst d) \<noteq> {''ticket_id'', ''occurrence'', ''mac'', ''issued_at''} then Inr None
          else (case (jget d ''ticket_id'', jget d ''occurrence'', jget d ''mac'', jget d ''issued_at'') of
             (Some (JStr t), Some (JStr n), Some (JStr m), Some (JStr i)) \<Rightarrow>
               if \<not> occurrence_text n \<or> \<not> canonical_text n then Inr None
               else Inr (Some \<lparr>cy_ticket_id = t, cy_occurrence = n, cy_mac = m, cy_issued_at = i\<rparr>)
           | _ \<Rightarrow> Inr None)
      | Some (Inr _) \<Rightarrow> Inr None)"

text \<open>The tickets of the registry snapshot that are missing or stale, at most \<open>limit\<close> of them.\<close>

fun publish_missing ::
  "capability_env \<Rightarrow> int \<Rightarrow> int \<Rightarrow> (string \<times> int) list \<Rightarrow> (capability_world, int) io" where
  "publish_missing e limit published [] = ret published"
| "publish_missing e limit published ((ticket, n) # entries) =
     bindM (\<lambda>w. (read_published ticket (cw_files w), w)) (\<lambda>current.
     if (case current of None \<Rightarrow> False | Some c \<Rightarrow> n \<le> dec_value (cy_occurrence c))
     then publish_missing e limit published entries
     else bindM (publish_capability e ticket n) (\<lambda>_.
       if published + 1 \<ge> limit then ret (published + 1)
       else publish_missing e limit (published + 1) entries))"

definition registry_snapshot :: "(py_exn + json) option \<Rightarrow> (string \<times> int) list option" where
  "registry_snapshot f =
     (case f of
        Some (Inr (JObj d)) \<Rightarrow>
          (case registry_rows d of
             Inl _ \<Rightarrow> None
           | Inr rows \<Rightarrow> Some (map (\<lambda>(_, ticket, n). (ticket, the (int_value n))) rows))
      | _ \<Rightarrow> None)"

definition reconcile_capabilities ::
  "capability_env \<Rightarrow> (py_exn + json) option \<Rightarrow> int \<Rightarrow> (capability_world, int) io" where
  "reconcile_capabilities e registry limit =
     (case registry_snapshot registry of
        None \<Rightarrow> ret 0
      | Some entries \<Rightarrow> (\<lambda>w. if limit \<le> 0 \<or> \<not> cw_dir w then (Inr 0, w) else publish_missing e limit 0 entries w))"

definition verify_capability :: "capability_env \<Rightarrow> string \<Rightarrow> int \<Rightarrow> string \<Rightarrow> py_exn + bool" where
  "verify_capability e ticket n mac_value =
     sum_bind (canonical_occurrence n) (\<lambda>occurrence. Inr (capability_mac e ticket occurrence = mac_value))"

section \<open>The queue (repair_report_queue.py)\<close>

record report_request =
  rq_request_id :: string
  rq_operation :: string
  rq_ticket :: string
  rq_reason_code :: string
  rq_occurrence :: string
  rq_mac :: string
  rq_created :: string

text \<open>What \<open>datetime.fromisoformat\<close> makes of a text; an aware moment may lie outside UTC's range.\<close>

datatype iso_date = Bad_date | Naive_date | Aware_date "int option"

record queue_env =
  qe_loads :: "string \<Rightarrow> py_exn + json"
  qe_dumps :: "json \<Rightarrow> string"
  qe_date :: "string \<Rightarrow> iso_date"
  qe_digest :: "string \<Rightarrow> string"

definition REASON_CODES :: "string list" where
  "REASON_CODES = [''applied'', ''sandbox_rejected'', ''bank_red'', ''bank_failed_reverted'',
     ''owner_cancelled'', ''approval_expired'', ''unspecified'']"

definition MAX_LINE_BYTES :: nat where
  "MAX_LINE_BYTES = 512"

definition RECORD_KEYS :: "string list" where
  "RECORD_KEYS = [''request_id'', ''operation'', ''ticket_id'', ''reason_code'', ''occurrence'', ''mac'', ''created'']"

definition ticket_text :: "string \<Rightarrow> bool" where
  "ticket_text s \<longleftrightarrow> starts_with ''t_'' s \<and> 3 \<le> length s \<and> length s \<le> 66 \<and> list_all tag_char (drop 2 s)"

definition hex_text :: "nat \<Rightarrow> string \<Rightarrow> bool" where
  "hex_text n s \<longleftrightarrow> length s = n \<and> list_all hex_char s"

text \<open>The checks after the record is built, in the order of the code.\<close>

definition request_ok :: "queue_env \<Rightarrow> report_request \<Rightarrow> bool" where
  "request_ok e r \<longleftrightarrow> hex_text 32 (rq_request_id r) \<and> ticket_text (rq_ticket r) \<and>
     rq_operation r \<in> {''complete'', ''reopen''} \<and> rq_reason_code r \<in> set REASON_CODES \<and>
     (rq_operation r = ''complete'') = (rq_reason_code r = ''applied'') \<and>
     occurrence_text (rq_occurrence r) \<and> hex_text 64 (rq_mac r) \<and>
     (case qe_date e (rq_created r) of Aware_date _ \<Rightarrow> True | _ \<Rightarrow> False)"

definition request_of_fields :: "jobj \<Rightarrow> report_request option" where
  "request_of_fields d =
     (case map (jget d) RECORD_KEYS of
        [Some (JStr i), Some (JStr op'), Some (JStr t), Some (JStr c), Some (JStr n), Some (JStr m), Some (JStr cr)] \<Rightarrow>
          Some \<lparr>rq_request_id = i, rq_operation = op', rq_ticket = t, rq_reason_code = c,
            rq_occurrence = n, rq_mac = m, rq_created = cr\<rparr>
      | _ \<Rightarrow> None)"

definition parse_line :: "queue_env \<Rightarrow> string \<Rightarrow> report_request option" where
  "parse_line e raw =
     (if length raw > MAX_LINE_BYTES then None
      else case qe_loads e raw of
        Inr (JObj d) \<Rightarrow>
          if set (map fst d) \<noteq> set RECORD_KEYS then None
          else (case request_of_fields d of
             None \<Rightarrow> None
           | Some r \<Rightarrow> if request_ok e r then Some r else None)
      | _ \<Rightarrow> None)"

definition request_json :: "report_request \<Rightarrow> json" where
  "request_json r = JObj [(''created'', JStr (rq_created r)), (''mac'', JStr (rq_mac r)),
     (''occurrence'', JStr (rq_occurrence r)), (''operation'', JStr (rq_operation r)),
     (''reason_code'', JStr (rq_reason_code r)), (''request_id'', JStr (rq_request_id r)),
     (''ticket_id'', JStr (rq_ticket r))]"

definition serialize_request :: "queue_env \<Rightarrow> report_request \<Rightarrow> string option" where
  "serialize_request e r = (let encoded = qe_dumps e (request_json r) in
     if parse_line e encoded = Some r then Some encoded else None)"

definition semantic_text :: "report_request \<Rightarrow> string" where
  "semantic_text r = rq_ticket r @ ''|'' @ rq_occurrence r @ ''|'' @ rq_operation r @ ''|'' @ rq_reason_code r"

definition semantic_key :: "queue_env \<Rightarrow> report_request \<Rightarrow> string" where
  "semantic_key e r = qe_digest e (semantic_text r)"

text \<open>The lines of a binary file, each with its line feed.\<close>

fun raw_lines :: "string \<Rightarrow> string \<Rightarrow> string list" where
  "raw_lines acc [] = (if acc = [] then [] else [rev acc])"
| "raw_lines acc (c # cs) = (if c = CHR 0x0A then rev (c # acc) # raw_lines [] cs else raw_lines (c # acc) cs)"

text \<open>
  The files of the queue: the pending file, the receipts of the consumer by name, and what the file
  system does: whether the directories and the lock exist, after how many bytes an append breaks off,
  whether the pending file can be replaced. \<open>qw_draws\<close> counts the random ids drawn.
\<close>

record report_world =
  qw_dir :: bool
  qw_ack_dir :: bool
  qw_usable :: bool
  qw_append_limit :: "nat option"
  qw_replaceable :: bool
  qw_pending :: "string option"
  qw_ack :: "string \<Rightarrow> (py_exn + json) option"
  qw_capabilities :: "string \<Rightarrow> (py_exn + json) option"
  qw_lifecycle_names :: "string list option"
  qw_lifecycle :: lifecycle_dir
  qw_now :: int
  qw_draws :: nat

definition pending_lines :: "report_world \<Rightarrow> string list" where
  "pending_lines w = (case qw_pending w of None \<Rightarrow> [] | Some s \<Rightarrow> raw_lines [] s)"

definition append_locked :: "queue_env \<Rightarrow> report_request \<Rightarrow> (report_world, unit) io" where
  "append_locked e r = (\<lambda>w.
     case serialize_request e r of
       None \<Rightarrow> (Inl ValueError, w)
     | Some encoded \<Rightarrow>
         let before = (case qw_pending w of None \<Rightarrow> [] | Some s \<Rightarrow> s); line = encoded @ [CHR 0x0A] in
         (case qw_append_limit w of
            Some k \<Rightarrow> if k < length line then (Inl OSError, w\<lparr>qw_pending := Some (before @ take k line)\<rparr>)
              else (Inr (), w\<lparr>qw_pending := Some (before @ line)\<rparr>)
          | None \<Rightarrow> (Inr (), w\<lparr>qw_pending := Some (before @ line)\<rparr>)))"

definition enqueue :: "queue_env \<Rightarrow> report_request \<Rightarrow> (report_world, unit) io" where
  "enqueue e r = (\<lambda>w.
     if \<not> qw_dir w \<or> \<not> qw_usable w then (Inr (), w)
     else case append_locked e r w of
       (Inl x, w') \<Rightarrow> if is_os_error x \<or> is_value_error x then (Inr (), w') else (Inl x, w')
     | (Inr _, w') \<Rightarrow> (Inr (), w'))"

definition queued :: "queue_env \<Rightarrow> string \<Rightarrow> report_world \<Rightarrow> bool" where
  "queued e key w \<longleftrightarrow> list_ex (\<lambda>raw. case parse_line e raw of None \<Rightarrow> False | Some q \<Rightarrow> semantic_key e q = key) (pending_lines w)"

definition enqueue_if_missing_semantic :: "queue_env \<Rightarrow> report_request \<Rightarrow> (report_world, bool) io" where
  "enqueue_if_missing_semantic e r = (\<lambda>w.
     if \<not> qw_dir w \<or> \<not> qw_usable w then (Inr False, w)
     else if queued e (semantic_key e r) w then (Inr False, w)
     else case append_locked e r w of
       (Inl x, w') \<Rightarrow> if is_os_error x \<or> is_value_error x then (Inr False, w') else (Inl x, w')
     | (Inr _, w') \<Rightarrow> (Inr True, w'))"

definition read_receipt :: "string \<Rightarrow> report_world \<Rightarrow> jobj option" where
  "read_receipt name w = (case qw_ack w name of
     Some (Inr (JObj d)) \<Rightarrow> if ''terminal_at'' \<in> set (map fst d) then Some d else None
   | _ \<Rightarrow> None)"

definition terminal_state :: "queue_env \<Rightarrow> string \<Rightarrow> report_request \<Rightarrow> report_world \<Rightarrow> bool \<times> bool" where
  "terminal_state e raw r w =
     (let digest = qe_digest e raw; key = semantic_key e r;
          conflict = read_receipt (''conflict-'' @ digest @ ''.json'') w \<noteq> None;
          identity_ack = (case read_receipt (rq_request_id r @ ''.json'') w of
            None \<Rightarrow> False
          | Some d \<Rightarrow> jget d ''line_digest'' = Some (JStr digest) \<and> jget d ''semantic_key'' = Some (JStr key));
          semantic = read_receipt (''sem-'' @ key @ ''.json'') w \<noteq> None
      in (conflict \<or> identity_ack, conflict \<or> identity_ack \<or> semantic))"

definition fourteen_days :: int where
  "fourteen_days = 14 * 86400000000"

text \<open>One line of the compaction: whether it is dropped, and whether the backlog is stale after it.\<close>

definition compact_line ::
  "queue_env \<Rightarrow> report_world \<Rightarrow> string \<Rightarrow> bool \<Rightarrow> py_exn + bool \<times> bool" where
  "compact_line e w raw stale =
     (case parse_line e raw of
        None \<Rightarrow> Inr (read_receipt (''invalid-'' @ qe_digest e raw @ ''.json'') w \<noteq> None, stale)
      | Some r \<Rightarrow>
          (case terminal_state e raw r w of (terminal, has_terminal) \<Rightarrow>
             if terminal then Inr (True, stale)
             else if has_terminal \<or> stale then Inr (False, stale)
             else (case qe_date e (rq_created r) of
                Aware_date (Some t) \<Rightarrow> Inr (False, qw_now w - t > fourteen_days)
              | _ \<Rightarrow> Inl (OtherError ''OverflowError''))))"

fun compact_lines ::
  "queue_env \<Rightarrow> report_world \<Rightarrow> bool \<Rightarrow> string list \<Rightarrow> py_exn + string list" where
  "compact_lines e w stale [] = Inr []"
| "compact_lines e w stale (raw # lines) =
     sum_bind (compact_line e w raw stale) (\<lambda>(dropped, stale').
     sum_bind (compact_lines e w stale' lines) (\<lambda>kept.
     Inr (if dropped then kept else raw # kept)))"

definition compact :: "queue_env \<Rightarrow> (report_world, int) io" where
  "compact e = (\<lambda>w.
     if \<not> qw_ack_dir w \<or> \<not> qw_dir w then (Inr 0, w)
     else if \<not> qw_usable w \<or> qw_pending w = None then (Inr 0, w)
     else case compact_lines e w False (pending_lines w) of
       Inl x \<Rightarrow> (if is_os_error x \<or> is_value_error x then Inr 0 else Inl x, w)
     | Inr kept \<Rightarrow>
         if \<not> qw_replaceable w then (Inr 0, w)
         else (Inr (int (length (pending_lines w)) - int (length kept)), w\<lparr>qw_pending := Some (concat kept)\<rparr>))"

section \<open>Recovery of missing reports (repair_report_reconcile.py)\<close>

definition REOPEN_REASON_CODES :: "(string \<times> string) list" where
  "REOPEN_REASON_CODES = [(''sandbox gate rejected'', ''sandbox_rejected''),
     (''regression bank failed; patch reverted'', ''bank_failed_reverted''),
     (''owner_cancelled'', ''owner_cancelled''), (''approval_expired'', ''approval_expired'')]"

definition report_identity :: "lifecycle_record \<Rightarrow> (string \<times> string) option" where
  "report_identity r =
     (case lr_state r of
        DONE \<Rightarrow> Some (''complete'', ''applied'')
      | REOPENED \<Rightarrow> Some (''reopen'', case map_of REOPEN_REASON_CODES (lr_reason r) of
          None \<Rightarrow> ''unspecified'' | Some c \<Rightarrow> c)
      | _ \<Rightarrow> None)"

definition reported_marker :: "queue_env \<Rightarrow> string \<Rightarrow> string \<Rightarrow> string \<Rightarrow> string" where
  "reported_marker e ticket op' reason = ''reported-'' @ qe_digest e (ticket @ ''|'' @ op' @ ''|'' @ reason) @ ''.json''"

text \<open>The id and the time a request is stamped with, by the number of the draw.\<close>

type_synonym stamps = "nat \<Rightarrow> string \<times> string"

definition file_stem :: "string \<Rightarrow> string" where
  "file_stem name = (if name = ''.json'' then name else take (length name - 5) name)"

definition report_for ::
  "queue_env \<Rightarrow> stamps \<Rightarrow> string \<Rightarrow> string \<Rightarrow> string \<Rightarrow> capability \<Rightarrow> (report_world, bool) io" where
  "report_for e stamps ticket op' reason c = (\<lambda>w.
     let (request_id, created) = stamps (qw_draws w);
         r = \<lparr>rq_request_id = request_id, rq_operation = op', rq_ticket = ticket, rq_reason_code = reason,
           rq_occurrence = cy_occurrence c, rq_mac = cy_mac c, rq_created = created\<rparr>;
         w1 = w\<lparr>qw_draws := Suc (qw_draws w)\<rparr>
     in if qw_ack w (''sem-'' @ semantic_key e r @ ''.json'') \<noteq> None then (Inr False, w1)
        else enqueue_if_missing_semantic e r w1)"

definition reconcile_entry :: "queue_env \<Rightarrow> stamps \<Rightarrow> string \<Rightarrow> (report_world, bool) io" where
  "reconcile_entry e stamps name = (\<lambda>w.
     case lifecycle_read (file_stem name) (qw_lifecycle w) of
       Inl x \<Rightarrow> (Inl x, w)
     | Inr r \<Rightarrow>
         (case report_identity r of
            None \<Rightarrow> (Inr False, w)
          | Some (op', reason) \<Rightarrow>
              (case read_published (lr_ticket_id r) (qw_capabilities w) of
                 Inl x \<Rightarrow> (Inl x, w)
               | Inr None \<Rightarrow> (Inr False, w)
               | Inr (Some c) \<Rightarrow>
                   if qw_ack w (reported_marker e (lr_ticket_id r) op' reason) \<noteq> None then (Inr False, w)
                   else report_for e stamps (lr_ticket_id r) op' reason c w)))"

fun reconcile_entries ::
  "queue_env \<Rightarrow> stamps \<Rightarrow> string list \<Rightarrow> int \<Rightarrow> (report_world, int) io" where
  "reconcile_entries e stamps [] n = ret n"
| "reconcile_entries e stamps (name # names) n =
     bindM (tryM (reconcile_entry e stamps name) (\<lambda>_. ret False)) (\<lambda>added_one.
     reconcile_entries e stamps names (if added_one then n + 1 else n))"

text \<open>The files are listed in order and cut to the limit before any of them is read.\<close>

definition reconcile_reports :: "queue_env \<Rightarrow> stamps \<Rightarrow> nat \<Rightarrow> (report_world, int) io" where
  "reconcile_reports e stamps limit = (\<lambda>w.
     case qw_lifecycle_names w of
       None \<Rightarrow> (Inr 0, w)
     | Some names \<Rightarrow> if limit = 0 then (Inr 0, w) else reconcile_entries e stamps (take limit (sort names)) 0 w)"

section \<open>Capabilities only move forward\<close>

text \<open>The published records this code writes: the canonical number and its own HMAC.\<close>

definition issued :: "capability_env \<Rightarrow> string \<Rightarrow> int \<Rightarrow> capability \<Rightarrow> bool" where
  "issued e ticket n c \<longleftrightarrow> canonical_occurrence n = Inr (cy_occurrence c) \<and> cy_ticket_id c = ticket \<and>
     cy_mac c = capability_mac e ticket (cy_occurrence c)"

definition level_is :: "capability_env \<Rightarrow> (py_exn + json) option \<Rightarrow> string \<Rightarrow> int \<Rightarrow> bool" where
  "level_is e f ticket n \<longleftrightarrow> n = -1 \<and> f = None \<or> (\<exists>c. f = Some (Inr (capability_json c)) \<and> issued e ticket n c)"

definition reads_numbers :: "capability_env \<Rightarrow> bool" where
  "reads_numbers e \<longleftrightarrow> (\<forall>n. ce_int e (str_int n) = Some n)"

lemma canonical_some: "canonical_occurrence n = Inr s \<Longrightarrow> 0 \<le> n \<and> s = str_int n"
  by (auto simp: canonical_occurrence_def split: if_splits)

lemma level_bounds: "level_is e f ticket n \<Longrightarrow> -1 \<le> n"
  by (auto simp: level_is_def issued_def dest: canonical_some)

lemma published_issued:
  assumes "reads_numbers e" and "level_is e f ticket k" and "0 \<le> k"
  shows "published_occurrence e f = Inr (Some k)"
proof -
  obtain c where c: "f = Some (Inr (capability_json c))" "cy_occurrence c = str_int k"
    using assms(2,3) by (auto simp: level_is_def issued_def dest: canonical_some)
  then show ?thesis using assms(1)
    by (simp add: published_occurrence_def capability_json_def jget_def reads_numbers_def)
qed

lemma publish_step:
  assumes "reads_numbers e" and "level_is e (cw_files w ticket) ticket k"
    and "publish_capability e ticket n w = (r, w')"
  shows "(\<exists>k' \<ge> k. level_is e (cw_files w' ticket) ticket k') \<and>
     (\<forall>t. t \<noteq> ticket \<longrightarrow> cw_files w' t = cw_files w t) \<and>
     (r = Inr () \<longrightarrow> cw_dir w \<longrightarrow> cw_usable w \<longrightarrow> cw_key_error w = None \<longrightarrow>
        (\<exists>k' \<ge> n. level_is e (cw_files w' ticket) ticket k'))"
proof (cases "cw_dir w \<and> cw_usable w \<and> cw_key_error w = None")
  case False
  then have "w' = w"
    using assms(3) by (auto simp: publish_capability_def split: if_splits sum.splits option.splits)
  then show ?thesis using assms(2) False by auto
next
  case usable: True
  show ?thesis
  proof (cases "canonical_occurrence n")
    case (Inl x)
    then have "w' = w" "r = Inl x" using assms(3) usable by (simp_all add: publish_capability_def)
    then show ?thesis using assms(2) by auto
  next
    case (Inr s)
    define c where "c = \<lparr>cy_ticket_id = ticket, cy_occurrence = s, cy_mac = capability_mac e ticket s,
       cy_issued_at = ce_issued_at e\<rparr>"
    have new: "level_is e (Some (Inr (capability_json c))) ticket n"
      using Inr by (auto simp: level_is_def issued_def c_def)
    have n: "0 \<le> n" using canonical_some[OF Inr] by simp
    have old: "published_occurrence e (cw_files w ticket) = Inr (if k = -1 then None else Some k)"
    proof (cases "k = -1")
      case True
      then have "cw_files w ticket = None"
        using assms(2) by (auto simp: level_is_def issued_def dest: canonical_some)
      then show ?thesis using True by (simp add: published_occurrence_def)
    next
      case False
      then show ?thesis using published_issued[OF assms(1,2)] level_bounds[OF assms(2)] by simp
    qed
    show ?thesis
    proof (cases "k \<noteq> -1 \<and> n \<le> k")
      case True
      then have "w' = w" "r = Inr ()"
        using assms(3) usable Inr old by (auto simp: publish_capability_def publish_locked_def)
      then show ?thesis using assms(2) True by auto
    next
      case False
      then have "(case (if k = -1 then None else Some k) of None \<Rightarrow> False | Some j \<Rightarrow> n \<le> j) = False" by auto
      then have "publish_locked e ticket s n w =
          (Inr (), w\<lparr>cw_files := (cw_files w)(ticket \<mapsto> Inr (capability_json c))\<rparr>)"
        unfolding publish_locked_def old by (simp add: c_def)
      then have w': "w' = w\<lparr>cw_files := (cw_files w)(ticket \<mapsto> Inr (capability_json c))\<rparr>"
        using assms(3) usable Inr by (simp add: publish_capability_def)
      have "k \<le> n" using False n level_bounds[OF assms(2)] by auto
      then show ?thesis using new by (auto simp: w')
    qed
  qed
qed

text \<open>A history of publications; an exception of one does not stop the next.\<close>

fun run_publications :: "capability_env \<Rightarrow> (string \<times> int) list \<Rightarrow> capability_world \<Rightarrow> capability_world" where
  "run_publications e [] w = w"
| "run_publications e ((ticket, n) # ps) w = run_publications e ps (snd (publish_capability e ticket n w))"

lemma publications_levels:
  assumes "reads_numbers e"
  shows "(\<And>t. \<exists>k. level_is e (cw_files w t) t k) \<Longrightarrow> level_is e (cw_files w t) t k \<Longrightarrow>
     \<exists>k' \<ge> k. level_is e (cw_files (run_publications e ps w) t) t k'"
proof (induction ps arbitrary: w k)
  case Nil
  then show ?case by auto
next
  case (Cons p ps)
  obtain ticket n where p: "p = (ticket, n)" by (cases p)
  obtain r w1 where step: "publish_capability e ticket n w = (r, w1)" by fastforce
  have every: "\<exists>k. level_is e (cw_files w1 x) x k" for x
  proof (cases "x = ticket")
    case True
    obtain j where "level_is e (cw_files w ticket) ticket j" using Cons.prems(1) by blast
    from publish_step[OF assms this step] show ?thesis unfolding True by blast
  next
    case False
    obtain j where j: "level_is e (cw_files w ticket) ticket j" using Cons.prems(1) by blast
    have "cw_files w1 x = cw_files w x" using publish_step[OF assms j step] False by blast
    then show ?thesis using Cons.prems(1)[of x] by simp
  qed
  have "\<exists>k1 \<ge> k. level_is e (cw_files w1 t) t k1"
  proof (cases "t = ticket")
    case True
    then show ?thesis using publish_step[OF assms _ step, of k] Cons.prems(2) by simp
  next
    case False
    obtain j where j: "level_is e (cw_files w ticket) ticket j" using Cons.prems(1) by blast
    have "cw_files w1 t = cw_files w t" using publish_step[OF assms j step] False by blast
    then show ?thesis using Cons.prems(2) by auto
  qed
  then obtain k1 where k1: "k \<le> k1" "level_is e (cw_files w1 t) t k1" by blast
  from Cons.IH[OF every k1(2)] obtain k' where "k1 \<le> k'" "level_is e (cw_files (run_publications e ps w1) t) t k'" by blast
  then show ?case using k1(1) by (intro exI[of _ k']) (simp add: p step)
qed

text \<open>
  \<^bold>\<open>C38.\<close> A capability is never taken back: over any history of publications, failing ones included, in a
  directory that held only published records, every ticket keeps a record for an occurrence at least
  as high as before, and that record carries the HMAC of its own ticket and occurrence, so it passes
  the verification of the consumer.
\<close>

theorem capability_monotone:
  assumes "reads_numbers e" and "\<And>t. \<exists>k. level_is e (cw_files w t) t k"
    and "level_is e (cw_files w ticket) ticket k" and "0 \<le> k"
  shows "\<exists>k' c. k \<le> k' \<and> cw_files (run_publications e ps w) ticket = Some (Inr (capability_json c)) \<and>
     canonical_occurrence k' = Inr (cy_occurrence c) \<and> verify_capability e ticket k' (cy_mac c) = Inr True"
proof -
  obtain k' where k': "k \<le> k'" "level_is e (cw_files (run_publications e ps w) ticket) ticket k'"
    using publications_levels[OF assms(1,2,3)] by blast
  then obtain c where c: "cw_files (run_publications e ps w) ticket = Some (Inr (capability_json c))" "issued e ticket k' c"
    using assms(4) by (auto simp: level_is_def)
  then show ?thesis using k'(1) by (intro exI[of _ k'] exI[of _ c]) (auto simp: issued_def verify_capability_def)
qed

text \<open>
  A damaged record counts as absent when it is read, but it cannot be replaced: the reconciliation
  raises at the first ticket whose record is not JSON, and the tickets behind it are not published.
\<close>

theorem damaged_capability_blocks:
  assumes "registry_snapshot registry = Some ((ticket, n) # entries)" and "0 < limit" and "cw_dir w" and "cw_usable w"
    and "cw_key_error w = None" and "canonical_occurrence n = Inr s" and "cw_files w ticket = Some (Inl JSONDecodeError)"
  shows "read_published ticket (cw_files w) = Inr None \<and>
     reconcile_capabilities e registry limit w = (Inl JSONDecodeError, w)"
  using assms by (simp add: read_published_def reconcile_capabilities_def bindM_def publish_capability_def
      publish_locked_def published_occurrence_def)

section \<open>The queue holds one report per identity\<close>

text \<open>What \<open>json.dumps\<close> and \<open>json.loads\<close> are to the queue: a record is read back, and fits one line.\<close>

definition queue_codec :: "queue_env \<Rightarrow> bool" where
  "queue_codec e \<longleftrightarrow> (\<forall>r. let s = qe_dumps e (request_json r) in
     qe_loads e s = Inr (request_json r) \<and> qe_loads e (s @ [CHR 0x0A]) = Inr (request_json r) \<and>
     CHR 0x0A \<notin> set s \<and> s \<noteq> [])"

definition fits :: "queue_env \<Rightarrow> report_request \<Rightarrow> bool" where
  "fits e r \<longleftrightarrow> length (qe_dumps e (request_json r)) < MAX_LINE_BYTES"

definition newline_ended :: "report_world \<Rightarrow> bool" where
  "newline_ended w \<longleftrightarrow> (case qw_pending w of None \<Rightarrow> True | Some s \<Rightarrow> s = [] \<or> last s = CHR 0x0A)"

definition queue_keys :: "queue_env \<Rightarrow> report_world \<Rightarrow> string list" where
  "queue_keys e w = concat (map (\<lambda>raw. case parse_line e raw of None \<Rightarrow> [] | Some r \<Rightarrow> [semantic_key e r]) (pending_lines w))"

lemma raw_lines_append:
  "s = [] \<and> acc = [] \<or> s \<noteq> [] \<and> last s = CHR 0x0A \<Longrightarrow> raw_lines acc (s @ t) = raw_lines acc s @ raw_lines [] t"
proof (induction s arbitrary: acc)
  case (Cons c s)
  then show ?case by (cases "s = []") auto
qed auto

lemma raw_lines_one: "CHR 0x0A \<notin> set s \<Longrightarrow> raw_lines acc (s @ [CHR 0x0A]) = [rev acc @ s @ [CHR 0x0A]]"
  by (induction s arbitrary: acc) auto

lemma request_fields_back: "request_of_fields [(''created'', JStr (rq_created r)), (''mac'', JStr (rq_mac r)),
     (''occurrence'', JStr (rq_occurrence r)), (''operation'', JStr (rq_operation r)),
     (''reason_code'', JStr (rq_reason_code r)), (''request_id'', JStr (rq_request_id r)),
     (''ticket_id'', JStr (rq_ticket r))] = Some r"
  by (simp add: request_of_fields_def RECORD_KEYS_def jget_def)

lemma parse_serialized:
  assumes "queue_codec e" and "fits e r" and "request_ok e r"
  shows "parse_line e (qe_dumps e (request_json r)) = Some r"
    and "parse_line e (qe_dumps e (request_json r) @ [CHR 0x0A]) = Some r"
proof -
  let ?s = "qe_dumps e (request_json r)"
  have codec: "qe_loads e ?s = Inr (request_json r)" "qe_loads e (?s @ [CHR 0x0A]) = Inr (request_json r)"
    using assms(1) unfolding queue_codec_def Let_def by blast+
  have keys: "set (map fst [(''created'', a), (''mac'', b), (''occurrence'', c), (''operation'', d),
     (''reason_code'', f), (''request_id'', g), (''ticket_id'', h)]) = set RECORD_KEYS" for a b c d f g h :: json
    by (auto simp: RECORD_KEYS_def)
  have len: "\<not> length ?s > MAX_LINE_BYTES" "\<not> length (?s @ [CHR 0x0A]) > MAX_LINE_BYTES"
    using assms(2) by (simp_all add: fits_def)
  show "parse_line e ?s = Some r"
    unfolding parse_line_def if_not_P[OF len(1)] codec(1) sum.case
    unfolding request_json_def json.case keys request_fields_back option.case using assms(3) by simp
  show "parse_line e (?s @ [CHR 0x0A]) = Some r"
    unfolding parse_line_def if_not_P[OF len(2)] codec(2) sum.case
    unfolding request_json_def json.case keys request_fields_back option.case using assms(3) by simp
qed

lemma parse_line_ok:
  assumes "parse_line e raw = Some r"
  shows "request_ok e r"
proof (cases "qe_loads e raw")
  case (Inr j)
  then show ?thesis using assms
    by (cases j) (auto simp: parse_line_def split: if_splits option.splits)
qed (use assms in \<open>simp add: parse_line_def split: if_splits\<close>)

text \<open>An append that is not cut short adds exactly one line, which reads as the request.\<close>

lemma append_step:
  assumes "queue_codec e" and "fits e r" and "qw_append_limit w = None" and "newline_ended w"
    and "append_locked e r w = (Inr x, w')"
  shows "\<exists>line. pending_lines w' = pending_lines w @ [line] \<and> parse_line e line = Some r \<and> newline_ended w' \<and>
     (\<exists>s. w' = w\<lparr>qw_pending := s\<rparr>)"
proof -
  let ?s = "qe_dumps e (request_json r)"
  have ser: "serialize_request e r = Some ?s"
    using assms(5) by (auto simp: append_locked_def serialize_request_def Let_def split: option.splits if_splits)
  then have ok: "request_ok e r"
    by (auto simp: serialize_request_def Let_def split: if_splits dest: parse_line_ok)
  have w': "w' = w\<lparr>qw_pending := Some ((case qw_pending w of None \<Rightarrow> [] | Some s \<Rightarrow> s) @ ?s @ [CHR 0x0A])\<rparr>"
    using assms(3,5) ser by (simp add: append_locked_def Let_def)
  have nl: "CHR 0x0A \<notin> set ?s" using assms(1) unfolding queue_codec_def Let_def by blast
  have "pending_lines w' = pending_lines w @ [?s @ [CHR 0x0A]]"
  proof (cases "qw_pending w")
    case None
    then show ?thesis using raw_lines_one[OF nl, of "[]"] by (simp add: w' pending_lines_def)
  next
    case (Some s)
    then have "raw_lines [] (s @ ?s @ [CHR 0x0A]) = raw_lines [] s @ raw_lines [] (?s @ [CHR 0x0A])"
      using assms(4) by (intro raw_lines_append) (auto simp: newline_ended_def)
    then show ?thesis using Some raw_lines_one[OF nl, of "[]"] by (simp add: w' pending_lines_def)
  qed
  moreover have "newline_ended w'" by (simp add: w' newline_ended_def)
  moreover have "\<exists>s. w' = w\<lparr>qw_pending := s\<rparr>" using w' by blast
  ultimately show ?thesis using parse_serialized(2)[OF assms(1,2) ok] by blast
qed

lemma append_cases:
  assumes "queue_codec e" and "fits e r" and "qw_append_limit w = None" and "newline_ended w"
    and "append_locked e r w = (x, w')"
  shows "x = Inl ValueError \<and> w' = w \<or> x = Inr ()"
  using assms(3,5) by (auto simp: append_locked_def Let_def split: option.splits)

lemma enqueue_step:
  assumes "queue_codec e" and "fits e r" and "qw_append_limit w = None" and "newline_ended w"
    and "enqueue_if_missing_semantic e r w = (x, w')"
  shows "x = Inr False \<and> w' = w \<or> x = Inr True \<and> \<not> queued e (semantic_key e r) w \<and> newline_ended w' \<and>
     (\<exists>s. w' = w\<lparr>qw_pending := s\<rparr>) \<and>
     (\<exists>line. pending_lines w' = pending_lines w @ [line] \<and> parse_line e line = Some r)"
proof (cases "\<not> qw_dir w \<or> \<not> qw_usable w \<or> queued e (semantic_key e r) w")
  case True
  then show ?thesis using assms(5) by (auto simp: enqueue_if_missing_semantic_def split: if_splits)
next
  case False
  obtain y w1 where a: "append_locked e r w = (y, w1)" by fastforce
  show ?thesis
    using append_cases[OF assms(1-4) a]
  proof
    assume "y = Inl ValueError \<and> w1 = w"
    then show ?thesis using False a assms(5) by (simp add: enqueue_if_missing_semantic_def)
  next
    assume y: "y = Inr ()"
    then have "w' = w1" "x = Inr True" using False a assms(5) by (simp_all add: enqueue_if_missing_semantic_def)
    then show ?thesis using append_step[OF assms(1-4) a[unfolded y]] False by blast
  qed
qed

lemma queued_keys: "queued e key w \<longleftrightarrow> key \<in> set (queue_keys e w)"
proof -
  have found: "(case o' of None \<Rightarrow> False | Some q \<Rightarrow> semantic_key e q = key) \<longleftrightarrow>
      key \<in> set (case o' of None \<Rightarrow> [] | Some r \<Rightarrow> [semantic_key e r])" for o'
    by (cases o') auto
  show ?thesis unfolding queued_def queue_keys_def list_ex_iff found by simp
qed

lemma queue_keys_line:
  "pending_lines w' = pending_lines w @ [line] \<Longrightarrow> parse_line e line = Some r \<Longrightarrow>
   queue_keys e w' = queue_keys e w @ [semantic_key e r]"
  by (simp add: queue_keys_def)

text \<open>
  \<^bold>\<open>C15.\<close> A repair is reported once per identity: over any sequence of reports offered to the queue, in
  any repetition and from several processes one after the other, no two lines of the queue stand for
  the same ticket, occurrence, operation and reason, and every report offered is in the queue.
\<close>

theorem queue_no_duplicates:
  assumes "queue_codec e" and "\<forall>r \<in> set rs. fits e r \<and> request_ok e r"
    and "qw_append_limit w = None" and "newline_ended w" and "qw_dir w" and "qw_usable w"
    and "distinct (queue_keys e w)" and "mapM (enqueue_if_missing_semantic e) rs w = (x, w')"
  shows "distinct (queue_keys e w') \<and> (\<forall>r \<in> set rs. semantic_key e r \<in> set (queue_keys e w')) \<and>
     set (queue_keys e w) \<subseteq> set (queue_keys e w') \<and> \<not> isl x"
  using assms(2-8)
proof (induction rs arbitrary: w x)
  case Nil
  then show ?case by (auto simp: ret_def)
next
  case (Cons r rs)
  obtain y w1 where step: "enqueue_if_missing_semantic e r w = (y, w1)" by fastforce
  have r: "fits e r" "request_ok e r" using Cons.prems(1) by simp_all
  have stored: "y = Inr (\<not> queued e (semantic_key e r) w)"
  proof -
    have "serialize_request e r = Some (qe_dumps e (request_json r))"
      using parse_serialized(1)[OF assms(1) r] by (simp add: serialize_request_def)
    then show ?thesis using step Cons.prems(2,4,5)
      by (auto simp: enqueue_if_missing_semantic_def append_locked_def Let_def split: if_splits)
  qed
  have w1: "newline_ended w1" "qw_append_limit w1 = None" "qw_dir w1" "qw_usable w1" "distinct (queue_keys e w1)"
    "semantic_key e r \<in> set (queue_keys e w1)" "set (queue_keys e w) \<subseteq> set (queue_keys e w1)"
    using enqueue_step[OF assms(1) r(1) Cons.prems(2,3) step] Cons.prems stored queued_keys[of e "semantic_key e r" w]
    by (auto dest: queue_keys_line)
  obtain z w2 where rest: "mapM (enqueue_if_missing_semantic e) rs w1 = (z, w2)" by fastforce
  have w2: "w2 = w'" "isl x = isl z"
    using Cons.prems(7) step stored rest by (auto simp: bindM_def ret_def split: sum.splits)
  from Cons.IH[of w1 z] w1 rest w2 Cons.prems(1) show ?case by auto
qed

section \<open>Compaction\<close>

definition receipted :: "queue_env \<Rightarrow> report_world \<Rightarrow> string \<Rightarrow> bool" where
  "receipted e w raw \<longleftrightarrow>
     (case parse_line e raw of
        None \<Rightarrow> read_receipt (''invalid-'' @ qe_digest e raw @ ''.json'') w \<noteq> None
      | Some r \<Rightarrow> fst (terminal_state e raw r w))"

fun proper_lines :: "string list \<Rightarrow> bool" where
  "proper_lines [] = True"
| "proper_lines [l] = (l \<noteq> [] \<and> CHR 0x0A \<notin> set (butlast l))"
| "proper_lines (l # m # ls) = (l \<noteq> [] \<and> last l = CHR 0x0A \<and> CHR 0x0A \<notin> set (butlast l) \<and> proper_lines (m # ls))"

lemma proper_Cons:
  "proper_lines (l # ls) \<longleftrightarrow> l \<noteq> [] \<and> CHR 0x0A \<notin> set (butlast l) \<and> (ls \<noteq> [] \<longrightarrow> last l = CHR 0x0A) \<and> proper_lines ls"
  by (cases ls) auto

lemma proper_filter: "proper_lines ls \<Longrightarrow> proper_lines (filter P ls)"
  by (induction ls) (auto simp: proper_Cons)

lemma proper_raw_lines: "CHR 0x0A \<notin> set acc \<Longrightarrow> proper_lines (raw_lines acc s)"
proof (induction s arbitrary: acc)
  case Nil
  have "set (tl acc) \<subseteq> set acc" by (cases acc) auto
  then show ?case using Nil by auto
qed (auto simp: proper_Cons butlast_append dest: in_set_butlastD)

lemma raw_lines_plain: "CHR 0x0A \<notin> set s \<Longrightarrow> acc \<noteq> [] \<or> s \<noteq> [] \<Longrightarrow> raw_lines acc s = [rev acc @ s]"
  by (induction s arbitrary: acc) auto

lemma raw_lines_concat: "proper_lines ls \<Longrightarrow> raw_lines [] (concat ls) = ls"
proof (induction ls)
  case (Cons l ls)
  then have l: "l \<noteq> []" "CHR 0x0A \<notin> set (butlast l)" "ls \<noteq> [] \<longrightarrow> last l = CHR 0x0A" "proper_lines ls"
    by (simp_all add: proper_Cons)
  show ?case
  proof (cases "last l = CHR 0x0A")
    case True
    then have eq: "l = butlast l @ [CHR 0x0A]" using l(1) append_butlast_last_id[of l] by simp
    have "raw_lines [] (l @ concat ls) = raw_lines [] l @ raw_lines [] (concat ls)"
      using l(1) True by (intro raw_lines_append) simp
    moreover have "raw_lines [] l = [l]"
      using raw_lines_one[OF l(2), of "[]"] eq by simp
    ultimately show ?thesis using Cons.IH[OF l(4)] by simp
  next
    case False
    then have "ls = []" using l(3) by blast
    moreover have "CHR 0x0A \<notin> set l"
      using l(1,2) False append_butlast_last_id[of l] by (metis rotate1.simps(2) set_ConsD set_rotate1)
    ultimately show ?thesis using raw_lines_plain[of l "[]"] l(1) by simp
  qed
qed simp

lemma compact_lines_filter:
  "compact_lines e w stale ls = Inr kept \<Longrightarrow> kept = filter (\<lambda>raw. \<not> receipted e w raw) ls"
proof (induction ls arbitrary: stale kept)
  case (Cons raw ls)
  obtain dropped stale' kept' where line: "compact_line e w raw stale = Inr (dropped, stale')"
    and rest: "compact_lines e w stale' ls = Inr kept'" "kept = (if dropped then kept' else raw # kept')"
    using Cons.prems by (auto elim!: sum_bind_InrE)
  have "dropped = receipted e w raw"
    using line by (auto simp: compact_line_def receipted_def split: option.splits prod.splits if_splits iso_date.splits)
  then show ?case using Cons.IH[OF rest(1)] rest(2) by simp
qed simp


section \<open>What the reconciliation reports\<close>

text \<open>A step of the reconciliation only appends whole lines; the files it reads stay as they are.\<close>

definition queue_grows :: "report_world \<Rightarrow> report_world \<Rightarrow> string list \<Rightarrow> bool" where
  "queue_grows w w' extra \<longleftrightarrow> pending_lines w' = pending_lines w @ extra \<and> newline_ended w' \<and>
     (\<exists>s n. w' = w\<lparr>qw_pending := s, qw_draws := n\<rparr>)"

lemma queue_grows_refl: "newline_ended w \<Longrightarrow> queue_grows w w []"
  unfolding queue_grows_def by (auto intro!: exI[of _ "qw_pending w"] exI[of _ "qw_draws w"])

lemma queue_grows_trans: "queue_grows w w1 a \<Longrightarrow> queue_grows w1 w2 b \<Longrightarrow> queue_grows w w2 (a @ b)"
  unfolding queue_grows_def by (elim conjE exE, intro conjI) (simp_all, blast)

lemma queue_grows_draw: "newline_ended w \<Longrightarrow> queue_grows w (w\<lparr>qw_draws := n\<rparr>) []"
  unfolding queue_grows_def by (auto simp: pending_lines_def newline_ended_def intro!: exI[of _ "qw_pending w"])

definition lines_about :: "queue_env \<Rightarrow> string \<Rightarrow> string list \<Rightarrow> string list" where
  "lines_about e t ls = filter (\<lambda>raw. case parse_line e raw of None \<Rightarrow> False | Some r \<Rightarrow> rq_ticket r = t) ls"

lemma append_grows:
  assumes "queue_codec e" and "qw_append_limit w = None" and "newline_ended w"
    and "append_locked e r w = (x, w')"
  shows "\<exists>extra. queue_grows w w' extra \<and> (\<forall>t. t \<noteq> rq_ticket r \<longrightarrow> lines_about e t extra = [])"
proof (cases x)
  case (Inl y)
  then have "w' = w" using assms(2,4) by (auto simp: append_locked_def Let_def split: option.splits)
  then show ?thesis using queue_grows_refl[OF assms(3)] by (intro exI[of _ "[]"]) (simp add: lines_about_def)
next
  case (Inr u)
  let ?s = "qe_dumps e (request_json r)"
  have ser: "serialize_request e r = Some ?s"
    using assms(4) Inr by (auto simp: append_locked_def serialize_request_def Let_def split: option.splits if_splits)
  have codec: "qe_loads e ?s = Inr (request_json r)" "qe_loads e (?s @ [CHR 0x0A]) = Inr (request_json r)"
    "CHR 0x0A \<notin> set ?s" using assms(1) unfolding queue_codec_def Let_def by blast+
  have w': "w' = w\<lparr>qw_pending := Some ((case qw_pending w of None \<Rightarrow> [] | Some s \<Rightarrow> s) @ ?s @ [CHR 0x0A])\<rparr>"
    using assms(2,4) ser by (simp add: append_locked_def Let_def)
  have lines: "pending_lines w' = pending_lines w @ [?s @ [CHR 0x0A]]"
  proof (cases "qw_pending w")
    case None
    then show ?thesis using raw_lines_one[OF codec(3), of "[]"] by (simp add: w' pending_lines_def)
  next
    case (Some s)
    then have "raw_lines [] (s @ ?s @ [CHR 0x0A]) = raw_lines [] s @ raw_lines [] (?s @ [CHR 0x0A])"
      using assms(3) by (intro raw_lines_append) (auto simp: newline_ended_def)
    then show ?thesis using Some raw_lines_one[OF codec(3), of "[]"] by (simp add: w' pending_lines_def)
  qed
  have "parse_line e (?s @ [CHR 0x0A]) = None \<or> parse_line e (?s @ [CHR 0x0A]) = Some r"
  proof -
    have "parse_line e ?s = Some r" using ser by (auto simp: serialize_request_def Let_def split: if_splits)
    then show ?thesis using codec(1,2) by (auto simp: parse_line_def)
  qed
  then have "t \<noteq> rq_ticket r \<Longrightarrow> lines_about e t [?s @ [CHR 0x0A]] = []" for t
    by (auto simp: lines_about_def)
  moreover have "queue_grows w w' [?s @ [CHR 0x0A]]"
    unfolding queue_grows_def using lines
    by (auto simp: w' newline_ended_def intro!: exI[of _ "Some ((case qw_pending w of None \<Rightarrow> [] | Some s \<Rightarrow> s) @ ?s @ [CHR 0x0A])"]
        exI[of _ "qw_draws w"])
  ultimately show ?thesis by blast
qed

lemma enqueue_grows:
  assumes "queue_codec e" and "qw_append_limit w = None" and "newline_ended w"
    and "enqueue_if_missing_semantic e r w = (x, w')"
  shows "\<exists>extra. queue_grows w w' extra \<and> (\<forall>t. t \<noteq> rq_ticket r \<longrightarrow> lines_about e t extra = [])"
proof (cases "\<not> qw_dir w \<or> \<not> qw_usable w \<or> queued e (semantic_key e r) w")
  case True
  then have "w' = w" using assms(4) by (auto simp: enqueue_if_missing_semantic_def split: if_splits)
  then show ?thesis using queue_grows_refl[OF assms(3)] by (intro exI[of _ "[]"]) (simp add: lines_about_def)
next
  case False
  obtain y w1 where a: "append_locked e r w = (y, w1)" by fastforce
  have "w' = w1" using False a assms(4)
    by (auto simp: enqueue_if_missing_semantic_def split: sum.splits if_splits)
  then show ?thesis using append_grows[OF assms(1-3) a] by simp
qed

definition stamped :: "stamps \<Rightarrow> string \<Rightarrow> string \<Rightarrow> string \<Rightarrow> capability \<Rightarrow> nat \<Rightarrow> report_request" where
  "stamped stamps ticket op' reason c n = \<lparr>rq_request_id = fst (stamps n), rq_operation = op', rq_ticket = ticket,
     rq_reason_code = reason, rq_occurrence = cy_occurrence c, rq_mac = cy_mac c, rq_created = snd (stamps n)\<rparr>"

lemma report_for_stamped:
  "report_for e stamps ticket op' reason c w =
     (if qw_ack w (''sem-'' @ semantic_key e (stamped stamps ticket op' reason c (qw_draws w)) @ ''.json'') \<noteq> None
      then (Inr False, w\<lparr>qw_draws := Suc (qw_draws w)\<rparr>)
      else enqueue_if_missing_semantic e (stamped stamps ticket op' reason c (qw_draws w))
        (w\<lparr>qw_draws := Suc (qw_draws w)\<rparr>))"
  by (simp add: report_for_def stamped_def split_beta Let_def)

lemma lifecycle_read_ticket: "lifecycle_read t dir = Inr r \<Longrightarrow> lr_ticket_id r = t"
  by (auto simp: lifecycle_read_def elim!: sum_bind_InrE split: option.splits sum.splits json.splits)

lemma entry_grows:
  assumes "queue_codec e" and "qw_append_limit w = None" and "newline_ended w"
    and "reconcile_entry e stamps name w = (x, w')"
  shows "\<exists>extra. queue_grows w w' extra \<and> (\<forall>t. t \<noteq> file_stem name \<longrightarrow> lines_about e t extra = [])"
proof (cases "\<exists>r op' reason c. lifecycle_read (file_stem name) (qw_lifecycle w) = Inr r \<and>
    report_identity r = Some (op', reason) \<and> read_published (lr_ticket_id r) (qw_capabilities w) = Inr (Some c) \<and>
    qw_ack w (reported_marker e (lr_ticket_id r) op' reason) = None")
  case False
  then have "w' = w"
    using assms(4) by (auto simp: reconcile_entry_def split: sum.splits option.splits prod.splits if_splits)
  then show ?thesis using queue_grows_refl[OF assms(3)] by (intro exI[of _ "[]"]) (simp add: lines_about_def)
next
  case True
  then obtain r op' reason c where r: "lifecycle_read (file_stem name) (qw_lifecycle w) = Inr r"
    "report_identity r = Some (op', reason)" "read_published (lr_ticket_id r) (qw_capabilities w) = Inr (Some c)"
    "qw_ack w (reported_marker e (lr_ticket_id r) op' reason) = None" by blast
  let ?q = "stamped stamps (lr_ticket_id r) op' reason c (qw_draws w)"
  let ?w = "w\<lparr>qw_draws := Suc (qw_draws w)\<rparr>"
  have draw: "queue_grows w ?w []" by (rule queue_grows_draw[OF assms(3)])
  have run: "report_for e stamps (lr_ticket_id r) op' reason c w = (x, w')"
    using assms(4) r by (simp add: reconcile_entry_def)
  show ?thesis
  proof (cases "qw_ack w (''sem-'' @ semantic_key e ?q @ ''.json'') = None")
    case True
    then have "enqueue_if_missing_semantic e ?q ?w = (x, w')" using run by (simp add: report_for_stamped)
    moreover have "qw_append_limit ?w = None" "newline_ended ?w" using assms(2,3) by (simp_all add: newline_ended_def)
    ultimately obtain extra where "queue_grows ?w w' extra" "\<forall>t. t \<noteq> rq_ticket ?q \<longrightarrow> lines_about e t extra = []"
      using enqueue_grows[OF assms(1)] by blast
    then show ?thesis
      using queue_grows_trans[OF draw] lifecycle_read_ticket[OF r(1)] by (auto simp: stamped_def)
  next
    case False
    then have "w' = ?w" using run by (simp add: report_for_stamped)
    then show ?thesis using draw by (intro exI[of _ "[]"]) (simp add: lines_about_def)
  qed
qed

lemma queue_grows_frame: "queue_grows w w' extra \<Longrightarrow> qw_append_limit w' = qw_append_limit w \<and> newline_ended w' \<and>
   qw_lifecycle w' = qw_lifecycle w \<and> qw_lifecycle_names w' = qw_lifecycle_names w \<and>
   qw_capabilities w' = qw_capabilities w \<and> qw_ack w' = qw_ack w \<and> qw_dir w' = qw_dir w \<and> qw_usable w' = qw_usable w"
  by (auto simp: queue_grows_def)

lemma entries_grow:
  assumes "queue_codec e"
  shows "qw_append_limit w = None \<Longrightarrow> newline_ended w \<Longrightarrow> reconcile_entries e stamps names n w = (x, w') \<Longrightarrow>
    \<exists>extra. queue_grows w w' extra \<and> (\<forall>t. t \<notin> file_stem ` set names \<longrightarrow> lines_about e t extra = [])"
proof (induction names arbitrary: n w)
  case Nil
  then show ?case using queue_grows_refl[of w] by (auto simp: ret_def lines_about_def)
next
  case (Cons name names)
  obtain y w1 where step: "reconcile_entry e stamps name w = (y, w1)" by fastforce
  obtain a where a: "queue_grows w w1 a" "\<forall>t. t \<noteq> file_stem name \<longrightarrow> lines_about e t a = []"
    using entry_grows[OF assms Cons.prems(1,2) step] by blast
  obtain m where rest: "reconcile_entries e stamps names m w1 = (x, w')"
    using Cons.prems(3) step by (auto simp: bindM_def tryM_def ret_def split: sum.splits)
  obtain b where b: "queue_grows w1 w' b" "\<forall>t. t \<notin> file_stem ` set names \<longrightarrow> lines_about e t b = []"
    using Cons.IH[OF _ _ rest] queue_grows_frame[OF a(1)] Cons.prems(1) by auto
  have "lines_about e t (a @ b) = []" if "t \<notin> file_stem ` set (name # names)" for t
    using a(2) b(2) that by (simp add: lines_about_def)
  then show ?case using queue_grows_trans[OF a(1) b(1)] by blast
qed

text \<open>
  \<^bold>\<open>C34.\<close> Reports of late tickets are never recovered: the reconciliation takes the first files of the
  directory before it looks at them, and files are never removed from it, so a ticket that sorts
  behind the first fifty gets no report from any number of runs, whether or not the first fifty have
  been reported long ago.
\<close>

theorem late_tickets_never_reported:
  assumes "queue_codec e" and "qw_append_limit w = None" and "newline_ended w"
    and "qw_lifecycle_names w = Some names" and "ticket \<notin> file_stem ` set (take limit (sort names))"
  shows "lines_about e ticket (pending_lines (((\<lambda>w. snd (reconcile_reports e stamps limit w)) ^^ runs) w)) =
     lines_about e ticket (pending_lines w)"
proof -
  have "\<exists>extra. queue_grows w (((\<lambda>w. snd (reconcile_reports e stamps limit w)) ^^ runs) w) extra \<and> lines_about e ticket extra = []"
  proof (induction runs)
    case 0
    then show ?case using queue_grows_refl[OF assms(3)] by (intro exI[of _ "[]"]) (simp add: lines_about_def)
  next
    case (Suc runs)
    let ?w = "((\<lambda>w. snd (reconcile_reports e stamps limit w)) ^^ runs) w"
    obtain a where a: "queue_grows w ?w a" "lines_about e ticket a = []" using Suc by blast
    obtain x w' where run: "reconcile_reports e stamps limit ?w = (x, w')" by fastforce
    have names: "qw_lifecycle_names ?w = Some names" using queue_grows_frame[OF a(1)] assms(4) by simp
    have w: "qw_append_limit ?w = None" "newline_ended ?w" using queue_grows_frame[OF a(1)] assms(2) by simp_all
    have "\<exists>b. queue_grows ?w w' b \<and> lines_about e ticket b = []"
    proof (cases "limit = 0")
      case True
      then show ?thesis using run names queue_grows_refl[OF w(2)]
        by (intro exI[of _ "[]"]) (simp add: reconcile_reports_def lines_about_def)
    next
      case False
      then have "reconcile_entries e stamps (take limit (sort names)) 0 ?w = (x, w')"
        using run names by (simp add: reconcile_reports_def)
      then show ?thesis using entries_grow[OF assms(1) w] assms(5) by blast
    qed
    then obtain b where "queue_grows ?w w' b" "lines_about e ticket b = []" by blast
    then show ?case using queue_grows_trans[OF a(1)] a(2) run
      by (intro exI[of _ "a @ b"]) (simp add: lines_about_def)
  qed
  then show ?thesis by (auto simp: queue_grows_def lines_about_def)
qed

lemma queued_grows: "queued e key w \<Longrightarrow> queue_grows w w' extra \<Longrightarrow> queued e key w'"
  by (auto simp: queued_def queue_grows_def)

text \<open>The identity of a report does not depend on the id and time it is stamped with.\<close>

lemma stamped_key: "semantic_key e (stamped stamps t op' reason c n) =
   qe_digest e (t @ ''|'' @ cy_occurrence c @ ''|'' @ op' @ ''|'' @ reason)"
  by (simp add: semantic_key_def semantic_text_def stamped_def)

lemma entry_reports:
  assumes "queue_codec e" and "qw_append_limit w = None" and "newline_ended w" and "qw_dir w" and "qw_usable w"
    and "lifecycle_read (file_stem name) (qw_lifecycle w) = Inr r" and "report_identity r = Some (op', reason)"
    and "read_published (file_stem name) (qw_capabilities w) = Inr (Some c)"
    and "qw_ack w (reported_marker e (file_stem name) op' reason) = None"
    and "qw_ack w (''sem-'' @ qe_digest e (file_stem name @ ''|'' @ cy_occurrence c @ ''|'' @ op' @ ''|'' @ reason) @ ''.json'') = None"
    and ok: "\<And>n. fits e (stamped stamps (file_stem name) op' reason c n) \<and> request_ok e (stamped stamps (file_stem name) op' reason c n)"
    and "reconcile_entry e stamps name w = (x, w')"
  shows "queued e (qe_digest e (file_stem name @ ''|'' @ cy_occurrence c @ ''|'' @ op' @ ''|'' @ reason)) w'"
proof -
  let ?q = "stamped stamps (file_stem name) op' reason c (qw_draws w)"
  let ?w = "w\<lparr>qw_draws := Suc (qw_draws w)\<rparr>"
  have t: "lr_ticket_id r = file_stem name" by (rule lifecycle_read_ticket[OF assms(6)])
  have run: "enqueue_if_missing_semantic e ?q ?w = (x, w')"
    using assms(6-10,12) by (simp add: reconcile_entry_def t report_for_stamped stamped_key)
  show ?thesis
  proof (cases "queued e (semantic_key e ?q) w")
    case True
    then have "queued e (semantic_key e ?q) ?w" by (simp add: queued_def pending_lines_def)
    then show ?thesis using run assms(4,5) True
      by (auto simp: enqueue_if_missing_semantic_def stamped_key split: if_splits)
  next
    case False
    then have new: "\<not> queued e (semantic_key e ?q) ?w" by (simp add: queued_def pending_lines_def)
    have "serialize_request e ?q = Some (qe_dumps e (request_json ?q))"
      using parse_serialized(1)[OF assms(1)] ok[of "qw_draws w"] by (simp add: serialize_request_def)
    then have "x = Inr True"
      using run new assms(2,4,5) by (auto simp: enqueue_if_missing_semantic_def append_locked_def Let_def)
    then obtain line where "pending_lines w' = pending_lines ?w @ [line]" "parse_line e line = Some ?q"
      using enqueue_step[OF assms(1) _ _ _ run] ok[of "qw_draws w"] assms(2,3) by (auto simp: newline_ended_def)
    then show ?thesis by (auto simp: queued_def stamped_key)
  qed
qed

text \<open>
  \<^bold>\<open>C33.\<close> A lost report is recovered: after one reconciliation every ticket among the files it takes
  that ended and whose capability is published has a report of that end in the queue, unless the
  consumer already acknowledged one; a failing entry before it does not get in the way.
\<close>

theorem reconcile_recovers_reports:
  assumes "queue_codec e" and "qw_append_limit w = None" and "newline_ended w" and "qw_dir w" and "qw_usable w"
    and "qw_lifecycle_names w = Some names" and "name \<in> set (take limit (sort names))"
    and "lifecycle_read (file_stem name) (qw_lifecycle w) = Inr r" and "report_identity r = Some (op', reason)"
    and "read_published (file_stem name) (qw_capabilities w) = Inr (Some c)"
    and "qw_ack w (reported_marker e (file_stem name) op' reason) = None"
    and "qw_ack w (''sem-'' @ qe_digest e (file_stem name @ ''|'' @ cy_occurrence c @ ''|'' @ op' @ ''|'' @ reason) @ ''.json'') = None"
    and "\<And>n. fits e (stamped stamps (file_stem name) op' reason c n) \<and> request_ok e (stamped stamps (file_stem name) op' reason c n)"
  shows "queued e (qe_digest e (file_stem name @ ''|'' @ cy_occurrence c @ ''|'' @ op' @ ''|'' @ reason))
     (snd (reconcile_reports e stamps limit w))"
proof -
  let ?key = "qe_digest e (file_stem name @ ''|'' @ cy_occurrence c @ ''|'' @ op' @ ''|'' @ reason)"
  obtain before after where names: "take limit (sort names) = before @ name # after"
    using assms(7) by (meson split_list)
  then have limit: "limit \<noteq> 0" by (cases limit) auto
  have split: "reconcile_entries e stamps (xs @ ys) n w =
     (case reconcile_entries e stamps xs n w of (Inl z, w1) \<Rightarrow> (Inl z, w1)
       | (Inr m, w1) \<Rightarrow> reconcile_entries e stamps ys m w1)" for xs ys n w
    by (induction xs arbitrary: n w) (auto simp: ret_def bindM_def split: prod.splits sum.splits)
  have total: "\<exists>m. fst (reconcile_entries e stamps xs n w) = Inr m" for xs n w
    by (induction xs arbitrary: n w) (auto simp: ret_def bindM_def tryM_def split: prod.splits sum.splits)
  obtain m w1 where b: "reconcile_entries e stamps before 0 w = (Inr m, w1)"
    using total[of before 0 w] by (metis prod.collapse)
  obtain extra where g1: "queue_grows w w1 extra" using entries_grow[OF assms(1-3) b] by blast
  note f = queue_grows_frame[OF g1]
  obtain x w2 where step: "reconcile_entry e stamps name w1 = (x, w2)" by fastforce
  have q: "queued e ?key w2"
    by (rule entry_reports[OF assms(1) _ _ _ _ _ assms(9) _ _ _ assms(13) step]) (use f assms in simp_all)
  have w2: "qw_append_limit w2 = None" "newline_ended w2"
    using entry_grows[OF assms(1) _ _ step] f assms(2) queue_grows_frame by fastforce+
  let ?k = "if (case x of Inl _ \<Rightarrow> False | Inr y \<Rightarrow> y) then m + 1 else m"
  have "reconcile_entries e stamps (name # after) m w1 = reconcile_entries e stamps after ?k w2"
    using step by (cases x) (simp_all add: bindM_def tryM_def ret_def)
  then have after: "reconcile_reports e stamps limit w = reconcile_entries e stamps after ?k w2"
    using assms(6) limit names split[of before "name # after" 0 w] b by (simp add: reconcile_reports_def)
  obtain y w3 where run: "reconcile_entries e stamps after ?k w2 = (y, w3)" by fastforce
  obtain extra' where "queue_grows w2 w3 extra'" using entries_grow[OF assms(1) w2 run] by blast
  then show ?thesis using queued_grows[OF q] after run by simp
qed

section \<open>A blocked repair and its lost report\<close>

text \<open>An agent whose lifecycle store is the directory of files, in front of the world of the others.\<close>

definition on_fst :: "('w, 'a) io \<Rightarrow> ('w \<times> lifecycle_dir, 'a) io" where
  "on_fst m = (\<lambda>(w, dir). case m w of (r, w') \<Rightarrow> (r, (w', dir)))"

definition stored_agent ::
  "(string \<Rightarrow> string) \<Rightarrow> string \<Rightarrow> 'w repair_agent \<Rightarrow> ('w \<times> lifecycle_dir) repair_agent" where
  "stored_agent redact stamp a = \<lparr>
     ag_plan = (\<lambda>t l. on_fst (ag_plan a t l)), ag_validate = (\<lambda>p. on_fst (ag_validate a p)),
     ag_permits = (\<lambda>t p. on_fst (ag_permits a t p)), ag_apply = (\<lambda>p. on_fst (ag_apply a p)),
     ag_register_bank = (\<lambda>s. on_fst (ag_register_bank a s)), ag_bank_passes = (\<lambda>s. on_fst (ag_bank_passes a s)),
     ag_bank_allows_apply = on_fst (ag_bank_allows_apply a), ag_revert = (\<lambda>c. on_fst (ag_revert a c)),
     ag_complete = (\<lambda>t s. on_fst (ag_complete a t s)), ag_reopen = (\<lambda>t s. on_fst (ag_reopen a t s)),
     ag_write_doc = (\<lambda>p c. on_fst (ag_write_doc a p c)),
     ag_state = Some (\<lambda>t s r (w, dir). case lifecycle_transition redact stamp t s r dir of
       (Inl x, dir') \<Rightarrow> (Inl x, (w, dir')) | (Inr _, dir') \<Rightarrow> (Inr (), (w, dir')))\<rparr>"

text \<open>The state of a ticket as the file records it.\<close>

definition stored_state :: "string \<Rightarrow> 'w \<times> lifecycle_dir \<Rightarrow> lifecycle_state option" where
  "stored_state t s = (case lifecycle_read t (snd s) of Inl _ \<Rightarrow> None | Inr r \<Rightarrow> Some (lr_state r))"

lemma transition_stores:
  assumes "lifecycle_transition redact stamp t st reason dir = (Inr r, dir')"
  shows "lifecycle_read t dir' = Inr r \<and> lr_state r = st"
proof -
  have "lr_ticket_id r = t" "lr_state r = st" "dir' t = Some (Inr (lifecycle_json r))"
    using assms by (auto simp: lifecycle_transition_def Let_def split: sum.splits)
  then show ?thesis using lifecycle_read_back[of dir' r] by simp
qed

lemma state_stored: "hoare (\<lambda>_. True) (set_state (stored_agent redact stamp a) t st reason)
    (\<lambda>_ s. stored_state t s = Some st) (\<lambda>_ _. True)"
  by (rule hoareI)
    (auto simp: set_state_def stored_agent_def stored_state_def split: prod.splits sum.splits
      dest!: transition_stores)

lemma port_keeps_state: "hoare (\<lambda>s. stored_state t s = x) (on_fst m) (\<lambda>_ s. stored_state t s = x) (\<lambda>_ _. True)"
  by (rule hoareI) (auto simp: on_fst_def stored_state_def split: prod.splits)

lemma hoare_drop: "hoare (\<lambda>_. True) m Q R \<Longrightarrow> hoare P m Q R"
  by (rule hoare_conseq) auto

text \<open>
  A repair that the regression bank blocked is told to the board and not to the durable record:
  the ticket stays in the state of its sandbox run, for which the reconciliation reports nothing, so
  when the report to the board was lost it is never recovered, although the reason code
  \<open>bank_red\<close> exists for it.
\<close>

theorem blocked_report_unrecoverable:
  assumes "repair_ticket (stored_agent redact stamp a) ticket private_log s = (Inr outcome, (w', dir))"
    and "oc_phase outcome = Bank_blocked" and "file_stem name = ticket"
  shows "lifecycle_read ticket dir \<noteq> Inl OSError \<and>
     reconcile_entry e stamps name (q\<lparr>qw_lifecycle := dir\<rparr>) = (Inr False, q\<lparr>qw_lifecycle := dir\<rparr>)"
proof -
  let ?a = "stored_agent redact stamp a"
  let ?Q = "\<lambda>o' s. oc_phase o' = Bank_blocked \<longrightarrow> stored_state ticket s = Some SANDBOXED"
  have other: "hoare P (bindM m f) ?Q (\<lambda>_ _. True)"
    if "\<And>x. returns (\<lambda>o'. oc_phase o' \<noteq> Bank_blocked) (f x)" for P and m :: "('a \<times> lifecycle_dir, 'x) io" and f
  proof (rule hoareI)
    fix s o' s' assume "bindM m f s = (Inr o', s')"
    then obtain x w1 where "f x w1 = (Inr o', s')" by (rule bindM_InrE)
    then have "oc_phase o' \<noteq> Bank_blocked" using returnsD[OF that] by blast
    then show "?Q o' s'" by simp
  qed simp
  have blocked: "hoare (\<lambda>s. stored_state ticket s = Some SANDBOXED) (bindM (ag_reopen ?a ticket r) (\<lambda>_. ret o')) ?Q (\<lambda>_ _. True)" for r o'
  proof (rule hoare_bind[where S = "\<lambda>_ s. stored_state ticket s = Some SANDBOXED"])
    show "hoare (\<lambda>s. stored_state ticket s = Some SANDBOXED) (ag_reopen ?a ticket r)
       (\<lambda>_ s. stored_state ticket s = Some SANDBOXED) (\<lambda>_ _. True)"
      unfolding stored_agent_def repair_agent.select_convs by (rule port_keeps_state)
  qed (simp add: hoare_def ret_def)
  have late: "returns (\<lambda>o'. oc_phase o' \<noteq> Bank_blocked) (apply_and_test ?a ticket p)" for p
    unfolding apply_and_test_def verify_and_finish_def by (intro returns_bind) (auto intro!: returns_bind)
  have held: "hoare (\<lambda>_. True) (repair_ticket ?a ticket private_log) ?Q (\<lambda>_ _. True)"
    unfolding repair_ticket_def
    apply (rule hoare_bind[where S = "\<lambda>_ _. True"], rule hoareI, simp, simp)
    apply (rule hoare_bind[where S = "\<lambda>_ _. True"], rule hoareI, simp, simp)
    apply (rule hoare_bind[where S = "\<lambda>_ _. True"], rule hoareI, simp, simp)
    apply (rule hoare_bind[where S = "\<lambda>_ _. True"], rule hoareI, simp, simp)
     apply (rule hoare_bind[where S = "\<lambda>_ s. stored_state ticket s = Some SANDBOXED"], rule state_stored)
    subgoal for u1 u2 p v u3
      apply (cases "\<not> sv_existing_bank_passed v \<or> \<not> sv_repro_green v")
       apply (simp only: if_True)
       apply (rule other)
       apply (rule returns_bind, simp)
      apply (simp only: if_False)
      apply (rule hoare_bind[where S = "\<lambda>_ s. stored_state ticket s = Some SANDBOXED"])
       apply (simp add: stored_agent_def port_keeps_state)
      subgoal for allowed
        apply (cases allowed)
         apply (simp only: not_True_eq_False if_False)
         apply (rule other)
        subgoal for permitted by (cases permitted) (auto intro!: returns_bind late)
        apply (simp only: not_False_eq_True if_True)
        apply (rule blocked)
        done
      done
    done
  have "?Q outcome (w', dir)" by (rule hoareD1[OF held _ assms(1)]) simp
  then have "stored_state ticket (w', dir) = Some SANDBOXED" using assms(2) by simp
  then obtain r where r: "lifecycle_read ticket dir = Inr r" "lr_state r = SANDBOXED"
    by (auto simp: stored_state_def split: sum.splits)
  then show ?thesis by (simp add: reconcile_entry_def assms(3) report_identity_def)
qed

section \<open>Witnesses\<close>

text \<open>A codec in the place of JSON: two letters per character, a comma after each field.\<close>

definition letter_pair :: "char \<Rightarrow> string" where
  "letter_pair c = [char_of (65 + of_char c div 16 :: nat), char_of (65 + of_char c mod 16 :: nat)]"

fun unpair :: "string \<Rightarrow> string" where
  "unpair (a # b # r) = char_of ((of_char a - 65) * 16 + (of_char b - 65) :: nat) # unpair r"
| "unpair _ = []"

definition paired :: "string \<Rightarrow> string" where
  "paired s = concat (map letter_pair s)"

lemma unpair_paired: "unpair (paired s) = s"
proof (induction s)
  case (Cons c s)
  have "(of_char c :: nat) < 256" by simp
  then have "65 + of_char c div 16 < (256 :: nat)" "65 + of_char c mod 16 < (256 :: nat)" by linarith+
  note small = this[THEN mod_less]
  then show ?case using Cons by (simp add: paired_def letter_pair_def small)
qed (simp add: paired_def)

lemma paired_letters: "c \<in> set (paired s) \<Longrightarrow> 65 \<le> (of_char c :: nat)"
proof (induction s)
  case (Cons d s)
  have "(of_char d :: nat) < 256" by simp
  then have "65 + of_char d div 16 < (256 :: nat)" "65 + of_char d mod 16 < (256 :: nat)" by linarith+
  note small = this[THEN mod_less]
  then show ?case using Cons by (auto simp: paired_def letter_pair_def small)
qed (simp add: paired_def)

fun fields_of :: "nat \<Rightarrow> string \<Rightarrow> string list" where
  "fields_of 0 s = []"
| "fields_of (Suc n) s = unpair (takeWhile (\<lambda>c. c \<noteq> CHR '','') s) # fields_of n (tl (dropWhile (\<lambda>c. c \<noteq> CHR '','') s))"

lemma fields_step: "fields_of (Suc n) (paired s @ CHR '','' # r) = s # fields_of n r"
proof -
  have "\<forall>c \<in> set (paired s). c \<noteq> CHR '',''"
    using paired_letters[of "CHR '',''" s] by auto
  then have "takeWhile (\<lambda>c. c \<noteq> CHR '','') (paired s @ CHR '','' # r) = paired s"
    "dropWhile (\<lambda>c. c \<noteq> CHR '','') (paired s @ CHR '','' # r) = CHR '','' # r"
    by (simp_all add: takeWhile_append dropWhile_append)
  then show ?thesis by (simp add: unpair_paired)
qed

definition sample_queue_dumps :: "json \<Rightarrow> string" where
  "sample_queue_dumps j = (case j of
     JObj d \<Rightarrow> concat (map (\<lambda>(_, v). case v of JStr s \<Rightarrow> paired s @ '','' | _ \<Rightarrow> []) d) | _ \<Rightarrow> [])"

definition sample_queue_loads :: "string \<Rightarrow> py_exn + json" where
  "sample_queue_loads s = Inr (JObj (zip [''created'', ''mac'', ''occurrence'', ''operation'', ''reason_code'',
     ''request_id'', ''ticket_id''] (map JStr (fields_of 7 s))))"

definition sample_queue_env :: queue_env where
  "sample_queue_env = \<lparr>qe_loads = sample_queue_loads, qe_dumps = sample_queue_dumps,
     qe_date = (\<lambda>_. Aware_date (Some 0)), qe_digest = (\<lambda>s. s)\<rparr>"

lemma sample_queue_codec: "queue_codec sample_queue_env"
proof -
  have seven: "fields_of 7 = fields_of (Suc (Suc (Suc (Suc (Suc (Suc (Suc 0)))))))" by (simp add: eval_nat_numeral)
  have loads: "sample_queue_loads (sample_queue_dumps (request_json r) @ t) = Inr (request_json r)" for r t
    by (simp add: sample_queue_loads_def sample_queue_dumps_def request_json_def seven fields_step del: fields_of.simps(2))
  have "c \<noteq> CHR 0x0A" if "c \<in> set (sample_queue_dumps (request_json r))" for c r
    using that paired_letters[of "CHR 0x0A"] by (auto simp: sample_queue_dumps_def request_json_def)
  moreover have "sample_queue_dumps (request_json r) \<noteq> []" for r
    by (simp add: sample_queue_dumps_def request_json_def)
  ultimately show ?thesis
    using loads[of _ "[]"] loads[of _ "[CHR 0x0A]"] by (auto simp: queue_codec_def sample_queue_env_def)
qed

definition sample_stamps :: stamps where
  "sample_stamps n = (replicate 32 (CHR ''0''), ''2026-01-01'')"

definition sample_capability :: capability where
  "sample_capability = \<lparr>cy_ticket_id = ''t_a'', cy_occurrence = ''1'', cy_mac = replicate 64 (CHR ''f''), cy_issued_at = ''1''\<rparr>"

definition sample_report_world :: report_world where
  "sample_report_world = \<lparr>qw_dir = True, qw_ack_dir = True, qw_usable = True, qw_append_limit = None,
     qw_replaceable = True, qw_pending = None, qw_ack = (\<lambda>_. None),
     qw_capabilities = (\<lambda>t. Some (Inr (capability_json sample_capability))),
     qw_lifecycle_names = Some [''t_b.json'', ''t_a.json''],
     qw_lifecycle = (\<lambda>t. Some (Inr (lifecycle_json \<lparr>lr_ticket_id = t, lr_state = DONE, lr_reason = ''c'',
        lr_updated_at = ''u'', lr_sandbox_checks = []\<rparr>))),
     qw_now = 0, qw_draws = 0\<rparr>"

definition sample_report :: report_request where
  "sample_report = stamped sample_stamps ''t_a'' ''complete'' ''applied'' sample_capability 0"

lemma sample_report_ok: "fits sample_queue_env sample_report \<and> request_ok sample_queue_env sample_report"
  by code_simp

lemma sample_stamped: "stamped sample_stamps ''t_a'' ''complete'' ''applied'' sample_capability n = sample_report"
  by (simp add: sample_report_def stamped_def sample_stamps_def)

lemma queue_no_duplicates_witness:
  "\<exists>x w'. mapM (enqueue_if_missing_semantic sample_queue_env) [sample_report, sample_report] sample_report_world = (x, w') \<and>
     distinct (queue_keys sample_queue_env w') \<and> semantic_key sample_queue_env sample_report \<in> set (queue_keys sample_queue_env w')"
proof -
  obtain x w' where run: "mapM (enqueue_if_missing_semantic sample_queue_env) [sample_report, sample_report] sample_report_world = (x, w')"
    by (cases "mapM (enqueue_if_missing_semantic sample_queue_env) [sample_report, sample_report] sample_report_world")
  have "qw_append_limit sample_report_world = None" "newline_ended sample_report_world" "qw_dir sample_report_world"
    "qw_usable sample_report_world" "distinct (queue_keys sample_queue_env sample_report_world)"
    by (simp_all add: sample_report_world_def newline_ended_def queue_keys_def pending_lines_def)
  from queue_no_duplicates[OF sample_queue_codec _ this run] sample_report_ok run show ?thesis by auto
qed

lemma late_tickets_never_reported_witness:
  "lines_about sample_queue_env ''t_b'' (pending_lines (((\<lambda>w. snd (reconcile_reports sample_queue_env sample_stamps 1 w)) ^^ 7)
     sample_report_world)) = []"
proof -
  have "''t_b'' \<notin> file_stem ` set (take 1 (sort [''t_b.json'', ''t_a.json'']))" by code_simp
  moreover have "qw_append_limit sample_report_world = None" "newline_ended sample_report_world"
    "qw_lifecycle_names sample_report_world = Some [''t_b.json'', ''t_a.json'']" "pending_lines sample_report_world = []"
    by (simp_all add: sample_report_world_def newline_ended_def pending_lines_def)
  ultimately show ?thesis
    using late_tickets_never_reported[OF sample_queue_codec, where w = sample_report_world
        and names = "[''t_b.json'', ''t_a.json'']" and ticket = "''t_b''" and limit = 1 and stamps = sample_stamps and runs = 7]
    by (simp add: lines_about_def)
qed

lemma reconcile_recovers_reports_witness:
  "queued sample_queue_env ''t_a|1|complete|applied'' (snd (reconcile_reports sample_queue_env sample_stamps 1 sample_report_world))"
proof -
  have stem: "file_stem ''t_a.json'' = ''t_a''" by code_simp
  have in_limit: "''t_a.json'' \<in> set (take 1 (sort [''t_b.json'', ''t_a.json'']))" by code_simp
  let ?r = "\<lparr>lr_ticket_id = ''t_a'', lr_state = DONE, lr_reason = ''c'', lr_updated_at = ''u'', lr_sandbox_checks = []\<rparr>"
  have facts: "qw_append_limit sample_report_world = None" "newline_ended sample_report_world" "qw_dir sample_report_world"
    "qw_usable sample_report_world" "qw_lifecycle_names sample_report_world = Some [''t_b.json'', ''t_a.json'']"
    "\<And>n. qw_ack sample_report_world n = None"
    by (simp_all add: sample_report_world_def newline_ended_def)
  have read: "lifecycle_read ''t_a'' (qw_lifecycle sample_report_world) = Inr ?r"
    using lifecycle_read_back[of "qw_lifecycle sample_report_world" ?r] by (simp add: sample_report_world_def)
  have cap: "read_published ''t_a'' (qw_capabilities sample_report_world) = Inr (Some sample_capability)"
    by code_simp
  have "report_identity ?r = Some (''complete'', ''applied'')" by (simp add: report_identity_def)
  from reconcile_recovers_reports[OF sample_queue_codec facts(1-5) in_limit, unfolded stem,
      OF read this cap facts(6) facts(6), of sample_stamps] sample_report_ok
  show ?thesis by (simp add: sample_stamped) (simp add: sample_queue_env_def sample_capability_def)
qed

text \<open>\<open>int(str(n))\<close> is \<open>n\<close> for this reading of decimal numbers.\<close>

definition sample_int :: "string \<Rightarrow> int option" where
  "sample_int s = Some (if s \<noteq> [] \<and> hd s = CHR ''-'' then - dec_value (tl s) else dec_value s)"

lemma str_nat_value: "dec_value (str_nat n) = int n \<and> str_nat n \<noteq> [] \<and> hd (str_nat n) \<noteq> CHR ''-''"
proof (induction n rule: less_induct)
  case (less n)
  have digit: "of_char (str_digit d) = (48 + d :: nat)" "of_char (str_digit d) = (48 + int d :: int)"
    "str_digit d \<noteq> CHR ''-''" if "d < 10" for d
  proof -
    show nat: "of_char (str_digit d) = (48 + d :: nat)" using that by (simp add: str_digit_def)
    have "int (of_char (str_digit d)) = of_char (str_digit d)" by (rule of_nat_of_char)
    then show "of_char (str_digit d) = (48 + int d :: int)" using nat by simp
    show "str_digit d \<noteq> CHR ''-''" using nat by auto
  qed
  show ?case
  proof (cases "n < 10")
    case True
    then show ?thesis using digit[OF True] by (simp add: str_nat.simps[of n] dec_value_def)
  next
    case False
    then have "str_nat n = str_nat (n div 10) @ [str_digit (n mod 10)]" by (simp add: str_nat.simps[of n])
    moreover have "dec_value (str_nat (n div 10) @ [str_digit (n mod 10)]) =
        10 * dec_value (str_nat (n div 10)) + int (n mod 10)"
      using digit(2)[of "n mod 10"] by (simp add: dec_value_def)
    moreover have "10 * int (n div 10) + int (n mod 10) = int n" by presburger
    ultimately show ?thesis using less.IH[of "n div 10"] False by (simp add: hd_append)
  qed
qed

lemma sample_int_reads: "sample_int (str_int n) = Some n"
  using str_nat_value[of "nat n"] str_nat_value[of "nat (- n)"] by (simp add: sample_int_def str_int_def)

definition sample_capability_env :: capability_env where
  "sample_capability_env = \<lparr>ce_hmac = (\<lambda>s. s), ce_issued_at = ''1'', ce_int = sample_int\<rparr>"

definition sample_capability_world :: capability_world where
  "sample_capability_world = \<lparr>cw_dir = True, cw_usable = True, cw_key_error = None,
     cw_files = (\<lambda>t. if t = ''t'' then Some (Inr (capability_json
       \<lparr>cy_ticket_id = ''t'', cy_occurrence = ''2'', cy_mac = ''t|2'', cy_issued_at = ''1''\<rparr>)) else None)\<rparr>"

lemma capability_monotone_witness:
  "\<exists>k' c. 2 \<le> k' \<and> cw_files (run_publications sample_capability_env [(''t'', 3), (''t'', 1)] sample_capability_world) ''t'' =
       Some (Inr (capability_json c)) \<and>
     verify_capability sample_capability_env ''t'' k' (cy_mac c) = Inr True"
proof -
  have reads: "reads_numbers sample_capability_env"
    by (simp add: reads_numbers_def sample_capability_env_def sample_int_reads)
  let ?c = "\<lparr>cy_ticket_id = ''t'', cy_occurrence = ''2'', cy_mac = ''t|2'', cy_issued_at = ''1''\<rparr>"
  have "issued sample_capability_env ''t'' 2 ?c" by code_simp
  then have two: "level_is sample_capability_env (cw_files sample_capability_world ''t'') ''t'' 2"
    unfolding level_is_def by (auto simp: sample_capability_world_def)
  have "\<exists>k. level_is sample_capability_env (cw_files sample_capability_world t) t k" for t
  proof (cases "t = ''t''")
    case True
    then show ?thesis using two by blast
  next
    case False
    then show ?thesis by (intro exI[of _ "-1"]) (simp add: level_is_def sample_capability_world_def)
  qed
  from capability_monotone[OF reads this two, of "[(''t'', 3), (''t'', 1)]"]
  have "\<exists>k' c. 2 \<le> k' \<and> cw_files (run_publications sample_capability_env [(''t'', 3), (''t'', 1)] sample_capability_world) ''t'' =
       Some (Inr (capability_json c)) \<and> canonical_occurrence k' = Inr (cy_occurrence c) \<and>
       verify_capability sample_capability_env ''t'' k' (cy_mac c) = Inr True" by simp
  then show ?thesis by blast
qed

lemma damaged_capability_blocks_witness:
  "\<exists>w. read_published ''t_a'' (cw_files w) = Inr None \<and>
     reconcile_capabilities sample_capability_env (Some (Inr (JObj [(''sig'', JObj [(''occurrences'', JInt 1), (''ticket_id'', JStr ''t_a'')])])))
       200 w = (Inl JSONDecodeError, w)"
proof -
  let ?w = "sample_capability_world\<lparr>cw_files := (\<lambda>_. Some (Inl JSONDecodeError))\<rparr>"
  have "registry_snapshot (Some (Inr (JObj [(''sig'', JObj [(''occurrences'', JInt 1), (''ticket_id'', JStr ''t_a'')])]))) =
     Some [(''t_a'', 1)]" by code_simp
  moreover have "canonical_occurrence 1 = Inr ''1''" by code_simp
  ultimately show ?thesis
    using damaged_capability_blocks[of _ "''t_a''" 1 "[]" 200 ?w "''1''" sample_capability_env]
    by (intro exI[of _ ?w]) (simp add: sample_capability_world_def)
qed

definition sample_agent :: "unit repair_agent" where
  "sample_agent = \<lparr>
     ag_plan = (\<lambda>t l. ret \<lparr>pl_ticket_id = t, pl_diagnosis = l, pl_repro_path = ''r'', pl_patch_path = ''p'', pl_bank_scenario = None\<rparr>),
     ag_validate = (\<lambda>_. ret \<lparr>sv_existing_bank_passed = True, sv_repro_green = True, sv_checks = ''ok''\<rparr>),
     ag_permits = (\<lambda>_ _. ret True), ag_apply = (\<lambda>_. ret ''c''), ag_register_bank = (\<lambda>_. ret None),
     ag_bank_passes = (\<lambda>_. ret True), ag_bank_allows_apply = ret False, ag_revert = (\<lambda>_. ret ()),
     ag_complete = (\<lambda>_ _. ret ()), ag_reopen = (\<lambda>_ _. ret ()), ag_write_doc = (\<lambda>_ _. ret ''d''), ag_state = None\<rparr>"

lemma blocked_report_unrecoverable_witness:
  "\<exists>dir. reconcile_entry sample_queue_env sample_stamps ''t_a.json'' (sample_report_world\<lparr>qw_lifecycle := dir\<rparr>) =
     (Inr False, sample_report_world\<lparr>qw_lifecycle := dir\<rparr>) \<and> lifecycle_read ''t_a'' dir \<noteq> Inl OSError"
proof -
  let ?o = "\<lparr>oc_phase = Bank_blocked, oc_ticket_id = ''t_a'', oc_commit = None, oc_patch_doc = None\<rparr>"
  let ?run = "repair_ticket (stored_agent (\<lambda>s. s) ''u'' sample_agent) ''t_a'' ''log'' ((), \<lambda>_. None)"
  have "fst ?run = Inr ?o" by code_simp
  then have run: "?run = (Inr ?o, (fst (snd ?run), snd (snd ?run)))" by (metis prod.collapse)
  have stem: "file_stem ''t_a.json'' = ''t_a''" by code_simp
  from blocked_report_unrecoverable[OF run _ stem, of sample_queue_env sample_stamps sample_report_world]
  show ?thesis by auto
qed

end
