(* ===== verification/Report_Send.thy ===== *)
theory Report_Send
  imports Repair_Queue Chunker Interop_Protocol Approval_Log
begin

text \<open>
  Model of \<open>automation/repair/repair_report_send.py\<close>: sending the report of a repair to the report
  channel, and finding a report again in a window of that channel. Discord, the private configuration,
  the bot token, the clock of the retry and the Korean phrase of a reason are ports; a port may raise
  anything. The id of the bot is cached in the process, behind two ports.
\<close>

abbreviation InteropConfigError :: py_exn where
  "InteropConfigError \<equiv> TaggedError ''InteropConfigError'' []"

abbreviation DiscordResponseError :: py_exn where
  "DiscordResponseError \<equiv> TaggedError ''DiscordResponseError'' []"

record 'w send_ports =
  sp_config :: "('w, json) io"
  sp_notice_channel :: "('w, string option) io"
  sp_token :: "('w, string) io"
  sp_fetch :: "string \<Rightarrow> ('w, json) io"
  sp_post :: "string \<Rightarrow> string \<Rightarrow> string \<Rightarrow> ('w, http_response) io"
  sp_sleep :: "rat \<Rightarrow> ('w, unit) io"
  sp_budget :: "('w, unit) io"
  sp_bot_id :: "'w \<Rightarrow> string option"
  sp_keep_bot_id :: "string \<Rightarrow> 'w \<Rightarrow> 'w"
  sp_float :: "string \<Rightarrow> py_exn + rat"
  sp_js :: json_codec
  sp_masks :: "(string \<Rightarrow> string) list"
  sp_phrase :: "string \<Rightarrow> string"

section \<open>Configuration and identity\<close>

definition config_field :: "jobj \<Rightarrow> string \<Rightarrow> py_exn + string" where
  "config_field d name = (case jget d name of
     Some (JStr s) \<Rightarrow> if s = [] then Inl InteropConfigError else Inr s | _ \<Rightarrow> Inl InteropConfigError)"

text \<open>The id of this agent and the channel of its reports; a notice channel replaces the latter.\<close>

definition load_report_config :: "'w send_ports \<Rightarrow> ('w, string \<times> string) io" where
  "load_report_config p =
     bindM (sp_config p) (\<lambda>payload.
     case payload of
       JObj d \<Rightarrow>
         bindM (lift_sum (config_field d ''agent_id'')) (\<lambda>agent.
         bindM (lift_sum (config_field d ''agents_log_channel_id'')) (\<lambda>channel.
         bindM (sp_notice_channel p) (\<lambda>notice.
         ret (agent, case notice of Some c \<Rightarrow> if c = [] then channel else c | None \<Rightarrow> channel))))
     | _ \<Rightarrow> raise InteropConfigError)"

text \<open>\<open>str.isdecimal\<close> on one-byte characters.\<close>

definition py_isdecimal :: "string \<Rightarrow> bool" where
  "py_isdecimal s \<longleftrightarrow> s \<noteq> [] \<and> list_all dec_char s"

definition decimal_id :: "json option \<Rightarrow> py_exn + string" where
  "decimal_id v = (case v of
     Some (JStr s) \<Rightarrow> if py_isdecimal s then Inr s else Inl DiscordResponseError | _ \<Rightarrow> Inl DiscordResponseError)"

definition bot_user_id :: "'w send_ports \<Rightarrow> ('w, string) io" where
  "bot_user_id p = (\<lambda>w.
     case sp_bot_id p w of
       Some i \<Rightarrow> (Inr i, w)
     | None \<Rightarrow>
         bindM (sp_fetch p ''/users/@me'') (\<lambda>payload.
         case payload of
           JObj d \<Rightarrow> bindM (lift_sum (decimal_id (jget d ''id''))) (\<lambda>i. bindM (modifyM (sp_keep_bot_id p i)) (\<lambda>_. ret i))
         | _ \<Rightarrow> raise DiscordResponseError) w)"

fun all_objects :: "json list \<Rightarrow> jobj list option" where
  "all_objects [] = Some []"
| "all_objects (JObj d # xs) = map_option (Cons d) (all_objects xs)"
| "all_objects (_ # xs) = None"

definition page_messages :: "json \<Rightarrow> py_exn + jobj list" where
  "page_messages payload = (case payload of
     JArr xs \<Rightarrow> (case all_objects xs of None \<Rightarrow> Inl DiscordResponseError | Some ms \<Rightarrow> Inr ms)
   | _ \<Rightarrow> Inl DiscordResponseError)"

definition channel_path :: "string \<Rightarrow> string" where
  "channel_path channel = ''/channels/'' @ channel @ ''/messages''"

definition channel_watermark :: "'w send_ports \<Rightarrow> ('w, string) io" where
  "channel_watermark p =
     bindM (load_report_config p) (\<lambda>(_, channel).
     bindM (sp_fetch p (channel_path channel @ ''?limit=1'')) (\<lambda>payload.
     bindM (lift_sum (page_messages payload)) (\<lambda>page.
     case page of [] \<Rightarrow> ret ''0'' | m # _ \<Rightarrow> lift_sum (decimal_id (jget m ''id'')))))"

section \<open>Sending\<close>

definition sent_id :: "json_codec \<Rightarrow> string \<Rightarrow> py_exn + string" where
  "sent_id js body = sum_bind (js_loads js body) (\<lambda>payload. case payload of
     JObj d \<Rightarrow> (case jget d ''id'' of Some (JStr s) \<Rightarrow> Inr s | _ \<Rightarrow> Inl DiscordResponseError)
   | _ \<Rightarrow> Inl DiscordResponseError)"

text \<open>
  The endless loop around one POST: each pass asks the budget first, and only the answer 429 leads to
  another pass. The first argument bounds the passes; the caller takes it larger than the budget, which
  raises before the bound is reached.
\<close>

fun post_chunk :: "nat \<Rightarrow> 'w send_ports \<Rightarrow> string \<Rightarrow> string \<Rightarrow> string \<Rightarrow> ('w, string) io" where
  "post_chunk 0 p token channel content = raise (OtherError ''out of passes'')"
| "post_chunk (Suc passes) p token channel content =
     bindM (sp_budget p) (\<lambda>_.
     bindM (sp_post p token channel content) (\<lambda>r.
     if hr_status r \<ge> 400 then
       (if hr_status r \<noteq> 429 then raise (HTTPError (hr_status r))
        else bindM (lift_sum (case hr_retry_after r of None \<Rightarrow> Inr 1 | Some s \<Rightarrow> if s = [] then Inr 1 else sp_float p s)) (\<lambda>d.
             bindM (sp_sleep p d) (\<lambda>_. post_chunk passes p token channel content)))
     else lift_sum (sent_id (sp_js p) (hr_body r))))"

definition message_chunks :: "string \<Rightarrow> py_exn + string list" where
  "message_chunks body = (case chunk_message body DISCORD_MESSAGE_LIMIT True of
     None \<Rightarrow> Inl (OtherError ''does not return'') | Some r \<Rightarrow> r)"

definition send_direct :: "nat \<Rightarrow> 'w send_ports \<Rightarrow> string \<Rightarrow> ('w, string list) io" where
  "send_direct passes p body =
     bindM (load_report_config p) (\<lambda>(_, channel).
     bindM (sp_token p) (\<lambda>token.
     bindM (lift_sum (message_chunks body)) (\<lambda>chunks.
     mapM (post_chunk passes p token channel) chunks)))"

definition report_status_for :: "string \<Rightarrow> report_status option" where
  "report_status_for operation = (if operation = ''complete'' then Some RDONE
     else if operation = ''reopen'' then Some BLOCKED else None)"

text \<open>The body of the report of a request; the keys of \<open>PHRASE\<close> are the reason codes.\<close>

definition report_text :: "'w send_ports \<Rightarrow> string \<Rightarrow> report_request \<Rightarrow> dt \<Rightarrow> py_exn + string" where
  "report_text p agent r timestamp =
     (case report_status_for (rq_operation r) of
        None \<Rightarrow> Inl KeyError
      | Some status \<Rightarrow>
          if rq_reason_code r \<notin> set REASON_CODES then Inl KeyError
          else Inr (format_report (sp_js p) (sp_masks p)
            \<lparr>tr_agent_id = agent, tr_task_id = rq_ticket r, tr_status = status,
              tr_summary = sp_phrase p (rq_reason_code r), tr_links = [], tr_timestamp = timestamp\<rparr>))"

definition last4 :: "string \<Rightarrow> string" where
  "last4 s = drop (length s - 4) s"

definition send_report :: "nat \<Rightarrow> 'w send_ports \<Rightarrow> report_request \<Rightarrow> dt \<Rightarrow> ('w, string) io" where
  "send_report passes p r timestamp =
     bindM (load_report_config p) (\<lambda>(agent, _).
     bindM (lift_sum (report_text p agent r timestamp)) (\<lambda>body.
     bindM (send_direct passes p body) (\<lambda>ids.
     ret (last4 (last ids)))))"

section \<open>Finding a report again\<close>

text \<open>\<open>str(item.get("id", ""))\<close>\<close>

definition message_id_text :: "json_codec \<Rightarrow> jobj \<Rightarrow> string" where
  "message_id_text js m = (case jget m ''id'' of None \<Rightarrow> [] | Some (JStr s) \<Rightarrow> s | Some v \<Rightarrow> js_str js v)"

text \<open>\<open>min(identifiers, key=int)\<close> of a page that is not empty: the first of the least.\<close>

fun least_id :: "string \<Rightarrow> string list \<Rightarrow> string" where
  "least_id best [] = best"
| "least_id best (i # is) = least_id (if dec_value i < dec_value best then i else best) is"

text \<open>
  The pages from \<open>before\<close> on, newest first, at most as many as the first argument; \<open>current\<close> is the
  oldest id seen. An id is compared as a number.
\<close>

fun window_pages ::
  "nat \<Rightarrow> 'w send_ports \<Rightarrow> int \<Rightarrow> int \<Rightarrow> string \<Rightarrow> string \<Rightarrow> string \<Rightarrow> jobj list \<Rightarrow>
   ('w, jobj list \<times> string \<times> bool) io" where
  "window_pages 0 p high low channel current before collected = ret (collected, current, False)"
| "window_pages (Suc pages) p high low channel current before collected =
     bindM (sp_fetch p (channel_path channel @ ''?before='' @ before @ ''&limit=100'')) (\<lambda>payload.
     bindM (lift_sum (page_messages payload)) (\<lambda>page.
     let ids = map (message_id_text (sp_js p)) page in
     if page = [] then ret (collected, current, True)
     else if \<not> list_all py_isdecimal ids then raise DiscordResponseError
     else
       let collected' = collected @ filter (\<lambda>m. let i = dec_value (message_id_text (sp_js p) m) in low < i \<and> i \<le> high) page;
           current' = least_id (hd ids) (tl ids)
       in if dec_value current' \<le> low then ret (collected', current', True)
          else window_pages pages p high low channel current' current' collected'))"

definition MAX_PAGES :: nat where
  "MAX_PAGES = 50"

definition iter_window ::
  "'w send_ports \<Rightarrow> string \<Rightarrow> string \<Rightarrow> string option \<Rightarrow> ('w, jobj list \<times> string \<times> bool) io" where
  "iter_window p high low cursor =
     bindM (lift_sum (js_int (sp_js p) high)) (\<lambda>u.
     bindM (lift_sum (js_int (sp_js p) low)) (\<lambda>l.
     bindM (lift_sum (if u \<le> l then Inr True else case cursor of
         None \<Rightarrow> Inr False | Some c \<Rightarrow> sum_bind (js_int (sp_js p) c) (\<lambda>n. Inr (n \<le> l)))) (\<lambda>empty.
     if empty then ret ([], (case cursor of Some c \<Rightarrow> if c = [] then high else c | None \<Rightarrow> high), True)
     else bindM (load_report_config p) (\<lambda>(_, channel).
       (case cursor of
          None \<Rightarrow> window_pages MAX_PAGES p u l channel high (str_int (u + 1)) []
        | Some c \<Rightarrow> window_pages MAX_PAGES p u l channel c c [])))))"

definition report_matches ::
  "json_codec \<Rightarrow> string \<Rightarrow> string \<Rightarrow> string \<Rightarrow> report_status \<Rightarrow> string option \<Rightarrow> jobj \<Rightarrow> py_exn + bool" where
  "report_matches js author_id agent_id task_id status timestamp m =
     (case jget m ''author'' of
        Some (JObj author) \<Rightarrow>
          if jget author ''id'' \<noteq> Some (JStr author_id) then Inr False
          else (case jget m ''content'' of
             Some (JStr content) \<Rightarrow> sum_bind (parse_report js content) (\<lambda>r.
               case r of
                 None \<Rightarrow> Inr False
               | Some report \<Rightarrow> Inr (tr_agent_id report = agent_id \<and> tr_task_id report = task_id \<and>
                   tr_status report = status \<and>
                   (case timestamp of None \<Rightarrow> True | Some t \<Rightarrow> js_isoformat js (tr_timestamp report) = t)))
           | _ \<Rightarrow> Inr False)
      | _ \<Rightarrow> Inr False)"

fun any_message :: "(jobj \<Rightarrow> py_exn + bool) \<Rightarrow> jobj list \<Rightarrow> py_exn + bool" where
  "any_message f [] = Inr False"
| "any_message f (m # ms) = sum_bind (f m) (\<lambda>hit. if hit then Inr True else any_message f ms)"

definition find_report ::
  "'w send_ports \<Rightarrow> string \<Rightarrow> report_status \<Rightarrow> string \<Rightarrow> string \<Rightarrow> string \<Rightarrow> string option \<Rightarrow>
   ('w, bool \<times> string \<times> bool) io" where
  "find_report p task_id status timestamp high low cursor =
     bindM (iter_window p high low cursor) (\<lambda>(messages, next_cursor, exhausted).
     bindM (load_report_config p) (\<lambda>(agent, _).
     bindM (bot_user_id p) (\<lambda>author.
     bindM (lift_sum (any_message (report_matches (sp_js p) author agent task_id status (Some timestamp)) messages)) (\<lambda>found.
     ret (found, next_cursor, exhausted)))))"

end
