(* ===== verification/Report_Consumer.thy ===== *)
theory Report_Consumer
  imports Report_Send
begin

text \<open>
  Model of \<open>automation/repair/repair_report_consumer.py\<close>: the agent's side of the report queue. A tick
  moves the card of a repair on the board, posts a report about it, and leaves a receipt; what it is in
  the middle of is kept in a state file. The world holds the files, the budgets of a tick and, for the
  properties, the bodies posted so far with the state file at that moment. The board, Discord, the clock,
  the outcome of every file write and the order of a Python set are parameters.
\<close>

section \<open>World\<close>

abbreviation ConsumerStateError :: py_exn where
  "ConsumerStateError \<equiv> TaggedError ''ConsumerStateError'' []"

abbreviation TickBudgetExhausted :: py_exn where
  "TickBudgetExhausted \<equiv> TaggedError ''TickBudgetExhausted'' ''POST''"

abbreviation GetBudgetExhausted :: "string \<Rightarrow> py_exn" where
  "GetBudgetExhausted cursor \<equiv> TaggedError ''GetBudgetExhausted'' cursor"

definition MAX_QUEUE_BYTES :: nat where
  "MAX_QUEUE_BYTES = 8 * 1024 * 1024"

definition MAX_PROCESSED :: int where
  "MAX_PROCESSED = 20"

definition MAX_POST_ATTEMPTS :: nat where
  "MAX_POST_ATTEMPTS = 20"

definition MAX_GET_PAGES :: nat where
  "MAX_GET_PAGES = 50"

definition MAX_PHASE_ATTEMPTS :: int where
  "MAX_PHASE_ATTEMPTS = 10"

definition GC_AGE :: int where
  "GC_AGE = 30 * 86400000000"

definition KST :: int where
  "KST = 9 * 3600000000"

text \<open>The pending file, as the snapshot finds it.\<close>

datatype pending_snapshot = Pending_missing | Pending_unavailable | Pending_irregular | Pending_bytes string

text \<open>
  What an atomic write comes to: the file is replaced, it is not, or it is replaced and making the
  directory durable fails.
\<close>

datatype write_outcome = Replaced | Not_replaced | Replaced_not_synced

record 'x consumer_world =
  nw_net :: 'x
  nw_lockable :: bool
  nw_bot_id :: "string option"
  nw_post_left :: nat
  nw_get_left :: nat
  nw_cache :: "(string \<times> json) list"
  nw_state :: "(py_exn + json) option"
  nw_ack :: "string \<Rightarrow> (py_exn + json) option"
  nw_writes :: nat
  nw_registry :: "(py_exn + json) option"
  nw_pending :: pending_snapshot
  nw_capabilities :: capability_world
  nw_posts :: "(string \<times> (py_exn + json) option) list"
  nw_gets :: "string list"

record 'x consumer_env =
  ne_queue :: queue_env
  ne_capability :: capability_env
  ne_js :: json_codec
  ne_masks :: "(string \<Rightarrow> string) list"
  ne_phrase :: "string \<Rightarrow> string"
  ne_float :: "string \<Rightarrow> py_exn + rat"
  ne_config :: "('x, json) io"
  ne_notice_channel :: "('x, string option) io"
  ne_token :: "('x, string) io"
  ne_fetch :: "string \<Rightarrow> ('x, json) io"
  ne_post :: "string \<Rightarrow> string \<Rightarrow> string \<Rightarrow> ('x, http_response) io"
  ne_sleep :: "rat \<Rightarrow> ('x, unit) io"
  ne_clock :: "'x \<Rightarrow> int \<times> 'x"
  ne_show :: "string \<Rightarrow> ('x, json) io"
  ne_kanban :: "string list \<Rightarrow> ('x, unit) io"
  ne_write :: "nat \<Rightarrow> write_outcome"
  ne_order :: "string list \<Rightarrow> string list"

definition on_net :: "('x, 'a) io \<Rightarrow> ('x consumer_world, 'a) io" where
  "on_net m = (\<lambda>w. case m (nw_net w) of (r, x') \<Rightarrow> (r, w\<lparr>nw_net := x'\<rparr>))"

definition utc_now :: "'x consumer_env \<Rightarrow> ('x consumer_world, int) io" where
  "utc_now e = on_net (\<lambda>x. case ne_clock e x of (t, x') \<Rightarrow> (Inr t, x'))"

definition utc_text :: "'x consumer_env \<Rightarrow> ('x consumer_world, string) io" where
  "utc_text e = bindM (utc_now e) (\<lambda>t. ret (js_isoformat (ne_js e) (Aware t 0)))"

definition kst_now :: "'x consumer_env \<Rightarrow> ('x consumer_world, dt) io" where
  "kst_now e = bindM (utc_now e) (\<lambda>t. ret (Aware (t + KST) KST))"

section \<open>Budgets of a tick\<close>

definition take_post :: "('x consumer_world, unit) io" where
  "take_post = (\<lambda>w. if nw_post_left w = 0 then (Inl TickBudgetExhausted, w)
     else (Inr (), w\<lparr>nw_post_left := nw_post_left w - 1\<rparr>))"

text \<open>What follows \<open>before=\<close> in a path, up to the next parameter.\<close>

fun after_first :: "string \<Rightarrow> string \<Rightarrow> string" where
  "after_first needle [] = []"
| "after_first needle (c # s) =
     (if starts_with needle (c # s) then drop (length needle) (c # s) else after_first needle s)"

definition path_cursor :: "string \<Rightarrow> string" where
  "path_cursor path = (if py_in ''before='' path then takeWhile (\<lambda>c. c \<noteq> CHR ''&'') (after_first ''before='' path) else [])"

text \<open>A remembered outcome \<open>null\<close> counts as none.\<close>

definition budget_fetch :: "'x consumer_env \<Rightarrow> string \<Rightarrow> ('x consumer_world, json) io" where
  "budget_fetch e path = (\<lambda>w.
     if map_of (nw_cache w) path \<noteq> None \<and> map_of (nw_cache w) path \<noteq> Some JNull
     then (Inr (the (map_of (nw_cache w) path)), w)
     else if py_in ''/messages'' path \<and> nw_get_left w = 0 then (Inl (GetBudgetExhausted (path_cursor path)), w)
     else
       let w1 = (if py_in ''/messages'' path then w\<lparr>nw_get_left := nw_get_left w - 1, nw_gets := nw_gets w @ [path]\<rparr> else w)
       in bindM (on_net (ne_fetch e path)) (\<lambda>v. bindM (modifyM (\<lambda>w. w\<lparr>nw_cache := dict_set path v (nw_cache w)\<rparr>)) (\<lambda>_. ret v)) w1)"

definition send_ports_of :: "'x consumer_env \<Rightarrow> 'x consumer_world send_ports" where
  "send_ports_of e = \<lparr>sp_config = on_net (ne_config e), sp_notice_channel = on_net (ne_notice_channel e),
     sp_token = on_net (ne_token e), sp_fetch = budget_fetch e,
     sp_post = (\<lambda>token channel content w.
       on_net (ne_post e token channel content) (w\<lparr>nw_posts := nw_posts w @ [(content, nw_state w)]\<rparr>)),
     sp_sleep = (\<lambda>d. on_net (ne_sleep e d)), sp_budget = take_post, sp_bot_id = nw_bot_id,
     sp_keep_bot_id = (\<lambda>i w. w\<lparr>nw_bot_id := Some i\<rparr>), sp_float = ne_float e, sp_js = ne_js e,
     sp_masks = ne_masks e, sp_phrase = ne_phrase e\<rparr>"

section \<open>Files\<close>

definition write_state :: "'x consumer_env \<Rightarrow> json \<Rightarrow> ('x consumer_world, unit) io" where
  "write_state e doc = (\<lambda>w.
     let w' = w\<lparr>nw_writes := Suc (nw_writes w)\<rparr> in
     case ne_write e (nw_writes w) of
       Replaced \<Rightarrow> (Inr (), w'\<lparr>nw_state := Some (Inr doc)\<rparr>)
     | Not_replaced \<Rightarrow> (Inl OSError, w')
     | Replaced_not_synced \<Rightarrow> (Inl OSError, w'\<lparr>nw_state := Some (Inr doc)\<rparr>))"

text \<open>A receipt is immutable: nothing happens when the file exists.\<close>

definition write_receipt :: "'x consumer_env \<Rightarrow> string \<Rightarrow> json \<Rightarrow> ('x consumer_world, unit) io" where
  "write_receipt e name doc = (\<lambda>w.
     let w' = w\<lparr>nw_writes := Suc (nw_writes w)\<rparr> in
     if nw_ack w name \<noteq> None then (Inr (), w)
     else case ne_write e (nw_writes w) of
       Replaced \<Rightarrow> (Inr (), w'\<lparr>nw_ack := (nw_ack w)(name \<mapsto> Inr doc)\<rparr>)
     | Not_replaced \<Rightarrow> (Inl OSError, w')
     | Replaced_not_synced \<Rightarrow> (Inl OSError, w'\<lparr>nw_ack := (nw_ack w)(name \<mapsto> Inr doc)\<rparr>))"

text \<open>A receipt that cannot be read, or has no text \<open>terminal_at\<close>, counts as none.\<close>

definition terminal_receipt :: "string \<Rightarrow> 'x consumer_world \<Rightarrow> jobj option" where
  "terminal_receipt name w = (case nw_ack w name of
     Some (Inr (JObj d)) \<Rightarrow> (case jget d ''terminal_at'' of Some (JStr _) \<Rightarrow> Some d | _ \<Rightarrow> None)
   | _ \<Rightarrow> None)"

section \<open>The state file\<close>

record consumer_record =
  nr_ticket :: string
  nr_operation :: string
  nr_reason_code :: string
  nr_occurrence :: string
  nr_line_digest :: string
  nr_semantic_key :: string
  nr_transition :: string
  nr_report :: string
  nr_transition_attempts :: int
  nr_report_attempts :: int
  nr_reconcile_attempts :: int
  nr_terminal_reason :: string
  nr_report_timestamp :: string
  nr_watermark :: string
  nr_cursor :: string
  nr_high :: string
  nr_message_last4 :: string
  nr_terminal_at :: string
  nr_last_warning_at :: string

record consumer_state =
  ns_records :: "(string \<times> consumer_record) list"
  ns_reservations :: "(string \<times> string) list"
  ns_last_timestamp :: string

definition TRANSITIONS_OF_RECORD :: "string list" where
  "TRANSITIONS_OF_RECORD = [''pending'', ''in_flight'', ''done'', ''dead'']"

definition REPORTS_OF_RECORD :: "string list" where
  "REPORTS_OF_RECORD = [''pending'', ''in_flight'', ''done'', ''dead'', ''paused'']"

definition TERMINAL_REASONS :: "string list" where
  "TERMINAL_REASONS = [[], ''ok'', ''malformed'', ''unknown_ticket'', ''bad_capability'', ''duplicate_semantic'',
     ''request_id_conflict'', ''transition_exhausted'']"

text \<open>The payload of a record in the order \<open>sort_keys\<close> gives its keys.\<close>

definition record_payload :: "consumer_record \<Rightarrow> jobj" where
  "record_payload r = [
     (''last_warning_at'', JStr (nr_last_warning_at r)), (''line_digest'', JStr (nr_line_digest r)),
     (''message_id_last4'', JStr (nr_message_last4 r)), (''occurrence'', JStr (nr_occurrence r)),
     (''operation'', JStr (nr_operation r)), (''reason_code'', JStr (nr_reason_code r)),
     (''reconcile_attempts'', JInt (nr_reconcile_attempts r)), (''reconcile_cursor'', JStr (nr_cursor r)),
     (''reconcile_upper'', JStr (nr_high r)), (''report'', JStr (nr_report r)),
     (''report_attempts'', JInt (nr_report_attempts r)), (''report_timestamp'', JStr (nr_report_timestamp r)),
     (''semantic_key'', JStr (nr_semantic_key r)), (''terminal_at'', JStr (nr_terminal_at r)),
     (''terminal_reason'', JStr (nr_terminal_reason r)), (''ticket_id'', JStr (nr_ticket r)),
     (''transition'', JStr (nr_transition r)), (''transition_attempts'', JInt (nr_transition_attempts r)),
     (''watermark_message_id'', JStr (nr_watermark r))]"

definition CONSUMER_RECORD_KEYS :: "string list" where
  "CONSUMER_RECORD_KEYS = [''ticket_id'', ''operation'', ''reason_code'', ''occurrence'', ''line_digest'',
     ''semantic_key'', ''transition'', ''report'', ''transition_attempts'', ''report_attempts'',
     ''reconcile_attempts'', ''terminal_reason'', ''report_timestamp'', ''watermark_message_id'',
     ''reconcile_cursor'', ''reconcile_upper'', ''message_id_last4'', ''terminal_at'', ''last_warning_at'']"

definition string_field :: "jobj \<Rightarrow> string \<Rightarrow> py_exn + string" where
  "string_field d k = (case jget d k of None \<Rightarrow> Inl KeyError | Some (JStr s) \<Rightarrow> Inr s | Some _ \<Rightarrow> Inl ConsumerStateError)"

text \<open>A Python \<open>bool\<close> is an \<open>int\<close>.\<close>

definition counter_field :: "jobj \<Rightarrow> string \<Rightarrow> py_exn + int" where
  "counter_field d k = (case jget d k of
     None \<Rightarrow> Inl KeyError
   | Some v \<Rightarrow> (case int_value v of None \<Rightarrow> Inl ConsumerStateError
       | Some n \<Rightarrow> if n < 0 then Inl ConsumerStateError else Inr n))"

definition operation_field :: "jobj \<Rightarrow> py_exn + string" where
  "operation_field d = sum_bind (string_field d ''operation'') (\<lambda>v.
     if v \<in> {''complete'', ''reopen''} then Inr v else Inl ConsumerStateError)"

definition parse_record :: "json \<Rightarrow> py_exn + consumer_record" where
  "parse_record payload = (case payload of
     JObj d \<Rightarrow>
       if set (map fst d) \<noteq> set CONSUMER_RECORD_KEYS then Inl ConsumerStateError
       else
         sum_bind (string_field d ''transition'') (\<lambda>transition.
         sum_bind (string_field d ''report'') (\<lambda>report.
         sum_bind (string_field d ''terminal_reason'') (\<lambda>terminal_reason.
         if transition \<notin> set TRANSITIONS_OF_RECORD \<or> report \<notin> set REPORTS_OF_RECORD then Inl ConsumerStateError
         else if terminal_reason \<notin> set TERMINAL_REASONS then Inl ConsumerStateError
         else
         sum_bind (string_field d ''ticket_id'') (\<lambda>ticket.
         sum_bind (operation_field d) (\<lambda>operation.
         sum_bind (string_field d ''reason_code'') (\<lambda>reason_code.
         sum_bind (string_field d ''occurrence'') (\<lambda>occurrence.
         sum_bind (string_field d ''line_digest'') (\<lambda>line_digest.
         sum_bind (string_field d ''semantic_key'') (\<lambda>key.
         sum_bind (counter_field d ''transition_attempts'') (\<lambda>transition_attempts.
         sum_bind (counter_field d ''report_attempts'') (\<lambda>report_attempts.
         sum_bind (counter_field d ''reconcile_attempts'') (\<lambda>reconcile_attempts.
         sum_bind (string_field d ''report_timestamp'') (\<lambda>report_timestamp.
         sum_bind (string_field d ''watermark_message_id'') (\<lambda>watermark.
         sum_bind (string_field d ''reconcile_cursor'') (\<lambda>cursor.
         sum_bind (string_field d ''reconcile_upper'') (\<lambda>high.
         sum_bind (string_field d ''message_id_last4'') (\<lambda>suffix.
         sum_bind (string_field d ''terminal_at'') (\<lambda>terminal_at.
         sum_bind (string_field d ''last_warning_at'') (\<lambda>last_warning_at.
         Inr \<lparr>nr_ticket = ticket, nr_operation = operation, nr_reason_code = reason_code,
           nr_occurrence = occurrence, nr_line_digest = line_digest, nr_semantic_key = key,
           nr_transition = transition, nr_report = report, nr_transition_attempts = transition_attempts,
           nr_report_attempts = report_attempts, nr_reconcile_attempts = reconcile_attempts,
           nr_terminal_reason = terminal_reason, nr_report_timestamp = report_timestamp,
           nr_watermark = watermark, nr_cursor = cursor, nr_high = high, nr_message_last4 = suffix,
           nr_terminal_at = terminal_at, nr_last_warning_at = last_warning_at\<rparr>)))))))))))))))))))
   | _ \<Rightarrow> Inl ConsumerStateError)"

fun parse_records :: "jobj \<Rightarrow> py_exn + (string \<times> consumer_record) list" where
  "parse_records [] = Inr []"
| "parse_records ((i, v) # d) =
     sum_bind (parse_record v) (\<lambda>r. sum_bind (parse_records d) (\<lambda>rs. Inr ((i, r) # rs)))"

fun parse_reservations :: "jobj \<Rightarrow> py_exn + (string \<times> string) list" where
  "parse_reservations [] = Inr []"
| "parse_reservations ((k, JStr i) # d) = sum_bind (parse_reservations d) (\<lambda>rs. Inr ((k, i) # rs))"
| "parse_reservations (_ # d) = Inl ConsumerStateError"

definition stored_moment :: "json_codec \<Rightarrow> string \<Rightarrow> py_exn + unit" where
  "stored_moment js s = (if s = [] then Inr () else sum_bind (js_fromisoformat js s) (\<lambda>d.
     if dt_aware d then Inr () else Inl ConsumerStateError))"

text \<open>Every record holds the reservation of its identity.\<close>

definition reserved :: "consumer_state \<Rightarrow> bool" where
  "reserved s \<longleftrightarrow> list_all (\<lambda>(i, r). map_of (ns_reservations s) (nr_semantic_key r) = Some i) (ns_records s)"

definition state_of_json :: "json_codec \<Rightarrow> json \<Rightarrow> py_exn + consumer_state" where
  "state_of_json js payload = (case payload of
     JObj d \<Rightarrow>
       if set (map fst d) \<noteq> {''records'', ''reservations'', ''last_timestamp''} then Inl ConsumerStateError
       else (case (jget d ''records'', jget d ''reservations'', jget d ''last_timestamp'') of
         (Some (JObj raw_records), Some (JObj raw_reservations), Some (JStr last_timestamp)) \<Rightarrow>
           sum_bind (stored_moment js last_timestamp) (\<lambda>_.
           sum_bind (parse_records raw_records) (\<lambda>records.
           sum_bind (parse_reservations raw_reservations) (\<lambda>reservations.
           let s = \<lparr>ns_records = records, ns_reservations = reservations, ns_last_timestamp = last_timestamp\<rparr>
           in if reserved s then Inr s else Inl ConsumerStateError)))
       | _ \<Rightarrow> Inl ConsumerStateError)
   | _ \<Rightarrow> Inl ConsumerStateError)"

definition empty_state :: consumer_state where
  "empty_state = \<lparr>ns_records = [], ns_reservations = [], ns_last_timestamp = []\<rparr>"

definition load_consumer_state :: "'x consumer_env \<Rightarrow> ('x consumer_world, consumer_state) io" where
  "load_consumer_state e = (\<lambda>w. (case nw_state w of
     None \<Rightarrow> Inr empty_state | Some (Inl x) \<Rightarrow> Inl x | Some (Inr payload) \<Rightarrow> state_of_json (ne_js e) payload, w))"

text \<open>\<open>json.dumps\<close> sorts the keys.\<close>

definition state_json :: "consumer_state \<Rightarrow> json" where
  "state_json s = JObj [(''last_timestamp'', JStr (ns_last_timestamp s)),
     (''records'', JObj (sort_key fst (map (\<lambda>(i, r). (i, JObj (record_payload r))) (ns_records s)))),
     (''reservations'', JObj (sort_key fst (map (\<lambda>(k, i). (k, JStr i)) (ns_reservations s))))]"

definition save_consumer_state :: "'x consumer_env \<Rightarrow> consumer_state \<Rightarrow> ('x consumer_world, unit) io" where
  "save_consumer_state e s = write_state e (state_json s)"

definition record_at :: "consumer_state \<Rightarrow> string \<Rightarrow> py_exn + consumer_record" where
  "record_at s i = (case map_of (ns_records s) i of None \<Rightarrow> Inl KeyError | Some r \<Rightarrow> Inr r)"

definition with_record :: "consumer_state \<Rightarrow> string \<Rightarrow> consumer_record \<Rightarrow> consumer_state" where
  "with_record s i r = s\<lparr>ns_records := dict_set i r (ns_records s)\<rparr>"

definition store_record ::
  "'x consumer_env \<Rightarrow> consumer_state \<Rightarrow> string \<Rightarrow> consumer_record \<Rightarrow> ('x consumer_world, consumer_state) io" where
  "store_record e s i r = bindM (save_consumer_state e (with_record s i r)) (\<lambda>_. ret (with_record s i r))"

section \<open>The card on the board\<close>

record card_view =
  cv_status :: string
  cv_blocked_kind :: "string option"

definition CARD_STATUSES :: "string list" where
  "CARD_STATUSES = [''archived'', ''blocked'', ''done'', ''ready'', ''review'', ''running'', ''scheduled'', ''todo'', ''triage'']"

definition BLOCK_EVENT_KINDS :: "string list" where
  "BLOCK_EVENT_KINDS = [''blocked'', ''dependency_wait'', ''block_loop_detected'']"

text \<open>
  Whether \<open>event.get("kind")\<close> is one of the block kinds; testing an array or an object for membership
  raises, since it has no hash.
\<close>

definition block_event :: "json \<Rightarrow> py_exn + jobj option" where
  "block_event event = (case event of
     JObj d \<Rightarrow> (case jget d ''kind'' of
         Some (JStr k) \<Rightarrow> Inr (if k \<in> set BLOCK_EVENT_KINDS then Some d else None)
       | Some (JArr _) \<Rightarrow> Inl TypeError
       | Some (JObj _) \<Rightarrow> Inl TypeError
       | _ \<Rightarrow> Inr None)
   | _ \<Rightarrow> Inr None)"

fun last_block_kind :: "string option \<Rightarrow> json list \<Rightarrow> py_exn + string option" where
  "last_block_kind kind [] = Inr kind"
| "last_block_kind kind (event # events) =
     sum_bind (block_event event) (\<lambda>found.
     last_block_kind (case found of
         None \<Rightarrow> kind
       | Some d \<Rightarrow> (case jget d ''payload'' of
             Some (JObj p) \<Rightarrow> (case jget p ''kind'' of Some (JStr k) \<Rightarrow> Some k | _ \<Rightarrow> None)
           | _ \<Rightarrow> kind)) events)"

definition card_of_json :: "json \<Rightarrow> py_exn + card_view" where
  "card_of_json payload = (case payload of
     JObj d \<Rightarrow> (case (jget d ''task'', jget d ''events'') of
         (Some (JObj task), Some (JArr events)) \<Rightarrow> (case jget task ''status'' of
             Some (JStr status) \<Rightarrow>
               if status \<notin> set CARD_STATUSES then Inl ConsumerStateError
               else if status = ''blocked''
               then sum_bind (last_block_kind None events) (\<lambda>kind. Inr \<lparr>cv_status = status, cv_blocked_kind = kind\<rparr>)
               else Inr \<lparr>cv_status = status, cv_blocked_kind = None\<rparr>
           | _ \<Rightarrow> Inl ConsumerStateError)
       | _ \<Rightarrow> Inl ConsumerStateError)
   | _ \<Rightarrow> Inl ConsumerStateError)"

definition card_state :: "'x consumer_env \<Rightarrow> string \<Rightarrow> ('x consumer_world, card_view) io" where
  "card_state e ticket = bindM (on_net (ne_show e ticket)) (\<lambda>payload. lift_sum (card_of_json payload))"

definition at_target :: "consumer_record \<Rightarrow> card_view \<Rightarrow> bool" where
  "at_target r c = (if nr_operation r = ''complete'' then cv_status c = ''done''
     else cv_status c = ''blocked'' \<and> cv_blocked_kind c = Some ''needs_input'')"

definition COMPLETE_RESULT :: string where
  "COMPLETE_RESULT = ''repair lifecycle completed''"

definition REOPEN_REASON :: string where
  "REOPEN_REASON = ''repair requires owner input''"

definition board_commands :: "consumer_record \<Rightarrow> card_view \<Rightarrow> string list list" where
  "board_commands r c =
     (let block = [''block'', ''--kind'', ''needs_input'', nr_ticket r, REOPEN_REASON] in
      if nr_operation r = ''complete'' then [[''complete'', nr_ticket r, ''--result'', COMPLETE_RESULT]]
      else if cv_status c = ''blocked'' then [[''unblock'', nr_ticket r], block]
      else [block])"

section \<open>Progress of a record\<close>

definition terminal :: "consumer_record \<Rightarrow> bool" where
  "terminal r \<longleftrightarrow> nr_transition r \<in> {''done'', ''dead''} \<and> nr_report r \<in> {''done'', ''dead''}"

definition new_consumer_record :: "report_request \<Rightarrow> string \<Rightarrow> string \<Rightarrow> py_exn + consumer_record" where
  "new_consumer_record q digest key =
     (if rq_operation q \<notin> {''complete'', ''reopen''} then Inl ConsumerStateError
      else Inr \<lparr>nr_ticket = rq_ticket q, nr_operation = rq_operation q, nr_reason_code = rq_reason_code q,
        nr_occurrence = rq_occurrence q, nr_line_digest = digest, nr_semantic_key = key,
        nr_transition = ''pending'', nr_report = ''pending'', nr_transition_attempts = 0,
        nr_report_attempts = 0, nr_reconcile_attempts = 0, nr_terminal_reason = [],
        nr_report_timestamp = [], nr_watermark = [], nr_cursor = [], nr_high = [],
        nr_message_last4 = [], nr_terminal_at = [], nr_last_warning_at = []\<rparr>)"

definition dead_record ::
  "'x consumer_env \<Rightarrow> report_request \<Rightarrow> string \<Rightarrow> string \<Rightarrow> string \<Rightarrow> ('x consumer_world, consumer_record) io" where
  "dead_record e q digest key reason =
     bindM (lift_sum (new_consumer_record q digest key)) (\<lambda>r.
     bindM (utc_text e) (\<lambda>now.
     ret (r\<lparr>nr_transition := ''dead'', nr_report := ''dead'', nr_terminal_reason := reason, nr_terminal_at := now\<rparr>)))"

text \<open>The time of the next report is after the last one, whatever the clock says.\<close>

definition next_timestamp ::
  "'x consumer_env \<Rightarrow> consumer_state \<Rightarrow> ('x consumer_world, consumer_state \<times> string) io" where
  "next_timestamp e s =
     bindM (kst_now e) (\<lambda>now.
     bindM (if ns_last_timestamp s = [] then ret now
            else lift_sum (sum_bind (js_fromisoformat (ne_js e) (ns_last_timestamp s)) (\<lambda>previous.
              sum_bind (dt_lt previous now) (\<lambda>later. if later then Inr now else dt_add previous 1)))) (\<lambda>stamp.
     let timestamp = js_isoformat (ne_js e) stamp in
     ret (s\<lparr>ns_last_timestamp := timestamp\<rparr>, timestamp)))"

definition is_subprocess_error :: "py_exn \<Rightarrow> bool" where
  "is_subprocess_error x \<longleftrightarrow> x = TimeoutExpired \<or> x = OtherError ''CalledProcessError''"

text \<open>The commands of a transition; false when one of them failed.\<close>

definition run_commands :: "'x consumer_env \<Rightarrow> string list list \<Rightarrow> ('x consumer_world, bool) io" where
  "run_commands e commands =
     tryM (bindM (mapM (\<lambda>c. on_net (ne_kanban e c)) commands) (\<lambda>_. ret True))
       (\<lambda>x. if is_os_error x \<or> is_subprocess_error x then ret False else raise x)"

definition execute_transition ::
  "'x consumer_env \<Rightarrow> consumer_state \<Rightarrow> string \<Rightarrow> ('x consumer_world, consumer_state) io" where
  "execute_transition e s i =
     bindM (lift_sum (record_at s i)) (\<lambda>r.
     bindM (card_state e (nr_ticket r)) (\<lambda>current.
     if at_target r current then store_record e s i (r\<lparr>nr_transition := ''done''\<rparr>)
     else
       let moving = r\<lparr>nr_transition := ''in_flight''\<rparr> in
       bindM (store_record e s i moving) (\<lambda>s.
       bindM (run_commands e (board_commands moving current)) (\<lambda>ran.
       if \<not> ran then ret s
       else bindM (card_state e (nr_ticket r)) (\<lambda>confirmed.
         if at_target r confirmed then store_record e s i (moving\<lparr>nr_transition := ''done''\<rparr>)
         else
           let attempts = nr_transition_attempts r + 1 in
           if attempts > MAX_PHASE_ATTEMPTS then
             bindM (utc_text e) (\<lambda>now.
             store_record e s i (moving\<lparr>nr_transition := ''dead'', nr_report := ''dead'',
               nr_transition_attempts := attempts, nr_terminal_reason := ''transition_exhausted'',
               nr_terminal_at := now\<rparr>))
           else store_record e s i (moving\<lparr>nr_transition := ''pending'', nr_transition_attempts := attempts\<rparr>))))))"

definition calendar_day :: "dt \<Rightarrow> int" where
  "calendar_day d = dt_local d div microseconds_per_day"

definition warn_paused ::
  "'x consumer_env \<Rightarrow> consumer_state \<Rightarrow> string \<Rightarrow> ('x consumer_world, consumer_state) io" where
  "warn_paused e s i =
     bindM (lift_sum (record_at s i)) (\<lambda>r.
     bindM (kst_now e) (\<lambda>now.
     bindM (lift_sum (if nr_last_warning_at r = [] then Inr False
        else sum_bind (js_fromisoformat (ne_js e) (nr_last_warning_at r)) (\<lambda>warned.
          Inr (calendar_day warned = calendar_day now)))) (\<lambda>today.
     if today then ret s
     else store_record e s i (r\<lparr>nr_last_warning_at := js_isoformat (ne_js e) now\<rparr>))))"

definition pause_report ::
  "'x consumer_env \<Rightarrow> consumer_state \<Rightarrow> string \<Rightarrow> ('x consumer_world, consumer_state) io" where
  "pause_report e s i =
     bindM (lift_sum (record_at s i)) (\<lambda>r.
     bindM (store_record e s i (r\<lparr>nr_report := ''paused''\<rparr>)) (\<lambda>s. warn_paused e s i))"

definition request_copy :: "consumer_record \<Rightarrow> report_request" where
  "request_copy r = \<lparr>rq_request_id = replicate 32 (CHR ''0''), rq_operation = nr_operation r,
     rq_ticket = nr_ticket r, rq_reason_code = nr_reason_code r, rq_occurrence = nr_occurrence r,
     rq_mac = replicate 64 (CHR ''0''), rq_created = nr_report_timestamp r\<rparr>"

text \<open>The budget of a tick raises before the passes of the loop are used up.\<close>

definition send_in_flight ::
  "'x consumer_env \<Rightarrow> consumer_state \<Rightarrow> string \<Rightarrow> ('x consumer_world, consumer_state) io" where
  "send_in_flight e s i =
     bindM (lift_sum (record_at s i)) (\<lambda>r.
     bindM (tryM (bindM (lift_sum (js_fromisoformat (ne_js e) (nr_report_timestamp r))) (\<lambda>stamp.
              bindM (send_report (Suc MAX_POST_ATTEMPTS) (send_ports_of e) (request_copy r) stamp) (\<lambda>suffix.
              ret (Some suffix)))) (\<lambda>_. ret None)) (\<lambda>sent.
     case sent of
       None \<Rightarrow> ret s
     | Some suffix \<Rightarrow> bindM (utc_text e) (\<lambda>now.
         store_record e s i (r\<lparr>nr_report := ''done'', nr_terminal_reason := ''ok'',
           nr_message_last4 := suffix, nr_terminal_at := now\<rparr>))))"

text \<open>The cursor of an exhausted budget of pages.\<close>

definition budget_cursor :: "py_exn \<Rightarrow> string option" where
  "budget_cursor x = (case x of TaggedError n c \<Rightarrow> if n = ''GetBudgetExhausted'' then Some c else None | _ \<Rightarrow> None)"

text \<open>The watermark of the channel; none when the budget of pages is exhausted.\<close>

definition watermark_in_budget :: "'x consumer_env \<Rightarrow> ('x consumer_world, string option) io" where
  "watermark_in_budget e = tryM (bindM (channel_watermark (send_ports_of e)) (\<lambda>m. ret (Some m)))
     (\<lambda>x. if budget_cursor x \<noteq> None then ret None else raise x)"

text \<open>The new attempt is on disk before anything is posted.\<close>

definition announce_and_send ::
  "'x consumer_env \<Rightarrow> consumer_state \<Rightarrow> string \<Rightarrow> consumer_record \<Rightarrow> ('x consumer_world, consumer_state) io" where
  "announce_and_send e s i r =
     bindM (watermark_in_budget e) (\<lambda>m. case m of
       None \<Rightarrow> ret s
     | Some watermark \<Rightarrow>
         bindM (next_timestamp e s) (\<lambda>(s, timestamp).
         bindM (store_record e s i (r\<lparr>nr_report := ''in_flight'', nr_report_timestamp := timestamp,
           nr_watermark := watermark, nr_high := [], nr_cursor := []\<rparr>)) (\<lambda>s.
         send_in_flight e s i)))"

definition start_report ::
  "'x consumer_env \<Rightarrow> consumer_state \<Rightarrow> string \<Rightarrow> ('x consumer_world, consumer_state) io" where
  "start_report e s i =
     bindM (lift_sum (record_at s i)) (\<lambda>r.
     if nr_report_attempts r > MAX_PHASE_ATTEMPTS then pause_report e s i
     else announce_and_send e s i r)"

definition transition_and_report ::
  "'x consumer_env \<Rightarrow> consumer_state \<Rightarrow> string \<Rightarrow> ('x consumer_world, consumer_state) io" where
  "transition_and_report e s i =
     bindM (lift_sum (record_at s i)) (\<lambda>r.
     bindM (if nr_transition r \<in> {''done'', ''dead''} then ret s else execute_transition e s i) (\<lambda>s.
     bindM (lift_sum (record_at s i)) (\<lambda>r.
     if nr_transition r = ''done'' \<and> nr_report r = ''pending'' then start_report e s i else ret s)))"

section \<open>Finding out what became of a report\<close>

definition reconcile_failure ::
  "'x consumer_env \<Rightarrow> consumer_state \<Rightarrow> string \<Rightarrow> ('x consumer_world, consumer_state) io" where
  "reconcile_failure e s i =
     bindM (lift_sum (record_at s i)) (\<lambda>r.
     let attempts = nr_reconcile_attempts r + 1 in
     bindM (store_record e s i (r\<lparr>nr_reconcile_attempts := attempts\<rparr>)) (\<lambda>s.
     if attempts > MAX_PHASE_ATTEMPTS then pause_report e s i else ret s))"

text \<open>
  The search: the state and the record after the upper end of the window is fixed, and what the search
  answered or raised.
\<close>

definition fix_high ::
  "'x consumer_env \<Rightarrow> consumer_state \<Rightarrow> string \<Rightarrow> consumer_record \<Rightarrow>
   ('x consumer_world, consumer_state \<times> consumer_record \<times> py_exn option) io" where
  "fix_high e s i r =
     (if nr_high r \<noteq> [] then ret (s, r, None)
      else bindM (attemptM (channel_watermark (send_ports_of e))) (\<lambda>m. case m of
        Inl x \<Rightarrow> ret (s, r, Some x)
      | Inr high \<Rightarrow>
          let r = r\<lparr>nr_high := high, nr_cursor := []\<rparr> in
          bindM (attemptM (store_record e s i r)) (\<lambda>stored. case stored of
            Inl x \<Rightarrow> ret (s, r, Some x)
          | Inr s \<Rightarrow> ret (s, r, None))))"

definition search_report ::
  "'x consumer_env \<Rightarrow> consumer_state \<Rightarrow> string \<Rightarrow> consumer_record \<Rightarrow>
   ('x consumer_world, consumer_state \<times> consumer_record \<times> (py_exn + bool \<times> string \<times> bool)) io" where
  "search_report e s i r =
     bindM (fix_high e s i r) (\<lambda>(s, r, failed). case failed of
       Some x \<Rightarrow> ret (s, r, Inl x)
     | None \<Rightarrow> (case report_status_for (nr_operation r) of
           None \<Rightarrow> ret (s, r, Inl KeyError)
         | Some status \<Rightarrow>
             bindM (attemptM (find_report (send_ports_of e) (nr_ticket r) status (nr_report_timestamp r)
               (nr_high r) (nr_watermark r) (if nr_cursor r = [] then None else Some (nr_cursor r)))) (\<lambda>found.
             ret (s, r, found))))"

definition resend_report ::
  "'x consumer_env \<Rightarrow> consumer_state \<Rightarrow> string \<Rightarrow> consumer_record \<Rightarrow> ('x consumer_world, consumer_state) io" where
  "resend_report e s i r =
     (let attempts = nr_report_attempts r + 1 in
      if attempts > MAX_PHASE_ATTEMPTS then
        bindM (store_record e s i (r\<lparr>nr_report_attempts := attempts\<rparr>)) (\<lambda>s. pause_report e s i)
      else announce_and_send e s i (r\<lparr>nr_report_attempts := attempts\<rparr>))"

definition after_search ::
  "'x consumer_env \<Rightarrow> string \<Rightarrow> consumer_state \<Rightarrow> consumer_record \<Rightarrow> py_exn + bool \<times> string \<times> bool \<Rightarrow>
   ('x consumer_world, consumer_state) io" where
  "after_search e i s r outcome = (case outcome of
     Inl x \<Rightarrow> (case budget_cursor x of
         Some c \<Rightarrow> if c \<noteq> [] \<and> c \<noteq> nr_cursor r then store_record e s i (r\<lparr>nr_cursor := c\<rparr>) else ret s
       | None \<Rightarrow> reconcile_failure e s i)
   | Inr (found, cursor, exhausted) \<Rightarrow>
       if found then
         bindM (utc_text e) (\<lambda>now.
         store_record e s i (r\<lparr>nr_report := ''done'', nr_terminal_reason := ''ok'', nr_cursor := cursor,
           nr_terminal_at := now\<rparr>))
       else if \<not> exhausted then store_record e s i (r\<lparr>nr_cursor := cursor\<rparr>)
       else resend_report e s i r)"

definition reconcile_record ::
  "'x consumer_env \<Rightarrow> consumer_state \<Rightarrow> string \<Rightarrow> ('x consumer_world, consumer_state) io" where
  "reconcile_record e s i =
     bindM (lift_sum (record_at s i)) (\<lambda>r.
     if nr_report_attempts r > MAX_PHASE_ATTEMPTS \<and> nr_report r \<noteq> ''paused'' then pause_report e s i
     else bindM (getsM nw_get_left) (\<lambda>left.
       if left = 0 then ret s
       else bindM (search_report e s i r) (\<lambda>(s, r, outcome). after_search e i s r outcome)))"

section \<open>Receipts\<close>

definition sorted_object :: "jobj \<Rightarrow> json" where
  "sorted_object d = JObj (sort_key fst d)"

definition ack_payload :: "string \<Rightarrow> consumer_record \<Rightarrow> json" where
  "ack_payload i r = sorted_object ((''request_id'', JStr i) # record_payload r)"

definition reported_name :: "'x consumer_env \<Rightarrow> consumer_record \<Rightarrow> string" where
  "reported_name e r = reported_marker (ne_queue e) (nr_ticket r) (nr_operation r) (nr_reason_code r)"

definition sem_name :: "string \<Rightarrow> string" where
  "sem_name key = ''sem-'' @ key @ ''.json''"

definition id_name :: "string \<Rightarrow> string" where
  "id_name i = i @ ''.json''"

definition finish_record :: "'x consumer_env \<Rightarrow> string \<Rightarrow> consumer_record \<Rightarrow> ('x consumer_world, unit) io" where
  "finish_record e i r =
     (if \<not> terminal r then ret ()
      else bindM (if nr_report r = ''done'' then write_receipt e (reported_name e r)
             (sorted_object [(''ticket_id'', JStr (nr_ticket r)), (''operation'', JStr (nr_operation r)),
               (''reason_code'', JStr (nr_reason_code r)), (''first_reported_at'', JStr (nr_report_timestamp r))])
           else ret ()) (\<lambda>_.
         bindM (write_receipt e (sem_name (nr_semantic_key r)) (ack_payload i r)) (\<lambda>_.
         write_receipt e (id_name i) (ack_payload i r))))"

definition write_dead_ack ::
  "'x consumer_env \<Rightarrow> report_request \<Rightarrow> string \<Rightarrow> string \<Rightarrow> string \<Rightarrow> ('x consumer_world, unit) io" where
  "write_dead_ack e q digest key reason =
     bindM (dead_record e q digest key reason) (\<lambda>r.
     write_receipt e (id_name (rq_request_id q)) (ack_payload (rq_request_id q) r))"

definition write_line_receipt ::
  "'x consumer_env \<Rightarrow> string \<Rightarrow> string \<Rightarrow> string \<Rightarrow> ('x consumer_world, unit) io" where
  "write_line_receipt e prefix digest reason =
     bindM (utc_text e) (\<lambda>now.
     write_receipt e (prefix @ ''-'' @ digest @ ''.json'')
       (sorted_object [(''line_digest'', JStr digest), (''terminal_reason'', JStr reason), (''terminal_at'', JStr now)]))"

definition identity_conflicts :: "jobj \<Rightarrow> string \<Rightarrow> string \<Rightarrow> bool" where
  "identity_conflicts receipt digest key \<longleftrightarrow>
     jget receipt ''line_digest'' \<noteq> Some (JStr digest) \<or> jget receipt ''semantic_key'' \<noteq> Some (JStr key)"

section \<open>A tick\<close>

definition unresolved_ids :: "consumer_state \<Rightarrow> string list" where
  "unresolved_ids s = map fst (filter (\<lambda>(i, r). nr_report r \<in> {''in_flight'', ''paused''}) (ns_records s))"

fun reconcile_ids ::
  "'x consumer_env \<Rightarrow> string list \<Rightarrow> consumer_state \<Rightarrow> int \<Rightarrow> ('x consumer_world, consumer_state \<times> int) io" where
  "reconcile_ids e [] s completed = ret (s, completed)"
| "reconcile_ids e (i # is) s completed =
     bindM (getsM nw_get_left) (\<lambda>left.
     if left = 0 then ret (s, completed)
     else bindM (reconcile_record e s i) (\<lambda>s.
       bindM (lift_sum (record_at s i)) (\<lambda>r.
       bindM (if terminal r then finish_record e i r else ret ()) (\<lambda>_.
       reconcile_ids e is s (if terminal r then completed + 1 else completed)))))"

text \<open>The set of the records in doubt is walked in an order Python does not fix.\<close>

definition reconcile_start_records ::
  "'x consumer_env \<Rightarrow> consumer_state \<Rightarrow> ('x consumer_world, consumer_state \<times> int \<times> string list) io" where
  "reconcile_start_records e s =
     bindM (reconcile_ids e (ne_order e (unresolved_ids s)) s 0) (\<lambda>(s', completed).
     ret (s', completed, unresolved_ids s))"

text \<open>The records of the state file that are neither queued nor in doubt.\<close>

fun resume_records ::
  "'x consumer_env \<Rightarrow> int \<Rightarrow> string list \<Rightarrow> string list \<Rightarrow> (string \<times> consumer_record) list \<Rightarrow>
   consumer_state \<Rightarrow> int \<Rightarrow> int \<Rightarrow> ('x consumer_world, consumer_state \<times> int \<times> int) io" where
  "resume_records e remaining queued_ids doubtful [] s completed processed = ret (s, completed, processed)"
| "resume_records e remaining queued_ids doubtful ((i, stored) # rest) s completed processed =
     (if processed \<ge> remaining \<or> i \<in> set queued_ids \<or> i \<in> set doubtful
      then resume_records e remaining queued_ids doubtful rest s completed processed
      else bindM (getsM (\<lambda>w. terminal_receipt (id_name i) w \<noteq> None \<and>
             terminal_receipt (sem_name (nr_semantic_key stored)) w \<noteq> None)) (\<lambda>settled.
        if settled then resume_records e remaining queued_ids doubtful rest s completed processed
        else bindM (if terminal stored then ret (s, stored, processed)
               else bindM (transition_and_report e s i) (\<lambda>s.
                 bindM (lift_sum (record_at s i)) (\<lambda>r. ret (s, r, processed + 1)))) (\<lambda>(s, r, processed).
          if terminal r then
            bindM (finish_record e i r) (\<lambda>_.
            resume_records e remaining queued_ids doubtful rest s (completed + 1)
              (if stored = r then processed + 1 else processed))
          else resume_records e remaining queued_ids doubtful rest s completed processed)))"

definition load_ticket_allowlist :: "('x consumer_world, string list) io" where
  "load_ticket_allowlist = (\<lambda>w. (case nw_registry w of
     None \<Rightarrow> Inl OSError
   | Some (Inl x) \<Rightarrow> Inl x
   | Some (Inr (JObj d)) \<Rightarrow>
       if list_all (\<lambda>(_, v). case v of JObj f \<Rightarrow> (case jget f ''ticket_id'' of Some (JStr _) \<Rightarrow> True | _ \<Rightarrow> False) | _ \<Rightarrow> False) d
       then Inr (map (\<lambda>(_, v). case v of JObj f \<Rightarrow> (case jget f ''ticket_id'' of Some (JStr t) \<Rightarrow> t | _ \<Rightarrow> []) | _ \<Rightarrow> []) d)
       else Inl ConsumerStateError
   | Some (Inr _) \<Rightarrow> Inl ConsumerStateError, w))"

text \<open>The bytes up to the last line feed: a line that is still being written is left for later.\<close>

definition whole_part :: "string \<Rightarrow> string" where
  "whole_part s = (if s \<noteq> [] \<and> last s = CHR 0x0A then s else rev (dropWhile (\<lambda>c. c \<noteq> CHR 0x0A) (rev s)))"

definition snapshot_lines :: "'x consumer_world \<Rightarrow> string list option" where
  "snapshot_lines w = (case nw_pending w of
     Pending_missing \<Rightarrow> Some []
   | Pending_unavailable \<Rightarrow> None
   | Pending_irregular \<Rightarrow> None
   | Pending_bytes s \<Rightarrow> if length s > MAX_QUEUE_BYTES then None else Some (raw_lines [] (whole_part s)))"

text \<open>Checking a capability reads the key, which may be unusable.\<close>

definition verify_request :: "'x consumer_env \<Rightarrow> report_request \<Rightarrow> ('x consumer_world, bool) io" where
  "verify_request e q = (\<lambda>w. (sum_bind (canonical_occurrence (dec_value (rq_occurrence q))) (\<lambda>_.
     case cw_key_error (nw_capabilities w) of Some x \<Rightarrow> Inl x
     | None \<Rightarrow> verify_capability (ne_capability e) (rq_ticket q) (dec_value (rq_occurrence q)) (rq_mac q)), w))"

record progress =
  pg_state :: consumer_state
  pg_completed :: int
  pg_processed :: int

definition settled_line :: "progress \<Rightarrow> progress" where
  "settled_line g = g\<lparr>pg_completed := pg_completed g + 1, pg_processed := pg_processed g + 1\<rparr>"

definition newline_stripped :: "string \<Rightarrow> string" where
  "newline_stripped raw = (if raw \<noteq> [] \<and> last raw = CHR 0x0A then butlast raw else raw)"

text \<open>A queued request that a record of the state already stands for.\<close>

definition continue_record ::
  "'x consumer_env \<Rightarrow> string list \<Rightarrow> string \<Rightarrow> consumer_record \<Rightarrow> progress \<Rightarrow> ('x consumer_world, progress) io" where
  "continue_record e doubtful i stored g =
     (if i \<in> set doubtful then ret g
      else bindM (if terminal stored then ret (g, stored)
             else bindM (transition_and_report e (pg_state g) i) (\<lambda>s.
               bindM (lift_sum (record_at s i)) (\<lambda>r.
               ret (g\<lparr>pg_state := s, pg_processed := pg_processed g + 1\<rparr>, r)))) (\<lambda>(g, r).
        if terminal r then
          bindM (finish_record e i r) (\<lambda>_.
          ret (g\<lparr>pg_completed := pg_completed g + 1,
            pg_processed := (if stored = r then pg_processed g + 1 else pg_processed g)\<rparr>))
        else ret g))"

text \<open>A request that is new: its record and its reservation are on disk before anything is done for it.\<close>

definition begin_record ::
  "'x consumer_env \<Rightarrow> report_request \<Rightarrow> string \<Rightarrow> string \<Rightarrow> progress \<Rightarrow> ('x consumer_world, progress) io" where
  "begin_record e q digest key g =
     bindM (lift_sum (new_consumer_record q digest key)) (\<lambda>r.
     let s = (pg_state g)\<lparr>ns_records := dict_set (rq_request_id q) r (ns_records (pg_state g)),
           ns_reservations := dict_set key (rq_request_id q) (ns_reservations (pg_state g))\<rparr> in
     bindM (save_consumer_state e s) (\<lambda>_.
     bindM (transition_and_report e s (rq_request_id q)) (\<lambda>s.
     bindM (lift_sum (record_at s (rq_request_id q))) (\<lambda>r.
     let g = g\<lparr>pg_state := s, pg_processed := pg_processed g + 1\<rparr> in
     if terminal r then
       bindM (finish_record e (rq_request_id q) r) (\<lambda>_. ret (g\<lparr>pg_completed := pg_completed g + 1\<rparr>))
     else ret g))))"

definition consume_request ::
  "'x consumer_env \<Rightarrow> string list \<Rightarrow> string list \<Rightarrow> string \<Rightarrow> report_request \<Rightarrow> progress \<Rightarrow>
   ('x consumer_world, progress) io" where
  "consume_request e allowed doubtful digest q g =
     (let i = rq_request_id q; key = semantic_key (ne_queue e) q; stored = map_of (ns_records (pg_state g)) i in
      bindM (getsM (terminal_receipt (id_name i))) (\<lambda>ack.
      if (case stored of None \<Rightarrow> False | Some r \<Rightarrow> nr_line_digest r \<noteq> digest \<or> nr_semantic_key r \<noteq> key) \<or>
         (case ack of None \<Rightarrow> False | Some d \<Rightarrow> identity_conflicts d digest key)
      then bindM (write_line_receipt e ''conflict'' digest ''request_id_conflict'') (\<lambda>_. ret (settled_line g))
      else if ack \<noteq> None then ret g
      else bindM (getsM (\<lambda>w. terminal_receipt (sem_name key) w \<noteq> None)) (\<lambda>reported.
        if reported then bindM (write_dead_ack e q digest key ''duplicate_semantic'') (\<lambda>_. ret (settled_line g))
        else if rq_ticket q \<notin> set allowed
        then bindM (write_dead_ack e q digest key ''unknown_ticket'') (\<lambda>_. ret (settled_line g))
        else bindM (verify_request e q) (\<lambda>genuine.
          if \<not> genuine then bindM (write_dead_ack e q digest key ''bad_capability'') (\<lambda>_. ret (settled_line g))
          else if (case map_of (ns_reservations (pg_state g)) key of None \<Rightarrow> False | Some owner \<Rightarrow> owner \<noteq> i) then ret g
          else (case stored of
              Some r \<Rightarrow> continue_record e doubtful i r g
            | None \<Rightarrow> begin_record e q digest key g)))))"

definition consume_line ::
  "'x consumer_env \<Rightarrow> string list \<Rightarrow> string list \<Rightarrow> string \<Rightarrow> progress \<Rightarrow> ('x consumer_world, progress) io" where
  "consume_line e allowed doubtful raw g =
     (let digest = qe_digest (ne_queue e) raw in
      if length (newline_stripped raw) > MAX_LINE_BYTES
      then bindM (write_line_receipt e ''invalid'' digest ''malformed'') (\<lambda>_. ret (settled_line g))
      else case parse_line (ne_queue e) raw of
        None \<Rightarrow> bindM (write_line_receipt e ''invalid'' digest ''malformed'') (\<lambda>_. ret (settled_line g))
      | Some q \<Rightarrow> consume_request e allowed doubtful digest q g)"

fun consume_lines ::
  "'x consumer_env \<Rightarrow> string list \<Rightarrow> string list \<Rightarrow> string list \<Rightarrow> progress \<Rightarrow> ('x consumer_world, progress) io" where
  "consume_lines e allowed doubtful [] g = ret g"
| "consume_lines e allowed doubtful (raw # lines) g =
     (if pg_processed g \<ge> MAX_PROCESSED then ret g
      else bindM (consume_line e allowed doubtful raw g) (consume_lines e allowed doubtful lines))"

text \<open>A record is forgotten a month after its end, when both receipts are there.\<close>

definition collectable ::
  "'x consumer_env \<Rightarrow> int \<Rightarrow> string \<times> consumer_record \<Rightarrow> 'x consumer_world \<Rightarrow> py_exn + bool" where
  "collectable e now = (\<lambda>(i, r) w.
     if nr_report r = ''paused'' \<or> nr_terminal_at r = [] then Inr False
     else sum_bind (js_fromisoformat (ne_js e) (nr_terminal_at r)) (\<lambda>ended.
       sum_bind (dt_lt ended (Aware (now - GC_AGE) 0)) (\<lambda>old.
       Inr (old \<and> terminal_receipt (id_name i) w \<noteq> None \<and>
         terminal_receipt (sem_name (nr_semantic_key r)) w \<noteq> None))))"

fun collect_records ::
  "'x consumer_env \<Rightarrow> int \<Rightarrow> (string \<times> consumer_record) list \<Rightarrow> consumer_state \<Rightarrow>
   'x consumer_world \<Rightarrow> py_exn + consumer_state" where
  "collect_records e now [] s w = Inr s"
| "collect_records e now ((i, r) # rs) s w =
     sum_bind (collectable e now (i, r) w) (\<lambda>gone.
     collect_records e now rs (if gone
       then s\<lparr>ns_reservations := filter (\<lambda>(k, _). k \<noteq> nr_semantic_key r) (ns_reservations s)\<rparr>
       else s\<lparr>ns_records := ns_records s @ [(i, r)]\<rparr>) w)"

definition gc_state :: "'x consumer_env \<Rightarrow> consumer_state \<Rightarrow> ('x consumer_world, consumer_state) io" where
  "gc_state e s = bindM (utc_now e) (\<lambda>now. \<lambda>w. (collect_records e now (ns_records s) (s\<lparr>ns_records := []\<rparr>) w, w))"

definition fresh_budgets :: "'x consumer_world \<Rightarrow> 'x consumer_world" where
  "fresh_budgets w = w\<lparr>nw_post_left := MAX_POST_ATTEMPTS, nw_get_left := MAX_GET_PAGES, nw_cache := []\<rparr>"

definition refresh_capabilities :: "'x consumer_env \<Rightarrow> ('x consumer_world, unit) io" where
  "refresh_capabilities e = (\<lambda>w.
     case reconcile_capabilities (ne_capability e) (nw_registry w) 200 (nw_capabilities w) of
       (_, c) \<Rightarrow> (Inr (), w\<lparr>nw_capabilities := c\<rparr>))"

definition consume_locked :: "'x consumer_env \<Rightarrow> ('x consumer_world, int) io" where
  "consume_locked e =
     bindM (refresh_capabilities e) (\<lambda>_.
     bindM (load_consumer_state e) (\<lambda>s.
     bindM load_ticket_allowlist (\<lambda>allowed.
     bindM (modifyM fresh_budgets) (\<lambda>_.
     bindM (reconcile_start_records e s) (\<lambda>(s, completed, doubtful).
     bindM (getsM snapshot_lines) (\<lambda>snapshot. case snapshot of
       None \<Rightarrow> ret 0
     | Some lines \<Rightarrow>
         let queued_ids = map rq_request_id (List.map_filter (parse_line (ne_queue e)) lines) in
         bindM (resume_records e MAX_PROCESSED queued_ids doubtful (ns_records s) s 0 0) (\<lambda>(s, resumed, processed).
         bindM (consume_lines e allowed doubtful lines
           \<lparr>pg_state = s, pg_completed = completed + resumed, pg_processed = processed\<rparr>) (\<lambda>g.
         bindM (gc_state e (pg_state g)) (\<lambda>collected.
         bindM (if collected \<noteq> pg_state g then save_consumer_state e collected else ret ()) (\<lambda>_.
         ret (pg_completed g)))))))))))"

definition consume_once :: "'x consumer_env \<Rightarrow> ('x consumer_world, int) io" where
  "consume_once e = (\<lambda>w. if \<not> nw_lockable w then (Inr 0, w) else tryM (consume_locked e) (\<lambda>_. ret 0) w)"

end
