(* ===== verification/Consumer_Properties.thy ===== *)
theory Consumer_Properties
  imports Report_Consumer
begin

text \<open>
  What a tick of the report consumer keeps, for every board, every Discord and every outcome of its
  file writes: the state file it leaves can be loaded again, a report is posted only after the attempt
  is on disk, the budgets hold, and receipts are written once.
\<close>

section \<open>Computations that keep an invariant\<close>

definition keeping :: "('w \<Rightarrow> bool) \<Rightarrow> ('a \<Rightarrow> bool) \<Rightarrow> ('w, 'a) io \<Rightarrow> bool" where
  "keeping I Q m \<longleftrightarrow> hoare I m (\<lambda>a w. I w \<and> Q a) (\<lambda>_. I)"

named_theorems tick_keeps \<open>rules for computations that keep an invariant\<close>

lemma keepingI:
  assumes "\<And>w r w'. I w \<Longrightarrow> m w = (r, w') \<Longrightarrow> I w' \<and> (\<forall>a. r = Inr a \<longrightarrow> Q a)"
  shows "keeping I Q m"
  unfolding keeping_def using assms by (intro hoareI) fastforce+

lemma keepingD: "keeping I Q m \<Longrightarrow> I w \<Longrightarrow> m w = (r, w') \<Longrightarrow> I w' \<and> (\<forall>a. r = Inr a \<longrightarrow> Q a)"
  unfolding keeping_def by (cases r) (auto dest: hoareD1 hoareD2)

lemma keeping_ret [tick_keeps]: "Q a \<Longrightarrow> keeping I Q (ret a)"
  by (rule keepingI) (auto simp: ret_def)

lemma keeping_raise [tick_keeps]: "keeping I Q (raise x)"
  by (rule keepingI) (auto simp: raise_def)

lemma keeping_lift [tick_keeps]: "(\<And>a. r = Inr a \<Longrightarrow> Q a) \<Longrightarrow> keeping I Q (lift_sum r)"
  by (cases r) (auto simp: lift_sum_def intro: tick_keeps)

lemma keeping_gets [tick_keeps]: "(\<And>w. Q (f w)) \<Longrightarrow> keeping I Q (getsM f)"
  by (rule keepingI) (auto simp: getsM_def)

lemma keeping_bind: "keeping I Q m \<Longrightarrow> (\<And>a. Q a \<Longrightarrow> keeping I R (f a)) \<Longrightarrow> keeping I R (bindM m f)"
  by (rule keepingI) (fastforce simp: bindM_def split: prod.splits sum.splits dest: keepingD)

lemma keeping_any: "keeping I Q m \<Longrightarrow> keeping I (\<lambda>_. True) m"
  by (rule keepingI) (auto dest: keepingD)

lemma keeping_weaken: "keeping I Q m \<Longrightarrow> (\<And>a. Q a \<Longrightarrow> R a) \<Longrightarrow> keeping I R m"
  by (rule keepingI) (auto dest: keepingD)

lemma keeping_bind_any [tick_keeps]:
  "keeping I (\<lambda>_. True) m \<Longrightarrow> (\<And>a. keeping I R (f a)) \<Longrightarrow> keeping I R (bindM m f)"
  by (rule keeping_bind)

lemma keeping_try [tick_keeps]: "keeping I Q m \<Longrightarrow> (\<And>x. keeping I Q (h x)) \<Longrightarrow> keeping I Q (tryM m h)"
  by (rule keepingI) (fastforce simp: tryM_def split: prod.splits sum.splits dest: keepingD)

lemma keeping_attempt: "keeping I Q m \<Longrightarrow> keeping I (\<lambda>r. \<forall>a. r = Inr a \<longrightarrow> Q a) (attemptM m)"
  by (rule keepingI) (auto simp: attemptM_def split: prod.splits dest: keepingD)

lemma keeping_if [tick_keeps]: "(b \<Longrightarrow> keeping I Q m) \<Longrightarrow> (\<not> b \<Longrightarrow> keeping I Q m') \<Longrightarrow> keeping I Q (if b then m else m')"
  by simp

lemma keeping_option [tick_keeps]:
  "(v = None \<Longrightarrow> keeping I Q m) \<Longrightarrow> (\<And>x. v = Some x \<Longrightarrow> keeping I Q (f x)) \<Longrightarrow>
   keeping I Q (case v of None \<Rightarrow> m | Some x \<Rightarrow> f x)"
  by (cases v) auto

lemma keeping_mapM [tick_keeps]: "(\<And>x. x \<in> set xs \<Longrightarrow> keeping I (\<lambda>_. True) (f x)) \<Longrightarrow> keeping I (\<lambda>_. True) (mapM f xs)"
  by (induction xs) (auto intro!: tick_keeps)

section \<open>Well-formed states\<close>

definition record_fine :: "consumer_record \<Rightarrow> bool" where
  "record_fine r \<longleftrightarrow> nr_transition r \<in> set TRANSITIONS_OF_RECORD \<and> nr_report r \<in> set REPORTS_OF_RECORD \<and>
     nr_terminal_reason r \<in> set TERMINAL_REASONS \<and> nr_operation r \<in> {''complete'', ''reopen''} \<and>
     0 \<le> nr_transition_attempts r \<and> 0 \<le> nr_report_attempts r \<and> 0 \<le> nr_reconcile_attempts r \<and>
     (nr_report r \<in> {''in_flight'', ''done'', ''paused''} \<longrightarrow> nr_transition r = ''done'')"

definition state_fine :: "json_codec \<Rightarrow> consumer_state \<Rightarrow> bool" where
  "state_fine js s \<longleftrightarrow> distinct (map fst (ns_records s)) \<and> distinct (map fst (ns_reservations s)) \<and> reserved s \<and>
     (\<forall>(i, r) \<in> set (ns_records s). record_fine r) \<and> stored_moment js (ns_last_timestamp s) = Inr ()"

definition in_key_order :: "consumer_state \<Rightarrow> consumer_state" where
  "in_key_order s = s\<lparr>ns_records := sort_key fst (ns_records s), ns_reservations := sort_key fst (ns_reservations s)\<rparr>"

lemma parse_record_back: "record_fine r \<Longrightarrow> parse_record (JObj (record_payload r)) = Inr r"
  by (auto simp: record_fine_def parse_record_def record_payload_def CONSUMER_RECORD_KEYS_def string_field_def
      counter_field_def operation_field_def jget_def int_value_def)

lemma parse_records_back:
  "(\<And>i r. (i, r) \<in> set rs \<Longrightarrow> record_fine r) \<Longrightarrow> parse_records (map (\<lambda>(i, r). (i, JObj (record_payload r))) rs) = Inr rs"
proof (induction rs)
  case (Cons p rs)
  obtain i r where p: "p = (i, r)" by fastforce
  have "record_fine r" "parse_records (map (\<lambda>(i, r). (i, JObj (record_payload r))) rs) = Inr rs"
    using Cons p by auto
  then show ?case by (simp add: p parse_record_back)
qed simp

lemma parse_reservations_back: "parse_reservations (map (\<lambda>(k, i). (k, JStr i)) rs) = Inr rs"
  by (induction rs) auto

lemma insort_key_map_snd:
  "insort_key fst (k, f v) (map (\<lambda>(k, v). (k, f v)) xs) = map (\<lambda>(k, v). (k, f v)) (insort_key fst (k, v) xs)"
  by (induction xs) auto

lemma sort_key_map_snd: "sort_key fst (map (\<lambda>(k, v). (k, f v)) xs) = map (\<lambda>(k, v). (k, f v)) (sort_key fst xs)"
  by (induction xs) (auto simp: insort_key_map_snd)

lemma distinct_in_key_order: "distinct (map fst (sort_key fst xs)) = distinct (map fst xs)"
  by (rule mset_eq_imp_distinct_iff) simp

lemma map_of_in_key_order: "distinct (map fst xs) \<Longrightarrow> map_of (sort_key fst xs) = map_of xs"
proof (rule map_of_eqI)
  show "set (map fst (sort_key fst xs)) = set (map fst xs)" by simp
next
  assume d: "distinct (map fst xs)"
  then have "distinct (map fst (sort_key fst xs))" by (simp only: distinct_in_key_order)
  then show "\<forall>k \<in> set (map fst (sort_key fst xs)). map_of (sort_key fst xs) k = map_of xs k"
    using d by (auto simp: map_of_eq_Some_iff)
qed

text \<open>What is saved is what is loaded, with the keys in order.\<close>

lemma state_back: "state_fine js s \<Longrightarrow> state_of_json js (state_json s) = Inr (in_key_order s)"
proof -
  assume s: "state_fine js s"
  have records: "parse_records (sort_key fst (map (\<lambda>(i, r). (i, JObj (record_payload r))) (ns_records s))) =
      Inr (sort_key fst (ns_records s))"
    unfolding sort_key_map_snd using s by (intro parse_records_back) (auto simp: state_fine_def)
  have reservations: "parse_reservations (sort_key fst (map (\<lambda>(k, i). (k, JStr i)) (ns_reservations s))) =
      Inr (sort_key fst (ns_reservations s))"
    unfolding sort_key_map_snd by (rule parse_reservations_back)
  have "reserved (in_key_order s)"
    using s map_of_in_key_order[of "ns_reservations s"]
    by (auto simp: reserved_def in_key_order_def state_fine_def list_all_iff)
  then show ?thesis
    using s records reservations
    by (cases s) (auto simp: state_of_json_def state_json_def jget_def Let_def in_key_order_def state_fine_def)
qed

lemma in_key_order_fine: "state_fine js s \<Longrightarrow> state_fine js (in_key_order s)"
proof -
  assume s: "state_fine js s"
  then show ?thesis
    using map_of_in_key_order[of "ns_reservations s"]
    by (auto simp: reserved_def in_key_order_def state_fine_def list_all_iff distinct_in_key_order dest: map_of_SomeD)
qed

text \<open>A record that may be stored under \<open>i\<close>: it has the reservation of its identity.\<close>

definition holds :: "consumer_state \<Rightarrow> string \<Rightarrow> consumer_record \<Rightarrow> bool" where
  "holds s i r \<longleftrightarrow> record_fine r \<and> map_of (ns_reservations s) (nr_semantic_key r) = Some i"

lemma record_at_holds: "state_fine js s \<Longrightarrow> record_at s i = Inr r \<Longrightarrow> holds s i r"
  by (fastforce simp: state_fine_def reserved_def list_all_iff record_at_def holds_def split: option.splits dest: map_of_SomeD)

lemma set_dict_set_sub: "set (dict_set k v d) \<subseteq> insert (k, v) (set d)"
  by (induction k v d rule: dict_set.induct) auto

lemma with_record_fine: "state_fine js s \<Longrightarrow> holds s i r \<Longrightarrow> state_fine js (with_record s i r)"
  using set_dict_set_sub[of i r "ns_records s"]
  by (fastforce simp: state_fine_def reserved_def list_all_iff with_record_def holds_def)

lemma holds_with_record [simp]: "holds (with_record s j r') i r = holds s i r"
  by (simp add: holds_def with_record_def)

lemma record_at_with [simp]: "record_at (with_record s i r) i = Inr r"
  by (simp add: record_at_def with_record_def)

section \<open>The invariant of a tick\<close>

definition good_file :: "json_codec \<Rightarrow> (py_exn + json) option \<Rightarrow> bool" where
  "good_file js f \<longleftrightarrow> f = None \<or> (\<exists>s. f = Some (Inr (state_json s)) \<and> state_fine js s)"

text \<open>
  A post is announced: when it is made the state file says that a record whose card has arrived is in
  flight under the time of the posted report, and the body is a piece of that report.
\<close>

definition announced :: "'x consumer_env \<Rightarrow> string \<times> (py_exn + json) option \<Rightarrow> bool" where
  "announced e p \<longleftrightarrow> (\<exists>s i r agent stamp body chunks.
     snd p = Some (Inr (state_json s)) \<and> map_of (ns_records s) i = Some r \<and> nr_transition r = ''done'' \<and>
     nr_report r = ''in_flight'' \<and> nr_report_timestamp r = ns_last_timestamp s \<and>
     js_fromisoformat (ne_js e) (nr_report_timestamp r) = Inr stamp \<and>
     report_text (send_ports_of e) agent (request_copy r) stamp = Inr body \<and>
     message_chunks body = Inr chunks \<and> fst p \<in> set chunks)"

text \<open>The receipts: of a line, of a record that ended, and the marker of a report that was made.\<close>

definition receipt_for :: "'x consumer_env \<Rightarrow> string \<Rightarrow> py_exn + json \<Rightarrow> bool" where
  "receipt_for e name v \<longleftrightarrow>
     (\<exists>i r. record_fine r \<and> terminal r \<and> v = Inr (ack_payload i r) \<and>
        (name = id_name i \<or> name = sem_name (nr_semantic_key r))) \<or>
     (\<exists>r. record_fine r \<and> nr_report r = ''done'' \<and> name = reported_name e r) \<or>
     (\<exists>digest. name = ''invalid-'' @ digest @ ''.json'' \<or> name = ''conflict-'' @ digest @ ''.json'')"

definition consumer_inv ::
  "'x consumer_env \<Rightarrow> 'x consumer_world \<Rightarrow> json option \<Rightarrow> 'x consumer_world \<Rightarrow> bool" where
  "consumer_inv e w0 pinned w \<longleftrightarrow> good_file (ne_js e) (nw_state w) \<and>
     (\<forall>doc. pinned = Some doc \<longrightarrow> nw_state w = Some (Inr doc)) \<and>
     (\<exists>more. nw_posts w = nw_posts w0 @ more \<and> list_all (announced e) more) \<and>
     length (nw_posts w) + nw_post_left w \<le> length (nw_posts w0) + MAX_POST_ATTEMPTS \<and>
     length (nw_gets w) + nw_get_left w \<le> length (nw_gets w0) + MAX_GET_PAGES \<and>
     (\<forall>n. nw_ack w0 n \<noteq> None \<longrightarrow> nw_ack w n = nw_ack w0 n) \<and>
     (\<forall>n v. nw_ack w0 n = None \<and> nw_ack w n = Some v \<longrightarrow> receipt_for e n v)"

lemma inv_net [simp]:
  "consumer_inv e w0 pin (w\<lparr>nw_net := x\<rparr>) = consumer_inv e w0 pin w"
  "consumer_inv e w0 pin (w\<lparr>nw_cache := c\<rparr>) = consumer_inv e w0 pin w"
  "consumer_inv e w0 pin (w\<lparr>nw_bot_id := b\<rparr>) = consumer_inv e w0 pin w"
  "consumer_inv e w0 pin (w\<lparr>nw_writes := n\<rparr>) = consumer_inv e w0 pin w"
  by (simp_all add: consumer_inv_def)

lemma keeping_net [tick_keeps]: "keeping (consumer_inv e w0 pin) (\<lambda>_. True) (on_net m)"
  by (rule keepingI) (auto simp: on_net_def split: prod.splits)

lemma keeping_clock [tick_keeps]: "keeping (consumer_inv e w0 pin) (\<lambda>_. True) (utc_now e)"
  unfolding utc_now_def by (rule tick_keeps)

lemma keeping_utc_text [tick_keeps]: "keeping (consumer_inv e w0 pin) (\<lambda>_. True) (utc_text e)"
  unfolding utc_text_def by (intro tick_keeps) simp

lemma keeping_take_post: "keeping (consumer_inv e w0 pin) (\<lambda>_. True) take_post"
  by (rule keepingI) (auto simp: take_post_def consumer_inv_def split: if_splits)

lemma keeping_fetch [tick_keeps]: "keeping (consumer_inv e w0 pin) (\<lambda>_. True) (budget_fetch e path)"
proof (rule keepingI)
  fix w r w' assume i: "consumer_inv e w0 pin w" and run: "budget_fetch e path w = (r, w')"
  let ?m = "bindM (on_net (ne_fetch e path)) (\<lambda>v. bindM (modifyM (\<lambda>w. w\<lparr>nw_cache := dict_set path v (nw_cache w)\<rparr>)) (\<lambda>_. ret v))"
  have m: "keeping (consumer_inv e w0 pin) (\<lambda>_. True) ?m"
    by (rule keepingI) (auto simp: bindM_def modifyM_def ret_def on_net_def split: prod.splits sum.splits)
  let ?w1 = "if py_in ''/messages'' path then w\<lparr>nw_get_left := nw_get_left w - 1, nw_gets := nw_gets w @ [path]\<rparr> else w"
  consider (same) "w' = w" | (asked) "py_in ''/messages'' path \<Longrightarrow> 0 < nw_get_left w" "?m ?w1 = (r, w')"
    using run by (auto simp: budget_fetch_def Let_def split: if_splits)
  then show "consumer_inv e w0 pin w' \<and> (\<forall>a. r = Inr a \<longrightarrow> True)"
  proof cases
    case asked
    then have "consumer_inv e w0 pin ?w1" using i by (auto simp: consumer_inv_def)
    then show ?thesis using keepingD[OF m _ asked(2)] by simp
  qed (use i in simp)
qed

lemma ports_select [simp]:
  "sp_config (send_ports_of e) = on_net (ne_config e)" "sp_notice_channel (send_ports_of e) = on_net (ne_notice_channel e)"
  "sp_token (send_ports_of e) = on_net (ne_token e)" "sp_fetch (send_ports_of e) = budget_fetch e"
  "sp_sleep (send_ports_of e) = (\<lambda>d. on_net (ne_sleep e d))" "sp_budget (send_ports_of e) = take_post"
  "sp_bot_id (send_ports_of e) = nw_bot_id" "sp_js (send_ports_of e) = ne_js e"
  "sp_float (send_ports_of e) = ne_float e"
  by (simp_all add: send_ports_of_def)

lemma keeping_config [tick_keeps]: "keeping (consumer_inv e w0 pin) (\<lambda>_. True) (load_report_config (send_ports_of e))"
  unfolding load_report_config_def by (rule keeping_bind_any) (auto intro!: tick_keeps split: json.split)

lemma keeping_watermark [tick_keeps]: "keeping (consumer_inv e w0 pin) (\<lambda>_. True) (channel_watermark (send_ports_of e))"
  unfolding channel_watermark_def by (auto intro!: tick_keeps split: prod.split list.split)

lemma keeping_bot_id [tick_keeps]: "keeping (consumer_inv e w0 pin) (\<lambda>_. True) (bot_user_id (send_ports_of e))"
proof (rule keepingI)
  let ?m = "bindM (budget_fetch e ''/users/@me'') (\<lambda>payload. case payload of
       JObj d \<Rightarrow> bindM (lift_sum (decimal_id (jget d ''id''))) (\<lambda>i.
         bindM (modifyM (sp_keep_bot_id (send_ports_of e) i)) (\<lambda>_. ret i))
     | _ \<Rightarrow> raise DiscordResponseError)"
  have "keeping (consumer_inv e w0 pin) (\<lambda>_. True) (modifyM (sp_keep_bot_id (send_ports_of e) i))" for i
    by (rule keepingI) (auto simp: modifyM_def send_ports_of_def)
  then have m: "keeping (consumer_inv e w0 pin) (\<lambda>_. True) ?m" by (auto intro!: tick_keeps split: json.split)
  fix w r w' assume "consumer_inv e w0 pin w" "bot_user_id (send_ports_of e) w = (r, w')"
  then show "consumer_inv e w0 pin w' \<and> (\<forall>a. r = Inr a \<longrightarrow> True)"
    using keepingD[OF m] by (cases "nw_bot_id w") (auto simp: bot_user_id_def)
qed

lemma keeping_window_pages:
  "keeping (consumer_inv e w0 pin) (\<lambda>_. True) (window_pages n (send_ports_of e) h l channel current before collected)"
  by (induction n arbitrary: current before collected) (auto simp: Let_def intro!: tick_keeps)

lemma keeping_find [tick_keeps]:
  "keeping (consumer_inv e w0 pin) (\<lambda>_. True) (find_report (send_ports_of e) task status timestamp high low cursor)"
proof -
  have "keeping (consumer_inv e w0 pin) (\<lambda>_. True) (iter_window (send_ports_of e) high low cursor)"
    unfolding iter_window_def by (auto intro!: tick_keeps keeping_window_pages split: prod.split)
  then show ?thesis unfolding find_report_def by (auto intro!: tick_keeps split: prod.split)
qed

section \<open>Sending keeps the invariant\<close>

lemma keeping_post:
  assumes "announced e (content, Some (Inr doc))"
  shows "keeping (consumer_inv e w0 (Some doc)) (\<lambda>_. True)
     (bindM take_post (\<lambda>_. sp_post (send_ports_of e) token channel content))"
proof (rule keepingI)
  let ?I = "consumer_inv e w0 (Some doc)"
  fix w r w' assume i: "?I w" and run: "bindM take_post (\<lambda>_. sp_post (send_ports_of e) token channel content) w = (r, w')"
  let ?w = "w\<lparr>nw_post_left := nw_post_left w - 1, nw_posts := nw_posts w @ [(content, nw_state w)]\<rparr>"
  show "?I w' \<and> (\<forall>a. r = Inr a \<longrightarrow> True)"
  proof (cases "nw_post_left w = 0")
    case True
    then show ?thesis using run i by (auto simp: bindM_def take_post_def)
  next
    case False
    then have "on_net (ne_post e token channel content) ?w = (r, w')"
      using run by (simp add: bindM_def take_post_def send_ports_of_def)
    moreover have "?I ?w"
      using i assms False by (auto simp: consumer_inv_def)
    ultimately show ?thesis using keepingD[OF keeping_net] by blast
  qed
qed

lemma keeping_post_chunk:
  assumes "announced e (content, Some (Inr doc))"
  shows "keeping (consumer_inv e w0 (Some doc)) (\<lambda>_. True) (post_chunk n (send_ports_of e) token channel content)"
proof (induction n)
  case (Suc n)
  let ?post = "bindM take_post (\<lambda>_. sp_post (send_ports_of e) token channel content)"
  have split: "bindM take_post (\<lambda>_. bindM (sp_post (send_ports_of e) token channel content) f) = bindM ?post f"
    for f :: "http_response \<Rightarrow> ('a consumer_world, string) io" by (simp add: bindM_assoc)
  show ?case
    unfolding post_chunk.simps ports_select split
    by (rule keeping_bind_any[OF keeping_post[OF assms]]) (auto intro!: tick_keeps Suc)
qed (simp add: tick_keeps)

lemma keeping_send:
  assumes "map_of (ns_records s) i = Some r" and "nr_transition r = ''done''" and "nr_report r = ''in_flight''"
    and "nr_report_timestamp r = ns_last_timestamp s"
    and "js_fromisoformat (ne_js e) (nr_report_timestamp r) = Inr stamp"
  shows "keeping (consumer_inv e w0 (Some (state_json s))) (\<lambda>_. True)
     (send_report n (send_ports_of e) (request_copy r) stamp)"
proof -
  have chunk: "keeping (consumer_inv e w0 (Some (state_json s))) (\<lambda>_. True)
      (mapM (post_chunk n (send_ports_of e) token channel) chunks)"
    if "report_text (send_ports_of e) agent (request_copy r) stamp = Inr body" "message_chunks body = Inr chunks"
    for agent body chunks token channel
  proof (rule keeping_mapM, rule keeping_post_chunk)
    fix content assume "content \<in> set chunks"
    then show "announced e (content, Some (Inr (state_json s)))"
      unfolding announced_def using assms that by fastforce
  qed
  have direct: "keeping (consumer_inv e w0 (Some (state_json s))) (\<lambda>_. True) (send_direct n (send_ports_of e) body)"
    if "report_text (send_ports_of e) agent (request_copy r) stamp = Inr body" for agent body
    unfolding send_direct_def
    apply (rule keeping_bind_any, rule tick_keeps)
    apply (simp add: split_beta)
    apply (rule keeping_bind_any, rule tick_keeps)
    apply (rule keeping_bind[where Q = "\<lambda>chunks. message_chunks body = Inr chunks"], rule keeping_lift, assumption)
    by (rule chunk[OF that])
  show ?thesis
    unfolding send_report_def
    apply (rule keeping_bind_any, rule tick_keeps)
    subgoal for config
      apply (cases config)
      apply simp
      apply (rule keeping_bind[where Q = "\<lambda>body. report_text (send_ports_of e) (fst config) (request_copy r) stamp = Inr body"])
       apply (rule keeping_lift, simp)
      apply (rule keeping_bind_any, rule direct, assumption)
      by (rule keeping_ret) simp
    done
qed

section \<open>Writing keeps the invariant\<close>

lemma inv_unpinned: "consumer_inv e w0 pin w \<Longrightarrow> consumer_inv e w0 None w"
  by (simp add: consumer_inv_def)

lemma save_hoare:
  assumes "state_fine (ne_js e) s"
  shows "hoare (consumer_inv e w0 pin) (save_consumer_state e s)
     (\<lambda>_. consumer_inv e w0 (Some (state_json s))) (\<lambda>_. consumer_inv e w0 None)"
proof -
  have good: "good_file (ne_js e) (Some (Inr (state_json s)))" using assms by (auto simp: good_file_def)
  show ?thesis
    using good by (auto simp: hoare_def save_consumer_state_def write_state_def Let_def consumer_inv_def split: write_outcome.split)
qed

lemma keeping_save [tick_keeps]:
  assumes "state_fine (ne_js e) s"
  shows "keeping (consumer_inv e w0 None) (\<lambda>_. True) (save_consumer_state e s)"
  unfolding keeping_def using inv_unpinned by (intro hoare_conseq[OF save_hoare[OF assms, of w0 None]]) auto

lemma store_hoare:
  assumes "state_fine (ne_js e) (with_record s i r)"
  shows "hoare (consumer_inv e w0 pin) (store_record e s i r)
     (\<lambda>s' w. s' = with_record s i r \<and> consumer_inv e w0 (Some (state_json (with_record s i r))) w) (\<lambda>_. consumer_inv e w0 None)"
  unfolding store_record_def
  by (rule hoare_bind[OF save_hoare[OF assms]]) (simp add: hoare_def ret_def)

lemma keeping_store:
  assumes "state_fine (ne_js e) (with_record s i r)"
  shows "keeping (consumer_inv e w0 None) (\<lambda>s'. s' = with_record s i r) (store_record e s i r)"
  unfolding keeping_def using inv_unpinned by (intro hoare_conseq[OF store_hoare[OF assms, of w0 None]]) auto

lemma keeping_write_receipt:
  assumes "\<And>v. v = Inr doc \<Longrightarrow> receipt_for e name v"
  shows "keeping (consumer_inv e w0 None) (\<lambda>_. True) (write_receipt e name doc)"
  using assms
  by (intro keepingI) (auto simp: write_receipt_def Let_def consumer_inv_def split: if_splits write_outcome.splits)

section \<open>The steps of a record\<close>

text \<open>The transitions of the records, which reconciliation leaves alone.\<close>

definition transitions_kept :: "consumer_state \<Rightarrow> consumer_state \<Rightarrow> bool" where
  "transitions_kept s s' \<longleftrightarrow> (\<forall>j. map_option nr_transition (map_of (ns_records s') j) = map_option nr_transition (map_of (ns_records s) j))"

definition stands :: "json_codec \<Rightarrow> consumer_state \<Rightarrow> string \<Rightarrow> consumer_record \<Rightarrow> bool" where
  "stands js s i r \<longleftrightarrow> state_fine js s \<and> holds s i r \<and> nr_transition r = ''done'' \<and>
     map_option nr_transition (map_of (ns_records s) i) = Some ''done''"

definition steady :: "json_codec \<Rightarrow> consumer_state \<Rightarrow> consumer_state \<Rightarrow> bool" where
  "steady js s s' \<longleftrightarrow> state_fine js s' \<and> transitions_kept s s'"

lemma kept_refl [simp]: "transitions_kept s s"
  by (simp add: transitions_kept_def)

lemma kept_trans: "transitions_kept s s' \<Longrightarrow> transitions_kept s' s'' \<Longrightarrow> transitions_kept s s''"
  by (simp add: transitions_kept_def)

lemma steady_refl: "stands js s i r \<Longrightarrow> steady js s s"
  by (simp add: stands_def steady_def)

lemma steady_trans: "steady js s s' \<Longrightarrow> steady js s' s'' \<Longrightarrow> steady js s s''"
  using kept_trans by (auto simp: steady_def)

lemma stands_store: "stands js s i r \<Longrightarrow> steady js s (with_record s i r) \<and> stands js (with_record s i r) i r"
  using with_record_fine[of js s i r]
  by (auto simp: stands_def steady_def transitions_kept_def) (auto simp: with_record_def)

lemma stands_record: "stands js s i r \<Longrightarrow> record_fine r \<and> nr_transition r = ''done''"
  by (simp add: stands_def holds_def)

lemma stands_update:
  "stands js s i r \<Longrightarrow> record_fine r' \<Longrightarrow> nr_semantic_key r' = nr_semantic_key r \<Longrightarrow> nr_transition r' = ''done'' \<Longrightarrow>
   stands js s i r'"
  by (simp add: stands_def holds_def)

lemma stands_at: "stands js s i r \<Longrightarrow> record_at s i = Inr r' \<Longrightarrow> stands js s i r'"
  using record_at_holds[of js s i r'] by (auto simp: stands_def record_at_def split: option.splits)

lemma done_stands: "state_fine js s \<Longrightarrow> record_at s i = Inr r \<Longrightarrow> nr_transition r = ''done'' \<Longrightarrow> stands js s i r"
  using record_at_holds[of js s i r] by (auto simp: stands_def record_at_def split: option.splits)

abbreviation keeps_inv :: "'x consumer_env \<Rightarrow> 'x consumer_world \<Rightarrow> ('a \<Rightarrow> bool) \<Rightarrow> ('x consumer_world, 'a) io \<Rightarrow> bool" where
  "keeps_inv e w0 \<equiv> keeping (consumer_inv e w0 None)"

text \<open>Reading a record of the state, for a computation that goes on with it.\<close>

lemma keeping_record:
  assumes "\<And>r. record_at s i = Inr r \<Longrightarrow> keeping I Q (f r)"
  shows "keeping I Q (bindM (lift_sum (record_at s i)) f)"
  by (rule keeping_bind[where Q = "\<lambda>r. record_at s i = Inr r"], rule keeping_lift, assumption, rule assms)

lemma stands_store_keeps:
  assumes "stands (ne_js e) s i r"
  shows "keeps_inv e w0 (\<lambda>s'. s' = with_record s i r \<and> steady (ne_js e) s s' \<and> stands (ne_js e) s' i r) (store_record e s i r)"
proof (rule keeping_weaken[OF keeping_store])
  show "state_fine (ne_js e) (with_record s i r)" using stands_store[OF assms] by (simp add: steady_def)
qed (use stands_store[OF assms] in simp)

lemma steady_store_keeps:
  assumes "stands (ne_js e) s i r"
  shows "keeps_inv e w0 (steady (ne_js e) s) (store_record e s i r)"
  by (rule keeping_weaken[OF stands_store_keeps[OF assms]]) simp

text \<open>Changing the progress of a report leaves a record fine.\<close>

lemma record_fine_updates:
  assumes "record_fine r" and "nr_transition r = ''done''"
  shows "record_fine (r\<lparr>nr_last_warning_at := t\<rparr>)" "record_fine (r\<lparr>nr_report := ''paused''\<rparr>)"
    "record_fine (r\<lparr>nr_high := h, nr_cursor := c\<rparr>)" "record_fine (r\<lparr>nr_cursor := c\<rparr>)"
    "0 \<le> n \<Longrightarrow> record_fine (r\<lparr>nr_reconcile_attempts := n\<rparr>)" "0 \<le> n \<Longrightarrow> record_fine (r\<lparr>nr_report_attempts := n\<rparr>)"
    "record_fine (r\<lparr>nr_report := ''in_flight'', nr_report_timestamp := t, nr_watermark := m, nr_high := h, nr_cursor := c\<rparr>)"
    "record_fine (r\<lparr>nr_report := ''done'', nr_terminal_reason := ''ok'', nr_message_last4 := m, nr_terminal_at := t\<rparr>)"
    "record_fine (r\<lparr>nr_report := ''done'', nr_terminal_reason := ''ok'', nr_cursor := c, nr_terminal_at := t\<rparr>)"
  using assms by (auto simp: record_fine_def TRANSITIONS_OF_RECORD_def REPORTS_OF_RECORD_def TERMINAL_REASONS_def)

lemma warn_keeps:
  assumes "stands (ne_js e) s i r"
  shows "keeps_inv e w0 (steady (ne_js e) s) (warn_paused e s i)"
  unfolding warn_paused_def kst_now_def bindM_assoc bindM_ret
proof (rule keeping_record, rule keeping_bind_any[OF keeping_clock], rule keeping_bind_any)
  fix r' now and today :: bool assume "record_at s i = Inr r'"
  then have r': "stands (ne_js e) s i r'" using assms stands_at by blast
  then have "stands (ne_js e) s i (r'\<lparr>nr_last_warning_at := t\<rparr>)" for t
    by (rule stands_update) (use stands_record[OF r'] record_fine_updates in simp_all)
  then show "keeps_inv e w0 (steady (ne_js e) s) (if today then ret s
      else store_record e s i (r'\<lparr>nr_last_warning_at := js_isoformat (ne_js e) (Aware (now + KST) KST)\<rparr>))"
    by (intro keeping_if keeping_ret steady_store_keeps steady_refl[OF assms])
qed (simp add: tick_keeps)

lemma pause_keeps:
  assumes "stands (ne_js e) s i r"
  shows "keeps_inv e w0 (steady (ne_js e) s) (pause_report e s i)"
  unfolding pause_report_def
proof (rule keeping_record)
  fix r' assume "record_at s i = Inr r'"
  then have r': "stands (ne_js e) s i r'" using assms stands_at by blast
  then have p: "stands (ne_js e) s i (r'\<lparr>nr_report := ''paused''\<rparr>)"
    by (rule stands_update) (use stands_record[OF r'] record_fine_updates in simp_all)
  show "keeps_inv e w0 (steady (ne_js e) s) (bindM (store_record e s i (r'\<lparr>nr_report := ''paused''\<rparr>)) (\<lambda>s. warn_paused e s i))"
    by (rule keeping_bind[OF stands_store_keeps[OF p]], rule keeping_weaken[OF warn_keeps])
      (auto intro: steady_trans)
qed

text \<open>The times of the reports are aware moments, written so that they read back.\<close>

definition dates_read_back :: "json_codec \<Rightarrow> bool" where
  "dates_read_back js \<longleftrightarrow> (\<forall>d. dt_aware d \<longrightarrow> js_fromisoformat js (js_isoformat js d) = Inr d)"

definition stamped_state :: "json_codec \<Rightarrow> consumer_state \<Rightarrow> consumer_state \<times> string \<Rightarrow> bool" where
  "stamped_state js s = (\<lambda>(s', t). s' = s\<lparr>ns_last_timestamp := t\<rparr> \<and> (\<exists>d. dt_aware d \<and> js_fromisoformat js t = Inr d))"

lemma timestamp_keeps:
  assumes "dates_read_back (ne_js e)"
  shows "keeps_inv e w0 (stamped_state (ne_js e) s) (next_timestamp e s)"
  unfolding next_timestamp_def kst_now_def bindM_assoc bindM_ret
proof (rule keeping_bind_any[OF keeping_clock], rule keeping_bind[where Q = dt_aware])
  fix now
  show "keeps_inv e w0 dt_aware (if ns_last_timestamp s = [] then ret (Aware (now + KST) KST)
      else lift_sum (sum_bind (js_fromisoformat (ne_js e) (ns_last_timestamp s)) (\<lambda>previous.
        sum_bind (dt_lt previous (Aware (now + KST) KST)) (\<lambda>later.
        if later then Inr (Aware (now + KST) KST) else dt_add previous 1))))"
    by (intro keeping_if keeping_ret keeping_lift)
      (auto simp: dt_lt_Inr dest!: dt_add_instant split: if_splits elim!: sum_bind_InrE)
  fix stamp assume "dt_aware stamp"
  then show "keeps_inv e w0 (stamped_state (ne_js e) s) (let timestamp = js_isoformat (ne_js e) stamp
      in ret (s\<lparr>ns_last_timestamp := timestamp\<rparr>, timestamp))"
    unfolding Let_def using assms by (intro keeping_ret) (auto simp: stamped_state_def dates_read_back_def)
qed

lemma stamped_fine:
  assumes "stamped_state js s (s', t)" and "stands js s i r"
  shows "steady js s s' \<and> stands js s' i r"
  using assms
  by (auto simp: stamped_state_def stands_def steady_def transitions_kept_def state_fine_def reserved_def
      holds_def stored_moment_def)

lemma send_in_flight_hoare:
  assumes "stands (ne_js e) s i r" and "map_of (ns_records s) i = Some r" and "nr_report r = ''in_flight''"
    and "nr_report_timestamp r = ns_last_timestamp s"
  shows "hoare (consumer_inv e w0 (Some (state_json s))) (send_in_flight e s i)
     (\<lambda>s' w. consumer_inv e w0 None w \<and> steady (ne_js e) s s') (\<lambda>_. consumer_inv e w0 None)"
proof -
  let ?J = "consumer_inv e w0 (Some (state_json s))"
  let ?sending = "tryM (bindM (lift_sum (js_fromisoformat (ne_js e) (nr_report_timestamp r))) (\<lambda>stamp.
      bindM (send_report (Suc MAX_POST_ATTEMPTS) (send_ports_of e) (request_copy r) stamp) (\<lambda>suffix. ret (Some suffix))))
      (\<lambda>_. ret None)"
  have sent: "keeping ?J (\<lambda>_. True) ?sending"
    using keeping_send[OF assms(2) _ assms(3,4)] stands_record[OF assms(1)]
    by (intro keeping_try keeping_bind[OF keeping_lift] keeping_bind_any keeping_ret) auto
  have stored: "stands (ne_js e) s i (r\<lparr>nr_report := ''done'', nr_terminal_reason := ''ok'',
      nr_message_last4 := m, nr_terminal_at := t\<rparr>)" for m t
    using assms(1) by (rule stands_update) (use stands_record[OF assms(1)] record_fine_updates in simp_all)
  have after: "keeps_inv e w0 (steady (ne_js e) s) (case v of None \<Rightarrow> ret s | Some suffix \<Rightarrow>
      bindM (utc_text e) (\<lambda>now. store_record e s i (r\<lparr>nr_report := ''done'', nr_terminal_reason := ''ok'',
        nr_message_last4 := suffix, nr_terminal_at := now\<rparr>)))" for v
    by (intro keeping_option keeping_ret keeping_bind_any[OF keeping_utc_text] steady_store_keeps stored
        steady_refl[OF assms(1)])
  have go: "send_in_flight e s i = bindM ?sending (\<lambda>v. case v of None \<Rightarrow> ret s | Some suffix \<Rightarrow>
      bindM (utc_text e) (\<lambda>now. store_record e s i (r\<lparr>nr_report := ''done'', nr_terminal_reason := ''ok'',
        nr_message_last4 := suffix, nr_terminal_at := now\<rparr>)))"
    using assms(2) by (simp add: send_in_flight_def record_at_def lift_sum_def)
  show ?thesis
    unfolding go
  proof (rule hoare_bind)
    show "hoare ?J ?sending (\<lambda>_. consumer_inv e w0 None) (\<lambda>_. consumer_inv e w0 None)"
      using sent unfolding keeping_def by (rule hoare_conseq) (auto dest: inv_unpinned)
  qed (use after in \<open>simp add: keeping_def\<close>)
qed

lemma announce_keeps:
  assumes "dates_read_back (ne_js e)" and "stands (ne_js e) s i r"
  shows "keeps_inv e w0 (steady (ne_js e) s) (announce_and_send e s i r)"
proof -
  let ?r = "\<lambda>t m. r\<lparr>nr_report := ''in_flight'', nr_report_timestamp := t, nr_watermark := m, nr_high := [], nr_cursor := []\<rparr>"
  have step: "keeps_inv e w0 (steady (ne_js e) s) (bindM (store_record e s' i (?r t m)) (\<lambda>s. send_in_flight e s i))"
    if st: "stamped_state (ne_js e) s (s', t)" for s' t m
  proof -
    note f = stamped_fine[OF st assms(2)]
    have "stands (ne_js e) s' i r" using f by simp
    then have r: "stands (ne_js e) s' i (?r t m)"
      by (rule stands_update) (use stands_record[OF assms(2)] record_fine_updates in simp_all)
    let ?s = "with_record s' i (?r t m)"
    have k: "steady (ne_js e) s' ?s" "stands (ne_js e) ?s i (?r t m)" using stands_store[OF r] by simp_all
    have fine: "state_fine (ne_js e) ?s" using k by (simp add: steady_def)
    have send: "hoare (consumer_inv e w0 (Some (state_json ?s))) (send_in_flight e ?s i)
        (\<lambda>s'' w. consumer_inv e w0 None w \<and> steady (ne_js e) ?s s'') (\<lambda>_. consumer_inv e w0 None)"
      by (rule send_in_flight_hoare[OF k(2)]) (use st in \<open>auto simp: with_record_def stamped_state_def\<close>)
    have "hoare (\<lambda>w. s1 = ?s \<and> consumer_inv e w0 (Some (state_json ?s)) w) (send_in_flight e s1 i)
        (\<lambda>s'' w. consumer_inv e w0 None w \<and> steady (ne_js e) s s'') (\<lambda>_. consumer_inv e w0 None)" for s1
    proof (cases "s1 = ?s")
      case True
      have "steady (ne_js e) s ?s" using f k(1) steady_trans by blast
      then show ?thesis
        unfolding True by (intro hoare_conseq[OF send]) (auto intro: steady_trans)
    qed (simp add: hoare_def)
    then show ?thesis
      unfolding keeping_def by (rule hoare_bind[OF store_hoare[OF fine]])
  qed
  have mark: "keeps_inv e w0 (\<lambda>_. True) (watermark_in_budget e)"
    unfolding watermark_in_budget_def by (auto intro!: tick_keeps)
  show ?thesis
    unfolding announce_and_send_def
    by (rule keeping_bind_any[OF mark], rule keeping_option, rule keeping_ret, rule steady_refl[OF assms(2)],
        rule keeping_bind[OF timestamp_keeps[OF assms(1)]]) (auto intro: step)
qed

lemma start_keeps:
  assumes "dates_read_back (ne_js e)" and "stands (ne_js e) s i r"
  shows "keeps_inv e w0 (steady (ne_js e) s) (start_report e s i)"
  unfolding start_report_def
  by (rule keeping_record, rule keeping_if)
    (auto intro!: pause_keeps[OF assms(2)] announce_keeps[OF assms(1) stands_at[OF assms(2)]])

lemma resend_keeps:
  assumes "dates_read_back (ne_js e)" and "stands (ne_js e) s i r"
  shows "keeps_inv e w0 (steady (ne_js e) s) (resend_report e s i r)"
proof -
  have r: "stands (ne_js e) s i (r\<lparr>nr_report_attempts := nr_report_attempts r + 1\<rparr>)"
    using assms(2) by (rule stands_update)
      (use stands_record[OF assms(2)] record_fine_updates(6)[of r] in \<open>auto simp: record_fine_def\<close>)
  have stop: "keeps_inv e w0 (steady (ne_js e) s)
      (bindM (store_record e s i (r\<lparr>nr_report_attempts := nr_report_attempts r + 1\<rparr>)) (\<lambda>s. pause_report e s i))"
    by (rule keeping_bind[OF stands_store_keeps[OF r]], rule keeping_weaken[OF pause_keeps]) (auto intro: steady_trans)
  show ?thesis
    unfolding resend_report_def Let_def by (rule keeping_if[OF stop announce_keeps[OF assms(1) r]])
qed

lemma failure_keeps:
  assumes "stands (ne_js e) s i r0"
  shows "keeps_inv e w0 (steady (ne_js e) s) (reconcile_failure e s i)"
  unfolding reconcile_failure_def Let_def
proof (rule keeping_record)
  fix r assume "record_at s i = Inr r"
  then have at: "stands (ne_js e) s i r" using assms stands_at by blast
  then have r: "stands (ne_js e) s i (r\<lparr>nr_reconcile_attempts := nr_reconcile_attempts r + 1\<rparr>)"
    by (rule stands_update) (use stands_record[OF at] record_fine_updates(5)[of r] in \<open>auto simp: record_fine_def\<close>)
  show "keeps_inv e w0 (steady (ne_js e) s)
     (bindM (store_record e s i (r\<lparr>nr_reconcile_attempts := nr_reconcile_attempts r + 1\<rparr>)) (\<lambda>s.
      if nr_reconcile_attempts r + 1 > MAX_PHASE_ATTEMPTS then pause_report e s i else ret s))"
    by (rule keeping_bind[OF stands_store_keeps[OF r]], rule keeping_if)
      (auto intro: keeping_weaken[OF pause_keeps] steady_trans keeping_ret)
qed

lemma after_search_keeps:
  assumes "dates_read_back (ne_js e)" and "stands (ne_js e) s i r"
  shows "keeps_inv e w0 (steady (ne_js e) s) (after_search e i s r outcome)"
proof -
  note fine = stands_record[OF assms(2)]
  have cursor: "stands (ne_js e) s i (r\<lparr>nr_cursor := c\<rparr>)" for c
    using assms(2) by (rule stands_update) (use fine record_fine_updates in simp_all)
  have found: "stands (ne_js e) s i (r\<lparr>nr_report := ''done'', nr_terminal_reason := ''ok'', nr_cursor := c, nr_terminal_at := t\<rparr>)" for c t
    using assms(2) by (rule stands_update) (use fine record_fine_updates in simp_all)
  show ?thesis
  proof (cases outcome)
    case (Inl x)
    then show ?thesis
      by (auto simp: after_search_def intro!: keeping_option keeping_if keeping_ret steady_refl[OF assms(2)]
          steady_store_keeps[OF cursor] failure_keeps[OF assms(2)])
  next
    case (Inr p)
    obtain hit c exhausted where "p = (hit, c, exhausted)" by (cases p) auto
    then show ?thesis
      unfolding Inr after_search_def
      by (auto intro!: keeping_if keeping_bind_any[OF keeping_utc_text] steady_store_keeps[OF cursor]
          steady_store_keeps[OF found] resend_keeps[OF assms])
  qed
qed

lemma search_keeps:
  assumes "stands (ne_js e) s i r"
  shows "keeps_inv e w0 (\<lambda>(s', r', _). steady (ne_js e) s s' \<and> stands (ne_js e) s' i r') (search_report e s i r)"
proof -
  have high: "stands (ne_js e) s i (r\<lparr>nr_high := h, nr_cursor := []\<rparr>)" for h
    using assms by (rule stands_update) (use stands_record[OF assms] record_fine_updates in simp_all)
  let ?Q = "\<lambda>(s', r', _). steady (ne_js e) s s' \<and> stands (ne_js e) s' i r'"
  have here: "?Q (s, r, x)" for x :: "py_exn option" using assms steady_refl by auto
  have fix': "keeps_inv e w0 ?Q (fix_high e s i r)"
    unfolding fix_high_def
  proof (intro keeping_if keeping_ret)
    show "keeps_inv e w0 ?Q (bindM (attemptM (channel_watermark (send_ports_of e))) (\<lambda>m. case m of
        Inl x \<Rightarrow> ret (s, r, Some x)
      | Inr high \<Rightarrow> let r = r\<lparr>nr_high := high, nr_cursor := []\<rparr> in
          bindM (attemptM (store_record e s i r)) (\<lambda>stored. case stored of
            Inl x \<Rightarrow> ret (s, r, Some x) | Inr s \<Rightarrow> ret (s, r, None))))"
    proof (rule keeping_bind_any[OF keeping_any[OF keeping_attempt[OF keeping_watermark]]])
      fix m :: "py_exn + string"
      show "keeps_inv e w0 ?Q (case m of
          Inl x \<Rightarrow> ret (s, r, Some x)
        | Inr high \<Rightarrow> let r = r\<lparr>nr_high := high, nr_cursor := []\<rparr> in
            bindM (attemptM (store_record e s i r)) (\<lambda>stored. case stored of
              Inl x \<Rightarrow> ret (s, r, Some x) | Inr s \<Rightarrow> ret (s, r, None)))"
      proof (cases m)
        case (Inr h)
        show ?thesis
          unfolding Inr sum.case Let_def
          by (rule keeping_bind[OF keeping_attempt[OF stands_store_keeps[OF high]]])
            (auto intro!: keeping_ret steady_refl[OF assms] high split: sum.split)
      qed (use here in \<open>auto intro!: keeping_ret\<close>)
    qed
  qed (use here in auto)
  show ?thesis
    unfolding search_report_def
    by (rule keeping_bind[OF fix'])
      (auto intro!: keeping_option keeping_ret keeping_bind_any keeping_any[OF keeping_attempt[OF keeping_find]])
qed

lemma reconcile_record_keeps:
  assumes "dates_read_back (ne_js e)" and "stands (ne_js e) s i r0"
  shows "keeps_inv e w0 (steady (ne_js e) s) (reconcile_record e s i)"
  unfolding reconcile_record_def
proof (rule keeping_record, rule keeping_if)
  show "keeps_inv e w0 (steady (ne_js e) s) (pause_report e s i)" by (rule pause_keeps[OF assms(2)])
  fix r assume "record_at s i = Inr r"
  then have r: "stands (ne_js e) s i r" using assms(2) stands_at by blast
  have go: "keeps_inv e w0 (steady (ne_js e) s) (case p of (s', r', outcome) \<Rightarrow> after_search e i s' r' outcome)"
    if "case p of (s', r', _) \<Rightarrow> steady (ne_js e) s s' \<and> stands (ne_js e) s' i r'" for p
    using that by (cases p) (auto intro: keeping_weaken[OF after_search_keeps[OF assms(1)]] steady_trans)
  show "keeps_inv e w0 (steady (ne_js e) s) (bindM (getsM nw_get_left) (\<lambda>left. if left = 0 then ret s
      else bindM (search_report e s i r) (\<lambda>(s, r, outcome). after_search e i s r outcome)))"
    by (rule keeping_bind_any[OF keeping_gets], simp, rule keeping_if, rule keeping_ret, rule steady_refl[OF r],
        rule keeping_bind[OF search_keeps[OF r] go])
qed

lemma state_store_keeps:
  assumes "state_fine (ne_js e) s" and "holds s i r"
  shows "keeps_inv e w0 (state_fine (ne_js e)) (store_record e s i r)"
  by (rule keeping_weaken[OF keeping_store]) (use with_record_fine[OF assms] in simp_all)

lemma run_commands_keeps: "keeps_inv e w0 (\<lambda>_. True) (run_commands e commands)"
  unfolding run_commands_def by (auto intro!: tick_keeps)

lemma card_state_keeps: "keeps_inv e w0 (\<lambda>_. True) (card_state e ticket)"
  unfolding card_state_def by (auto intro!: tick_keeps)

text \<open>The card moves while the report of the record is still to be made.\<close>

lemma moving_holds:
  assumes "holds s i r" and "nr_transition r \<notin> {''done'', ''dead''}"
  shows "t \<in> set TRANSITIONS_OF_RECORD \<Longrightarrow> 0 \<le> n \<Longrightarrow> holds s i (r\<lparr>nr_transition := t, nr_transition_attempts := n\<rparr>)"
    "t \<in> set TRANSITIONS_OF_RECORD \<Longrightarrow> holds s i (r\<lparr>nr_transition := t\<rparr>)"
    "0 \<le> n \<Longrightarrow> holds s i (r\<lparr>nr_transition := ''dead'', nr_report := ''dead'', nr_transition_attempts := n,
        nr_terminal_reason := ''transition_exhausted'', nr_terminal_at := now\<rparr>)"
  using assms by (auto simp: holds_def record_fine_def TERMINAL_REASONS_def REPORTS_OF_RECORD_def TRANSITIONS_OF_RECORD_def)

lemma execute_keeps:
  assumes "state_fine (ne_js e) s" and "record_at s i = Inr r0" and "nr_transition r0 \<notin> {''done'', ''dead''}"
  shows "keeps_inv e w0 (state_fine (ne_js e)) (execute_transition e s i)"
  unfolding execute_transition_def Let_def
proof (rule keeping_record)
  fix r assume "record_at s i = Inr r"
  then have "r = r0" using assms(2) by simp
  then have r: "holds s i r" "nr_transition r \<notin> {''done'', ''dead''}"
    using assms record_at_holds by auto
  note moving = moving_holds[OF r]
  have n: "0 \<le> nr_transition_attempts r + 1" using r by (simp add: holds_def record_fine_def)
  let ?m = "r\<lparr>nr_transition := ''in_flight''\<rparr>"
  have t: "''in_flight'' \<in> set TRANSITIONS_OF_RECORD" "''done'' \<in> set TRANSITIONS_OF_RECORD" "''pending'' \<in> set TRANSITIONS_OF_RECORD"
    by (simp_all add: TRANSITIONS_OF_RECORD_def)
  let ?s = "with_record s i ?m"
  have s: "state_fine (ne_js e) ?s" using assms(1) moving(2)[OF t(1)] by (rule with_record_fine)
  have confirm: "keeps_inv e w0 (state_fine (ne_js e)) (if at_target r confirmed
      then store_record e ?s i (?m\<lparr>nr_transition := ''done''\<rparr>)
      else if nr_transition_attempts r + 1 > MAX_PHASE_ATTEMPTS
      then bindM (utc_text e) (\<lambda>now. store_record e ?s i (?m\<lparr>nr_transition := ''dead'', nr_report := ''dead'',
        nr_transition_attempts := nr_transition_attempts r + 1, nr_terminal_reason := ''transition_exhausted'', nr_terminal_at := now\<rparr>))
      else store_record e ?s i (?m\<lparr>nr_transition := ''pending'', nr_transition_attempts := nr_transition_attempts r + 1\<rparr>))" for confirmed
    using moving(1)[OF t(3) n] moving(2)[OF t(2)] moving(3)[OF n]
    by (intro keeping_if keeping_bind_any[OF keeping_utc_text] state_store_keeps[OF s]) simp_all
  have go: "keeps_inv e w0 (state_fine (ne_js e)) (bindM (run_commands e (board_commands ?m current)) (\<lambda>ran.
      if \<not> ran then ret ?s else bindM (card_state e (nr_ticket r)) (\<lambda>confirmed.
        if at_target r confirmed then store_record e ?s i (?m\<lparr>nr_transition := ''done''\<rparr>)
        else if nr_transition_attempts r + 1 > MAX_PHASE_ATTEMPTS
        then bindM (utc_text e) (\<lambda>now. store_record e ?s i (?m\<lparr>nr_transition := ''dead'', nr_report := ''dead'',
          nr_transition_attempts := nr_transition_attempts r + 1, nr_terminal_reason := ''transition_exhausted'', nr_terminal_at := now\<rparr>))
        else store_record e ?s i (?m\<lparr>nr_transition := ''pending'', nr_transition_attempts := nr_transition_attempts r + 1\<rparr>))))" for current
    by (rule keeping_bind_any[OF run_commands_keeps], rule keeping_if, rule keeping_ret, rule s,
        rule keeping_bind_any[OF card_state_keeps], rule confirm)
  show "keeps_inv e w0 (state_fine (ne_js e)) (bindM (card_state e (nr_ticket r)) (\<lambda>current.
      if at_target r current then store_record e s i (r\<lparr>nr_transition := ''done''\<rparr>)
      else bindM (store_record e s i ?m) (\<lambda>s. bindM (run_commands e (board_commands ?m current)) (\<lambda>ran.
        if \<not> ran then ret s else bindM (card_state e (nr_ticket r)) (\<lambda>confirmed.
          if at_target r confirmed then store_record e s i (?m\<lparr>nr_transition := ''done''\<rparr>)
          else if nr_transition_attempts r + 1 > MAX_PHASE_ATTEMPTS
          then bindM (utc_text e) (\<lambda>now. store_record e s i (?m\<lparr>nr_transition := ''dead'', nr_report := ''dead'',
            nr_transition_attempts := nr_transition_attempts r + 1, nr_terminal_reason := ''transition_exhausted'', nr_terminal_at := now\<rparr>))
          else store_record e s i (?m\<lparr>nr_transition := ''pending'', nr_transition_attempts := nr_transition_attempts r + 1\<rparr>))))))"
    by (rule keeping_bind_any[OF card_state_keeps], rule keeping_if,
        rule state_store_keeps[OF assms(1) moving(2)[OF t(2)]],
        rule keeping_bind[OF keeping_store[OF s]]) (simp only: go)
qed

lemma progress_keeps:
  assumes "dates_read_back (ne_js e)" and "state_fine (ne_js e) s"
  shows "keeps_inv e w0 (state_fine (ne_js e)) (transition_and_report e s i)"
  unfolding transition_and_report_def
proof (rule keeping_record)
  fix r assume r: "record_at s i = Inr r"
  have moved: "keeps_inv e w0 (state_fine (ne_js e))
      (if nr_transition r \<in> {''done'', ''dead''} then ret s else execute_transition e s i)"
    by (rule keeping_if, rule keeping_ret, rule assms(2), rule execute_keeps[OF assms(2) r])
  have report: "keeps_inv e w0 (state_fine (ne_js e)) (bindM (lift_sum (record_at s' i)) (\<lambda>r.
      if nr_transition r = ''done'' \<and> nr_report r = ''pending'' then start_report e s' i else ret s'))"
    if "state_fine (ne_js e) s'" for s'
  proof (rule keeping_record)
    fix r' assume r': "record_at s' i = Inr r'"
    have "keeps_inv e w0 (state_fine (ne_js e)) (start_report e s' i)" if "nr_transition r' = ''done''"
      by (rule keeping_weaken[OF start_keeps[OF assms(1) done_stands[OF \<open>state_fine (ne_js e) s'\<close> r' that]]])
        (simp add: steady_def)
    then show "keeps_inv e w0 (state_fine (ne_js e)) (if nr_transition r' = ''done'' \<and> nr_report r' = ''pending''
        then start_report e s' i else ret s')"
      using that by (intro keeping_if keeping_ret) auto
  qed
  show "keeps_inv e w0 (state_fine (ne_js e)) (bindM (if nr_transition r \<in> {''done'', ''dead''} then ret s else execute_transition e s i)
      (\<lambda>s. bindM (lift_sum (record_at s i)) (\<lambda>r. if nr_transition r = ''done'' \<and> nr_report r = ''pending'' then start_report e s i else ret s)))"
    by (rule keeping_bind[OF moved report])
qed

section \<open>The tick\<close>

lemma finish_keeps:
  assumes "record_fine r"
  shows "keeps_inv e w0 (\<lambda>_. True) (finish_record e i r)"
  unfolding finish_record_def
  by (intro keeping_if keeping_ret keeping_bind_any keeping_write_receipt) (use assms in \<open>auto simp: receipt_for_def\<close>)

lemma reconcile_ids_keeps:
  assumes "dates_read_back (ne_js e)"
  shows "state_fine (ne_js e) s \<Longrightarrow> (\<And>i. i \<in> set is \<Longrightarrow> map_option nr_transition (map_of (ns_records s) i) = Some ''done'') \<Longrightarrow>
    keeps_inv e w0 (\<lambda>(s', _). state_fine (ne_js e) s') (reconcile_ids e is s n)"
proof (induction "is" arbitrary: s n)
  case Nil
  then show ?case by (simp add: keeping_ret)
next
  case (Cons i "is")
  obtain r where r: "record_at s i = Inr r" "nr_transition r = ''done''"
    using Cons.prems(2)[of i] by (auto simp: record_at_def)
  note st = done_stands[OF Cons.prems(1) r]
  have next': "keeps_inv e w0 (\<lambda>(s', _). state_fine (ne_js e) s') (bindM (lift_sum (record_at s' i)) (\<lambda>r.
      bindM (if terminal r then finish_record e i r else ret ()) (\<lambda>_. reconcile_ids e is s' (if terminal r then n + 1 else n))))"
    if s': "steady (ne_js e) s s'" for s'
  proof (rule keeping_record)
    fix r' assume "record_at s' i = Inr r'"
    then have "record_fine r'" using record_at_holds s' by (fastforce simp: steady_def holds_def)
    moreover have "keeps_inv e w0 (\<lambda>(s', _). state_fine (ne_js e) s') (reconcile_ids e is s' m)" for m
      by (rule Cons.IH) (use s' Cons.prems(2) in \<open>auto simp: steady_def transitions_kept_def\<close>)
    ultimately show "keeps_inv e w0 (\<lambda>(s', _). state_fine (ne_js e) s')
        (bindM (if terminal r' then finish_record e i r' else ret ()) (\<lambda>_. reconcile_ids e is s' (if terminal r' then n + 1 else n)))"
      by (intro keeping_bind_any keeping_if finish_keeps keeping_ret) simp_all
  qed
  show ?case
    unfolding reconcile_ids.simps
    by (rule keeping_bind_any[OF keeping_gets], simp, rule keeping_if, rule keeping_ret, simp add: Cons.prems(1),
        rule keeping_bind[OF reconcile_record_keeps[OF assms st] next'])
qed

text \<open>Walking a set yields its elements.\<close>

definition walks_sets :: "'x consumer_env \<Rightarrow> bool" where
  "walks_sets e \<longleftrightarrow> (\<forall>xs. set (ne_order e xs) = set xs)"

lemma start_records_keeps:
  assumes "dates_read_back (ne_js e)" and "walks_sets e" and "state_fine (ne_js e) s"
  shows "keeps_inv e w0 (\<lambda>(s', _, _). state_fine (ne_js e) s') (reconcile_start_records e s)"
proof -
  have "map_option nr_transition (map_of (ns_records s) i) = Some ''done''" if i: "i \<in> set (ne_order e (unresolved_ids s))" for i
  proof -
    have "i \<in> set (unresolved_ids s)" using i assms(2) unfolding walks_sets_def by blast
    then obtain r where "(i, r) \<in> set (ns_records s)" "nr_report r \<in> {''in_flight'', ''paused''}"
      by (auto simp: unresolved_ids_def)
    then show ?thesis using assms(3) by (fastforce simp: state_fine_def record_fine_def)
  qed
  then show ?thesis
    unfolding reconcile_start_records_def
    by (intro keeping_bind[OF reconcile_ids_keeps[OF assms(1,3)]]) (auto intro: keeping_ret)
qed

lemma resume_keeps:
  assumes "dates_read_back (ne_js e)"
  shows "state_fine (ne_js e) s \<Longrightarrow> (\<And>i r. (i, r) \<in> set rs \<Longrightarrow> record_fine r) \<Longrightarrow>
    keeps_inv e w0 (\<lambda>(s', _, _). state_fine (ne_js e) s') (resume_records e k queued_ids doubtful rs s c n)"
proof (induction rs arbitrary: s c n)
  case Nil
  then show ?case by (simp add: keeping_ret)
next
  case (Cons p rs)
  obtain i stored where p: "p = (i, stored)" by fastforce
  have fine: "record_fine stored" using Cons.prems(2) p by auto
  have rest: "keeps_inv e w0 (\<lambda>(s', _, _). state_fine (ne_js e) s') (resume_records e k queued_ids doubtful rs s' c' n')"
    if "state_fine (ne_js e) s'" for s' c' n'
    by (rule Cons.IH[OF that]) (use Cons.prems(2) in auto)
  let ?Q = "\<lambda>(s', r, _). state_fine (ne_js e) s' \<and> record_fine r"
  have work: "keeps_inv e w0 ?Q (if terminal stored then ret (s, stored, n)
      else bindM (transition_and_report e s i) (\<lambda>s. bindM (lift_sum (record_at s i)) (\<lambda>r. ret (s, r, n + 1))))"
  proof (intro keeping_if keeping_ret)
    show "keeps_inv e w0 ?Q (bindM (transition_and_report e s i) (\<lambda>s. bindM (lift_sum (record_at s i)) (\<lambda>r. ret (s, r, n + 1))))"
      by (rule keeping_bind[OF progress_keeps[OF assms Cons.prems(1)]], rule keeping_record, rule keeping_ret)
        (auto dest: record_at_holds simp: holds_def)
  qed (use fine Cons.prems(1) in auto)
  have go: "keeps_inv e w0 (\<lambda>(s', _, _). state_fine (ne_js e) s') (case q of (s, r, n) \<Rightarrow>
      if terminal r then bindM (finish_record e i r) (\<lambda>_.
        resume_records e k queued_ids doubtful rs s (c + 1) (if stored = r then n + 1 else n))
      else resume_records e k queued_ids doubtful rs s c n)" if "?Q q" for q
    using that by (cases q) (auto intro!: keeping_if keeping_bind_any finish_keeps rest)
  show ?case
    unfolding p resume_records.simps
    by (rule keeping_if, rule rest[OF Cons.prems(1)], rule keeping_bind_any[OF keeping_gets], simp,
        rule keeping_if, rule rest[OF Cons.prems(1)], rule keeping_bind[OF work go])
qed

definition progress_fine :: "json_codec \<Rightarrow> progress \<Rightarrow> bool" where
  "progress_fine js g \<longleftrightarrow> state_fine js (pg_state g)"

lemma progress_fine_simps [simp]:
  "progress_fine js (settled_line g) = progress_fine js g"
  "progress_fine js (g\<lparr>pg_completed := a\<rparr>) = progress_fine js g"
  "progress_fine js (g\<lparr>pg_processed := b\<rparr>) = progress_fine js g"
  "progress_fine js (g\<lparr>pg_state := s\<rparr>) = state_fine js s"
  by (simp_all add: progress_fine_def settled_line_def)

lemma continue_keeps:
  assumes "dates_read_back (ne_js e)" and "progress_fine (ne_js e) g" and "record_fine stored"
  shows "keeps_inv e w0 (progress_fine (ne_js e)) (continue_record e doubtful i stored g)"
proof -
  let ?Q = "\<lambda>(g', r). progress_fine (ne_js e) g' \<and> record_fine r"
  have s: "state_fine (ne_js e) (pg_state g)" using assms(2) by (simp add: progress_fine_def)
  have work: "keeps_inv e w0 ?Q (if terminal stored then ret (g, stored)
      else bindM (transition_and_report e (pg_state g) i) (\<lambda>s. bindM (lift_sum (record_at s i)) (\<lambda>r.
        ret (g\<lparr>pg_state := s, pg_processed := pg_processed g + 1\<rparr>, r))))"
  proof (intro keeping_if keeping_ret)
    show "keeps_inv e w0 ?Q (bindM (transition_and_report e (pg_state g) i) (\<lambda>s. bindM (lift_sum (record_at s i)) (\<lambda>r.
        ret (g\<lparr>pg_state := s, pg_processed := pg_processed g + 1\<rparr>, r))))"
      by (rule keeping_bind[OF progress_keeps[OF assms(1) s]], rule keeping_record, rule keeping_ret)
        (auto dest: record_at_holds simp: holds_def)
  qed (use assms in auto)
  have go: "keeps_inv e w0 (progress_fine (ne_js e)) (case q of (g, r) \<Rightarrow>
      if terminal r then bindM (finish_record e i r) (\<lambda>_. ret (g\<lparr>pg_completed := pg_completed g + 1,
        pg_processed := (if stored = r then pg_processed g + 1 else pg_processed g)\<rparr>)) else ret g)" if "?Q q" for q
    using that by (cases q) (auto intro!: keeping_if keeping_bind_any finish_keeps keeping_ret)
  show ?thesis
    unfolding continue_record_def
    by (rule keeping_if, rule keeping_ret, rule assms(2), rule keeping_bind[OF work go])
qed

lemma new_record_fine: "new_consumer_record q digest key = Inr r \<Longrightarrow> record_fine r \<and> nr_semantic_key r = key"
  by (auto simp: new_consumer_record_def record_fine_def TRANSITIONS_OF_RECORD_def REPORTS_OF_RECORD_def
      TERMINAL_REASONS_def split: if_splits)

lemma begun_fine:
  assumes "state_fine js s" and "map_of (ns_records s) i = None"
    and "case map_of (ns_reservations s) key of None \<Rightarrow> True | Some owner \<Rightarrow> owner = i"
    and "record_fine r" and "nr_semantic_key r = key"
  shows "state_fine js (s\<lparr>ns_records := dict_set i r (ns_records s), ns_reservations := dict_set key i (ns_reservations s)\<rparr>)"
proof -
  have "dict_set i r (ns_records s) = ns_records s @ [(i, r)]"
    using assms(2) by (intro dict_set_fresh) (auto simp: map_of_eq_None_iff)
  moreover have "nr_semantic_key r' \<noteq> key" if "(j, r') \<in> set (ns_records s)" for j r'
  proof
    assume "nr_semantic_key r' = key"
    then have "j = i" using that assms(1,3) by (fastforce simp: state_fine_def reserved_def list_all_iff)
    then show False using that assms(2) by (force simp: map_of_eq_None_iff)
  qed
  ultimately show ?thesis
    using assms by (auto simp: state_fine_def reserved_def list_all_iff map_of_eq_None_iff)
qed

lemma begin_keeps:
  assumes "dates_read_back (ne_js e)" and "progress_fine (ne_js e) g"
    and "map_of (ns_records (pg_state g)) (rq_request_id q) = None"
    and "case map_of (ns_reservations (pg_state g)) key of None \<Rightarrow> True | Some owner \<Rightarrow> owner = rq_request_id q"
  shows "keeps_inv e w0 (progress_fine (ne_js e)) (begin_record e q digest key g)"
  unfolding begin_record_def Let_def
proof (rule keeping_bind[OF keeping_lift], assumption)
  fix r assume "new_consumer_record q digest key = Inr r"
  then have r: "record_fine r" "nr_semantic_key r = key" using new_record_fine by blast+
  let ?s = "(pg_state g)\<lparr>ns_records := dict_set (rq_request_id q) r (ns_records (pg_state g)),
      ns_reservations := dict_set key (rq_request_id q) (ns_reservations (pg_state g))\<rparr>"
  have s: "state_fine (ne_js e) ?s"
    using assms(2-4) r unfolding progress_fine_def by (intro begun_fine) auto
  show "keeps_inv e w0 (progress_fine (ne_js e)) (bindM (save_consumer_state e ?s) (\<lambda>_.
      bindM (transition_and_report e ?s (rq_request_id q)) (\<lambda>s. bindM (lift_sum (record_at s (rq_request_id q))) (\<lambda>r.
      if terminal r then bindM (finish_record e (rq_request_id q) r) (\<lambda>_.
        ret (g\<lparr>pg_state := s, pg_processed := pg_processed g + 1, pg_completed := pg_completed (g\<lparr>pg_state := s, pg_processed := pg_processed g + 1\<rparr>) + 1\<rparr>))
      else ret (g\<lparr>pg_state := s, pg_processed := pg_processed g + 1\<rparr>)))))"
    by (rule keeping_bind_any[OF keeping_save[OF s]], rule keeping_bind[OF progress_keeps[OF assms(1) s]], rule keeping_record)
      (auto intro!: keeping_if keeping_bind_any finish_keeps keeping_ret dest: record_at_holds simp: holds_def)
qed

lemma receipt_for_ack: "record_fine r \<Longrightarrow> terminal r \<Longrightarrow> receipt_for e (id_name i) (Inr (ack_payload i r))"
  unfolding receipt_for_def by blast

lemma dead_ack_keeps:
  assumes "reason \<in> set TERMINAL_REASONS"
  shows "keeps_inv e w0 (\<lambda>_. True) (write_dead_ack e q digest key reason)"
proof -
  have "keeps_inv e w0 (\<lambda>r. record_fine r \<and> terminal r) (dead_record e q digest key reason)"
    unfolding dead_record_def
    by (rule keeping_bind[OF keeping_lift], assumption, rule keeping_bind_any[OF keeping_utc_text], rule keeping_ret)
      (use assms in \<open>auto dest!: new_record_fine simp: record_fine_def terminal_def TRANSITIONS_OF_RECORD_def REPORTS_OF_RECORD_def\<close>)
  then show ?thesis
    unfolding write_dead_ack_def by (rule keeping_bind) (auto intro!: keeping_write_receipt receipt_for_ack)
qed

lemma line_receipt_keeps:
  "prefix \<in> {''invalid'', ''conflict''} \<Longrightarrow> keeps_inv e w0 (\<lambda>_. True) (write_line_receipt e prefix digest reason)"
  unfolding write_line_receipt_def
  by (rule keeping_bind_any[OF keeping_utc_text], rule keeping_write_receipt) (auto simp: receipt_for_def)

lemma consume_request_keeps:
  assumes "dates_read_back (ne_js e)" and "progress_fine (ne_js e) g"
  shows "keeps_inv e w0 (progress_fine (ne_js e)) (consume_request e allowed doubtful digest q g)"
proof -
  have settled: "keeps_inv e w0 (progress_fine (ne_js e)) (bindM (write_dead_ack e q digest key reason) (\<lambda>_. ret (settled_line g)))"
    if "reason \<in> set TERMINAL_REASONS" for key reason
    using that assms(2) by (intro keeping_bind_any[OF dead_ack_keeps] keeping_ret) simp_all
  have conflict: "keeps_inv e w0 (progress_fine (ne_js e)) (bindM (write_line_receipt e ''conflict'' digest reason) (\<lambda>_. ret (settled_line g)))" for reason
    using assms(2) by (intro keeping_bind_any[OF line_receipt_keeps] keeping_ret) simp_all
  have genuine: "keeps_inv e w0 (\<lambda>_. True) (verify_request e q)"
    by (rule keepingI) (auto simp: verify_request_def)
  have fine: "record_fine r" if "map_of (ns_records (pg_state g)) i = Some r" for i r
    using that assms(2) by (auto simp: progress_fine_def state_fine_def dest: map_of_SomeD)
  have stored: "keeps_inv e w0 (progress_fine (ne_js e))
      (case map_of (ns_records (pg_state g)) (rq_request_id q) of
         Some r \<Rightarrow> continue_record e doubtful (rq_request_id q) r g | None \<Rightarrow> begin_record e q digest key g)"
    if "\<not> (case map_of (ns_reservations (pg_state g)) key of None \<Rightarrow> False | Some owner \<Rightarrow> owner \<noteq> rq_request_id q)" for key
    using that fine by (intro keeping_option) (auto intro!: begin_keeps[OF assms] continue_keeps[OF assms] split: option.splits)
  show ?thesis
    unfolding consume_request_def Let_def
    by (rule keeping_bind_any[OF keeping_gets], simp, rule keeping_if[OF conflict], rule keeping_if,
        rule keeping_ret, rule assms(2), rule keeping_bind_any[OF keeping_gets], simp, rule keeping_if,
        rule settled, simp add: TERMINAL_REASONS_def, rule keeping_if,
        rule settled, simp add: TERMINAL_REASONS_def, rule keeping_bind_any[OF genuine], rule keeping_if,
        rule settled, simp add: TERMINAL_REASONS_def, rule keeping_if, rule keeping_ret,
        rule assms(2), rule stored)
qed

lemma consume_lines_keeps:
  assumes "dates_read_back (ne_js e)"
  shows "progress_fine (ne_js e) g \<Longrightarrow> keeps_inv e w0 (progress_fine (ne_js e)) (consume_lines e allowed doubtful lines g)"
proof (induction lines arbitrary: g)
  case (Cons raw lines)
  have malformed: "keeps_inv e w0 (progress_fine (ne_js e))
      (bindM (write_line_receipt e ''invalid'' digest ''malformed'') (\<lambda>_. ret (settled_line g)))" for digest
    using Cons.prems by (intro keeping_bind_any[OF line_receipt_keeps] keeping_ret) simp_all
  have "keeps_inv e w0 (progress_fine (ne_js e)) (consume_line e allowed doubtful raw g)"
    unfolding consume_line_def Let_def
    by (rule keeping_if[OF malformed keeping_option[OF malformed consume_request_keeps[OF assms Cons.prems]]])
  then show ?case
    unfolding consume_lines.simps by (intro keeping_if keeping_ret keeping_bind[OF _ Cons.IH] Cons.prems)
qed (simp add: keeping_ret)

lemma collected_fine:
  "distinct (map fst (ns_records s @ rs)) \<Longrightarrow> distinct (map (\<lambda>p. nr_semantic_key (snd p)) (ns_records s @ rs)) \<Longrightarrow>
   state_fine js s \<Longrightarrow> (\<And>i r. (i, r) \<in> set rs \<Longrightarrow> holds s i r) \<Longrightarrow> collect_records e now rs s w = Inr s' \<Longrightarrow> state_fine js s'"
proof (induction rs arbitrary: s)
  case (Cons p rs)
  obtain i r where p: "p = (i, r)" by fastforce
  obtain gone where rest: "collect_records e now rs (if gone
       then s\<lparr>ns_reservations := filter (\<lambda>(k, _). k \<noteq> nr_semantic_key r) (ns_reservations s)\<rparr>
       else s\<lparr>ns_records := ns_records s @ [(i, r)]\<rparr>) w = Inr s'"
    using Cons.prems(5) p by (auto elim!: sum_bind_InrE)
  have lookup: "map_of (filter (\<lambda>(k, _). k \<noteq> nr_semantic_key r) xs) k = (if k = nr_semantic_key r then None else map_of xs k)"
    for xs :: "(string \<times> string) list" and k by (induction xs) auto
  show ?case
  proof (cases gone)
    case True
    let ?s = "s\<lparr>ns_reservations := filter (\<lambda>(k, _). k \<noteq> nr_semantic_key r) (ns_reservations s)\<rparr>"
    have others: "nr_semantic_key r' \<noteq> nr_semantic_key r" if "(j, r') \<in> set (ns_records s) \<union> set rs" for j r'
    proof -
      have "nr_semantic_key r \<notin> (\<lambda>p. nr_semantic_key (snd p)) ` (set (ns_records s) \<union> set rs)"
        using Cons.prems(2) p by auto
      then show ?thesis using that by force
    qed
    have "distinct (map fst (filter (\<lambda>(k, _). k \<noteq> nr_semantic_key r) (ns_reservations s)))"
      using Cons.prems(3) by (auto simp: state_fine_def distinct_map inj_on_def)
    then have "state_fine js ?s"
      using Cons.prems(3) others by (auto simp: state_fine_def reserved_def list_all_iff lookup)
    moreover have "holds ?s j r'" if "(j, r') \<in> set rs" for j r'
      using that Cons.prems(4)[of j r'] others[of j r'] by (simp add: holds_def lookup)
    ultimately show ?thesis
      using Cons.IH[of ?s] rest True Cons.prems(1,2) p by auto
  next
    case False
    let ?s = "s\<lparr>ns_records := ns_records s @ [(i, r)]\<rparr>"
    have "state_fine js ?s"
      using Cons.prems(1,3) Cons.prems(4)[of i r] p
      by (auto simp: state_fine_def reserved_def list_all_iff holds_def)
    moreover have "holds ?s j r'" if "(j, r') \<in> set rs" for j r'
      using that Cons.prems(4)[of j r'] by (simp add: holds_def)
    ultimately show ?thesis
      using Cons.IH[of ?s] rest False Cons.prems(1,2) p by auto
  qed
qed simp

lemma fine_keys_distinct: "state_fine js s \<Longrightarrow> distinct (map (\<lambda>p. nr_semantic_key (snd p)) (ns_records s))"
proof -
  assume s: "state_fine js s"
  then have "map fst (ns_records s) = map (\<lambda>k. the (map_of (ns_reservations s) k)) (map (\<lambda>p. nr_semantic_key (snd p)) (ns_records s))"
    by (auto simp: state_fine_def reserved_def list_all_iff)
  then show ?thesis using s distinct_map by (metis state_fine_def)
qed

lemma gc_keeps:
  assumes "state_fine (ne_js e) s"
  shows "keeps_inv e w0 (state_fine (ne_js e)) (gc_state e s)"
  unfolding gc_state_def
proof (rule keeping_bind_any[OF keeping_clock], rule keepingI)
  fix now w r w' assume i: "consumer_inv e w0 None w"
    and run: "(collect_records e now (ns_records s) (s\<lparr>ns_records := []\<rparr>) w, w) = (r, w')"
  have "state_fine (ne_js e) s'" if "r = Inr s'" for s'
  proof (rule collected_fine[of "s\<lparr>ns_records := []\<rparr>" "ns_records s"])
    show "collect_records e now (ns_records s) (s\<lparr>ns_records := []\<rparr>) w = Inr s'" using run that by (metis prod.inject)
    show "holds (s\<lparr>ns_records := []\<rparr>) j r'" if "(j, r') \<in> set (ns_records s)" for j r'
      using that assms by (auto simp: holds_def state_fine_def reserved_def list_all_iff)
  qed (use assms fine_keys_distinct[OF assms] in \<open>auto simp: state_fine_def reserved_def\<close>)
  then show "consumer_inv e w0 None w' \<and> (\<forall>a. r = Inr a \<longrightarrow> state_fine (ne_js e) a)" using i run by auto
qed

text \<open>The tick from the moment its state is read.\<close>

definition consume_from :: "'x consumer_env \<Rightarrow> string list \<Rightarrow> consumer_state \<Rightarrow> ('x consumer_world, int) io" where
  "consume_from e allowed s =
     bindM (reconcile_start_records e s) (\<lambda>(s, completed, doubtful).
     bindM (getsM snapshot_lines) (\<lambda>snapshot. case snapshot of
       None \<Rightarrow> ret 0
     | Some lines \<Rightarrow>
         let queued_ids = map rq_request_id (List.map_filter (parse_line (ne_queue e)) lines) in
         bindM (resume_records e MAX_PROCESSED queued_ids doubtful (ns_records s) s 0 0) (\<lambda>(s, resumed, processed).
         bindM (consume_lines e allowed doubtful lines
           \<lparr>pg_state = s, pg_completed = completed + resumed, pg_processed = processed\<rparr>) (\<lambda>g.
         bindM (gc_state e (pg_state g)) (\<lambda>collected.
         bindM (if collected \<noteq> pg_state g then save_consumer_state e collected else ret ()) (\<lambda>_.
         ret (pg_completed g)))))))"

lemma consume_locked_from: "consume_locked e =
   bindM (refresh_capabilities e) (\<lambda>_. bindM (load_consumer_state e) (\<lambda>s.
   bindM load_ticket_allowlist (\<lambda>allowed. bindM (modifyM fresh_budgets) (\<lambda>_. consume_from e allowed s))))"
  by (simp add: consume_locked_def consume_from_def)

lemma consume_from_keeps:
  assumes "dates_read_back (ne_js e)" and "walks_sets e" and "state_fine (ne_js e) s"
  shows "keeps_inv e w0 (\<lambda>_. True) (consume_from e allowed s)"
proof -
  have close: "keeps_inv e w0 (\<lambda>_. True) (bindM (gc_state e (pg_state g)) (\<lambda>collected.
      bindM (if collected \<noteq> pg_state g then save_consumer_state e collected else ret ()) (\<lambda>_. ret (pg_completed g))))"
    if "progress_fine (ne_js e) g" for g
    using that
    by (intro keeping_bind[OF gc_keeps] keeping_bind_any keeping_if keeping_save keeping_ret) (simp_all add: progress_fine_def)
  have lines: "keeps_inv e w0 (\<lambda>_. True) (case p of (s, resumed, processed) \<Rightarrow>
      bindM (consume_lines e allowed doubtful lines
        \<lparr>pg_state = s, pg_completed = completed + resumed, pg_processed = processed\<rparr>) (\<lambda>g.
      bindM (gc_state e (pg_state g)) (\<lambda>collected.
      bindM (if collected \<noteq> pg_state g then save_consumer_state e collected else ret ()) (\<lambda>_. ret (pg_completed g)))))"
    if "case p of (s', _, _) \<Rightarrow> state_fine (ne_js e) s'" for p doubtful lines completed
    using that by (cases p) (auto intro!: keeping_bind[OF consume_lines_keeps[OF assms(1)] close] simp: progress_fine_def)
  have snapshot: "keeps_inv e w0 (\<lambda>_. True) (case p of (s, completed, doubtful) \<Rightarrow>
      bindM (getsM snapshot_lines) (\<lambda>snapshot. case snapshot of None \<Rightarrow> ret 0 | Some lines \<Rightarrow>
        let queued_ids = map rq_request_id (List.map_filter (parse_line (ne_queue e)) lines) in
        bindM (resume_records e MAX_PROCESSED queued_ids doubtful (ns_records s) s 0 0) (\<lambda>(s, resumed, processed).
        bindM (consume_lines e allowed doubtful lines
          \<lparr>pg_state = s, pg_completed = completed + resumed, pg_processed = processed\<rparr>) (\<lambda>g.
        bindM (gc_state e (pg_state g)) (\<lambda>collected.
        bindM (if collected \<noteq> pg_state g then save_consumer_state e collected else ret ()) (\<lambda>_. ret (pg_completed g)))))))"
    if "case p of (s', _, _) \<Rightarrow> state_fine (ne_js e) s'" for p
  proof -
    obtain s' completed doubtful where p: "p = (s', completed, doubtful)" by (cases p) auto
    have s': "state_fine (ne_js e) s'" using that p by simp
    show ?thesis
      unfolding p prod.case Let_def
      by (rule keeping_bind_any[OF keeping_gets], simp, rule keeping_option, rule keeping_ret, simp,
          rule keeping_bind[OF resume_keeps[OF assms(1) s'] lines])
        (use s' in \<open>auto simp: state_fine_def\<close>)
  qed
  show ?thesis
    unfolding consume_from_def by (rule keeping_bind[OF start_records_keeps[OF assms] snapshot])
qed

lemma load_good:
  assumes "good_file (ne_js e) (nw_state w)"
  obtains s where "load_consumer_state e w = (Inr s, w)" and "state_fine (ne_js e) s"
proof (cases "nw_state w")
  case None
  have "state_fine (ne_js e) empty_state"
    by (simp add: empty_state_def state_fine_def reserved_def stored_moment_def)
  then show ?thesis using None that by (simp add: load_consumer_state_def)
next
  case (Some f)
  then obtain s where s: "f = Inr (state_json s)" "state_fine (ne_js e) s" using assms by (auto simp: good_file_def)
  then show ?thesis
    using that[of "in_key_order s"] Some state_back[OF s(2)] in_key_order_fine[OF s(2)]
    by (simp add: load_consumer_state_def)
qed

text \<open>What a tick leaves, whatever happens in it.\<close>

lemma consume_once_keeps:
  assumes "dates_read_back (ne_js e)" and "walks_sets e" and "good_file (ne_js e) (nw_state w)"
    and "consume_once e w = (r, w')"
  shows "good_file (ne_js e) (nw_state w') \<and>
     (\<exists>more. nw_posts w' = nw_posts w @ more \<and> list_all (announced e) more \<and> length more \<le> MAX_POST_ATTEMPTS) \<and>
     length (nw_gets w') \<le> length (nw_gets w) + MAX_GET_PAGES \<and>
     (\<forall>n. nw_ack w n \<noteq> None \<longrightarrow> nw_ack w' n = nw_ack w n) \<and>
     (\<forall>n v. nw_ack w n = None \<and> nw_ack w' n = Some v \<longrightarrow> receipt_for e n v)"
proof (cases "nw_lockable w")
  case False
  then show ?thesis using assms(3,4) by (auto simp: consume_once_def)
next
  case True
  obtain x where locked: "consume_locked e w = (x, w')"
    using True assms(4) by (auto simp: consume_once_def tryM_def ret_def split: prod.splits sum.splits)
  obtain y c where "reconcile_capabilities (ne_capability e) (nw_registry w) 200 (nw_capabilities w) = (y, c)" by fastforce
  then have c: "refresh_capabilities e w = (Inr (), w\<lparr>nw_capabilities := c\<rparr>)" by (simp add: refresh_capabilities_def)
  let ?w = "w\<lparr>nw_capabilities := c\<rparr>"
  have "w' = ?w \<or> (\<exists>s allowed. state_fine (ne_js e) s \<and> consume_from e allowed s (fresh_budgets ?w) = (x, w'))"
  proof -
    have "good_file (ne_js e) (nw_state ?w)" using assms(3) by simp
    then obtain s where load: "load_consumer_state e ?w = (Inr s, ?w)" "state_fine (ne_js e) s" by (rule load_good)
    obtain a where a: "load_ticket_allowlist ?w = (a, ?w)" by (auto simp: load_ticket_allowlist_def)
    show ?thesis
    proof (cases a)
      case (Inl y)
      then show ?thesis using locked c load(1) a by (simp add: consume_locked_from bindM_def)
    next
      case (Inr allowed)
      then have "consume_from e allowed s (fresh_budgets ?w) = (x, w')"
        using locked c load(1) a by (simp add: consume_locked_from bindM_def modifyM_def)
      then show ?thesis using load(2) by blast
    qed
  qed
  then consider (early) "w' = ?w"
    | (ran) s allowed where "state_fine (ne_js e) s" "consume_from e allowed s (fresh_budgets ?w) = (x, w')" by blast
  then show ?thesis
  proof cases
    case early
    then show ?thesis using assms(3) by (simp, intro allI impI, elim conjE, simp)
  next
    case ran
    have "consumer_inv e w None (fresh_budgets ?w)"
      using assms(3) by (simp add: consumer_inv_def fresh_budgets_def, intro allI impI, elim conjE, simp)
    then have "consumer_inv e w None w'"
      using keepingD[OF consume_from_keeps[OF assms(1,2) ran(1)] _ ran(2)] by blast
    then show ?thesis by (auto simp: consumer_inv_def)
  qed
qed

section \<open>Histories of ticks\<close>

text \<open>
  Between two ticks the world may change in any way that leaves the consumer's own files: requests are
  queued, the registry, the board and the channel move on, a lock or a disk comes and goes.
\<close>

definition outside_change :: "('x consumer_world \<Rightarrow> 'x consumer_world) \<Rightarrow> bool" where
  "outside_change f \<longleftrightarrow> (\<forall>w. nw_state (f w) = nw_state w \<and> nw_posts (f w) = nw_posts w \<and> nw_gets (f w) = nw_gets w \<and>
     (\<forall>n. nw_ack w n \<noteq> None \<longrightarrow> nw_ack (f w) n = nw_ack w n))"

fun run_ticks :: "'x consumer_env \<Rightarrow> ('x consumer_world \<Rightarrow> 'x consumer_world) list \<Rightarrow> 'x consumer_world \<Rightarrow> 'x consumer_world" where
  "run_ticks e [] w = w"
| "run_ticks e (f # fs) w = run_ticks e fs (snd (consume_once e (f w)))"

lemma run_ticks_keeps:
  assumes "dates_read_back (ne_js e)" and "walks_sets e"
  shows "good_file (ne_js e) (nw_state w) \<Longrightarrow> (\<And>f. f \<in> set fs \<Longrightarrow> outside_change f) \<Longrightarrow>
    good_file (ne_js e) (nw_state (run_ticks e fs w)) \<and>
    (\<exists>more. nw_posts (run_ticks e fs w) = nw_posts w @ more \<and> list_all (announced e) more \<and>
       length more \<le> length fs * MAX_POST_ATTEMPTS) \<and>
    length (nw_gets (run_ticks e fs w)) \<le> length (nw_gets w) + length fs * MAX_GET_PAGES \<and>
    (\<forall>n. nw_ack w n \<noteq> None \<longrightarrow> nw_ack (run_ticks e fs w) n = nw_ack w n)"
proof (induction fs arbitrary: w)
  case (Cons f fs)
  let ?w = "snd (consume_once e (f w))"
  have f: "nw_state (f w) = nw_state w" "nw_posts (f w) = nw_posts w" "nw_gets (f w) = nw_gets w"
    "\<And>n. nw_ack w n \<noteq> None \<Longrightarrow> nw_ack (f w) n = nw_ack w n"
    using Cons.prems(2)[of f] unfolding outside_change_def by simp_all
  have good: "good_file (ne_js e) (nw_state (f w))" using Cons.prems(1) f(1) by simp
  note tick = consume_once_keeps[OF assms good prod.collapse[symmetric]]
  obtain more where more: "nw_posts ?w = nw_posts w @ more" "list_all (announced e) more" "length more \<le> MAX_POST_ATTEMPTS"
    using tick f(2) by auto
  have gets: "length (nw_gets ?w) \<le> length (nw_gets w) + MAX_GET_PAGES" using tick f(3) by simp
  have acks: "\<And>n. nw_ack w n \<noteq> None \<Longrightarrow> nw_ack ?w n = nw_ack w n" using tick f(4) by metis
  have "good_file (ne_js e) (nw_state ?w)" using tick by blast
  from Cons.IH[OF this] Cons.prems(2)
  have ih: "good_file (ne_js e) (nw_state (run_ticks e fs ?w)) \<and>
    (\<exists>more. nw_posts (run_ticks e fs ?w) = nw_posts ?w @ more \<and> list_all (announced e) more \<and>
       length more \<le> length fs * MAX_POST_ATTEMPTS) \<and>
    length (nw_gets (run_ticks e fs ?w)) \<le> length (nw_gets ?w) + length fs * MAX_GET_PAGES \<and>
    (\<forall>n. nw_ack ?w n \<noteq> None \<longrightarrow> nw_ack (run_ticks e fs ?w) n = nw_ack ?w n)" by simp
  then obtain later where later: "nw_posts (run_ticks e fs ?w) = nw_posts ?w @ later" "list_all (announced e) later"
    "length later \<le> length fs * MAX_POST_ATTEMPTS" by blast
  have "nw_posts (run_ticks e (f # fs) w) = nw_posts w @ (more @ later) \<and> list_all (announced e) (more @ later) \<and>
      length (more @ later) \<le> length (f # fs) * MAX_POST_ATTEMPTS"
    using more later by simp
  then show ?case using ih gets acks by (intro conjI exI[of _ "more @ later"]) auto
qed simp

text \<open>
  \<^bold>\<open>C11.\<close> The consumer does not lock itself out: after any history of ticks the state file loads again,
  to a state whose records have known progress, each with the reservation of its identity, so that no
  identity has two records.
\<close>

theorem consumer_state_reloads:
  assumes "dates_read_back (ne_js e)" and "walks_sets e" and "nw_state w = None"
    and "\<And>f. f \<in> set fs \<Longrightarrow> outside_change f"
  shows "\<exists>s. load_consumer_state e (run_ticks e fs w) = (Inr s, run_ticks e fs w) \<and>
     (\<forall>(i, r) \<in> set (ns_records s). record_fine r) \<and>
     distinct (map (\<lambda>p. nr_semantic_key (snd p)) (ns_records s))"
proof -
  have "good_file (ne_js e) (nw_state (run_ticks e fs w))"
    using run_ticks_keeps[OF assms(1,2) _ assms(4), of w] assms(3) by (auto simp: good_file_def)
  then obtain s where "load_consumer_state e (run_ticks e fs w) = (Inr s, run_ticks e fs w)" "state_fine (ne_js e) s"
    by (rule load_good)
  then show ?thesis using fine_keys_distinct by (intro exI[of _ s]) (auto simp: state_fine_def)
qed

text \<open>
  \<^bold>\<open>C27.\<close> A tick is bounded: however many requests are queued and whatever Discord answers, retries
  included, it posts at most twenty times and asks for at most fifty pages of messages, also when it
  ends in an exception.
\<close>

theorem tick_work_bounded:
  assumes "dates_read_back (ne_js e)" and "walks_sets e" and "good_file (ne_js e) (nw_state w)"
    and "consume_once e w = (r, w')"
  shows "length (nw_posts w') \<le> length (nw_posts w) + 20 \<and> length (nw_gets w') \<le> length (nw_gets w) + 50"
  using consume_once_keeps[OF assms] by (auto simp: MAX_POST_ATTEMPTS_def MAX_GET_PAGES_def)


section \<open>Witnesses\<close>

text \<open>Times as two numbers with a comma between them.\<close>

definition sample_iso :: "dt \<Rightarrow> string" where
  "sample_iso d = (case d of Aware t z \<Rightarrow> str_int t @ '','' @ str_int z | Naive t \<Rightarrow> str_int t)"

definition sample_from_iso :: "string \<Rightarrow> py_exn + dt" where
  "sample_from_iso s = Inr (Aware (the (sample_int (takeWhile (\<lambda>c. c \<noteq> CHR '','') s)))
     (the (sample_int (tl (dropWhile (\<lambda>c. c \<noteq> CHR '','') s)))))"

lemma str_nat_no_comma: "CHR '','' \<notin> set (str_nat n)"
proof (induction n rule: less_induct)
  case (less n)
  have digit: "CHR '','' \<noteq> str_digit d" if "d < 10" for d
  proof
    assume "CHR '','' = str_digit d"
    then have "of_char (str_digit d) = (44 :: nat)" by (simp flip: \<open>_ = str_digit d\<close>)
    then show False using that by (simp add: str_digit_def)
  qed
  then show ?case using less digit[of n] digit[of "n mod 10"] by (subst str_nat.simps) auto
qed

lemma str_int_no_comma: "CHR '','' \<notin> set (str_int n)"
  using str_nat_no_comma by (simp add: str_int_def)

lemma sample_iso_codec: "js_isoformat js = sample_iso \<Longrightarrow> js_fromisoformat js = sample_from_iso \<Longrightarrow> dates_read_back js"
  unfolding dates_read_back_def
proof (intro allI impI)
  fix d assume js: "js_isoformat js = sample_iso" "js_fromisoformat js = sample_from_iso" and "dt_aware d"
  then obtain t z where d: "d = Aware t z" by (cases d) auto
  have "\<forall>c \<in> set (str_int t). c \<noteq> CHR '',''" using str_int_no_comma by auto
  then have "takeWhile (\<lambda>c. c \<noteq> CHR '','') (str_int t @ '','' @ str_int z) = str_int t"
    "dropWhile (\<lambda>c. c \<noteq> CHR '','') (str_int t @ '','' @ str_int z) = CHR '','' # str_int z"
    by (simp_all add: takeWhile_append dropWhile_append)
  then show "js_fromisoformat js (js_isoformat js d) = Inr d"
    by (simp add: js d sample_iso_def sample_from_iso_def sample_int_reads)
qed

text \<open>
  A small world: one queued request, for a card that is done; the texts of all reports are the same, and
  JSON documents are read as the answer to a POST.
\<close>

definition sample_consumer_env :: "unit consumer_env" where
  "sample_consumer_env = \<lparr>
     ne_queue = sample_queue_env\<lparr>qe_loads := (\<lambda>_. Inr (request_json sample_report))\<rparr>,
     ne_capability = sample_capability_env\<lparr>ce_hmac := (\<lambda>_. replicate 64 (CHR ''f''))\<rparr>,
     ne_js = sample_json\<lparr>js_isoformat := sample_iso, js_fromisoformat := sample_from_iso,
        js_loads := (\<lambda>_. Inr (JObj [(''id'', JStr ''12345'')]))\<rparr>,
     ne_masks = [], ne_phrase = (\<lambda>s. s), ne_float = (\<lambda>_. Inr 1),
     ne_config = ret (JObj [(''agent_id'', JStr ''a''), (''agents_log_channel_id'', JStr ''1'')]),
     ne_notice_channel = ret None, ne_token = ret ''t'', ne_fetch = (\<lambda>_. ret (JArr [])),
     ne_post = (\<lambda>_ _ _. ret \<lparr>hr_status = 200, hr_retry_after = None, hr_body = []\<rparr>),
     ne_sleep = (\<lambda>_. ret ()), ne_clock = (\<lambda>x. (0, x)),
     ne_show = (\<lambda>_. ret (JObj [(''task'', JObj [(''status'', JStr ''done'')]), (''events'', JArr [])])),
     ne_kanban = (\<lambda>_. ret ()), ne_write = (\<lambda>_. Replaced), ne_order = (\<lambda>xs. xs)\<rparr>"

definition sample_consumer_world :: "unit consumer_world" where
  "sample_consumer_world = \<lparr>nw_net = (), nw_lockable = True, nw_bot_id = None, nw_post_left = 0, nw_get_left = 0,
     nw_cache = [], nw_state = None, nw_ack = (\<lambda>_. None), nw_writes = 0,
     nw_registry = Some (Inr (JObj [(''r'', JObj [(''ticket_id'', JStr ''t_a'')])])),
     nw_pending = Pending_bytes [CHR 0x0A], nw_capabilities = sample_capability_world,
     nw_posts = [], nw_gets = []\<rparr>"

lemma sample_consumer_laws: "dates_read_back (ne_js sample_consumer_env)" "walks_sets sample_consumer_env"
  by (rule sample_iso_codec) (simp_all add: sample_consumer_env_def walks_sets_def)

lemma sample_consumer_start: "nw_state sample_consumer_world = None" "nw_posts sample_consumer_world = []"
  "good_file js (nw_state sample_consumer_world)" "nw_gets sample_consumer_world = []" "nw_ack sample_consumer_world n = None"
  by (simp_all add: sample_consumer_world_def good_file_def)

lemma no_change: "f \<in> set [id, id] \<Longrightarrow> outside_change f"
  by (auto simp: outside_change_def)

lemma consumer_state_reloads_witness:
  "\<exists>s. load_consumer_state sample_consumer_env (run_ticks sample_consumer_env [id, id] sample_consumer_world) =
       (Inr s, run_ticks sample_consumer_env [id, id] sample_consumer_world) \<and>
     (\<forall>(i, r) \<in> set (ns_records s). record_fine r) \<and>
     distinct (map (\<lambda>p. nr_semantic_key (snd p)) (ns_records s))"
  by (rule consumer_state_reloads[OF sample_consumer_laws sample_consumer_start(1) no_change])

lemma tick_work_bounded_witness:
  "length (nw_posts (snd (consume_once sample_consumer_env sample_consumer_world))) \<le> 20 \<and>
   length (nw_gets (snd (consume_once sample_consumer_env sample_consumer_world))) \<le> 50"
  using tick_work_bounded[OF sample_consumer_laws sample_consumer_start(3) prod.collapse[symmetric]]
  by (simp add: sample_consumer_start)


end
