(* ===== verification/Report_Delivery.thy ===== *)
theory Report_Delivery
  imports Consumer_Properties
begin

text \<open>
  What becomes of a queued report: it is delivered and receipted in one tick when the services answer,
  a card that cannot be shown holds up every report queued behind it, and a search that runs out of its
  budget of pages loses the pages it has read.
\<close>

section \<open>Computations that return\<close>

abbreviation gives :: "('w \<Rightarrow> bool) \<Rightarrow> ('w, 'a) io \<Rightarrow> ('a \<Rightarrow> 'w \<Rightarrow> bool) \<Rightarrow> bool" where
  "gives P m Q \<equiv> hoare P m Q (\<lambda>_ _. False)"

lemma gives_run: "gives P m Q \<Longrightarrow> P w \<Longrightarrow> \<exists>a w'. m w = (Inr a, w') \<and> Q a w'"
  by (cases "m w", cases "fst (m w)") (auto simp: hoare_def)

lemma gives_ret: "(\<And>w. P w \<Longrightarrow> Q a w) \<Longrightarrow> gives P (ret a) Q"
  by (simp add: hoare_def ret_def)

lemma gives_lift: "r = Inr a \<Longrightarrow> (\<And>w. P w \<Longrightarrow> Q a w) \<Longrightarrow> gives P (lift_sum r) Q"
  by (simp add: hoare_def lift_sum_def ret_def)

lemma gives_bind:
  "gives P m (\<lambda>a w. P' w \<and> F a) \<Longrightarrow> (\<And>a. F a \<Longrightarrow> gives P' (f a) Q) \<Longrightarrow> gives P (bindM m f) Q"
  by (rule hoare_bind, assumption) (simp add: hoare_def)

lemma gives_lift_bind: "r = Inr a \<Longrightarrow> gives P (f a) Q \<Longrightarrow> gives P (bindM (lift_sum r) f) Q"
  by (simp add: hoare_def lift_sum_def bindM_def ret_def)

lemma gives_then: "gives P m (\<lambda>_. P') \<Longrightarrow> (\<And>a. gives P' (f a) Q) \<Longrightarrow> gives P (bindM m f) Q"
  by (rule hoare_bind)

lemma gives_try: "gives P m Q \<Longrightarrow> gives P (tryM m h) Q"
  by (rule hoare_try, assumption) (simp add: hoare_def)

lemma gives_post: "gives P m Q \<Longrightarrow> (\<And>a w. Q a w \<Longrightarrow> Q' a w) \<Longrightarrow> gives P m Q'"
  by (erule hoare_conseq) auto

lemma gives_ex: "(\<And>x. F x \<Longrightarrow> gives (P x) m Q) \<Longrightarrow> gives (\<lambda>w. \<exists>x. F x \<and> P x w) m Q"
  by (fastforce simp: hoare_def)

lemma gives_never: "gives (\<lambda>w. False) m Q"
  by (simp add: hoare_def)

section \<open>Services that answer\<close>

definition serves :: "('x, 'a) io \<Rightarrow> ('a \<Rightarrow> bool) \<Rightarrow> bool" where
  "serves m Q \<longleftrightarrow> (\<forall>x. \<exists>a x'. m x = (Inr a, x') \<and> Q a)"

text \<open>
  The services answer: the configuration names the agent, the channel's newest page can be read, every
  POST succeeds, the card can be shown, a command that moves it makes it \<open>arrived\<close>, and a card that has
  arrived is shown in the state that the operation is meant to reach. Writes succeed.
\<close>

definition working :: "'x consumer_env \<Rightarrow> report_request \<Rightarrow> string \<Rightarrow> ('x \<Rightarrow> bool) \<Rightarrow> bool" where
  "working e q agent arrived \<longleftrightarrow>
     serves (ne_config e) (\<lambda>p. \<exists>d channel. p = JObj d \<and> config_field d ''agent_id'' = Inr agent \<and>
       config_field d ''agents_log_channel_id'' = Inr channel) \<and>
     serves (ne_notice_channel e) (\<lambda>_. True) \<and> serves (ne_token e) (\<lambda>_. True) \<and>
     (\<forall>path. serves (ne_fetch e path) (\<lambda>v. \<exists>page. page_messages v = Inr page \<and>
       (page = [] \<or> (\<exists>i. decimal_id (jget (hd page) ''id'') = Inr i)))) \<and>
     (\<forall>token channel content. serves (ne_post e token channel content) (\<lambda>r. hr_status r < 400 \<and>
       (\<exists>i. sent_id (ne_js e) (hr_body r) = Inr i))) \<and>
     (\<forall>x. \<exists>p c x'. ne_show e (rq_ticket q) x = (Inr p, x') \<and> card_of_json p = Inr c \<and>
       (arrived x \<longrightarrow> (\<forall>r. nr_operation r = rq_operation q \<longrightarrow> at_target r c))) \<and>
     (\<forall>c x. \<exists>x'. ne_kanban e c x = (Inr (), x') \<and> (hd c \<in> {''complete'', ''block''} \<longrightarrow> arrived x')) \<and>
     (\<forall>n. ne_write e n = Replaced)"

text \<open>
  The receipts are \<open>A\<close>, \<open>texts\<close> are posted, \<open>k\<close> more posts are in the budget, and, where \<open>g\<close>, a page is.
\<close>

definition ready ::
  "(string \<Rightarrow> (py_exn + json) option) \<Rightarrow> string list \<Rightarrow> nat \<Rightarrow> bool \<Rightarrow> 'x consumer_world \<Rightarrow> bool" where
  "ready A texts k g w \<longleftrightarrow> nw_ack w = A \<and> map fst (nw_posts w) = texts \<and> k \<le> nw_post_left w \<and>
     (g \<longrightarrow> nw_get_left w > 0 \<and> nw_cache w = [])"

lemma ready_net [simp]: "ready A texts k g (w\<lparr>nw_net := x\<rparr>) = ready A texts k g w"
  by (simp add: ready_def)

lemma ready_weaker: "ready A texts k g w \<Longrightarrow> k' \<le> k \<Longrightarrow> ready A texts k' False w"
  by (simp add: ready_def)

lemma on_net_gives:
  assumes "serves m Q"
  shows "gives (ready A texts k g) (on_net m) (\<lambda>a w. ready A texts k g w \<and> Q a)"
  unfolding hoare_def
proof (intro allI impI)
  fix w :: "'a consumer_world" assume "ready A texts k g w"
  moreover obtain a x' where "m (nw_net w) = (Inr a, x')" "Q a" using assms unfolding serves_def by blast
  ultimately show "case on_net m w of (Inr a, w') \<Rightarrow> ready A texts k g w' \<and> Q a | (Inl x, w') \<Rightarrow> False"
    by (simp add: on_net_def)
qed

lemma clock_gives: "gives (ready A texts k g) (utc_now e) (\<lambda>_. ready A texts k g)"
  unfolding utc_now_def
  by (rule gives_post, rule on_net_gives[where Q = "\<lambda>_. True"]) (auto simp: serves_def split: prod.splits)

lemma utc_text_gives:
  "gives (ready A texts k g) (utc_text e) (\<lambda>t w. ready A texts k g w \<and> (\<exists>d. t = js_isoformat (ne_js e) (Aware d 0)))"
  unfolding utc_text_def by (rule gives_then[OF clock_gives], rule gives_ret) auto

lemma write_gives:
  assumes "\<And>n. ne_write e n = Replaced"
  shows "gives (ready A texts k g) (save_consumer_state e s) (\<lambda>_. ready A texts k g)"
    and "gives (ready A texts k g) (store_record e s i r) (\<lambda>s' w. ready A texts k g w \<and> s' = with_record s i r)"
  by (auto simp: hoare_def save_consumer_state_def write_state_def store_record_def bindM_def ret_def assms ready_def Let_def)

lemma receipt_gives:
  assumes "\<And>n. ne_write e n = Replaced"
  shows "gives (ready A texts k g) (write_receipt e name doc)
    (\<lambda>_. ready (if A name = None then A(name \<mapsto> Inr doc) else A) texts k g)"
  by (auto simp: hoare_def write_receipt_def ready_def assms Let_def)

text \<open>Sending: the texts go out one after another, each from the budget.\<close>

lemma post_gives:
  assumes "working e q agent arrived"
  shows "gives (ready A texts (Suc k) False) (post_chunk (Suc n) (send_ports_of e) token channel content)
    (\<lambda>_. ready A (texts @ [content]) k False)"
  unfolding hoare_def
proof (intro allI impI)
  fix w :: "'a consumer_world" assume w: "ready A texts (Suc k) False w"
  have "serves (ne_post e token channel content) (\<lambda>r. hr_status r < 400 \<and> (\<exists>i. sent_id (ne_js e) (hr_body r) = Inr i))"
    using assms by (simp add: working_def)
  then obtain r x' i where "ne_post e token channel content (nw_net w) = (Inr r, x')" "hr_status r < 400"
    "sent_id (ne_js e) (hr_body r) = Inr i" unfolding serves_def by blast
  then show "case post_chunk (Suc n) (send_ports_of e) token channel content w of
      (Inr a, w') \<Rightarrow> ready A (texts @ [content]) k False w' | (Inl x, w') \<Rightarrow> False"
    using w by (auto simp: send_ports_of_def bindM_def take_post_def on_net_def ready_def lift_sum_def ret_def)
qed

lemma posts_give:
  assumes "working e q agent arrived"
  shows "gives (ready A texts (length cs) False) (mapM (post_chunk (Suc n) (send_ports_of e) token channel) cs)
    (\<lambda>_. ready A (texts @ cs) 0 False)"
proof (induction cs arbitrary: texts)
  case Nil
  then show ?case by (simp add: hoare_def ret_def)
next
  case (Cons c cs)
  have "gives (ready A texts (Suc (length cs)) False) (post_chunk (Suc n) (send_ports_of e) token channel c)
      (\<lambda>_. ready A (texts @ [c]) (length cs) False)"
    by (rule post_gives[OF assms])
  then show ?case
    by (simp only: mapM.simps length_Cons) (rule gives_then, assumption, rule gives_then[OF Cons.IH], rule gives_ret, simp)
qed

lemma config_gives:
  assumes "working e q agent arrived"
  shows "gives (ready A texts k g) (load_report_config (send_ports_of e)) (\<lambda>c w. ready A texts k g w \<and> fst c = agent)"
proof -
  have "serves (ne_config e) (\<lambda>p. \<exists>d channel. p = JObj d \<and> config_field d ''agent_id'' = Inr agent \<and>
       config_field d ''agents_log_channel_id'' = Inr channel)" "serves (ne_notice_channel e) (\<lambda>_. True)"
    using assms by (simp_all add: working_def)
  note ports = this[THEN on_net_gives]
  show ?thesis
    unfolding load_report_config_def ports_select
    apply (rule gives_bind[OF ports(1)])
    apply (elim exE conjE)
    apply (hypsubst, simp only: json.case)
    apply (rule gives_lift_bind, rule refl)
    apply (rule gives_lift_bind, rule refl)
    by (rule gives_bind[OF ports(2)], rule gives_ret) simp
qed

lemma watermark_gives:
  assumes "working e q agent arrived"
  shows "gives (ready A texts k True) (watermark_in_budget e) (\<lambda>m w. ready A texts k False w \<and> m \<noteq> None)"
proof -
  have fetch: "gives (ready A texts k True) (budget_fetch e path) (\<lambda>v w. ready A texts k False w \<and>
      (\<exists>page. page_messages v = Inr page \<and> (page = [] \<or> (\<exists>i. decimal_id (jget (hd page) ''id'') = Inr i))))" for path
    unfolding hoare_def
  proof (intro allI impI)
    fix w :: "'a consumer_world" assume w: "ready A texts k True w"
    have "serves (ne_fetch e path) (\<lambda>v. \<exists>page. page_messages v = Inr page \<and>
       (page = [] \<or> (\<exists>i. decimal_id (jget (hd page) ''id'') = Inr i)))"
      using assms by (simp add: working_def)
    then obtain v x' page where "ne_fetch e path (nw_net w) = (Inr v, x')" "page_messages v = Inr page"
      "page = [] \<or> (\<exists>i. decimal_id (jget (hd page) ''id'') = Inr i)" unfolding serves_def by blast
    then show "case budget_fetch e path w of (Inr v, w') \<Rightarrow> ready A texts k False w' \<and>
        (\<exists>page. page_messages v = Inr page \<and> (page = [] \<or> (\<exists>i. decimal_id (jget (hd page) ''id'') = Inr i)))
      | (Inl x, w') \<Rightarrow> False"
      using w by (auto simp: budget_fetch_def ready_def on_net_def bindM_def modifyM_def ret_def Let_def)
  qed
  have last: "gives (ready A texts k False) (case page of [] \<Rightarrow> ret ''0'' | m # x \<Rightarrow> lift_sum (decimal_id (jget m ''id'')))
      (\<lambda>_. ready A texts k False)" if "page = [] \<or> (\<exists>i. decimal_id (jget (hd page) ''id'') = Inr i)" for page
    using that by (cases page) (auto simp: hoare_def ret_def lift_sum_def split: sum.splits)
  have "gives (ready A texts k True) (channel_watermark (send_ports_of e)) (\<lambda>_. ready A texts k False)"
    unfolding channel_watermark_def ports_select
    apply (rule gives_bind[OF config_gives[OF assms]])
    apply (simp add: split_beta)
    apply (rule gives_bind[OF fetch])
    apply (elim exE conjE)
    by (rule gives_lift_bind, assumption) (rule last)
  then show ?thesis unfolding watermark_in_budget_def
    by (intro gives_try gives_then[OF _ gives_ret]) auto
qed

text \<open>The report of a record that is in flight goes out.\<close>

definition fits_budget :: "'x consumer_env \<Rightarrow> report_request \<Rightarrow> string \<Rightarrow> bool" where
  "fits_budget e q agent \<longleftrightarrow> (\<forall>r stamp body. nr_operation r = rq_operation q \<longrightarrow> nr_ticket r = rq_ticket q \<longrightarrow>
     nr_reason_code r = rq_reason_code q \<longrightarrow> report_text (send_ports_of e) agent (request_copy r) stamp = Inr body \<longrightarrow>
     (\<exists>cs. message_chunks body = Inr cs \<and> cs \<noteq> [] \<and> length cs \<le> MAX_POST_ATTEMPTS))"

definition about :: "report_request \<Rightarrow> consumer_record \<Rightarrow> bool" where
  "about q r \<longleftrightarrow> nr_ticket r = rq_ticket q \<and> nr_operation r = rq_operation q \<and> nr_reason_code r = rq_reason_code q"

lemma send_gives:
  assumes "working e q agent arrived" and "request_ok (ne_queue e) q" and "fits_budget e q agent" and "about q r"
  shows "gives (ready A [] MAX_POST_ATTEMPTS False) (send_report (Suc n) (send_ports_of e) (request_copy r) stamp)
    (\<lambda>_ w. \<exists>texts. texts \<noteq> [] \<and> ready A texts 0 False w)"
proof -
  have "\<exists>body. report_text (send_ports_of e) agent (request_copy r) stamp = Inr body"
    using assms(2,4) by (auto simp: report_text_def request_ok_def about_def request_copy_def report_status_for_def)
  then obtain body cs where body: "report_text (send_ports_of e) agent (request_copy r) stamp = Inr body"
    and cs: "message_chunks body = Inr cs" "cs \<noteq> []" "length cs \<le> MAX_POST_ATTEMPTS"
    using assms(3,4) by (fastforce simp: fits_budget_def about_def)
  have token: "serves (ne_token e) (\<lambda>_. True)" using assms(1) by (simp add: working_def)
  have start: "ready A [] (length cs) False w" if "ready A [] MAX_POST_ATTEMPTS False w" for w :: "'a consumer_world"
    using that cs(3) by (rule ready_weaker)
  have direct: "gives (ready A [] (length cs) False) (send_direct (Suc n) (send_ports_of e) body)
      (\<lambda>_ w. \<exists>texts. texts \<noteq> [] \<and> ready A texts 0 False w)"
    unfolding send_direct_def ports_select
    apply (rule gives_bind[OF config_gives[OF assms(1)]])
    apply (simp add: split_beta)
    apply (rule gives_bind[OF on_net_gives[OF token]])
    apply (rule gives_lift_bind, rule cs)
    by (rule gives_post, rule posts_give[OF assms(1)]) (use cs(2) in auto)
  have "gives (ready A [] (length cs) False) (send_report (Suc n) (send_ports_of e) (request_copy r) stamp)
      (\<lambda>_ w. \<exists>texts. texts \<noteq> [] \<and> ready A texts 0 False w)"
    unfolding send_report_def
    apply (rule gives_bind[OF config_gives[OF assms(1)]])
    apply (simp add: split_beta)
    by (rule gives_lift_bind, rule body, rule gives_then[OF direct], rule gives_ret)
  then show ?thesis by (rule hoare_pre) (rule start)
qed

abbreviation delivered :: "(string \<Rightarrow> (py_exn + json) option) \<Rightarrow> 'x consumer_world \<Rightarrow> bool" where
  "delivered A w \<equiv> \<exists>texts. texts \<noteq> [] \<and> ready A texts 0 False w"

definition ended :: "'x consumer_env \<Rightarrow> report_request \<Rightarrow> consumer_record \<Rightarrow> bool" where
  "ended e q r \<longleftrightarrow> about q r \<and> nr_transition r = ''done'' \<and> nr_report r = ''done'' \<and> nr_terminal_reason r = ''ok'' \<and>
     (\<exists>d. nr_terminal_at r = js_isoformat (ne_js e) (Aware d 0))"

lemma with_record_twice [simp]: "with_record (with_record s i a) i b = with_record s i b"
proof -
  have "dict_set i b (dict_set i a d) = dict_set i b d" for d :: "(string \<times> consumer_record) list"
    by (induction i a d rule: dict_set.induct) auto
  then show ?thesis by (simp add: with_record_def)
qed

lemma with_record_timestamp [simp]: "ns_last_timestamp (with_record s i r) = ns_last_timestamp s"
  by (simp add: with_record_def)

lemma with_record_stamped: "with_record (s\<lparr>ns_last_timestamp := t\<rparr>) i r = (with_record s i r)\<lparr>ns_last_timestamp := t\<rparr>"
  by (simp add: with_record_def)

lemma timestamp_gives:
  assumes "ns_last_timestamp s = []"
  shows "gives (ready A texts k g) (next_timestamp e s) (\<lambda>p w. ready A texts k g w \<and>
    (\<exists>d. p = (s\<lparr>ns_last_timestamp := js_isoformat (ne_js e) (Aware d KST)\<rparr>, js_isoformat (ne_js e) (Aware d KST))))"
  unfolding next_timestamp_def kst_now_def Let_def bindM_assoc
  by (rule gives_then[OF clock_gives]) (auto simp: assms hoare_def bindM_def ret_def)

lemma announce_gives:
  assumes "working e q agent arrived" and "request_ok (ne_queue e) q" and "fits_budget e q agent" and "about q r"
    and "dates_read_back (ne_js e)" and "ns_last_timestamp s = []" and "nr_transition r = ''done''"
  shows "gives (ready A [] MAX_POST_ATTEMPTS True) (announce_and_send e s i r)
    (\<lambda>s' w. delivered A w \<and> (\<exists>r' t. s' = (with_record s i r')\<lparr>ns_last_timestamp := t\<rparr> \<and> ended e q r' \<and>
       nr_semantic_key r' = nr_semantic_key r))"
proof -
  have replaced: "\<And>n. ne_write e n = Replaced" using assms(1) by (simp add: working_def)
  let ?r = "\<lambda>m t. r\<lparr>nr_report := ''in_flight'', nr_report_timestamp := t, nr_watermark := m, nr_high := [], nr_cursor := []\<rparr>"
  let ?goal = "\<lambda>s' w. delivered A w \<and> (\<exists>r' t. s' = (with_record s i r')\<lparr>ns_last_timestamp := t\<rparr> \<and> ended e q r' \<and>
       nr_semantic_key r' = nr_semantic_key r)"
  have send: "gives (ready A [] MAX_POST_ATTEMPTS False)
      (send_in_flight e (with_record (s\<lparr>ns_last_timestamp := js_isoformat (ne_js e) (Aware d KST)\<rparr>) i
         (?r m (js_isoformat (ne_js e) (Aware d KST)))) i) ?goal" for m d
  proof -
    let ?t = "js_isoformat (ne_js e) (Aware d KST)"
    let ?s = "with_record (s\<lparr>ns_last_timestamp := ?t\<rparr>) i (?r m ?t)"
    have parse: "js_fromisoformat (ne_js e) ?t = Inr (Aware d KST)" using assms(5) by (simp add: dates_read_back_def)
    have "about q (?r m ?t)" using assms(4) by (simp add: about_def)
    note sending = send_gives[OF assms(1-3) this, where n = MAX_POST_ATTEMPTS and stamp = "Aware d KST" and A = A]
    have finish: "gives (ready A texts 0 False)
        (bindM (utc_text e) (\<lambda>now. store_record e ?s i ((?r m ?t)\<lparr>nr_report := ''done'', nr_terminal_reason := ''ok'',
          nr_message_last4 := suffix, nr_terminal_at := now\<rparr>))) ?goal"
      if "texts \<noteq> []" for texts suffix
      apply (rule gives_bind[OF utc_text_gives])
      apply (rule gives_post, rule write_gives(2)[OF replaced])
      subgoal for now s' w
        using that assms(4,7)
        by (intro conjI exI[of _ texts]
          exI[of _ "(?r m ?t)\<lparr>nr_report := ''done'', nr_terminal_reason := ''ok'', nr_message_last4 := suffix, nr_terminal_at := now\<rparr>"]
          exI[of _ ?t]) (auto simp: ended_def about_def with_record_stamped)
      done
    show ?thesis
      unfolding send_in_flight_def
      apply (rule gives_lift_bind, rule record_at_with)
      apply (rule hoare_bind[where S = "\<lambda>sent w. sent \<noteq> None \<and> delivered A w"])
       apply (rule gives_try)
       apply (rule gives_lift_bind, simp add: parse)
       apply (rule gives_then[OF sending], rule gives_ret, simp)
      subgoal for sent
        apply (cases sent)
         apply (simp add: gives_never)
        by (simp only: option.case option.distinct simp_thms, rule gives_ex, rule finish)
      done
  qed
  show ?thesis
    unfolding announce_and_send_def
    apply (rule gives_bind[OF watermark_gives[OF assms(1)]])
    subgoal for m
      apply (cases m)
       apply simp
      apply (simp only: option.case)
      apply (rule gives_bind[OF timestamp_gives[OF assms(6)]])
      apply (elim exE)
      apply (simp only: prod.case)
      by (rule gives_bind[OF write_gives(2)[OF replaced]], hypsubst, rule send)
    done
qed

section \<open>The card moves\<close>

lemma shown_gives:
  assumes "working e q agent arrived"
  shows "gives (\<lambda>w. ready A texts k g w \<and> (b \<longrightarrow> arrived (nw_net w))) (card_state e (rq_ticket q))
    (\<lambda>c w. ready A texts k g w \<and> (b \<longrightarrow> (\<forall>r. nr_operation r = rq_operation q \<longrightarrow> at_target r c)))"
  unfolding hoare_def
proof (intro allI impI, elim conjE)
  fix w :: "'a consumer_world" assume w: "ready A texts k g w" "b \<longrightarrow> arrived (nw_net w)"
  obtain p c x' where "ne_show e (rq_ticket q) (nw_net w) = (Inr p, x')" "card_of_json p = Inr c"
    "arrived (nw_net w) \<longrightarrow> (\<forall>r. nr_operation r = rq_operation q \<longrightarrow> at_target r c)"
    using assms unfolding working_def by meson
  then show "case card_state e (rq_ticket q) w of
      (Inr c, w') \<Rightarrow> ready A texts k g w' \<and> (b \<longrightarrow> (\<forall>r. nr_operation r = rq_operation q \<longrightarrow> at_target r c))
    | (Inl x, w') \<Rightarrow> False"
    using w by (simp add: card_state_def on_net_def bindM_def lift_sum_def ret_def)
qed

lemma command_gives:
  assumes "working e q agent arrived"
  shows "gives (ready A texts k g) (on_net (ne_kanban e c))
    (\<lambda>_ w. ready A texts k g w \<and> (hd c \<in> {''complete'', ''block''} \<longrightarrow> arrived (nw_net w)))"
  unfolding hoare_def
proof (intro allI impI)
  fix w :: "'a consumer_world" assume w: "ready A texts k g w"
  obtain x' where "ne_kanban e c (nw_net w) = (Inr (), x')" "hd c \<in> {''complete'', ''block''} \<longrightarrow> arrived x'"
    using assms unfolding working_def by meson
  then show "case on_net (ne_kanban e c) w of
      (Inr a, w') \<Rightarrow> ready A texts k g w' \<and> (hd c \<in> {''complete'', ''block''} \<longrightarrow> arrived (nw_net w'))
    | (Inl x, w') \<Rightarrow> False"
    using w by (simp add: on_net_def)
qed

lemma commands_give:
  assumes "working e q agent arrived"
  shows "gives (ready A texts k g) (run_commands e (board_commands r c))
    (\<lambda>ran w. (ready A texts k g w \<and> arrived (nw_net w)) \<and> ran)"
proof -
  note one = command_gives[OF assms, where A = A and texts = texts and k = k and g = g]
  have last: "gives (ready A texts k g) (mapM (\<lambda>c. on_net (ne_kanban e c)) [c])
      (\<lambda>_ w. ready A texts k g w \<and> arrived (nw_net w))" if "hd c \<in> {''complete'', ''block''}" for c
    by (simp only: mapM.simps, rule gives_then[OF one], rule gives_then[OF gives_ret], assumption, rule gives_ret) (use that in auto)
  have two: "gives (ready A texts k g) (mapM (\<lambda>c. on_net (ne_kanban e c)) [c, c'])
      (\<lambda>_ w. ready A texts k g w \<and> arrived (nw_net w))" if "hd c' \<in> {''complete'', ''block''}" for c c'
  proof -
    have "gives (ready A texts k g) (on_net (ne_kanban e c)) (\<lambda>_. ready A texts k g)" by (rule gives_post[OF one]) simp
    then show ?thesis
      by - (subst mapM.simps(2), rule gives_then, assumption, rule gives_then[OF last[OF that]], rule gives_ret)
  qed
  have "gives (ready A texts k g) (mapM (\<lambda>c. on_net (ne_kanban e c)) (board_commands r c))
      (\<lambda>_ w. ready A texts k g w \<and> arrived (nw_net w))"
    unfolding board_commands_def Let_def by (auto intro: last two simp del: mapM.simps)
  then show ?thesis unfolding run_commands_def by (intro gives_try gives_then[OF _ gives_ret]) auto
qed

lemma execute_gives:
  assumes "working e q agent arrived" and "record_at s i = Inr r" and "about q r"
  shows "gives (ready A texts k g) (execute_transition e s i)
    (\<lambda>s' w. ready A texts k g w \<and> s' = with_record s i (r\<lparr>nr_transition := ''done''\<rparr>))"
proof -
  have replaced: "\<And>n. ne_write e n = Replaced" using assms(1) by (simp add: working_def)
  have r: "nr_ticket r = rq_ticket q" "nr_operation r = rq_operation q" using assms(3) by (simp_all add: about_def)
  let ?m = "r\<lparr>nr_transition := ''in_flight''\<rparr>"
  let ?goal = "\<lambda>s' w. ready A texts k g w \<and> s' = with_record s i (r\<lparr>nr_transition := ''done''\<rparr>)"
  note first = shown_gives[OF assms(1), where b = False, simplified]
    and later = shown_gives[OF assms(1), where b = True, simplified]
  have stored: "gives (ready A texts k g) (store_record e s i (r\<lparr>nr_transition := ''done''\<rparr>)) ?goal"
    "gives (ready A texts k g) (store_record e (with_record s i ?m) i (?m\<lparr>nr_transition := ''done''\<rparr>)) ?goal"
    by (rule gives_post, rule write_gives(2)[OF replaced], simp)+
  have confirm: "gives (\<lambda>w. ready A texts k g w \<and> arrived (nw_net w)) (bindM (card_state e (nr_ticket r)) (\<lambda>confirmed.
        if at_target r confirmed then store_record e (with_record s i ?m) i (?m\<lparr>nr_transition := ''done''\<rparr>) else f confirmed))
      ?goal" for f
    unfolding r(1) by (rule gives_bind[OF later]) (use r(2) stored(2) in simp)
  show ?thesis
    unfolding execute_transition_def Let_def
    apply (rule gives_lift_bind, rule assms(2))
    apply (subst r(1))
    apply (rule gives_then[OF first])
    subgoal for current
      apply (cases "at_target r current")
       apply (simp only: if_True, rule stored(1))
      apply (simp only: if_False)
      apply (rule gives_bind[OF write_gives(2)[OF replaced]], hypsubst)
      apply (rule gives_bind[OF commands_give[OF assms(1)]])
      by (simp only: not_True_eq_False if_False, rule confirm)
    done
qed

section \<open>A report is delivered\<close>

lemma transition_and_report_gives:
  assumes "working e q agent arrived" and "request_ok (ne_queue e) q" and "fits_budget e q agent"
    and "dates_read_back (ne_js e)" and "ns_last_timestamp s = []"
    and "record_at s i = Inr r" and "about q r" and "nr_transition r = ''pending''" and "nr_report r = ''pending''"
    and "nr_report_attempts r = 0"
  shows "gives (ready A [] MAX_POST_ATTEMPTS True) (transition_and_report e s i)
    (\<lambda>s' w. delivered A w \<and> (\<exists>r' t. s' = (with_record s i r')\<lparr>ns_last_timestamp := t\<rparr> \<and> ended e q r' \<and>
       nr_semantic_key r' = nr_semantic_key r))"
proof -
  let ?d = "r\<lparr>nr_transition := ''done''\<rparr>"
  have d: "about q ?d" using assms(7) by (simp add: about_def)
  have start: "gives (ready A [] MAX_POST_ATTEMPTS True) (start_report e (with_record s i ?d) i)
    (\<lambda>s' w. delivered A w \<and> (\<exists>r' t. s' = (with_record s i r')\<lparr>ns_last_timestamp := t\<rparr> \<and> ended e q r' \<and>
       nr_semantic_key r' = nr_semantic_key r))"
    unfolding start_report_def
    apply (rule gives_lift_bind, rule record_at_with)
    apply (simp add: assms(10) MAX_PHASE_ATTEMPTS_def)
    by (rule gives_post, rule announce_gives[OF assms(1-3) d assms(4)]) (use assms(5) in auto)
  show ?thesis
    unfolding transition_and_report_def
    apply (rule gives_lift_bind, rule assms(6))
    apply (simp add: assms(8))
    apply (rule gives_bind[OF execute_gives[OF assms(1,6,7)]], hypsubst)
    apply (rule gives_lift_bind, rule record_at_with)
    using start by (simp add: assms(9))
qed

text \<open>A computation that only reads the state.\<close>

lemma gives_reads: "(\<And>w. P w \<Longrightarrow> m w = (Inr a, w)) \<Longrightarrow> gives P (f a) Q \<Longrightarrow> gives P (bindM m f) Q"
  by (simp add: hoare_def bindM_def)

lemma gives_gets: "(\<And>w. P w \<Longrightarrow> h w = a) \<Longrightarrow> gives P (f a) Q \<Longrightarrow> gives P (bindM (getsM h) f) Q"
  by (rule gives_reads) (simp_all add: getsM_def)

abbreviation unreceipted :: "string \<Rightarrow> (py_exn + json) option" where
  "unreceipted \<equiv> (\<lambda>_. None)"

text \<open>The report of \<open>q\<close> is made: its texts are posted and its receipt is there.\<close>

definition reported :: "'x consumer_env \<Rightarrow> report_request \<Rightarrow> 'x consumer_world \<Rightarrow> bool" where
  "reported e q w \<longleftrightarrow> nw_posts w \<noteq> [] \<and> (\<exists>r. ended e q r \<and> nr_semantic_key r = semantic_key (ne_queue e) q \<and>
     nw_ack w (id_name (rq_request_id q)) = Some (Inr (ack_payload (rq_request_id q) r)))"

lemma receipt_names:
  assumes "hex_text 32 i"
  shows "id_name i \<noteq> sem_name key" and "id_name i \<noteq> reported_name e r"
proof -
  obtain c t where "i = c # t" "hex_char c" using assms by (cases i) (auto simp: hex_text_def)
  moreover have "\<not> hex_char CHR ''s''" "\<not> hex_char CHR ''r''" by (simp_all add: hex_char_def)
  ultimately show "id_name i \<noteq> sem_name key" and "id_name i \<noteq> reported_name e r"
    by (auto simp: id_name_def sem_name_def reported_name_def reported_marker_def)
qed

lemma finish_gives:
  assumes "working e q agent arrived" and "request_ok (ne_queue e) q" and "ended e q r"
    and "nr_semantic_key r = semantic_key (ne_queue e) q"
  shows "gives (delivered unreceipted) (finish_record e (rq_request_id q) r) (\<lambda>_. reported e q)"
proof (rule gives_ex)
  fix texts :: "string list" assume texts: "texts \<noteq> []"
  have replaced: "\<And>n. ne_write e n = Replaced" using assms(1) by (simp add: working_def)
  have over: "terminal r" "nr_report r = ''done''" using assms(3) by (auto simp: terminal_def ended_def)
  have "hex_text 32 (rq_request_id q)" using assms(2) by (simp add: request_ok_def)
  note names = receipt_names[OF this]
  show "gives (ready unreceipted texts 0 False) (finish_record e (rq_request_id q) r) (\<lambda>_. reported e q)"
    unfolding finish_record_def
    apply (simp only: over simp_thms if_False if_True)
    apply (rule gives_then[OF receipt_gives[OF replaced]])
    apply (rule gives_then[OF receipt_gives[OF replaced]])
    apply (rule gives_post, rule receipt_gives[OF replaced])
    using names texts assms(3,4) by (auto simp: reported_def ready_def)
qed

lemma capability_step:
  "keeping (\<lambda>w. cw_key_error w = None) (\<lambda>_. True) (publish_capability e ticket n)"
  by (rule keepingI) (auto simp: publish_capability_def publish_locked_def split: if_splits option.splits sum.splits)

lemma capability_steps:
  "keeping (\<lambda>w. cw_key_error w = None) (\<lambda>_. True) (publish_missing e limit published entries)"
proof (induction e limit published entries rule: publish_missing.induct)
  case (2 e limit published ticket n entries)
  have read: "keeping (\<lambda>w. cw_key_error w = None) (\<lambda>_. True) (\<lambda>w. (read_published ticket (cw_files w), w))"
    by (rule keepingI) auto
  show ?case
    unfolding publish_missing.simps
    by (rule keeping_bind_any[OF read], rule keeping_if, erule 2(1),
        rule keeping_bind_any[OF capability_step], rule keeping_if, rule keeping_ret, simp, rule 2(2))
qed (simp add: tick_keeps)

lemma key_stays_readable:
  "cw_key_error w = None \<Longrightarrow> cw_key_error (snd (reconcile_capabilities e registry limit w)) = None"
proof (cases "registry_snapshot registry")
  case (Some entries)
  assume w: "cw_key_error w = None"
  obtain r w' where "publish_missing e limit 0 entries w = (r, w')" by fastforce
  with keepingD[OF capability_steps w this] w Some show ?thesis by (simp add: reconcile_capabilities_def)
qed (simp add: reconcile_capabilities_def ret_def)

lemma collect_gives:
  assumes "ended e q r" and "dates_read_back (ne_js e)" and "\<And>n. ne_write e n = Replaced"
    and that: "ns_records (with_record s i r) = [(i, r)]"
  shows "gives (reported e q) (bindM (gc_state e (with_record s i r)) (\<lambda>collected.
      bindM (if collected \<noteq> s' then save_consumer_state e collected else ret ()) (\<lambda>_. ret n)))
    (\<lambda>m w. reported e q w \<and> m = n)"
proof -
  have clock: "gives (reported e q) (utc_now e) (\<lambda>_. reported e q)"
    by (auto simp: hoare_def utc_now_def on_net_def reported_def split: prod.splits)
  obtain d where "nr_terminal_at r = js_isoformat (ne_js e) (Aware d 0)" using assms(1) by (auto simp: ended_def)
  then have "js_fromisoformat (ne_js e) (nr_terminal_at r) = Inr (Aware d 0)" using assms(2) by (simp add: dates_read_back_def)
  then have "\<exists>b. collectable e now (i, r) w = Inr b" for now w by (auto simp: collectable_def dt_lt_def)
  then have collects: "\<exists>c. collect_records e now (ns_records (with_record s i r)) t w = Inr c" for now t w
    unfolding that by (metis collect_records.simps sum_bind_simps(2))
  have "gives (reported e q) (\<lambda>w. (collect_records e now (ns_records (with_record s i r)) t w, w)) (\<lambda>_. reported e q)" for now t
    unfolding hoare_def
  proof (intro allI impI)
    fix w assume "reported e q w"
    then show "case (collect_records e now (ns_records (with_record s i r)) t w, w) of
        (Inr a, w') \<Rightarrow> reported e q w' | (Inl x, w') \<Rightarrow> False"
      using collects[of now t w] by auto
  qed
  then have gc: "gives (reported e q) (gc_state e (with_record s i r)) (\<lambda>_. reported e q)"
    unfolding gc_state_def by (rule gives_then[OF clock])
  have save: "gives (reported e q) (save_consumer_state e c) (\<lambda>_. reported e q)" for c
    by (auto simp: hoare_def save_consumer_state_def write_state_def assms(3) Let_def reported_def)
  show ?thesis
    by (rule gives_then[OF gc], rule gives_then[where P' = "reported e q"], rule hoare_pre, rule hoare_if,
        rule save, rule gives_ret, assumption, simp, rule gives_ret) simp
qed

lemma begin_gives:
  assumes "working e q agent arrived" and "request_ok (ne_queue e) q" and "fits_budget e q agent"
    and "dates_read_back (ne_js e)"
  shows "gives (ready unreceipted [] MAX_POST_ATTEMPTS True)
    (begin_record e q digest (semantic_key (ne_queue e) q) \<lparr>pg_state = empty_state, pg_completed = 0, pg_processed = 0\<rparr>)
    (\<lambda>g w. reported e q w \<and> (\<exists>r s. ended e q r \<and> g = \<lparr>pg_state = with_record s (rq_request_id q) r, pg_completed = 1, pg_processed = 1\<rparr> \<and>
       ns_records (with_record s (rq_request_id q) r) = [(rq_request_id q, r)]))"
proof -
  have replaced: "\<And>n. ne_write e n = Replaced" using assms(1) by (simp add: working_def)
  let ?i = "rq_request_id q" and ?key = "semantic_key (ne_queue e) q"
  obtain r where new: "new_consumer_record q digest ?key = Inr r"
    using assms(2) by (auto simp: new_consumer_record_def request_ok_def)
  then have r: "about q r" "nr_transition r = ''pending''" "nr_report r = ''pending''" "nr_report_attempts r = 0"
    "nr_semantic_key r = ?key"
    by (auto simp: new_consumer_record_def about_def split: if_splits)
  let ?s = "\<lparr>ns_records = [(?i, r)], ns_reservations = [(?key, ?i)], ns_last_timestamp = []\<rparr>"
  have at: "record_at ?s ?i = Inr r" by (simp add: record_at_def)
  have start: "empty_state\<lparr>ns_records := dict_set ?i r (ns_records empty_state),
      ns_reservations := dict_set ?key ?i (ns_reservations empty_state)\<rparr> = ?s"
    by (simp add: empty_state_def)
  have one: "ns_records ((with_record ?s ?i r')\<lparr>ns_last_timestamp := t\<rparr>) = [(?i, r')]" for r' t
    by (simp add: with_record_def)
  have stamped: "(with_record ?s ?i r')\<lparr>ns_last_timestamp := t\<rparr> = with_record (?s\<lparr>ns_last_timestamp := t\<rparr>) ?i r'" for r' t
    by (simp add: with_record_def)
  note made = transition_and_report_gives[OF assms, of ?s ?i r unreceipted, OF _ at r(1-4)]
  show ?thesis
    unfolding begin_record_def Let_def
    apply (rule gives_lift_bind, rule new)
    apply (simp only: progress.simps start)
    apply (rule gives_then[OF write_gives(1)[OF replaced]])
    apply (rule gives_bind[OF made], simp)
    apply (elim exE conjE)
    subgoal for u s' r' t
      apply (rule gives_lift_bind[where a = r'], simp add: stamped)
      apply (simp only: progress.simps)
      apply (rule gives_post[where Q = "\<lambda>g w. reported e q w \<and> g = \<lparr>pg_state = s', pg_completed = 1, pg_processed = 1\<rparr>"])
       apply (simp add: terminal_def ended_def)
       apply (rule gives_then[OF finish_gives[OF assms(1,2)]])
         apply (simp add: ended_def)
        apply (simp add: r(5))
       apply (rule gives_ret, simp)
      by (intro conjI exI[of _ r'] exI[of _ "?s\<lparr>ns_last_timestamp := t\<rparr>"]) (simp_all add: stamped with_record_def)
    done
qed

text \<open>
  A queue whose only line is \<open>raw\<close>, which asks for the report of \<open>q\<close> with a genuine capability for a
  ticket of the registry, before the consumer has ever run.
\<close>

definition queued_alone :: "'x consumer_env \<Rightarrow> string \<Rightarrow> report_request \<Rightarrow> 'x consumer_world \<Rightarrow> bool" where
  "queued_alone e raw q w \<longleftrightarrow> parse_line (ne_queue e) raw = Some q \<and> length (newline_stripped raw) \<le> MAX_LINE_BYTES \<and>
     raw_lines [] raw = [raw] \<and> last raw = CHR 0x0A \<and> raw \<noteq> [] \<and> length raw \<le> MAX_QUEUE_BYTES \<and>
     nw_pending w = Pending_bytes raw \<and> nw_lockable w \<and> nw_state w = None \<and> nw_ack w = unreceipted \<and> nw_posts w = [] \<and>
     (\<exists>allowed. fst (load_ticket_allowlist w) = Inr allowed \<and> rq_ticket q \<in> set allowed) \<and>
     cw_key_error (nw_capabilities w) = None \<and>
     sum_bind (canonical_occurrence (dec_value (rq_occurrence q))) (\<lambda>_.
       verify_capability (ne_capability e) (rq_ticket q) (dec_value (rq_occurrence q)) (rq_mac q)) = Inr True"

lemma parsed_ok: "parse_line e raw = Some q \<Longrightarrow> request_ok e q"
  by (auto simp: parse_line_def split: if_splits sum.splits json.splits option.splits)

abbreviation fresh_progress :: progress where
  "fresh_progress \<equiv> \<lparr>pg_state = empty_state, pg_completed = 0, pg_processed = 0\<rparr>"

lemma request_gives:
  assumes "working e q agent arrived" and "request_ok (ne_queue e) q" and "fits_budget e q agent"
    and "dates_read_back (ne_js e)" and "rq_ticket q \<in> set allowed"
    and "sum_bind (canonical_occurrence (dec_value (rq_occurrence q))) (\<lambda>_.
       verify_capability (ne_capability e) (rq_ticket q) (dec_value (rq_occurrence q)) (rq_mac q)) = Inr True"
  shows "gives (\<lambda>w. ready unreceipted [] MAX_POST_ATTEMPTS True w \<and> cw_key_error (nw_capabilities w) = None)
    (consume_request e allowed doubtful digest q fresh_progress)
    (\<lambda>g w. reported e q w \<and> (\<exists>r s. ended e q r \<and> g = \<lparr>pg_state = with_record s (rq_request_id q) r, pg_completed = 1, pg_processed = 1\<rparr> \<and>
       ns_records (with_record s (rq_request_id q) r) = [(rq_request_id q, r)]))"
proof -
  have none: "terminal_receipt n w = None" if "ready unreceipted [] MAX_POST_ATTEMPTS True w \<and> cw_key_error (nw_capabilities w) = None"
    for n and w :: "'a consumer_world"
    using that by (simp add: ready_def terminal_receipt_def)
  have genuine: "verify_request e q w = (Inr True, w)"
    if "ready unreceipted [] MAX_POST_ATTEMPTS True w \<and> cw_key_error (nw_capabilities w) = None" for w :: "'a consumer_world"
    using that assms(6) by (simp add: verify_request_def)
  have fresh: "map_of (ns_records (pg_state fresh_progress)) i = None" "map_of (ns_reservations (pg_state fresh_progress)) i = None" for i
    by (simp_all add: empty_state_def)
  note begins = begin_gives[OF assms(1-4)]
  show ?thesis
    unfolding consume_request_def Let_def
    apply (rule gives_gets[where a = None], rule none, assumption)
    apply (simp only: fresh option.case simp_thms if_False)
    apply (rule gives_gets[where a = False], simp only: none simp_thms)
    apply (simp only: assms(5) simp_thms if_False)
    apply (rule gives_reads[where a = True], rule genuine, assumption)
    by (simp only: simp_thms if_False, rule hoare_pre, rule begins, simp)
qed

lemma no_more_lines: "consume_lines e allowed doubtful [] = ret"
  by (rule ext) simp

lemma bindM_return: "bindM m ret = m"
  by (rule ext) (simp add: bindM_def ret_def split: prod.split sum.split)

lemma consume_from_gives:
  assumes "working e q agent arrived" and "fits_budget e q agent" and "dates_read_back (ne_js e)" and "walks_sets e"
    and "queued_alone e raw q w" and "rq_ticket q \<in> set allowed"
    and "nw_pending v = nw_pending w" and "nw_ack v = nw_ack w" and "nw_posts v = nw_posts w"
    and "cw_key_error (nw_capabilities v) = None"
  shows "gives (\<lambda>u. u = fresh_budgets v) (consume_from e allowed empty_state) (\<lambda>n u. reported e q u \<and> n = 1)"
proof -
  have q: "request_ok (ne_queue e) q" using assms(5) parsed_ok by (auto simp: queued_alone_def)
  have replaced: "\<And>n. ne_write e n = Replaced" using assms(1) by (simp add: working_def)
  have unresolved: "ne_order e (unresolved_ids empty_state) = []"
    using assms(4) by (simp add: walks_sets_def unresolved_ids_def empty_state_def flip: set_empty)
  have lines: "snapshot_lines (fresh_budgets v) = Some [raw]"
    using assms(5,7) by (simp add: snapshot_lines_def fresh_budgets_def queued_alone_def whole_part_def)
  have ready: "ready unreceipted [] MAX_POST_ATTEMPTS True (fresh_budgets v) \<and> cw_key_error (nw_capabilities (fresh_budgets v)) = None"
    using assms(5,8,9,10) by (simp add: ready_def fresh_budgets_def queued_alone_def MAX_GET_PAGES_def)
  have line: "consume_line e allowed doubtful raw g = consume_request e allowed doubtful (qe_digest (ne_queue e) raw) q g" for doubtful g
    using assms(5) by (simp add: consume_line_def queued_alone_def)
  have verified: "sum_bind (canonical_occurrence (dec_value (rq_occurrence q))) (\<lambda>_.
       verify_capability (ne_capability e) (rq_ticket q) (dec_value (rq_occurrence q)) (rq_mac q)) = Inr True"
    using assms(5) by (simp add: queued_alone_def)
  note made = request_gives[OF assms(1) q assms(2,3,6) verified]
  show ?thesis
    unfolding consume_from_def reconcile_start_records_def unresolved reconcile_ids.simps
    apply (rule gives_reads[where a = "(empty_state, 0, unresolved_ids empty_state)"], simp add: ret_def bindM_def)
    apply (simp only: prod.case)
    apply (rule gives_gets[where a = "Some [raw]"], simp add: lines)
    apply (simp only: option.case Let_def)
    apply (rule gives_reads[where a = "(empty_state, 0, 0)"], simp add: ret_def empty_state_def)
    apply (simp only: prod.case consume_lines.simps line add_0_left)
    apply (rule gives_bind[where P' = "reported e q"])
     apply (simp add: MAX_PROCESSED_def no_more_lines bindM_return)
     apply (rule hoare_pre, rule made, simp only: ready)
    apply (elim exE conjE)
    apply (simp only: progress.simps)
    by (rule collect_gives[OF _ assms(3) replaced])
qed

lemma consume_once_gives:
  assumes "working e q agent arrived" and "fits_budget e q agent" and "dates_read_back (ne_js e)" and "walks_sets e"
    and "queued_alone e raw q w"
  shows "\<exists>w'. consume_once e w = (Inr 1, w') \<and> reported e q w'"
proof -
  obtain allowed where allowed: "fst (load_ticket_allowlist w) = Inr allowed" "rq_ticket q \<in> set allowed"
    using assms(5) by (auto simp: queued_alone_def)
  let ?c = "snd (reconcile_capabilities (ne_capability e) (nw_registry w) 200 (nw_capabilities w))"
  let ?v = "w\<lparr>nw_capabilities := ?c\<rparr>"
  have refresh: "refresh_capabilities e w = (Inr (), ?v)" by (simp add: refresh_capabilities_def split: prod.splits)
  have load: "load_consumer_state e ?v = (Inr empty_state, ?v)"
    using assms(5) by (simp add: load_consumer_state_def queued_alone_def)
  have list: "load_ticket_allowlist ?v = (Inr allowed, ?v)"
    using allowed(1) by (simp add: load_ticket_allowlist_def)
  have "cw_key_error (nw_capabilities ?v) = None"
    using key_stays_readable assms(5) by (simp add: queued_alone_def)
  from consume_from_gives[OF assms allowed(2), of ?v] this
  obtain n w' where run: "consume_from e allowed empty_state (fresh_budgets ?v) = (Inr n, w')" "reported e q w'" "n = 1"
    by (auto dest!: gives_run)
  have "consume_locked e w = (Inr 1, w')"
    using run by (simp add: consume_locked_from bindM_def refresh load list modifyM_def)
  then show ?thesis using run(2) assms(5) by (simp add: consume_once_def tryM_def queued_alone_def)
qed



section \<open>The sample world\<close>

lemma sample_parses: "parse_line (ne_queue sample_consumer_env) [CHR 0x0A] = Some sample_report"
proof -
  have "request_ok (ne_queue sample_consumer_env) q = request_ok sample_queue_env q" for q
    by (simp add: sample_consumer_env_def request_ok_def)
  then have "request_ok (ne_queue sample_consumer_env) sample_report" using sample_report_ok by simp
  moreover have eta: "\<lparr>rq_request_id = rq_request_id sample_report, rq_operation = rq_operation sample_report,
      rq_ticket = rq_ticket sample_report, rq_reason_code = rq_reason_code sample_report,
      rq_occurrence = rq_occurrence sample_report, rq_mac = rq_mac sample_report, rq_created = rq_created sample_report\<rparr> = sample_report"
    by simp
  ultimately show ?thesis
    by (simp add: parse_line_def sample_consumer_env_def request_json_def RECORD_KEYS_def MAX_LINE_BYTES_def
        request_of_fields_def jget_def insert_commute eta)
qed

lemma sample_working: "working sample_consumer_env sample_report ''a'' (\<lambda>_. True)"
proof -
  have "card_of_json (JObj [(''task'', JObj [(''status'', JStr ''done'')]), (''events'', JArr [])]) =
      Inr \<lparr>cv_status = ''done'', cv_blocked_kind = None\<rparr>" by code_simp
  moreover have "rq_operation sample_report = ''complete''" by (simp add: sample_report_def stamped_def)
  moreover have "page_messages (JArr []) = Inr []" by (simp add: page_messages_def)
  moreover have "\<exists>i. sent_id (ne_js sample_consumer_env) [] = Inr i"
    by (simp add: sent_id_def sample_consumer_env_def jget_def)
  ultimately show ?thesis
    by (simp add: working_def serves_def sample_consumer_env_def ret_def config_field_def jget_def at_target_def)
qed

lemma sample_fits: "fits_budget sample_consumer_env sample_report ''a''"
proof -
  have body: "body = fence @ ''json'' @ CHR 0x0A # CHR 0x0A # fence"
    if "report_text (send_ports_of sample_consumer_env) agent q stamp = Inr body" for agent q stamp body
    using that by (simp add: report_text_def send_ports_of_def sample_consumer_env_def sample_json_def format_report_def
        split: option.splits if_splits)
  have "message_chunks (fence @ ''json'' @ CHR 0x0A # CHR 0x0A # fence) = Inr [fence @ ''json'' @ CHR 0x0A # CHR 0x0A # fence]"
    by code_simp
  then show ?thesis unfolding fits_budget_def by (fastforce dest: body simp: MAX_POST_ATTEMPTS_def)
qed

lemma sample_queued: "queued_alone sample_consumer_env [CHR 0x0A] sample_report sample_consumer_world"
proof -
  have "fst (load_ticket_allowlist sample_consumer_world) = Inr [''t_a'']"
    by (simp add: load_ticket_allowlist_def sample_consumer_world_def jget_def)
  moreover have "rq_ticket sample_report = ''t_a''" "rq_occurrence sample_report = ''1''" "rq_mac sample_report = replicate 64 (CHR ''f'')"
    by (simp_all add: sample_report_def stamped_def sample_capability_def)
  moreover have "canonical_occurrence (dec_value ''1'') = Inr ''1''" by code_simp
  ultimately show ?thesis
    using sample_parses
    by (simp add: queued_alone_def sample_consumer_world_def newline_stripped_def MAX_LINE_BYTES_def MAX_QUEUE_BYTES_def
        sample_capability_world_def verify_capability_def capability_mac_def sample_consumer_env_def)
qed



end
