(* ===== verification/Report_Blocking.thy ===== *)
theory Report_Blocking
  imports Report_Delivery
begin

text \<open>
  Two ways in which a report does not arrive as it should: a card that cannot be shown holds up every
  report queued behind it, and a search that runs out of its budget of pages loses the pages it has
  read. The theory also runs the consumer on a sample environment.
\<close>

section \<open>A card that cannot be shown\<close>

abbreviation always_raises :: "('w \<Rightarrow> bool) \<Rightarrow> ('w, 'a) io \<Rightarrow> ('w \<Rightarrow> bool) \<Rightarrow> bool" where
  "always_raises P m R \<equiv> hoare P m (\<lambda>_ _. False) (\<lambda>_. R)"

lemma raises_first: "always_raises P m R \<Longrightarrow> always_raises P (bindM m f) R"
  by (rule hoare_bind, assumption) (simp add: hoare_def)

lemma raises_reads: "(\<And>w. P w \<Longrightarrow> m w = (Inr a, w)) \<Longrightarrow> always_raises P (f a) R \<Longrightarrow> always_raises P (bindM m f) R"
  by (simp add: hoare_def bindM_def)

lemma raises_lift: "r = Inr a \<Longrightarrow> always_raises P (f a) R \<Longrightarrow> always_raises P (bindM (lift_sum r) f) R"
  by (rule raises_reads) (simp_all add: lift_sum_def ret_def)

lemma raises_gets: "(\<And>w. P w \<Longrightarrow> h w = a) \<Longrightarrow> always_raises P (f a) R \<Longrightarrow> always_raises P (bindM (getsM h) f) R"
  by (rule raises_reads) (simp_all add: getsM_def)

text \<open>The state once the request \<open>q\<close> of the line \<open>raw\<close> has begun.\<close>

definition begun_record :: "'x consumer_env \<Rightarrow> string \<Rightarrow> report_request \<Rightarrow> consumer_record" where
  "begun_record e raw q = (case new_consumer_record q (qe_digest (ne_queue e) raw) (semantic_key (ne_queue e) q) of Inr r \<Rightarrow> r)"

definition begun_state :: "'x consumer_env \<Rightarrow> string \<Rightarrow> report_request \<Rightarrow> consumer_state" where
  "begun_state e raw q = \<lparr>ns_records = [(rq_request_id q, begun_record e raw q)],
     ns_reservations = [(semantic_key (ne_queue e) q, rq_request_id q)], ns_last_timestamp = []\<rparr>"

text \<open>
  \<open>q\<close> is asked for by the first line of the queue, genuinely and for a ticket of the registry, and has
  no receipt.
\<close>

definition first_in_queue ::
  "'x consumer_env \<Rightarrow> string \<Rightarrow> report_request \<Rightarrow> 'x consumer_world \<Rightarrow> bool" where
  "first_in_queue e raw q w \<longleftrightarrow> parse_line (ne_queue e) raw = Some q \<and> length (newline_stripped raw) \<le> MAX_LINE_BYTES \<and>
     raw_lines [] raw = [raw] \<and> raw \<noteq> [] \<and> last raw = CHR 0x0A \<and> (\<exists>rest. nw_pending w = Pending_bytes (raw @ rest)) \<and>
     nw_ack w (id_name (rq_request_id q)) = None \<and> nw_ack w (sem_name (semantic_key (ne_queue e) q)) = None \<and>
     (\<exists>allowed. fst (load_ticket_allowlist w) = Inr allowed \<and> rq_ticket q \<in> set allowed) \<and>
     cw_key_error (nw_capabilities w) = None \<and>
     sum_bind (canonical_occurrence (dec_value (rq_occurrence q))) (\<lambda>_.
       verify_capability (ne_capability e) (rq_ticket q) (dec_value (rq_occurrence q)) (rq_mac q)) = Inr True"

definition card_unreadable :: "'x consumer_env \<Rightarrow> string \<Rightarrow> bool" where
  "card_unreadable e ticket \<longleftrightarrow> (\<forall>x. \<exists>err x'. ne_show e ticket x = (Inl err, x'))"

text \<open>Nothing has been written but, at most, that the request has begun.\<close>

definition stuck ::
  "'x consumer_env \<Rightarrow> string \<Rightarrow> report_request \<Rightarrow> 'x consumer_world \<Rightarrow> 'x consumer_world \<Rightarrow> bool" where
  "stuck e raw q w0 w \<longleftrightarrow> nw_state w \<in> {None, Some (Inr (state_json (begun_state e raw q)))} \<and>
     nw_ack w = nw_ack w0 \<and> nw_posts w = nw_posts w0 \<and> nw_registry w = nw_registry w0 \<and> nw_pending w = nw_pending w0 \<and>
     cw_key_error (nw_capabilities w) = None"

lemma stuck_net [simp]: "stuck e raw q w0 (w\<lparr>nw_net := x\<rparr>) = stuck e raw q w0 w"
  by (simp add: stuck_def)

lemma show_raises:
  assumes "card_unreadable e t"
  shows "always_raises (stuck e raw q w0) (card_state e t) (stuck e raw q w0)"
  unfolding hoare_def
proof (intro allI impI)
  fix w assume w: "stuck e raw q w0 w"
  obtain err x' where "ne_show e t (nw_net w) = (Inl err, x')" using assms unfolding card_unreadable_def by blast
  then show "case card_state e t w of (Inr a, w') \<Rightarrow> False | (Inl x, w') \<Rightarrow> stuck e raw q w0 w'"
    using w by (simp add: card_state_def on_net_def bindM_def)
qed

lemma begun_facts:
  assumes "request_ok (ne_queue e) q"
  shows "new_consumer_record q (qe_digest (ne_queue e) raw) (semantic_key (ne_queue e) q) = Inr (begun_record e raw q)"
    and "nr_ticket (begun_record e raw q) = rq_ticket q" and "nr_transition (begun_record e raw q) = ''pending''"
    and "nr_report (begun_record e raw q) = ''pending''" and "nr_line_digest (begun_record e raw q) = qe_digest (ne_queue e) raw"
    and "nr_semantic_key (begun_record e raw q) = semantic_key (ne_queue e) q"
    and "record_at (begun_state e raw q) (rq_request_id q) = Inr (begun_record e raw q)"
    and "state_fine js (begun_state e raw q)"
  using assms
  by (auto simp: request_ok_def new_consumer_record_def begun_record_def begun_state_def record_at_def state_fine_def
      record_fine_def reserved_def stored_moment_def TRANSITIONS_OF_RECORD_def REPORTS_OF_RECORD_def TERMINAL_REASONS_def)

lemma transition_raises:
  assumes "request_ok (ne_queue e) q" and "card_unreadable e (rq_ticket q)"
  shows "always_raises (stuck e raw q w0) (transition_and_report e (begun_state e raw q) (rq_request_id q)) (stuck e raw q w0)"
  unfolding transition_and_report_def execute_transition_def
  apply (rule raises_lift, rule begun_facts(7)[OF assms(1)])
  apply (simp only: begun_facts(3)[OF assms(1)])
  apply (simp only: insert_iff empty_iff list.inject char.inject simp_thms if_False)
  apply (rule raises_first)
  apply (rule raises_lift, rule begun_facts(7)[OF assms(1)])
  by (rule raises_first, subst begun_facts(2)[OF assms(1)], rule show_raises, rule assms(2))

lemma begin_raises:
  assumes "request_ok (ne_queue e) q" and "card_unreadable e (rq_ticket q)" and "pg_state g = empty_state"
  shows "always_raises (stuck e raw q w0)
    (begin_record e q (qe_digest (ne_queue e) raw) (semantic_key (ne_queue e) q) g) (stuck e raw q w0)"
proof -
  have state: "(pg_state g)\<lparr>ns_records := dict_set (rq_request_id q) (begun_record e raw q) (ns_records (pg_state g)),
      ns_reservations := dict_set (semantic_key (ne_queue e) q) (rq_request_id q) (ns_reservations (pg_state g))\<rparr> = begun_state e raw q"
    by (simp add: assms(3) empty_state_def begun_state_def)
  have save: "hoare (stuck e raw q w0) (save_consumer_state e (begun_state e raw q)) (\<lambda>_. stuck e raw q w0) (\<lambda>_. stuck e raw q w0)"
    by (auto simp: hoare_def save_consumer_state_def write_state_def stuck_def Let_def split: write_outcome.splits)
  show ?thesis
    unfolding begin_record_def Let_def
    by (rule raises_lift, rule begun_facts(1)[OF assms(1)], subst state, rule hoare_bind[OF save], subst state,
        rule raises_first, rule transition_raises[OF assms(1,2)])
qed

lemma request_raises:
  assumes "first_in_queue e raw q w0" and "card_unreadable e (rq_ticket q)" and "rq_ticket q \<in> set allowed"
    and "pg_state g = s" and "s \<in> {empty_state, begun_state e raw q}" and "rq_request_id q \<notin> set doubtful"
  shows "always_raises (stuck e raw q w0)
    (consume_request e allowed doubtful (qe_digest (ne_queue e) raw) q g) (stuck e raw q w0)"
proof -
  have ok: "request_ok (ne_queue e) q" using assms(1) parsed_ok by (auto simp: first_in_queue_def)
  let ?i = "rq_request_id q" and ?key = "semantic_key (ne_queue e) q"
  have none: "terminal_receipt (id_name ?i) w = None" "terminal_receipt (sem_name ?key) w = None" if "stuck e raw q w0 w" for w
    using that assms(1) by (simp_all add: stuck_def terminal_receipt_def first_in_queue_def)
  have genuine: "verify_request e q w = (Inr True, w)" if "stuck e raw q w0 w" for w
    using that assms(1) by (simp add: verify_request_def stuck_def first_in_queue_def)
  note begun = begun_facts[OF ok, where raw = raw]
  have same: "\<not> (case map_of (ns_records s) ?i of None \<Rightarrow> False | Some r \<Rightarrow> nr_line_digest r \<noteq> qe_digest (ne_queue e) raw \<or> nr_semantic_key r \<noteq> ?key)"
    "\<not> (case map_of (ns_reservations s) ?key of None \<Rightarrow> False | Some owner \<Rightarrow> owner \<noteq> ?i)"
    using assms(5) begun(5,6) by (auto simp: begun_state_def empty_state_def)
  have go: "always_raises (stuck e raw q w0) (case map_of (ns_records s) ?i of
      Some r \<Rightarrow> continue_record e doubtful ?i r g
    | None \<Rightarrow> begin_record e q (qe_digest (ne_queue e) raw) ?key g) (stuck e raw q w0)"
  proof (cases "s = empty_state")
    case True
    then show ?thesis using begin_raises[OF ok assms(2), of g raw w0] assms(4) by (simp add: empty_state_def)
  next
    case False
    then have s: "s = begun_state e raw q" using assms(5) by simp
    then have "map_of (ns_records s) ?i = Some (begun_record e raw q)" by (simp add: begun_state_def)
    moreover have "\<not> terminal (begun_record e raw q)" by (simp add: terminal_def begun(3))
    ultimately show ?thesis
      using assms(4,6) s by (simp add: continue_record_def raises_first transition_raises[OF ok assms(2)])
  qed
  show ?thesis
    unfolding consume_request_def Let_def assms(4)
    apply (rule raises_gets[where a = None], rule none(1), assumption)
    apply (simp only: same option.case simp_thms if_False)
    apply (rule raises_gets[where a = False], simp only: none(2) simp_thms)
    apply (simp only: assms(3) simp_thms if_False)
    apply (rule raises_reads[where a = True], rule genuine, assumption)
    by (simp only: simp_thms same if_False) (rule go)
qed

lemma whole_part_starts: "raw \<noteq> [] \<Longrightarrow> last raw = CHR 0x0A \<Longrightarrow> \<exists>t. whole_part (raw @ rest) = raw @ t"
proof (cases "list_all (\<lambda>c. c \<noteq> CHR 0x0A) (rev rest)")
  case True
  assume raw: "raw \<noteq> []" "last raw = CHR 0x0A"
  have "dropWhile (\<lambda>c. c \<noteq> CHR 0x0A) (rev raw) = rev raw"
    using raw by (cases raw rule: rev_cases) auto
  then have "whole_part (raw @ rest) = (if rest \<noteq> [] \<and> last rest = CHR 0x0A then raw @ rest else raw)"
    using True raw by (auto simp: whole_part_def list_all_iff dropWhile_append last_append)
  then show ?thesis by (metis append_Nil2)
next
  case False
  then have "dropWhile (\<lambda>c. c \<noteq> CHR 0x0A) (rev rest @ rev raw) = dropWhile (\<lambda>c. c \<noteq> CHR 0x0A) (rev rest) @ rev raw"
    by (auto simp: list_all_iff dropWhile_append)
  then show ?thesis by (auto simp: whole_part_def)
qed

lemma first_line:
  assumes "first_in_queue e raw q w0" and "stuck e raw q w0 w" and "snapshot_lines w = Some lines"
  shows "\<exists>others. lines = raw # others"
proof -
  obtain rest where "nw_pending w = Pending_bytes (raw @ rest)"
    using assms(1,2) by (auto simp: first_in_queue_def stuck_def)
  moreover obtain t where "whole_part (raw @ rest) = raw @ t"
    using whole_part_starts[of raw rest] assms(1) by (auto simp: first_in_queue_def)
  moreover have "raw_lines [] (raw @ t) = raw # raw_lines [] t"
    using raw_lines_append[of raw "[]" t] assms(1) by (simp add: first_in_queue_def)
  moreover have "lines = raw_lines [] (whole_part (raw @ rest))"
    using assms(3) calculation(1) by (auto simp: snapshot_lines_def split: if_splits)
  ultimately show ?thesis by metis
qed

text \<open>So a tick acknowledges nothing and posts nothing.\<close>

lemma consume_from_stuck:
  assumes "first_in_queue e raw q w0" and "card_unreadable e (rq_ticket q)" and "rq_ticket q \<in> set allowed"
    and "walks_sets e" and "s \<in> {empty_state, begun_state e raw q}"
    and "stuck e raw q w0 w" and "consume_from e allowed s w = (r, w')"
  shows "stuck e raw q w0 w'"
proof -
  have ok: "request_ok (ne_queue e) q" using assms(1) parsed_ok by (auto simp: first_in_queue_def)
  have "unresolved_ids s = []"
    using assms(5) begun_facts(4)[OF ok] by (auto simp: unresolved_ids_def empty_state_def begun_state_def)
  moreover have "ne_order e [] = []" using assms(4) by (simp add: walks_sets_def flip: set_empty)
  ultimately have unresolved: "unresolved_ids s = []" "ne_order e [] = []" .
  show ?thesis
  proof (cases "snapshot_lines w")
    case None
    then show ?thesis using assms(6,7)
      by (simp add: consume_from_def reconcile_start_records_def unresolved getsM_def bindM_def ret_def)
  next
    case (Some lines)
    obtain others where lines: "lines = raw # others" using first_line[OF assms(1,6) Some] by blast
    have parse: "parse_line (ne_queue e) raw = Some q" using assms(1) by (simp add: first_in_queue_def)
    let ?ids = "map rq_request_id (List.map_filter (parse_line (ne_queue e)) lines)"
    have "rq_request_id q \<in> set ?ids" using parse by (simp add: lines List.map_filter_def)
    then have resume: "resume_records e MAX_PROCESSED ?ids [] (ns_records s) s 0 0 w = (Inr (s, 0, 0), w)"
      using assms(5) by (auto simp: empty_state_def begun_state_def ret_def)
    let ?g = "\<lparr>pg_state = s, pg_completed = 0, pg_processed = 0\<rparr>"
    have line: "consume_line e allowed [] raw ?g = consume_request e allowed [] (qe_digest (ne_queue e) raw) q ?g"
      using assms(1) parse by (simp add: consume_line_def first_in_queue_def)
    have "always_raises (stuck e raw q w0) (consume_request e allowed [] (qe_digest (ne_queue e) raw) q ?g) (stuck e raw q w0)"
      by (rule request_raises[OF assms(1-3) _ assms(5)]) simp_all
    then have "always_raises (stuck e raw q w0) (consume_lines e allowed [] lines ?g) (stuck e raw q w0)"
      by (simp add: lines MAX_PROCESSED_def line raises_first)
    then obtain x v where "consume_lines e allowed [] lines ?g w = (Inl x, v)" "stuck e raw q w0 v"
      using assms(6) by (cases "consume_lines e allowed [] lines ?g w", cases "fst (consume_lines e allowed [] lines ?g w)")
        (auto simp: hoare_def)
    then show ?thesis using assms(7) Some resume
      by (simp add: consume_from_def reconcile_start_records_def unresolved getsM_def bindM_def ret_def)
  qed
qed

lemma begun_state_reloads:
  assumes "request_ok (ne_queue e) q" and "nw_state w \<in> {None, Some (Inr (state_json (begun_state e raw q)))}"
  shows "\<exists>s \<in> {empty_state, begun_state e raw q}. load_consumer_state e w = (Inr s, w)"
proof -
  have "in_key_order (begun_state e raw q) = begun_state e raw q" by (simp add: in_key_order_def begun_state_def)
  then have "state_of_json (ne_js e) (state_json (begun_state e raw q)) = Inr (begun_state e raw q)"
    using state_back[OF begun_facts(8)[OF assms(1)], of "ne_js e" raw] by simp
  then show ?thesis using assms(2) by (auto simp: load_consumer_state_def)
qed

lemma tick_stuck:
  assumes "first_in_queue e raw q w" and "card_unreadable e (rq_ticket q)" and "walks_sets e"
    and "nw_state w \<in> {None, Some (Inr (state_json (begun_state e raw q)))}"
  shows "stuck e raw q w (snd (consume_once e w))"
proof (cases "nw_lockable w")
  case False
  then show ?thesis using assms(1,4) by (simp add: consume_once_def stuck_def first_in_queue_def)
next
  case True
  have ok: "request_ok (ne_queue e) q" using assms(1) parsed_ok by (auto simp: first_in_queue_def)
  obtain allowed where allowed: "fst (load_ticket_allowlist w) = Inr allowed" "rq_ticket q \<in> set allowed"
    using assms(1) by (auto simp: first_in_queue_def)
  let ?v = "w\<lparr>nw_capabilities := snd (reconcile_capabilities (ne_capability e) (nw_registry w) 200 (nw_capabilities w))\<rparr>"
  have refresh: "refresh_capabilities e w = (Inr (), ?v)" by (simp add: refresh_capabilities_def split: prod.splits)
  have list: "load_ticket_allowlist ?v = (Inr allowed, ?v)" using allowed(1) by (simp add: load_ticket_allowlist_def)
  obtain s where s: "s \<in> {empty_state, begun_state e raw q}" and load: "load_consumer_state e ?v = (Inr s, ?v)"
    using begun_state_reloads[OF ok, of ?v raw] assms(4) by auto
  have start: "stuck e raw q w (fresh_budgets ?v)"
    using assms(1,4) key_stays_readable by (simp add: stuck_def fresh_budgets_def first_in_queue_def)
  obtain r w' where run: "consume_from e allowed s (fresh_budgets ?v) = (r, w')" by fastforce
  have "consume_locked e w = (r, w')"
    using run by (simp add: consume_locked_from bindM_def refresh load list modifyM_def)
  then have "snd (consume_once e w) = w'" using True by (cases r) (simp_all add: consume_once_def tryM_def ret_def)
  then show ?thesis using consume_from_stuck[OF assms(1,2) allowed(2) assms(3) s start run] by simp
qed

text \<open>Between ticks requests are appended to the queue, and nothing touches what the consumer keeps.\<close>

definition queue_appended :: "('x consumer_world \<Rightarrow> 'x consumer_world) \<Rightarrow> bool" where
  "queue_appended f \<longleftrightarrow> (\<forall>w. nw_state (f w) = nw_state w \<and> nw_ack (f w) = nw_ack w \<and> nw_posts (f w) = nw_posts w \<and>
     nw_registry (f w) = nw_registry w \<and> cw_key_error (nw_capabilities (f w)) = cw_key_error (nw_capabilities w) \<and>
     (\<forall>s. nw_pending w = Pending_bytes s \<longrightarrow> (\<exists>t. nw_pending (f w) = Pending_bytes (s @ t))))"

lemma grown_first:
  assumes "first_in_queue e raw q w" and "queue_appended f" shows "first_in_queue e raw q (f w)"
proof -
  have f: "nw_ack (f w) = nw_ack w" "nw_registry (f w) = nw_registry w"
    "cw_key_error (nw_capabilities (f w)) = cw_key_error (nw_capabilities w)"
    "\<forall>s. nw_pending w = Pending_bytes s \<longrightarrow> (\<exists>t. nw_pending (f w) = Pending_bytes (s @ t))"
    using assms(2) unfolding queue_appended_def by blast+
  have "load_ticket_allowlist (f w) = (fst (load_ticket_allowlist w), f w)" by (simp add: load_ticket_allowlist_def f(2))
  then show ?thesis using assms(1) f(4) unfolding first_in_queue_def by (auto simp: f(1,3))
qed

lemma stuck_first: "first_in_queue e raw q w \<Longrightarrow> stuck e raw q w v \<Longrightarrow> first_in_queue e raw q v"
  by (simp add: first_in_queue_def stuck_def load_ticket_allowlist_def)

lemma ticks_stuck:
  assumes "card_unreadable e (rq_ticket q)" and "walks_sets e"
  shows "first_in_queue e raw q w \<Longrightarrow> nw_state w \<in> {None, Some (Inr (state_json (begun_state e raw q)))} \<Longrightarrow>
    (\<And>f. f \<in> set fs \<Longrightarrow> queue_appended f) \<Longrightarrow>
    nw_ack (run_ticks e fs w) = nw_ack w \<and> nw_posts (run_ticks e fs w) = nw_posts w"
proof (induction fs arbitrary: w)
  case (Cons f fs)
  have grows: "queue_appended f" by (rule Cons.prems(3)) simp
  then have f: "nw_state (f w) = nw_state w" "nw_ack (f w) = nw_ack w" "nw_posts (f w) = nw_posts w"
    unfolding queue_appended_def by blast+
  have first: "first_in_queue e raw q (f w)" by (rule grown_first[OF Cons.prems(1) grows])
  let ?v = "snd (consume_once e (f w))"
  have v: "stuck e raw q (f w) ?v" using tick_stuck[OF first assms] Cons.prems(2) f(1) by simp
  have "nw_ack (run_ticks e fs ?v) = nw_ack ?v \<and> nw_posts (run_ticks e fs ?v) = nw_posts ?v"
  proof (rule Cons.IH)
    show "first_in_queue e raw q ?v" by (rule stuck_first[OF first v])
    show "nw_state ?v \<in> {None, Some (Inr (state_json (begun_state e raw q)))}" using v by (simp add: stuck_def)
  qed (simp add: Cons.prems(3))
  then show ?case using v f by (simp add: stuck_def)
qed simp


section \<open>A search that runs out of pages\<close>

lemma before_found: "CHR ''b'' \<notin> set a \<Longrightarrow> after_first ''before='' (a @ ''before='' @ b) = b"
proof (induction a)
  case (Cons c a)
  then show ?case by simp
qed simp

lemma page_is_counted [simp]: "py_in ''/messages'' (channel_path channel @ ''?before='' @ c @ ''&limit=100'')"
proof -
  have "py_in ''/messages'' (a @ ''/messages'' @ b)" for a b by (induction a) simp_all
  from this[of "''/channels/'' @ channel"] show ?thesis by (simp add: channel_path_def)
qed

lemma page_cursor:
  assumes "py_isdecimal channel" and "py_isdecimal c"
  shows "path_cursor (channel_path channel @ ''?before='' @ c @ ''&limit=100'') = c"
proof -
  have digits: "b \<noteq> CHR ''b''" "b \<noteq> CHR ''&''" if "dec_char b" for b using that by (auto simp: dec_char_def)
  have "CHR ''b'' \<notin> set (channel_path channel @ ''?'')"
    using assms(1) digits(1) by (auto simp: channel_path_def py_isdecimal_def list_all_iff)
  from before_found[OF this, of "c @ ''&limit=100''"]
  have found: "after_first ''before='' (channel_path channel @ ''?before='' @ c @ ''&limit=100'') = c @ ''&limit=100''" by simp
  have "takeWhile (\<lambda>c. c \<noteq> CHR ''&'') (c @ ''&limit=100'') = c"
    using assms(2) digits(2) by (auto simp: takeWhile_append py_isdecimal_def list_all_iff)
  moreover have "py_in ''before='' (a @ ''before='' @ b)" for a b by (induction a) simp_all
  from this[of "channel_path channel @ ''?''" "c @ ''&limit=100''"]
  have "py_in ''before='' (channel_path channel @ ''?before='' @ c @ ''&limit=100'')" by simp
  ultimately show "path_cursor (channel_path channel @ ''?before='' @ c @ ''&limit=100'') = c"
    by (simp only: path_cursor_def found if_True)
qed

lemma least_id_in: "least_id best is \<in> set (best # is)"
  by (induction best "is" rule: least_id.induct) auto

lemma all_objects_map: "all_objects (map JObj ms) = Some ms"
  by (induction ms) simp_all

text \<open>
  The channel holds one page of messages at or below \<open>high\<close>, its oldest one \<open>oldest\<close>, and nothing older.
\<close>

definition one_page ::
  "'x consumer_env \<Rightarrow> string \<Rightarrow> string \<Rightarrow> int \<Rightarrow> jobj list \<Rightarrow> string \<Rightarrow> bool" where
  "one_page e agent channel high page oldest \<longleftrightarrow>
     serves (ne_config e) (\<lambda>p. p = JObj [(''agent_id'', JStr agent), (''agents_log_channel_id'', JStr channel)]) \<and>
     agent \<noteq> [] \<and> serves (ne_notice_channel e) (\<lambda>n. n = None) \<and> py_isdecimal channel \<and>
     serves (ne_fetch e (channel_path channel @ ''?before='' @ str_int (high + 1) @ ''&limit=100'')) (\<lambda>v. v = JArr (map JObj page)) \<and>
     serves (ne_fetch e (channel_path channel @ ''?before='' @ oldest @ ''&limit=100'')) (\<lambda>v. v = JArr []) \<and>
     serves (ne_fetch e ''/users/@me'') (\<lambda>v. \<exists>d i. v = JObj d \<and> decimal_id (jget d ''id'') = Inr i) \<and>
     page \<noteq> [] \<and> list_all (\<lambda>m. py_isdecimal (message_id_text (ne_js e) m)) page \<and>
     oldest = least_id (message_id_text (ne_js e) (hd page)) (map (message_id_text (ne_js e)) (tl page))"

text \<open>A record whose search has begun: the window is \<open>(low, high]\<close>.\<close>

definition searching :: "'x consumer_env \<Rightarrow> consumer_record \<Rightarrow> int \<Rightarrow> int \<Rightarrow> string \<Rightarrow> bool" where
  "searching e r low high oldest \<longleftrightarrow> nr_report r = ''in_flight'' \<and> nr_report_attempts r \<le> MAX_PHASE_ATTEMPTS \<and>
     nr_operation r \<in> {''complete'', ''reopen''} \<and> nr_high r \<noteq> [] \<and> nr_cursor r = [] \<and>
     js_int (ne_js e) (nr_high r) = Inr high \<and> js_int (ne_js e) (nr_watermark r) = Inr low \<and>
     js_int (ne_js e) oldest = Inr (dec_value oldest) \<and> 0 \<le> low \<and> low < dec_value oldest \<and> dec_value oldest \<le> high"

lemma config_served:
  assumes "one_page e agent channel high page oldest"
  shows "\<exists>x'. load_report_config (send_ports_of e) w = (Inr (agent, channel), w\<lparr>nw_net := x'\<rparr>)"
proof -
  obtain x' where "ne_config e (nw_net w) =
      (Inr (JObj [(''agent_id'', JStr agent), (''agents_log_channel_id'', JStr channel)]), x')"
    using assms unfolding one_page_def serves_def by blast
  moreover obtain y' where "ne_notice_channel e x' = (Inr None, y')"
    using assms unfolding one_page_def serves_def by blast
  moreover have "agent \<noteq> []" "channel \<noteq> []" using assms by (auto simp: one_page_def py_isdecimal_def)
  ultimately show ?thesis
    by (auto simp: load_report_config_def bindM_def on_net_def config_field_def jget_def lift_sum_def ret_def)
qed

lemma served_fetch:
  assumes "serves (ne_fetch e path) Q" and "map_of (nw_cache w) path = None" and "py_in ''/messages'' path \<Longrightarrow> nw_get_left w > 0"
  shows "\<exists>v w'. budget_fetch e path w = (Inr v, w') \<and> Q v \<and> nw_cache w' = dict_set path v (nw_cache w) \<and>
    nw_get_left w' = nw_get_left w - (if py_in ''/messages'' path then 1 else 0) \<and> nw_bot_id w' = nw_bot_id w"
proof -
  obtain v x' where "ne_fetch e path (nw_net w) = (Inr v, x')" "Q v" using assms(1) unfolding serves_def by blast
  then show ?thesis using assms(2,3)
    by (auto simp: budget_fetch_def on_net_def bindM_def modifyM_def ret_def Let_def)
qed

lemma oldest_decimal:
  assumes "one_page e agent channel high page oldest"
  shows "py_isdecimal oldest"
proof -
  obtain m ms where page: "page = m # ms" using assms by (cases page) (auto simp: one_page_def)
  have "oldest \<in> set (map (message_id_text (ne_js e)) page)"
    using assms least_id_in[of "message_id_text (ne_js e) m" "map (message_id_text (ne_js e)) ms"]
    by (simp add: one_page_def page)
  then show ?thesis using assms by (auto simp: one_page_def list_all_iff)
qed

text \<open>The first page is read; whether the search goes on depends on the budget.\<close>

lemma first_page:
  assumes "one_page e agent channel high page oldest" and "0 \<le> low" and "low < dec_value oldest" and "dec_value oldest \<le> high"
    and "nw_cache w = []" and "0 < nw_get_left w"
  obtains w1 where "map_of (nw_cache w1) (channel_path channel @ ''?before='' @ oldest @ ''&limit=100'') = None"
    and "nw_get_left w1 = nw_get_left w - 1" and "nw_bot_id w1 = nw_bot_id w"
    and "\<forall>n c. window_pages (Suc n) (send_ports_of e) high low channel c (str_int (high + 1)) [] w =
       window_pages n (send_ports_of e) high low channel oldest oldest
         (filter (\<lambda>m. low < dec_value (message_id_text (ne_js e) m) \<and> dec_value (message_id_text (ne_js e) m) \<le> high) page) w1"
proof -
  let ?path = "\<lambda>b. channel_path channel @ ''?before='' @ b @ ''&limit=100''"
  have "dec_value (str_int (high + 1)) = high + 1"
    using assms(2-4) str_nat_value[of "nat (high + 1)"] by (simp add: str_int_def)
  then have other: "?path oldest \<noteq> ?path (str_int (high + 1))" using assms(4) by auto
  have "serves (ne_fetch e (?path (str_int (high + 1)))) (\<lambda>v. v = JArr (map JObj page))"
    using assms(1) unfolding one_page_def by blast
  then obtain w1 where first: "budget_fetch e (?path (str_int (high + 1))) w = (Inr (JArr (map JObj page)), w1)"
    and w1: "nw_cache w1 = [(?path (str_int (high + 1)), JArr (map JObj page))]" "nw_get_left w1 = nw_get_left w - 1"
      "nw_bot_id w1 = nw_bot_id w"
    using served_fetch[of e "?path (str_int (high + 1))" "\<lambda>v. v = JArr (map JObj page)" w] assms(5,6)
    by (auto simp del: append.simps)
  have ids: "list_all py_isdecimal (map (message_id_text (ne_js e)) page)" "page \<noteq> []"
    "least_id (hd (map (message_id_text (ne_js e)) page)) (tl (map (message_id_text (ne_js e)) page)) = oldest"
    using assms(1) by (simp_all add: one_page_def list_all_iff hd_map map_tl)
  show ?thesis
  proof (rule that)
    show "map_of (nw_cache w1) (?path oldest) = None" using other unfolding w1 by (simp del: append.simps)
    show "\<forall>n c. window_pages (Suc n) (send_ports_of e) high low channel c (str_int (high + 1)) [] w =
       window_pages n (send_ports_of e) high low channel oldest oldest
         (filter (\<lambda>m. low < dec_value (message_id_text (ne_js e) m) \<and> dec_value (message_id_text (ne_js e) m) \<le> high) page) w1"
      apply (intro allI)
      apply (subst window_pages.simps(2))
      using assms(3) by (simp add: bindM_def first page_messages_def all_objects_map lift_sum_def ret_def ids Let_def append_Nil
        del: append.simps(2) window_pages.simps)
  qed (use w1 in simp_all)
qed

lemma pages_run_out:
  assumes "one_page e agent channel high page oldest" and "0 \<le> low" and "low < dec_value oldest" and "dec_value oldest \<le> high"
    and "nw_cache w = []" and "nw_get_left w = 1"
  shows "\<exists>w'. window_pages (Suc (Suc n)) (send_ports_of e) high low channel c (str_int (high + 1)) [] w =
    (Inl (GetBudgetExhausted oldest), w')"
proof -
  have digits: "py_isdecimal channel" "py_isdecimal oldest"
    using assms(1) oldest_decimal[OF assms(1)] by (simp_all add: one_page_def)
  have "0 < nw_get_left w" using assms(6) by simp
  with assms(1-5) obtain w1
    where w1: "map_of (nw_cache w1) (channel_path channel @ ''?before='' @ oldest @ ''&limit=100'') = None"
      "nw_get_left w1 = nw_get_left w - 1"
    and go: "\<forall>n c. window_pages (Suc n) (send_ports_of e) high low channel c (str_int (high + 1)) [] w =
       window_pages n (send_ports_of e) high low channel oldest oldest
         (filter (\<lambda>m. low < dec_value (message_id_text (ne_js e) m) \<and> dec_value (message_id_text (ne_js e) m) \<le> high) page) w1"
    by (rule first_page)
  have "budget_fetch e (channel_path channel @ ''?before='' @ oldest @ ''&limit=100'') w1 = (Inl (GetBudgetExhausted oldest), w1)"
    using w1 assms(6) unfolding budget_fetch_def page_cursor[OF digits] by (simp del: append.simps)
  then show ?thesis by (subst go[rule_format]) (simp add: bindM_def del: append.simps)
qed

text \<open>With a second page in the budget the search ends, with the messages of the window.\<close>

lemma pages_end:
  assumes "one_page e agent channel high page oldest" and "0 \<le> low" and "low < dec_value oldest" and "dec_value oldest \<le> high"
    and "nw_cache w = []" and "2 \<le> nw_get_left w"
    and "list_all (\<lambda>m. low < dec_value (message_id_text (ne_js e) m) \<and> dec_value (message_id_text (ne_js e) m) \<le> high) page"
  shows "\<exists>w'. window_pages (Suc (Suc n)) (send_ports_of e) high low channel c (str_int (high + 1)) [] w =
    (Inr (page, oldest, True), w') \<and> nw_bot_id w' = nw_bot_id w"
proof -
  let ?path = "channel_path channel @ ''?before='' @ oldest @ ''&limit=100''"
  have pos: "0 < nw_get_left w" using assms(6) by simp
  obtain w1 where w1: "map_of (nw_cache w1) ?path = None" "nw_get_left w1 = nw_get_left w - 1" "nw_bot_id w1 = nw_bot_id w"
    and go: "\<forall>n c. window_pages (Suc n) (send_ports_of e) high low channel c (str_int (high + 1)) [] w =
       window_pages n (send_ports_of e) high low channel oldest oldest
         (filter (\<lambda>m. low < dec_value (message_id_text (ne_js e) m) \<and> dec_value (message_id_text (ne_js e) m) \<le> high) page) w1"
    using assms(1-5) pos by (rule first_page)
  have whole: "filter (\<lambda>m. low < dec_value (message_id_text (ne_js e) m) \<and> dec_value (message_id_text (ne_js e) m) \<le> high) page = page"
    using assms(7) by (simp add: filter_id_conv list_all_iff)
  have "serves (ne_fetch e ?path) (\<lambda>v. v = JArr [])" using assms(1) unfolding one_page_def by blast
  then obtain w2 where "budget_fetch e ?path w1 = (Inr (JArr []), w2)" "nw_bot_id w2 = nw_bot_id w1"
    using served_fetch[of e ?path "\<lambda>v. v = JArr []" w1] w1(1,2) assms(6) by (auto simp del: append.simps)
  then show ?thesis
    using w1(3) by (subst go[rule_format]) (simp add: whole bindM_def page_messages_def lift_sum_def ret_def del: append.simps)
qed

lemma search_continues:
  assumes "one_page e agent channel high page oldest" and "nw_cache w = []" and "0 < nw_get_left w"
  shows "\<exists>w'. window_pages (Suc n) (send_ports_of e) high low channel oldest oldest [] w = (Inr ([], oldest, True), w') \<and>
    map fst (nw_cache w') = [channel_path channel @ ''?before='' @ oldest @ ''&limit=100'']"
proof -
  let ?path = "channel_path channel @ ''?before='' @ oldest @ ''&limit=100''"
  have "serves (ne_fetch e ?path) (\<lambda>v. v = JArr [])" using assms(1) unfolding one_page_def by blast
  then obtain w' where "budget_fetch e ?path w = (Inr (JArr []), w')" "map fst (nw_cache w') = [?path]"
    using served_fetch[of e ?path "\<lambda>v. v = JArr []" w] assms(2,3) by (auto simp del: append.simps)
  then show ?thesis
    by (simp add: bindM_def page_messages_def lift_sum_def ret_def del: append.simps)
qed

lemma bot_id_served:
  assumes "one_page e agent channel high page oldest" and "map fst (nw_cache w) = [channel_path channel @ t]"
  shows "\<exists>i w'. bot_user_id (send_ports_of e) w = (Inr i, w')"
proof (cases "nw_bot_id w")
  case None
  have new: "map_of (nw_cache w) ''/users/@me'' = None"
    using assms(2) by (auto simp: channel_path_def map_of_eq_None_iff simp flip: set_map)
  have "serves (ne_fetch e ''/users/@me'') (\<lambda>v. \<exists>d i. v = JObj d \<and> decimal_id (jget d ''id'') = Inr i)"
    using assms(1) unfolding one_page_def by blast
  from served_fetch[OF this new]
  obtain d i w' where "budget_fetch e ''/users/@me'' w = (Inr (JObj d), w')" "decimal_id (jget d ''id'') = Inr i"
    by (auto simp: ret_def)
  then show ?thesis using None by (simp add: bot_user_id_def bindM_def lift_sum_def ret_def modifyM_def)
qed (simp add: bot_user_id_def)

lemma find_runs_out:
  assumes "one_page e agent channel high page oldest" and "searching e r low high oldest"
    and "nw_cache w = []" and "nw_get_left w = 1"
  shows "\<exists>w'. find_report (send_ports_of e) ticket status stamp (nr_high r) (nr_watermark r) None w =
    (Inl (GetBudgetExhausted oldest), w')"
proof -
  obtain x' where config: "load_report_config (send_ports_of e) w = (Inr (agent, channel), w\<lparr>nw_net := x'\<rparr>)"
    using config_served[OF assms(1)] by blast
  have bounds: "0 \<le> low" "low < dec_value oldest" "dec_value oldest \<le> high" using assms(2) by (simp_all add: searching_def)
  have "nw_cache (w\<lparr>nw_net := x'\<rparr>) = []" "nw_get_left (w\<lparr>nw_net := x'\<rparr>) = 1" using assms(3,4) by simp_all
  from pages_run_out[OF assms(1) bounds this, of 48 "nr_high r"]
  obtain w' where "window_pages MAX_PAGES (send_ports_of e) high low channel (nr_high r) (str_int (high + 1)) [] (w\<lparr>nw_net := x'\<rparr>) =
      (Inl (GetBudgetExhausted oldest), w')" by (auto simp: MAX_PAGES_def)
  moreover have "js_int (ne_js e) (nr_high r) = Inr high" "js_int (ne_js e) (nr_watermark r) = Inr low" "low < high"
    using assms(2) by (simp_all add: searching_def)
  ultimately show ?thesis
    by (simp add: find_report_def iter_window_def bindM_def lift_sum_def ret_def config)
qed

lemma find_misses:
  assumes "one_page e agent channel high page oldest" and "searching e r low high oldest"
    and "nw_cache w = []" and "0 < nw_get_left w"
  shows "\<exists>w'. find_report (send_ports_of e) ticket status stamp (nr_high r) (nr_watermark r) (Some oldest) w =
    (Inr (False, oldest, True), w')"
proof -
  obtain x' where config: "load_report_config (send_ports_of e) w = (Inr (agent, channel), w\<lparr>nw_net := x'\<rparr>)"
    using config_served[OF assms(1)] by blast
  have "nw_cache (w\<lparr>nw_net := x'\<rparr>) = []" "0 < nw_get_left (w\<lparr>nw_net := x'\<rparr>)" using assms(3,4) by simp_all
  from search_continues[OF assms(1) this, where n = 49 and low = low]
  obtain w1 where pages: "window_pages MAX_PAGES (send_ports_of e) high low channel oldest oldest [] (w\<lparr>nw_net := x'\<rparr>) =
      (Inr ([], oldest, True), w1)" and cache: "map fst (nw_cache w1) = [channel_path channel @ ''?before='' @ oldest @ ''&limit=100'']"
    by (auto simp: MAX_PAGES_def)
  obtain x1 where config1: "load_report_config (send_ports_of e) w1 = (Inr (agent, channel), w1\<lparr>nw_net := x1\<rparr>)"
    using config_served[OF assms(1)] by blast
  obtain author w2 where bot: "bot_user_id (send_ports_of e) (w1\<lparr>nw_net := x1\<rparr>) = (Inr author, w2)"
    using bot_id_served[OF assms(1), of "w1\<lparr>nw_net := x1\<rparr>"] cache by auto
  have "js_int (ne_js e) (nr_high r) = Inr high" "js_int (ne_js e) (nr_watermark r) = Inr low" "low < high"
    "js_int (ne_js e) oldest = Inr (dec_value oldest)" "low < dec_value oldest"
    using assms(2) by (simp_all add: searching_def)
  then show ?thesis
    by (simp add: find_report_def iter_window_def bindM_def lift_sum_def ret_def config pages config1 bot)
qed

lemma find_succeeds:
  assumes "one_page e agent channel high page oldest" and "searching e r low high oldest"
    and "nw_cache w = []" and "2 \<le> nw_get_left w" and "nw_bot_id w = Some author"
    and "list_all (\<lambda>m. low < dec_value (message_id_text (ne_js e) m) \<and> dec_value (message_id_text (ne_js e) m) \<le> high) page"
    and "any_message (report_matches (ne_js e) author agent ticket status (Some stamp)) page = Inr True"
  shows "\<exists>w'. find_report (send_ports_of e) ticket status stamp (nr_high r) (nr_watermark r) None w =
    (Inr (True, oldest, True), w')"
proof -
  obtain x' where config: "load_report_config (send_ports_of e) w = (Inr (agent, channel), w\<lparr>nw_net := x'\<rparr>)"
    using config_served[OF assms(1)] by blast
  have bounds: "0 \<le> low" "low < dec_value oldest" "dec_value oldest \<le> high" using assms(2) by (simp_all add: searching_def)
  have "nw_cache (w\<lparr>nw_net := x'\<rparr>) = []" "2 \<le> nw_get_left (w\<lparr>nw_net := x'\<rparr>)" using assms(3,4) by simp_all
  from pages_end[OF assms(1) bounds this assms(6), of 48 "nr_high r"]
  obtain w1 where pages: "window_pages MAX_PAGES (send_ports_of e) high low channel (nr_high r) (str_int (high + 1)) [] (w\<lparr>nw_net := x'\<rparr>) =
      (Inr (page, oldest, True), w1)" and bot: "nw_bot_id w1 = Some author" using assms(5) by (auto simp: MAX_PAGES_def)
  obtain x1 where config1: "load_report_config (send_ports_of e) w1 = (Inr (agent, channel), w1\<lparr>nw_net := x1\<rparr>)"
    using config_served[OF assms(1)] by blast
  have "js_int (ne_js e) (nr_high r) = Inr high" "js_int (ne_js e) (nr_watermark r) = Inr low" "low < high"
    using assms(2) by (simp_all add: searching_def)
  then show ?thesis
    by (simp add: find_report_def iter_window_def bindM_def lift_sum_def ret_def config pages config1 bot bot_user_id_def assms(7))
qed

lemma writes_return:
  assumes "\<And>n. ne_write e n = Replaced"
  shows "\<exists>t w'. utc_text e w = (Inr t, w')" and "\<exists>w'. store_record e s i r w = (Inr (with_record s i r), w')"
  by (auto simp: utc_text_def utc_now_def on_net_def bindM_def ret_def store_record_def save_consumer_state_def write_state_def
      assms Let_def split: prod.splits)

text \<open>What \<open>reconcile_record\<close> does with the three answers.\<close>

lemma reconcile_searches:
  assumes "record_at s i = Inr r" and "searching e r' low high oldest" and "r = r'\<lparr>nr_cursor := c\<rparr>" and "0 < nw_get_left w"
  shows "reconcile_record e s i w = (case find_report (send_ports_of e) (nr_ticket r) (the (report_status_for (nr_operation r)))
    (nr_report_timestamp r) (nr_high r) (nr_watermark r) (if c = [] then None else Some c) w of
    (found, w') \<Rightarrow> after_search e i s r found w')"
proof -
  have "nr_report_attempts r \<le> MAX_PHASE_ATTEMPTS" "nr_high r \<noteq> []" "nr_cursor r = c"
    "report_status_for (nr_operation r) \<noteq> None"
    using assms(2,3) by (auto simp: searching_def report_status_for_def)
  then show ?thesis
    using assms(4)
    by (auto simp: reconcile_record_def assms(1) bindM_def getsM_def search_report_def fix_high_def ret_def attemptM_def lift_sum_def
        split: prod.splits)
qed


section \<open>Sample worlds\<close>


text \<open>A channel whose only message in the window is the report.\<close>

definition sample_message :: jobj where
  "sample_message = [(''id'', JStr ''5''), (''author'', JObj [(''id'', JStr ''9'')]),
     (''content'', JStr (fence @ ''json'' @ newline # ''{}'' @ newline # fence))]"

definition sample_window_env :: "unit consumer_env" where
  "sample_window_env = sample_consumer_env\<lparr>
     ne_js := sample_json\<lparr>js_int := (\<lambda>s. Inr (dec_value s)), js_fromisoformat := (\<lambda>_. Inr (Aware 0 0)), js_isoformat := (\<lambda>_. ''T''),
       js_loads := (\<lambda>_. Inr (JObj [(''version'', JStr ''v0''), (''agent_id'', JStr ''a''), (''task_id'', JStr ''t_a''),
         (''status'', JStr ''done''), (''summary'', JStr ''s''), (''links'', JArr []), (''timestamp'', JStr ''T'')]))\<rparr>,
     ne_fetch := (\<lambda>path. if path = ''/channels/1/messages?before=8&limit=100'' then ret (JArr [JObj sample_message])
        else if path = ''/users/@me'' then ret (JObj [(''id'', JStr ''9'')]) else ret (JArr []))\<rparr>"

definition sample_searched :: consumer_record where
  "sample_searched = (begun_record sample_consumer_env [CHR 0x0A] sample_report)
     \<lparr>nr_transition := ''done'', nr_report := ''in_flight'', nr_report_timestamp := ''T'', nr_watermark := ''3'', nr_high := ''7''\<rparr>"

definition sample_search_state :: consumer_state where
  "sample_search_state = \<lparr>ns_records = [(''i'', sample_searched)], ns_reservations = [], ns_last_timestamp = ''T''\<rparr>"

definition sample_search_world :: "nat \<Rightarrow> unit consumer_world" where
  "sample_search_world pages = sample_consumer_world\<lparr>nw_bot_id := Some ''9'', nw_get_left := pages\<rparr>"

lemma sample_page: "one_page sample_window_env ''a'' ''1'' 7 [sample_message] ''5''"
proof -
  have "channel_path ''1'' @ ''?before='' @ str_int (7 + 1) @ ''&limit=100'' = ''/channels/1/messages?before=8&limit=100''"
    "channel_path ''1'' @ ''?before='' @ ''5'' @ ''&limit=100'' = ''/channels/1/messages?before=5&limit=100''" by code_simp+
  note paths = this
  have "message_id_text js sample_message = ''5''" for js by (simp add: message_id_text_def sample_message_def jget_def)
  moreover have "py_isdecimal ''1''" "py_isdecimal ''5''" "decimal_id (jget [(''id'', JStr ''9'')] ''id'') = Inr ''9''" by code_simp+
  ultimately show ?thesis
    unfolding one_page_def paths
    by (simp add: serves_def sample_window_env_def sample_consumer_env_def ret_def)
qed

lemma sample_searched_fields:
  "nr_ticket sample_searched = ''t_a''" "nr_operation sample_searched = ''complete''" "nr_report sample_searched = ''in_flight''"
  "nr_report_attempts sample_searched = 0" "nr_report_timestamp sample_searched = ''T''" "nr_cursor sample_searched = []"
  "nr_watermark sample_searched = ''3''" "nr_high sample_searched = ''7''"
  by (simp_all add: sample_searched_def begun_record_def new_consumer_record_def sample_report_def stamped_def)

lemma sample_searching: "searching sample_window_env sample_searched 3 7 ''5''"
proof -
  have "dec_value ''3'' = 3" "dec_value ''5'' = 5" "dec_value ''7'' = 7" by code_simp+
  then show ?thesis
    by (simp add: sample_searched_fields searching_def sample_window_env_def MAX_PHASE_ATTEMPTS_def)
qed


end
