(* ===== verification/Spec2Isabelle.thy ===== *)
theory Spec2Isabelle
  imports Lifecycle_Properties Approval_Surface Effect_Execution Approval_Reminder
    Coordination Chunker Approval_Log Owner_Proxy Deploy_Reconcile Skill_Gate Supply_Chain
    Git_Release Update_Trust Repair_Queue Report_Blocking
begin

text \<open>
  \<^bold>\<open>What this development verifies.\<close> The repository runs personal agents whose external effects
  (sending a mail, deploying a skill, saving a document, booking a meeting) need the decision of one
  owner, given as a reaction to a card on Discord. The code verified here is the part that decides
  whether such an effect may happen, at most how often, and what survives a crash in between: the
  approval lifecycle and its clients, the protocol between agents, the machinery that converges
  a node to a signed release, and the loop that repairs its own code. All paths below are under
  \<open>src/automation\<close>.

  \<^bold>\<open>How the parts interact.\<close> A producer asks for an approval through the lifecycle
  (\<open>interop/approval_lifecycle.py\<close>), which holds the key's lease and a posting journal
  (\<open>interop/approval_lease.py\<close>) and works on a \<^emph>\<open>gate\<close>, a protocol with adapters for each
  kind of effect. The channel of a card is decided by \<open>interop/approval_surface.py\<close>. A watcher reads
  the owner's reaction, records it in the approval log (\<open>interop/reaction_approval.py\<close>) where the
  executing tool call is checked (\<open>interop/effect_approval.py\<close>), and starts the effect. Reminders
  (\<open>interop/approval_reminder.py\<close>) point at unanswered cards.

  \<^bold>\<open>Theories.\<close>
  \<^item> \<open>Prelude\<close>: Python text, JSON values, dictionaries, exceptions as the left injection of a sum, the
    state monad \<open>io\<close> over a world, and Hoare triples with an exceptional postcondition. \<open>Py_Datetime\<close>:
    naive and aware datetimes. \<open>Discord_Link\<close>: message links.
  \<^item> \<open>Approval_Lease\<close> (\<open>interop/approval_lease.py\<close>): key encoding, lease, posting and reminder
    journals. \<open>Approval_Lifecycle\<close> (\<open>approval_types.py\<close>, \<open>approval_lifecycle.py\<close>): one definition per
    function. \<open>Lifecycle_Discipline\<close> proves which gate calls a request may make, over a recording
    gate; \<open>Lifecycle_Properties\<close> the verdicts, leases and crash recovery.
  \<^item> \<open>Approval_Surface\<close> (\<open>interop/approval_surface.py\<close>): the policy ledger and channel bindings.
  \<^item> \<open>Record_Contract\<close>: what the lifecycle relies on in a store of cards, as a locale, interpreted by
    \<open>Effect_Store\<close> and \<open>Skill_Gate\<close>.
  \<^item> \<open>Effect_Store\<close> and \<open>Effect_Execution\<close> (\<open>effect_request/\<close>): the request store, its gate, the
    watcher and the execution. The world keeps a counter of started processes for the at-most-once
    theorems.
  \<^item> \<open>Reminder_Config\<close>, \<open>Approval_Reminder\<close>: schedule, claims, links and the batch.
  \<^item> \<open>Approval_Log\<close>: validation against the log and its two writers, tied together by the locale
    \<open>approval_writer\<close>; the Discord client with its retry budget.
  \<^item> \<open>Interop_Protocol\<close>, \<open>Chunker\<close>, \<open>Coordination\<close>, \<open>Owner_Proxy\<close>: envelopes, reports, the reply
    limiter and the pause switch; message splitting; the scheduling negotiation as an inductive step
    relation; the owner's proxy messages and their one-time ledger.
  \<^item> \<open>Deploy_Reconcile\<close> (\<open>deploy_reconcile*.py\<close>): drift between the repository and the running
    release, and the notices about it.
  \<^item> \<open>Skill_Gate\<close> (\<open>skill_gate_*.py\<close>) and \<open>Supply_Chain\<close> (\<open>supply_chain_*.py\<close>): the gate of skill
    deploys and the watcher that resumes approved ones.
  \<^item> \<open>Git_Release\<close> (\<open>git_tag_signature.py\<close>) and \<open>Update_Trust\<close> (\<open>update_trust.py\<close>,
    \<open>update_trust_state.py\<close>): which signed release a node may take over, and the floor it never goes
    below.
  \<^item> \<open>Utf8\<close>: strict UTF-8, with the proof that decoding accepts exactly what encoding produces.
    \<open>Repair_Patch\<close> (\<open>repair/repair_patch_diff.py\<close>, \<open>repair_patch_binding.py\<close>): the summary of a patch
    that the owner approves, against a specification of the patches git renders. \<open>Repair_Loop\<close>
    (\<open>repair_core.py\<close>, \<open>repair_lifecycle.py\<close>, \<open>repair_ops_core.py\<close>, \<open>repair_ops_git.py\<close>,
    \<open>repair_ops_approval.py\<close>): tickets, the run of a repair over recording ports, and what reaches git.
    \<open>Repair_Queue\<close> (\<open>repair_capability.py\<close>, \<open>repair_report_queue.py\<close>,
    \<open>repair_report_reconcile.py\<close>): capabilities, the queue of reports, and the recovery of lost ones.
  \<^item> \<open>Report_Send\<close> (\<open>repair_report_send.py\<close>) and \<open>Report_Consumer\<close> (\<open>repair_report_consumer.py\<close>): how
    a queued report moves its card and is posted, searched for and receipted in bounded ticks.
    \<open>Consumer_Properties\<close> is about every history of ticks, with failing ports and writes, by an
    invariant that each step keeps; \<open>Report_Delivery\<close> about working services, by triples without an
    exceptional outcome; \<open>Report_Blocking\<close> about what goes wrong.

  \<^bold>\<open>What the properties say.\<close> Safety: posting, destroying and executing happen only in the situations
  the rules allow, for every gate and every behaviour of Discord, and at most once where the code
  claims so. Errors: exceptions are branches of the model, and the theorems speak about them.
  Refinement: record stores satisfy the contract of the lifecycle, the approval log validates exactly
  what was recorded. Termination and liveness: negotiations end, chunking returns for every positive
  limit, a crashed request is recovered. Findings, where the code does not do what it says, are listed
  in the manifest and proved where a theorem is possible.

  \<^bold>\<open>Parameters and bounds.\<close> Hashes, HMAC, JSON text, regular-expression tables for Unicode, card
  texts, Discord, git and the file system are parameters (fields of records); what is relied on is a
  named hypothesis of the theorem that needs it. Files are values of the world: absent, unreadable,
  or their content. Python integers are \<open>int\<close>; times are integers (microseconds) or exact rationals,
  so rounding of floats is outside the model; where a float conversion can raise, the raise is
  modelled. No fuel is used except for bounded retries that the code itself bounds: the endless loop around
  a POST gets one pass more than the budget of a tick, which raises before the passes are used up. The
  chunker is a \<open>partial_function\<close> with a proof that it returns.

  \<^bold>\<open>Not modelled.\<close> Presentation (card and notice texts), command-line parsing, process control and
  installation, the patches to the third-party agent runtime, language-model calls and document
  generation (\<open>src/skills\<close>), media processing, and the parts of modelled files the manifest names.
\<close>

end
